(* ===== verification/Prelude.thy ===== *)
theory Prelude
  imports Complex_Main "HOL-Library.Multiset" "HOL-Library.Char_ord" "HOL-Library.List_Lexorder"
    "HOL-Library.Product_Lexorder" "HOL-Library.Code_Target_Numeral"
begin

text \<open>
  Shared automation and vocabulary of the development: the fact collections the component
  theories fill and use, the result type of every fallible operation (\<open>'e + 'a\<close>, the error on
  the left) with its sequencing operator, and the generic lemmas on lists of rows, sorting and
  lexicographic comparison that more than one component needs.
\<close>

named_theorems result_simps \<open>rewriting the sequencing of fallible operations\<close>
named_theorems table_simps \<open>reading a table after a row update or an insertion\<close>
named_theorems inv_intros \<open>preservation of the components' invariants\<close>
named_theorems frame_simps \<open>what an operation leaves unchanged\<close>

subsection \<open>Results of fallible operations\<close>

text \<open>\<open>if err != nil { return err }\<close> after a call: the first error ends the function.\<close>

definition andThen :: "'e + 'a \<Rightarrow> ('a \<Rightarrow> 'e + 'b) \<Rightarrow> 'e + 'b" where
  "andThen r k = (case r of Inl e \<Rightarrow> Inl e | Inr a \<Rightarrow> k a)"

lemma andThen_Inl [simp, result_simps]: "andThen (Inl e) k = Inl e"
  by (simp add: andThen_def)

lemma andThen_Inr [simp, result_simps]: "andThen (Inr a) k = k a"
  by (simp add: andThen_def)

lemma andThen_eq_Inr [result_simps]:
  "andThen r k = Inr b \<longleftrightarrow> (\<exists>a. r = Inr a \<and> k a = Inr b)"
  by (cases r) auto

lemma andThen_eq_Inl [result_simps]:
  "andThen r k = Inl e \<longleftrightarrow> r = Inl e \<or> (\<exists>a. r = Inr a \<and> k a = Inl e)"
  by (cases r) auto

lemma andThen_assoc: "andThen (andThen r f) g = andThen r (\<lambda>a. andThen (f a) g)"
  by (cases r) auto

lemma andThen_cong [fundef_cong]:
  "r = r' \<Longrightarrow> (\<And>a. r' = Inr a \<Longrightarrow> k a = k' a) \<Longrightarrow> andThen r k = andThen r' k'"
  by (cases r') auto

text \<open>The error branch of a guard.\<close>

definition ensure :: "bool \<Rightarrow> 'e \<Rightarrow> 'e + unit" where
  "ensure b e = (if b then Inr () else Inl e)"

lemma ensure_eq_Inr [simp, result_simps]: "ensure b e = Inr u \<longleftrightarrow> b"
  by (simp add: ensure_def)

lemma ensure_eq_Inl [simp, result_simps]: "ensure b e = Inl e' \<longleftrightarrow> \<not> b \<and> e' = e"
  by (auto simp: ensure_def)

lemma andThen_ensure [simp, result_simps]:
  "andThen (ensure b e) k = (if b then k () else Inl e)"
  by (simp add: ensure_def)

text \<open>A loop over a slice whose body may fail and threads a state.\<close>

fun foldE :: "('a \<Rightarrow> 's \<Rightarrow> 'e + 's) \<Rightarrow> 'a list \<Rightarrow> 's \<Rightarrow> 'e + 's" where
  "foldE f [] s = Inr s"
| "foldE f (x # xs) s = andThen (f x s) (foldE f xs)"

lemma foldE_append: "foldE f (xs @ ys) s = andThen (foldE f xs s) (foldE f ys)"
  by (induction xs arbitrary: s) (auto simp: andThen_assoc intro!: andThen_cong)

text \<open>An invariant of the body is an invariant of the loop.\<close>

lemma foldE_invariant:
  assumes "foldE f xs s = Inr t" and "P s"
    and "\<And>x s t. x \<in> set xs \<Longrightarrow> f x s = Inr t \<Longrightarrow> P s \<Longrightarrow> P t"
  shows "P t"
  using assms
proof (induction xs arbitrary: s)
  case Nil
  then show ?case by simp
next
  case (Cons x xs)
  from Cons.prems(1) obtain u where u: "f x s = Inr u" "foldE f xs u = Inr t"
    by (auto simp: andThen_eq_Inr)
  have "P u" using Cons.prems u by auto
  then show ?case using Cons.IH [of u] Cons.prems u by auto
qed

text \<open>A reflexive and transitive relation kept by the body is kept by the loop.\<close>

lemma foldE_relation:
  assumes "foldE f xs s = Inr t"
    and "\<And>s. R s s" and "\<And>a b c. R a b \<Longrightarrow> R b c \<Longrightarrow> R a c"
    and "\<And>x s t. x \<in> set xs \<Longrightarrow> f x s = Inr t \<Longrightarrow> R s t"
  shows "R s t"
proof -
  have "R s s" by (rule assms(2))
  with assms(1) show ?thesis
    by (rule foldE_invariant [where P = "R s"]) (blast intro: assms(3,4))
qed

lemma foldE_unit: "foldE f xs () = Inr () \<longleftrightarrow> (\<forall>x \<in> set xs. f x () = Inr ())"
  by (induction xs) (auto simp: andThen_eq_Inr)

lemma foldE_unit_error: "foldE f xs () = Inl e \<Longrightarrow> \<exists>x \<in> set xs. f x () = Inl e"
  by (induction xs) (auto simp: andThen_eq_Inl)

lemma foldE_error: "foldE f xs s = Inl e \<Longrightarrow> \<exists>x \<in> set xs. \<exists>t. f x t = Inl e"
  by (induction xs arbitrary: s) (auto simp: andThen_eq_Inl)

text \<open>A loop that collects the keys it has seen and fails on a repeated one.\<close>

lemma foldE_collect:
  assumes "foldE f xs seen = Inr t"
    and "\<And>x u v. x \<in> set xs \<Longrightarrow> f x u = Inr v \<Longrightarrow> v = k x # u \<and> k x \<notin> set u \<and> P x"
  shows "distinct (map k xs) \<and> k ` set xs \<inter> set seen = {} \<and> (\<forall>x \<in> set xs. P x)
    \<and> t = rev (map k xs) @ seen"
  using assms
proof (induction xs arbitrary: seen)
  case Nil
  then show ?case by simp
next
  case (Cons x xs)
  from Cons.prems(1) obtain u where u: "f x seen = Inr u" "foldE f xs u = Inr t"
    by (auto simp: andThen_eq_Inr)
  have x: "u = k x # seen" "k x \<notin> set seen" "P x" using Cons.prems(2) [OF _ u(1)] by auto
  have "distinct (map k xs) \<and> k ` set xs \<inter> set u = {} \<and> (\<forall>x \<in> set xs. P x)
      \<and> t = rev (map k xs) @ u"
    by (rule Cons.IH [OF u(2)]) (use Cons.prems(2) in auto)
  then show ?case using x by auto
qed

text \<open>A key that every selected element contributes to a repetition-free list selects at most one.\<close>

lemma filter_at_most_one:
  assumes "distinct (concat (map K xs))" and "\<And>x. x \<in> set xs \<Longrightarrow> A x \<Longrightarrow> k \<in> set (K x)"
  shows "length (filter A xs) \<le> 1"
  using assms
proof (induction xs)
  case Nil
  then show ?case by simp
next
  case (Cons x xs)
  show ?case
  proof (cases "A x")
    case True
    then have k: "k \<in> set (K x)" using Cons.prems(2) by simp
    have d: "set (K x) \<inter> set (concat (map K xs)) = {}" using Cons.prems(1) by simp
    have "\<not> A y" if "y \<in> set xs" for y
    proof
      assume "A y"
      then have "k \<in> set (K y)" using Cons.prems(2) that by simp
      then have "k \<in> set (concat (map K xs))" using that by auto
      then show False using k d by blast
    qed
    then have "filter A xs = []" by (simp add: filter_empty_conv)
    then show ?thesis using True by simp
  next
    case False
    have "distinct (concat (map K xs))" using Cons.prems(1) by simp
    then have "length (filter A xs) \<le> 1" by (rule Cons.IH) (use Cons.prems(2) in simp)
    then show ?thesis using False by simp
  qed
qed

lemma foldE_cong [fundef_cong]:
  "xs = ys \<Longrightarrow> s = t \<Longrightarrow> (\<And>x u. x \<in> set ys \<Longrightarrow> f x u = g x u) \<Longrightarrow> foldE f xs s = foldE g ys t"
proof (induction xs arbitrary: ys s t)
  case Nil
  then show ?case by auto
next
  case (Cons x xs)
  then show ?case by (cases ys) (auto intro!: andThen_cong)
qed

subsection \<open>Tables: rows in a list\<close>

text \<open>
  \<open>UPDATE t SET ... WHERE p\<close>: every row that satisfies the condition is replaced, in place.
\<close>

definition update_where :: "('r \<Rightarrow> bool) \<Rightarrow> ('r \<Rightarrow> 'r) \<Rightarrow> 'r list \<Rightarrow> 'r list" where
  "update_where p f = map (\<lambda>r. if p r then f r else r)"

primrec update_first :: "('a \<Rightarrow> bool) \<Rightarrow> ('a \<Rightarrow> 'a) \<Rightarrow> 'a list \<Rightarrow> 'a list" where
  "update_first p f [] = []"
| "update_first p f (x # xs) = (if p x then f x # xs else x # update_first p f xs)"

text \<open>\<open>SELECT ... WHERE p ORDER BY id LIMIT 1\<close> on a table kept in insertion (id) order.\<close>

definition first_where :: "('r \<Rightarrow> bool) \<Rightarrow> 'r list \<Rightarrow> 'r option" where
  "first_where p rs = find p rs"

text \<open>\<open>SELECT ... WHERE p ORDER BY id DESC LIMIT 1\<close>.\<close>

definition last_where :: "('r \<Rightarrow> bool) \<Rightarrow> 'r list \<Rightarrow> 'r option" where
  "last_where p rs = find p (rev rs)"

text \<open>\<open>SELECT EXISTS(SELECT 1 ... WHERE p)\<close>.\<close>

definition exists_where :: "('r \<Rightarrow> bool) \<Rightarrow> 'r list \<Rightarrow> bool" where
  "exists_where p rs = list_ex p rs"

lemma length_update_where [simp]: "length (update_where p f rs) = length rs"
  by (simp add: update_where_def)

lemma update_where_Nil [simp]: "update_where p f [] = []"
  by (simp add: update_where_def)

lemma update_where_Cons [simp]:
  "update_where p f (r # rs) = (if p r then f r else r) # update_where p f rs"
  by (simp add: update_where_def)

lemma update_where_append [simp]:
  "update_where p f (rs @ qs) = update_where p f rs @ update_where p f qs"
  by (simp add: update_where_def)

lemma in_update_where [table_simps]:
  "r \<in> set (update_where p f rs) \<longleftrightarrow> (\<exists>q \<in> set rs. r = (if p q then f q else q))"
  by (auto simp: update_where_def)

lemma map_update_where_key [table_simps]:
  "(\<And>r. k (f r) = k r) \<Longrightarrow> map k (update_where p f rs) = map k rs"
  by (simp add: update_where_def)

lemma update_where_none: "(\<And>r. r \<in> set rs \<Longrightarrow> \<not> p r) \<Longrightarrow> update_where p f rs = rs"
  by (induction rs) auto

lemma find_SomeD: "find p xs = Some x \<Longrightarrow> x \<in> set xs \<and> p x"
  by (induction xs) (auto split: if_splits)

lemma first_where_SomeD: "first_where p rs = Some r \<Longrightarrow> r \<in> set rs \<and> p r"
  unfolding first_where_def by (rule find_SomeD)

lemma last_where_SomeD: "last_where p rs = Some r \<Longrightarrow> r \<in> set rs \<and> p r"
  unfolding last_where_def by (drule find_SomeD) simp

lemma first_where_None: "first_where p rs = None \<longleftrightarrow> (\<forall>r \<in> set rs. \<not> p r)"
  by (auto simp: first_where_def find_None_iff)

lemma last_where_None: "last_where p rs = None \<longleftrightarrow> (\<forall>r \<in> set rs. \<not> p r)"
  by (auto simp: last_where_def find_None_iff)

lemma exists_where_iff [table_simps]: "exists_where p rs \<longleftrightarrow> (\<exists>r \<in> set rs. p r)"
  by (simp add: exists_where_def list_ex_iff)

lemma first_where_code [simp]:
  "first_where p [] = None"
  "first_where p (r # rs) = (if p r then Some r else first_where p rs)"
  by (simp_all add: first_where_def)

text \<open>A table with a unique key has at most one row per key value.\<close>

lemma distinct_key_unique:
  "distinct (map k rs) \<Longrightarrow> r \<in> set rs \<Longrightarrow> q \<in> set rs \<Longrightarrow> k r = k q \<Longrightarrow> r = q"
  by (metis distinct_map inj_onD)

lemma first_where_key:
  "distinct (map k rs) \<Longrightarrow> r \<in> set rs \<Longrightarrow> first_where (\<lambda>q. k q = k r) rs = Some r"
  by (induction rs) (auto simp: image_iff)

subsection \<open>Sorting and selection\<close>

lemma sort_key_permute:
  assumes "mset xs = mset ys" and "inj_on f (set xs)"
  shows "sort_key f xs = sort_key f ys"
proof (rule properties_for_sort_key)
  show "mset (sort_key f ys) = mset xs" using assms(1) by simp
  show "sorted (map f (sort_key f ys))" by simp
  fix k
  assume k: "k \<in> set (sort_key f ys)"
  have *: "set ys = set xs" using assms(1) by (metis mset_eq_setD)
  then have only: "\<And>zs. set zs = set xs \<Longrightarrow> \<forall>z \<in> set (filter (\<lambda>x. f k = f x) zs). z = k"
    using assms(2) k by (auto simp: inj_on_def)
  have eq: "\<And>zs. \<forall>z \<in> set zs. z = k \<Longrightarrow> zs = replicate (length zs) k"
    by (metis replicate_length_same)
  have "length (filter (\<lambda>x. f k = f x) (sort_key f ys)) = length (filter (\<lambda>x. f k = f x) xs)"
    using assms(1) by (metis mset_filter mset_sort size_mset)
  then show "filter (\<lambda>x. f k = f x) (sort_key f ys) = filter (\<lambda>x. f k = f x) xs"
    using eq [OF only, of "sort_key f ys"] eq [OF only, of xs] * by (metis set_sort)
qed

lemma sort_permute: "mset xs = mset ys \<Longrightarrow> sort xs = sort ys"
  by (rule sort_key_permute) auto

lemma sorted_wrt_less_distinct_sort:
  "distinct (map f xs) \<Longrightarrow> sorted_wrt (\<lambda>a b. f a < f b) (sort_key f (xs :: 'a list) :: 'a list)"
proof -
  assume d: "distinct (map f xs)"
  have "distinct (map f (sort_key f xs))"
    using d by (metis distinct_map distinct_sort set_sort)
  moreover have "sorted (map f (sort_key f xs))" by simp
  ultimately have "sorted_wrt (<) (map f (sort_key f xs))"
    by (simp add: strict_sorted_iff)
  then show ?thesis by (simp add: sorted_wrt_map)
qed

end
