(* ===== verification/GoText.thy ===== *)
theory GoText
  imports Prelude
begin

text \<open>
  Go strings. A Go string is a sequence of bytes, modelled as a HOL \<open>string\<close> (a \<open>char\<close> is a
  byte). This theory models what the program uses of the packages \<open>unicode/utf8\<close>,
  \<open>unicode\<close> and \<open>strings\<close>: decoding and encoding of runes, validity, white space,
  \<open>TrimSpace\<close>, \<open>Map\<close>, \<open>Split\<close>, \<open>Join\<close>, \<open>ReplaceAll\<close> of one or two bytes, \<open>Contains\<close>, and the
  program's own \<open>normalized\<close> (crud.go) and \<open>normQuote\<close> (kernel.go). Case folding is given for
  the ASCII, Latin-1, Greek, Cyrillic and full-width Latin letters; other letters are kept.
\<close>

subsection \<open>Decoding and encoding UTF-8\<close>

definition byte :: "char \<Rightarrow> nat" where
  "byte c = of_char c"

definition cont :: "nat \<Rightarrow> nat \<Rightarrow> char \<Rightarrow> bool" where
  "cont lo hi c \<longleftrightarrow> lo \<le> byte c \<and> byte c \<le> hi"

abbreviation tail_byte :: "char \<Rightarrow> bool" where
  "tail_byte \<equiv> cont 0x80 0xBF"

text \<open>The range of the second byte that \<open>utf8.DecodeRune\<close> accepts after a given first byte.\<close>

definition second_range :: "nat \<Rightarrow> nat \<times> nat" where
  "second_range b = (if b = 0xE0 then (0xA0, 0xBF) else if b = 0xED then (0x80, 0x9F)
     else if b = 0xF0 then (0x90, 0xBF) else if b = 0xF4 then (0x80, 0x8F) else (0x80, 0xBF))"

definition second_ok :: "char \<Rightarrow> char \<Rightarrow> bool" where
  "second_ok c d = cont (fst (second_range (byte c))) (snd (second_range (byte c))) d"

abbreviation rune_error :: nat where "rune_error \<equiv> 0xFFFD"

text \<open>The length of the encoding that starts a non-empty string: \<open>None\<close> is an invalid start.\<close>

fun rune_size :: "string \<Rightarrow> nat option" where
  "rune_size [] = None"
| "rune_size (c # s) =
     (if byte c < 0x80 then Some 1
      else if 0xC2 \<le> byte c \<and> byte c \<le> 0xDF then
        (case s of d # _ \<Rightarrow> if second_ok c d then Some 2 else None | _ \<Rightarrow> None)
      else if 0xE0 \<le> byte c \<and> byte c \<le> 0xEF then
        (case s of d # e # _ \<Rightarrow> if second_ok c d \<and> tail_byte e then Some 3 else None | _ \<Rightarrow> None)
      else if 0xF0 \<le> byte c \<and> byte c \<le> 0xF4 then
        (case s of d # e # f # _ \<Rightarrow>
           if second_ok c d \<and> tail_byte e \<and> tail_byte f then Some 4 else None | _ \<Rightarrow> None)
      else None)"

fun rune_value :: "string \<Rightarrow> nat" where
  "rune_value [c] = byte c"
| "rune_value [c, d] = (byte c - 0xC0) * 64 + (byte d - 0x80)"
| "rune_value [c, d, e] = (byte c - 0xE0) * 4096 + (byte d - 0x80) * 64 + (byte e - 0x80)"
| "rune_value [c, d, e, f] =
     (byte c - 0xF0) * 262144 + (byte d - 0x80) * 4096 + (byte e - 0x80) * 64 + (byte f - 0x80)"
| "rune_value _ = rune_error"

lemma rune_size_bounds: "rune_size s = Some n \<Longrightarrow> 0 < n \<and> n \<le> length s \<and> n \<le> 4"
  by (cases s) (auto split: if_splits list.splits)

declare rune_size.simps [simp del]

lemma drop_append_short: "n \<le> length xs \<Longrightarrow> drop n (xs @ ys) = drop n xs @ ys"
  by simp

text \<open>
  \<open>for _, r := range s\<close>: the runes of a string with the bytes each was read from. An invalid
  byte yields the replacement rune and one byte.
\<close>

function segments :: "string \<Rightarrow> (nat \<times> string) list" where
  "segments [] = []"
| "segments (c # s) =
     (case rune_size (c # s) of
        None \<Rightarrow> (rune_error, [c]) # segments s
      | Some n \<Rightarrow> (rune_value (take n (c # s)), take n (c # s)) # segments (drop n (c # s)))"
  by pat_completeness auto
termination
  by (relation "measure length") (auto dest: rune_size_bounds)

definition runes :: "string \<Rightarrow> nat list" where
  "runes s = map fst (segments s)"

definition rune_count :: "string \<Rightarrow> nat" where
  "rune_count s = length (segments s)"

text \<open>\<open>utf8.Valid\<close>.\<close>

function utf8_valid :: "string \<Rightarrow> bool" where
  "utf8_valid [] = True"
| "utf8_valid (c # s) =
     (case rune_size (c # s) of None \<Rightarrow> False | Some n \<Rightarrow> utf8_valid (drop n (c # s)))"
  by pat_completeness auto
termination
  by (relation "measure length") (auto dest: rune_size_bounds)

text \<open>\<open>utf8.AppendRune\<close>.\<close>

definition encode_rune :: "nat \<Rightarrow> string" where
  "encode_rune r =
     (if r < 0x80 then [char_of r]
      else if r < 0x800 then [char_of (0xC0 + r div 64), char_of (0x80 + r mod 64)]
      else if (0xD800 \<le> r \<and> r \<le> 0xDFFF) \<or> 0x10FFFF < r then
        [char_of (0xEF::nat), char_of (0xBF::nat), char_of (0xBD::nat)]
      else if r < 0x10000 then
        [char_of (0xE0 + r div 4096), char_of (0x80 + r div 64 mod 64), char_of (0x80 + r mod 64)]
      else [char_of (0xF0 + r div 262144), char_of (0x80 + r div 4096 mod 64),
            char_of (0x80 + r div 64 mod 64), char_of (0x80 + r mod 64)])"

lemma concat_segments: "concat (map snd (segments s)) = s"
  by (induction s rule: segments.induct) (auto split: option.splits)

lemma byte_less: "byte c < 256"
  unfolding byte_def by (metis of_char_mod_256 mod_less_divisor zero_less_numeral)

lemma byte_char_of [simp]: "n < 256 \<Longrightarrow> byte (char_of n) = n"
  by (simp add: byte_def of_char_of)

lemma char_of_byte [simp]: "char_of (byte c) = c"
  by (simp add: byte_def)

subsection \<open>Valid strings split at ASCII bytes\<close>

lemma rune_size_append:
  "rune_size s = Some n \<Longrightarrow> rune_size (s @ t) = Some n"
  by (cases s) (auto simp: rune_size.simps split: if_splits list.splits)

text \<open>An ASCII byte is never inside the encoding of another rune.\<close>

lemma rune_size_ascii:
  assumes "rune_size (s @ c # t) = Some n" and "byte c < 0x80" and "s \<noteq> []"
  shows "n \<le> length s" and "rune_size s = Some n"
proof -
  obtain d s' where s: "s = d # s'" using assms(3) by (cases s) auto
  have tail: "\<not> tail_byte c" "\<And>x. \<not> second_ok x c"
    using assms(2) by (auto simp: cont_def second_ok_def second_range_def)
  from assms(1) tail have "n \<le> length s \<and> rune_size s = Some n"
    unfolding s
    by (cases s'; cases "tl s'"; cases "tl (tl s')")
       (auto simp: rune_size.simps split: if_splits list.splits)
  then show "n \<le> length s" "rune_size s = Some n" by auto
qed

lemma utf8_valid_append: "utf8_valid s \<Longrightarrow> utf8_valid (s @ t) \<longleftrightarrow> utf8_valid t"
proof (induction s rule: utf8_valid.induct)
  case 1
  then show ?case by simp
next
  case (2 c s)
  then obtain n where n: "rune_size (c # s) = Some n" "utf8_valid (drop n (c # s))"
    by (auto split: option.splits)
  from rune_size_append [OF n(1), of t] have n': "rune_size (c # (s @ t)) = Some n" by simp
  have "n \<le> length (c # s)" using rune_size_bounds [OF n(1)] by simp
  then have "drop n ((c # s) @ t) = drop n (c # s) @ t" by (rule drop_append_short)
  then show ?case using "2.IH" [OF n(1) n(2)] n' by simp
qed

lemma utf8_valid_ascii_split:
  "byte c < 0x80 \<Longrightarrow> utf8_valid (s @ c # t) \<longleftrightarrow> utf8_valid s \<and> utf8_valid t"
proof (induction s rule: utf8_valid.induct)
  case 1
  then show ?case by (simp add: rune_size.simps)
next
  case (2 d s)
  show ?case
  proof (cases "rune_size (d # s)")
    case None
    have "rune_size ((d # s) @ c # t) = None"
    proof (rule ccontr)
      assume "rune_size ((d # s) @ c # t) \<noteq> None"
      then obtain n where "rune_size ((d # s) @ c # t) = Some n" by auto
      from rune_size_ascii(2) [OF this "2.prems"] None show False by simp
    qed
    then show ?thesis using None by simp
  next
    case (Some n)
    have n: "n \<le> length (d # s)" using rune_size_bounds [OF Some] by simp
    from rune_size_append [OF Some, of "c # t"]
    have n': "rune_size (d # (s @ c # t)) = Some n" by simp
    have "drop n ((d # s) @ c # t) = drop n (d # s) @ c # t" using n by (rule drop_append_short)
    then show ?thesis using "2.IH" [OF Some "2.prems"] Some n' by simp
  qed
qed

lemma utf8_valid_ascii_Cons [simp]: "byte c < 0x80 \<Longrightarrow> utf8_valid (c # s) = utf8_valid s"
  using utf8_valid_ascii_split [of c "[]" s] by simp

subsection \<open>Encoding is the inverse of decoding\<close>

definition scalar :: "nat \<Rightarrow> bool" where
  "scalar r \<longleftrightarrow> r \<le> 0x10FFFF \<and> \<not> (0xD800 \<le> r \<and> r \<le> 0xDFFF)"

lemma base64_digits:
  fixes r :: nat
  shows "r = r div 4096 * 4096 + r div 64 mod 64 * 64 + r mod 64"
    and "r = r div 262144 * 262144 + r div 4096 mod 64 * 4096 + r div 64 mod 64 * 64 + r mod 64"
proof -
  have 1: "r div 64 = r div 4096 * 64 + r div 64 mod 64"
    using div_mult_mod_eq [of "r div 64" 64] by (simp add: div_mult2_eq [symmetric])
  have 2: "r div 4096 = r div 262144 * 64 + r div 4096 mod 64"
    using div_mult_mod_eq [of "r div 4096" 64] by (simp add: div_mult2_eq [symmetric])
  show 3: "r = r div 4096 * 4096 + r div 64 mod 64 * 64 + r mod 64"
  proof -
    have "r = r div 64 * 64 + r mod 64" by simp
    then show ?thesis using 1 by linarith
  qed
  show "r = r div 262144 * 262144 + r div 4096 mod 64 * 4096 + r div 64 mod 64 * 64 + r mod 64"
    using 2 3 by linarith
qed

lemma encode_rune_cases:
  assumes "scalar r"
  obtains (one) "r < 0x80" "encode_rune r = [char_of r]"
  | (two) a b where "r = a * 64 + b" "b < 64" "2 \<le> a" "a < 32"
      "encode_rune r = [char_of (0xC0 + a), char_of (0x80 + b)]"
  | (three) a b c where "r = a * 4096 + b * 64 + c" "b < 64" "c < 64" "a < 16"
      "a = 0 \<longrightarrow> 32 \<le> b" "a = 13 \<longrightarrow> b < 32"
      "encode_rune r = [char_of (0xE0 + a), char_of (0x80 + b), char_of (0x80 + c)]"
  | (four) a b c d where "r = a * 262144 + b * 4096 + c * 64 + d" "b < 64" "c < 64" "d < 64"
      "a < 5" "a = 0 \<longrightarrow> 16 \<le> b" "a = 4 \<longrightarrow> b < 16"
      "encode_rune r = [char_of (0xF0 + a), char_of (0x80 + b), char_of (0x80 + c), char_of (0x80 + d)]"
proof -
  have small: "x mod 64 < (64::nat)" for x by simp
  consider "r < 0x80" | "0x80 \<le> r" "r < 0x800" | "0x800 \<le> r" "r < 0x10000" | "0x10000 \<le> r"
    by linarith
  then show thesis
  proof cases
    case 1
    then show thesis using one by (simp add: encode_rune_def)
  next
    case 2
    then have "2 \<le> r div 64" "r div 64 < 32" by auto
    with 2 show thesis
      by (intro two [of "r div 64" "r mod 64"]) (auto simp: encode_rune_def)
  next
    case 3
    note d = base64_digits(1) [of r]
    have "r div 4096 < 16" using 3 by auto
    moreover have "r div 4096 = 0 \<longrightarrow> 32 \<le> r div 64 mod 64"
      using d 3 small [of r] by linarith
    moreover have "r div 4096 = 13 \<longrightarrow> r div 64 mod 64 < 32"
      using d assms small [of r] small [of "r div 64"] by (auto simp: scalar_def)
    ultimately show thesis using 3 d assms
      by (intro three [of "r div 4096" "r div 64 mod 64" "r mod 64"])
         (auto simp: encode_rune_def scalar_def)
  next
    case 4
    note d = base64_digits(2) [of r]
    have "r div 262144 < 5" using assms by (auto simp: scalar_def)
    moreover have "r div 262144 = 0 \<longrightarrow> 16 \<le> r div 4096 mod 64"
      using d 4 small [of r] small [of "r div 64"] by linarith
    moreover have "r div 262144 = 4 \<longrightarrow> r div 4096 mod 64 < 16"
      using d assms small [of r] small [of "r div 64"] by (auto simp: scalar_def)
    ultimately show thesis using 4 d assms
      by (intro four [of "r div 262144" "r div 4096 mod 64" "r div 64 mod 64" "r mod 64"])
         (auto simp: encode_rune_def scalar_def)
  qed
qed

lemma rune_size_encode:
  assumes "scalar r"
  shows "rune_size (encode_rune r @ s) = Some (length (encode_rune r))"
  using assms
  by (cases rule: encode_rune_cases)
     (auto simp: rune_size.simps second_ok_def second_range_def cont_def)

lemma rune_value_encode:
  assumes "scalar r"
  shows "rune_value (encode_rune r) = r"
  using assms by (cases rule: encode_rune_cases) simp_all

lemma encode_rune_not_Nil [simp]: "encode_rune r \<noteq> []"
  by (simp add: encode_rune_def)

lemma segments_encode:
  "scalar r \<Longrightarrow> segments (encode_rune r @ s) = (r, encode_rune r) # segments s"
  using rune_size_encode [of r s] rune_value_encode [of r]
  by (cases "encode_rune r @ s") (auto simp: append_eq_Cons_conv)

lemma runes_encode: "list_all scalar rs \<Longrightarrow> runes (concat (map encode_rune rs)) = rs"
  by (induction rs) (auto simp: runes_def segments_encode)

lemma utf8_valid_encode: "list_all scalar rs \<Longrightarrow> utf8_valid (concat (map encode_rune rs))"
proof (induction rs)
  case Nil
  then show ?case by simp
next
  case (Cons r rs)
  have "utf8_valid (encode_rune r)"
    using rune_size_encode [of r "[]"] Cons.prems by (cases "encode_rune r") auto
  then show ?case using Cons by (simp add: utf8_valid_append)
qed

subsection \<open>Character classes\<close>

text \<open>\<open>unicode.IsSpace\<close>.\<close>

definition is_space :: "nat \<Rightarrow> bool" where
  "is_space r \<longleftrightarrow> r \<in> {9, 10, 11, 12, 13, 32, 0x85, 0xA0, 0x1680, 0x2028, 0x2029, 0x202F, 0x205F, 0x3000}
     \<or> (0x2000 \<le> r \<and> r \<le> 0x200A)"

text \<open>\<open>unicode.ToLower\<close> on the alphabets named in the header of this theory.\<close>

definition to_lower :: "nat \<Rightarrow> nat" where
  "to_lower r =
     (if (0x41 \<le> r \<and> r \<le> 0x5A) \<or> (0xC0 \<le> r \<and> r \<le> 0xDE \<and> r \<noteq> 0xD7)
         \<or> (0x391 \<le> r \<and> r \<le> 0x3A9 \<and> r \<noteq> 0x3A2) \<or> (0x410 \<le> r \<and> r \<le> 0x42F)
         \<or> (0xFF21 \<le> r \<and> r \<le> 0xFF3A) then r + 32
      else if 0x400 \<le> r \<and> r \<le> 0x40F then r + 80 else r)"

lemma to_lower_idem [simp]: "to_lower (to_lower r) = to_lower r"
  by (auto simp: to_lower_def)

lemma scalar_to_lower: "scalar r \<Longrightarrow> scalar (to_lower r)"
  by (auto simp: scalar_def to_lower_def)

lemma not_space_to_lower [simp]: "is_space (to_lower r) = is_space r"
  by (auto simp: is_space_def to_lower_def)

subsection \<open>Operations of package strings\<close>

text \<open>\<open>strings.TrimSpace\<close>.\<close>

definition trim_segments :: "(nat \<times> string) list \<Rightarrow> (nat \<times> string) list" where
  "trim_segments ps =
     rev (dropWhile (\<lambda>p. is_space (fst p)) (rev (dropWhile (\<lambda>p. is_space (fst p)) ps)))"

definition trim_space :: "string \<Rightarrow> string" where
  "trim_space s = concat (map snd (trim_segments (segments s)))"

text \<open>\<open>strings.TrimSpace(s) == ""\<close>, the test most validations of the program use.\<close>

definition blank :: "string \<Rightarrow> bool" where
  "blank s \<longleftrightarrow> trim_space s = []"

text \<open>\<open>normalized\<close> (crud.go): drops white space, lowers the rest.\<close>

definition normalized :: "string \<Rightarrow> string" where
  "normalized s =
     concat (map (\<lambda>r. if is_space r then [] else encode_rune (to_lower r)) (runes s))"

text \<open>\<open>normQuote\<close> (kernel.go): drops white space only.\<close>

definition norm_quote :: "string \<Rightarrow> string" where
  "norm_quote s = concat (map (\<lambda>r. if is_space r then [] else encode_rune r) (runes s))"

text \<open>\<open>strings.Split(s, c)\<close> for a one-byte separator; \<open>strings.Join\<close>.\<close>

fun split_at :: "char \<Rightarrow> string \<Rightarrow> string list" where
  "split_at c [] = [[]]"
| "split_at c (d # s) =
     (if d = c then [] # split_at c s
      else (case split_at c s of [] \<Rightarrow> [[d]] | p # ps \<Rightarrow> (d # p) # ps))"

fun join_with :: "string \<Rightarrow> string list \<Rightarrow> string" where
  "join_with sep [] = []"
| "join_with sep [p] = p"
| "join_with sep (p # q # ps) = p @ sep @ join_with sep (q # ps)"

text \<open>\<open>strings.HasPrefix\<close>, \<open>strings.Contains\<close>, \<open>strings.TrimPrefix\<close>, \<open>strings.TrimSuffix\<close>.\<close>

fun has_prefix :: "string \<Rightarrow> string \<Rightarrow> bool" where
  "has_prefix s [] = True"
| "has_prefix [] (c # p) = False"
| "has_prefix (d # s) (c # p) = (d = c \<and> has_prefix s p)"

fun contains_str :: "string \<Rightarrow> string \<Rightarrow> bool" where
  "contains_str [] p = (p = [])"
| "contains_str (c # s) p = (has_prefix (c # s) p \<or> contains_str s p)"

definition trim_prefix :: "string \<Rightarrow> string \<Rightarrow> string" where
  "trim_prefix s p = (if has_prefix s p then drop (length p) s else s)"

definition trim_suffix :: "string \<Rightarrow> string \<Rightarrow> string" where
  "trim_suffix s p = (if has_prefix (rev s) (rev p) then take (length s - length p) s else s)"

lemma split_at_not_Nil [simp]: "split_at c s \<noteq> []"
  by (cases s) (auto split: list.splits)

lemma join_split [simp]: "join_with [c] (split_at c s) = s"
proof (induction s)
  case Nil
  then show ?case by simp
next
  case (Cons d s)
  then show ?case by (cases "split_at c s"; cases "tl (split_at c s)") auto
qed

lemma split_at_pieces: "p \<in> set (split_at c s) \<Longrightarrow> c \<notin> set p"
proof (induction s arbitrary: p)
  case Nil
  then show ?case by simp
next
  case (Cons d s)
  then show ?case by (cases "split_at c s") (auto split: if_splits)
qed

lemma split_join:
  "ps \<noteq> [] \<Longrightarrow> (\<And>p. p \<in> set ps \<Longrightarrow> c \<notin> set p) \<Longrightarrow> split_at c (join_with [c] ps) = ps"
proof (induction ps)
  case Nil
  then show ?case by simp
next
  case (Cons p ps)
  have one: "c \<notin> set p \<Longrightarrow> split_at c p = [p]" for p by (induction p) auto
  have more: "c \<notin> set p \<Longrightarrow> split_at c (p @ c # r) = p # split_at c r" for p r
    by (induction p) auto
  show ?case
  proof (cases ps)
    case Nil
    then show ?thesis using Cons.prems one by simp
  next
    case (Cons q qs)
    then show ?thesis using Cons.IH Cons.prems more by simp
  qed
qed

lemma set_split_at: "p \<in> set (split_at c s) \<Longrightarrow> set p \<subseteq> set s"
proof (induction s arbitrary: p)
  case Nil
  then show ?case by simp
next
  case (Cons d s)
  obtain q qs where q: "split_at c s = q # qs" by (cases "split_at c s") auto
  have "set q \<subseteq> set s" "\<And>p. p \<in> set qs \<Longrightarrow> set p \<subseteq> set s" using Cons.IH q by auto
  then show ?case using Cons.prems q by (fastforce split: if_splits)
qed

text \<open>Splitting a valid string at an ASCII byte gives valid pieces.\<close>

lemma utf8_valid_join:
  "byte c < 0x80 \<Longrightarrow> utf8_valid (join_with [c] ps) \<longleftrightarrow> list_all utf8_valid ps"
proof (induction ps)
  case Nil
  then show ?case by simp
next
  case (Cons p ps)
  then show ?case by (cases ps) (simp_all add: utf8_valid_ascii_split)
qed

lemma utf8_valid_split:
  "byte c < 0x80 \<Longrightarrow> utf8_valid s \<Longrightarrow> p \<in> set (split_at c s) \<Longrightarrow> utf8_valid p"
  using utf8_valid_join [of c "split_at c s"] by (simp add: list_all_iff)

lemma has_prefix_iff: "has_prefix s p \<longleftrightarrow> (\<exists>t. s = p @ t)"
  by (induction s p rule: has_prefix.induct) auto

lemma contains_str_iff: "contains_str s p \<longleftrightarrow> (\<exists>a b. s = a @ p @ b)"
proof (induction s)
  case Nil
  then show ?case by auto
next
  case (Cons c s)
  have "(\<exists>a b. c # s = a @ p @ b) \<longleftrightarrow> (\<exists>b. c # s = p @ b) \<or> (\<exists>a b. s = a @ p @ b)"
  proof
    assume "\<exists>a b. c # s = a @ p @ b"
    then obtain a b where "c # s = a @ p @ b" by auto
    then show "(\<exists>b. c # s = p @ b) \<or> (\<exists>a b. s = a @ p @ b)" by (cases a) auto
  next
    assume "(\<exists>b. c # s = p @ b) \<or> (\<exists>a b. s = a @ p @ b)"
    then show "\<exists>a b. c # s = a @ p @ b"
    proof
      assume "\<exists>b. c # s = p @ b"
      then show ?thesis by (metis append_Nil)
    next
      assume "\<exists>a b. s = a @ p @ b"
      then show ?thesis by (metis append_Cons)
    qed
  qed
  then show ?case using Cons.IH by (simp only: contains_str.simps has_prefix_iff)
qed

text \<open>Normalising twice is normalising once: the normal form is a key.\<close>

lemma scalar_cont_value:
  assumes "rune_size s = Some n"
  shows "scalar (rune_value (take n s))"
proof (cases s)
  case Nil
  then show ?thesis using assms by (simp add: rune_size.simps)
next
  case (Cons c t)
  then show ?thesis
    using assms byte_less [of c]
    by (cases t; cases "tl t"; cases "tl (tl t)")
       (auto simp: scalar_def rune_size.simps second_ok_def second_range_def cont_def
          split: if_splits)
qed

lemma runes_scalar: "list_all scalar (runes s)"
  unfolding runes_def
proof (induction s rule: segments.induct)
  case 1
  then show ?case by simp
next
  case (2 c s)
  have err: "scalar rune_error" by (simp add: scalar_def)
  show ?case
  proof (cases "rune_size (c # s)")
    case None
    then show ?thesis using 2 err by simp
  next
    case (Some n)
    then show ?thesis using 2 scalar_cont_value [OF Some] by simp
  qed
qed

lemma normalized_runes:
  "normalized s = concat (map encode_rune (map to_lower (filter (\<lambda>r. \<not> is_space r) (runes s))))"
proof -
  have "concat (map (\<lambda>r. if is_space r then [] else encode_rune (to_lower r)) rs)
      = concat (map encode_rune (map to_lower (filter (\<lambda>r. \<not> is_space r) rs)))" for rs
    by (induction rs) auto
  then show ?thesis by (simp only: normalized_def)
qed

lemma runes_normalized:
  "runes (normalized s) = map to_lower (filter (\<lambda>r. \<not> is_space r) (runes s))"
proof -
  have "list_all scalar (map to_lower (filter (\<lambda>r. \<not> is_space r) (runes s)))"
    using runes_scalar [of s] by (auto simp: list_all_iff scalar_to_lower)
  then show ?thesis unfolding normalized_runes by (rule runes_encode)
qed

lemma normalized_idem: "normalized (normalized s) = normalized s"
proof -
  have "map to_lower (filter (\<lambda>r. \<not> is_space r) (runes (normalized s))) =
      map to_lower (filter (\<lambda>r. \<not> is_space r) (runes s))"
    unfolding runes_normalized filter_map by (simp add: o_def)
  then show ?thesis using normalized_runes [of "normalized s"] normalized_runes [of s] by metis
qed

text \<open>A text that is not blank keeps something when normalised.\<close>

lemma dropWhile_all_conv: "dropWhile P xs = [] \<longleftrightarrow> (\<forall>x \<in> set xs. P x)"
  by (induction xs) auto

lemma normalized_nonempty:
  assumes "\<not> blank s"
  shows "normalized s \<noteq> []"
proof
  assume "normalized s = []"
  then have e: "\<forall>r \<in> set (runes s). (if is_space r then [] else encode_rune (to_lower r)) = []"
    unfolding normalized_def by (simp only: concat_eq_Nil_conv set_map ball_simps)
  have "is_space r" if "r \<in> set (runes s)" for r
    using bspec [OF e that] encode_rune_not_Nil [of "to_lower r"] by (simp split: if_splits)
  then have "\<forall>r \<in> set (runes s). is_space r" by blast
  then have "\<forall>p \<in> set (segments s). is_space (fst p)" by (simp add: runes_def)
  then have "dropWhile (\<lambda>p. is_space (fst p)) (segments s) = []"
    by (simp add: dropWhile_all_conv)
  then have "trim_space s = []"
    unfolding trim_space_def trim_segments_def by (simp only: rev.simps dropWhile.simps list.map concat.simps)
  with assms show False by (simp add: blank_def)
qed

end
