(* ===== verification/GoValues.thy ===== *)
theory GoValues
  imports GoText
begin

text \<open>
  The dynamic values of the program: \<open>any\<close> values as they come out of \<open>json.Unmarshal\<close>, the
  accessors of app.go (\<open>str\<close>, \<open>num\<close>, \<open>truth\<close>, \<open>obj\<close>, \<open>list\<close>), the helpers \<open>contains\<close>,
  \<open>stringValues\<close>, \<open>floatValue\<close> and \<open>brief\<close>, comparison of interface values, and the errors of
  the platform. A JSON number is a rational; Go's \<open>float64\<close> rounding of literals with more
  than 15 digits is not modelled. A Go map is an association list with distinct keys.
\<close>

subsection \<open>Errors\<close>

text \<open>
  \<open>apiError\<close> (app.go) carries an HTTP status and a text for the user, \<open>taskFailure\<close> (kernel.go)
  a code and a text. Texts are in Chinese in the source; the model keeps the status or code, and
  for an \<open>apiError\<close> a short English gist that names the branch. \<open>Panic\<close> is a Go run-time panic.
\<close>

datatype go_error =
    ApiError nat string
  | TaskError string
  | Canceled
  | DeadlineExceeded
  | Panic
  | OtherError string

definition bad :: "string \<Rightarrow> go_error" where
  "bad gist = ApiError 400 gist"

definition not_found :: go_error where
  "not_found = ApiError 404 ''record not found''"

subsection \<open>Values\<close>

datatype json =
    JNull
  | JBool bool
  | JNum rat
  | JStr string
  | JArr "json list"
  | JObj "(string \<times> json) list"

type_synonym object = "(string \<times> json) list"

text \<open>\<open>m[key]\<close>: the zero value nil for a missing key.\<close>

definition fld :: "object \<Rightarrow> string \<Rightarrow> json" where
  "fld m key = (case map_of m key of Some v \<Rightarrow> v | None \<Rightarrow> JNull)"

definition has_key :: "object \<Rightarrow> string \<Rightarrow> bool" where
  "has_key m key \<longleftrightarrow> key \<in> fst ` set m"

text \<open>\<open>m[key] = v\<close>.\<close>

fun put :: "string \<Rightarrow> json \<Rightarrow> object \<Rightarrow> object" where
  "put k v [] = [(k, v)]"
| "put k v ((k', v') # m) = (if k = k' then (k, v) # m else (k', v') # put k v m)"

lemma fld_Nil [simp]: "fld [] k = JNull"
  by (simp add: fld_def)

lemma fld_Cons [simp]: "fld ((k, v) # m) k' = (if k' = k then v else fld m k')"
  by (simp add: fld_def)

lemma fld_put [simp]: "fld (put k v m) k' = (if k' = k then v else fld m k')"
proof (induction m)
  case Nil
  then show ?case by simp
next
  case (Cons p m)
  then show ?case by (cases p) (auto split: if_splits)
qed

text \<open>The assignment of several keys.\<close>

definition put_all :: "object \<Rightarrow> object \<Rightarrow> object" where
  "put_all fields m = fold (\<lambda>(k, v). put k v) fields m"

text \<open>An assignment to fields of \<open>obj(v)\<close> is lost unless \<open>v\<close> is an object.\<close>

definition change_object :: "(object \<Rightarrow> object) \<Rightarrow> json \<Rightarrow> json" where
  "change_object f v = (case v of JObj m \<Rightarrow> JObj (f m) | _ \<Rightarrow> v)"

lemma keys_put: "fst ` set (put k v m) = insert k (fst ` set m)"
proof (induction m)
  case (Cons p m)
  then show ?case by (cases p) auto
qed simp

lemma has_key_put [simp]: "has_key (put k v m) k' \<longleftrightarrow> k' = k \<or> has_key m k'"
  by (simp add: has_key_def keys_put)

text \<open>Decimal digits, as \<open>strconv.FormatInt\<close> writes them.\<close>

fun digits_of :: "nat \<Rightarrow> string" where
  "digits_of n = (if n < 10 then [char_of (48 + n)]
     else digits_of (n div 10) @ [char_of (48 + n mod 10)])"

declare digits_of.simps [simp del]

text \<open>Code equations that do not unfold on an open term, for the evaluation of whole runs.\<close>

fun digits_when :: "bool \<Rightarrow> nat \<Rightarrow> string" where
  "digits_when True n = [char_of (48 + n)]"
| "digits_when False n = digits_of (n div 10) @ [char_of (48 + n mod 10)]"

lemma digits_of_code [code]: "digits_of n = digits_when (n < 10) n"
  by (cases "n < 10") (simp_all add: digits_of.simps [of n])

definition show_int :: "int \<Rightarrow> string" where
  "show_int i = (if i < 0 then ''-'' @ digits_of (nat (- i)) else digits_of (nat i))"

fun fraction_digits :: "nat \<Rightarrow> rat \<Rightarrow> string" where
  "fraction_digits 0 r = []"
| "fraction_digits (Suc k) r =
     (if r = 0 then [] else (let d = nat \<lfloor>r * 10\<rfloor> in
        char_of (48 + d) # fraction_digits k (r * 10 - of_nat d)))"

definition strip_zeros :: "string \<Rightarrow> string" where
  "strip_zeros ds = rev (dropWhile (\<lambda>c. c = CHR ''0'') (rev ds))"

definition exponent_form :: "string \<Rightarrow> char \<Rightarrow> nat \<Rightarrow> string" where
  "exponent_form ds sign e = (case ds of [] \<Rightarrow> ''0''
     | d # rest \<Rightarrow> d # (if rest = [] then [] else CHR ''.'' # rest) @
         [CHR ''e'', sign] @ (if e < 10 then ''0'' else []) @ digits_of e)"

text \<open>
  \<open>fmt.Sprint\<close> of a \<open>float64\<close>, which is what every JSON number is here: \<open>strconv\<close>'s shortest \<open>%g\<close>.
  The exponent form starts at a million and below a ten-thousandth; at most 25 decimals.
\<close>

definition show_magnitude :: "rat \<Rightarrow> string" where
  "show_magnitude r =
     (let whole = digits_of (nat \<lfloor>r\<rfloor>); decimals = fraction_digits 25 (r - of_int \<lfloor>r\<rfloor>) in
      if 1000000 \<le> r then exponent_form (strip_zeros (whole @ decimals)) (CHR ''+'') (length whole - 1)
      else if 0 < r \<and> r < 1 / 10000
      then let zeros = takeWhile (\<lambda>c. c = CHR ''0'') decimals
           in exponent_form (drop (length zeros) decimals) (CHR ''-'') (length zeros + 1)
      else whole @ (if decimals = [] then [] else CHR ''.'' # decimals))"

definition show_num :: "rat \<Rightarrow> string" where
  "show_num r = (if r < 0 then ''-'' else []) @ show_magnitude \<bar>r\<bar>"

fun show_when :: "bool \<Rightarrow> rat \<Rightarrow> string" where
  "show_when True r = ''-'' @ show_magnitude (- r)"
| "show_when False r = show_magnitude r"

lemma show_num_code [code]: "show_num r = show_when (r < 0) r"
  by (cases "r < 0") (simp_all add: show_num_def)

text \<open>A row's integer column as \<open>str\<close> prints it: rows arrive as JSON, so an id is a \<open>float64\<close>.\<close>

definition show_id :: "int \<Rightarrow> string" where
  "show_id i = show_num (of_int i)"

text \<open>\<open>fmt.Sprint\<close> of a value.\<close>

fun sprint :: "json \<Rightarrow> string" where
  "sprint JNull = ''<nil>''"
| "sprint (JBool b) = (if b then ''true'' else ''false'')"
| "sprint (JNum r) = show_num r"
| "sprint (JStr s) = s"
| "sprint (JArr vs) = ''['' @ join_with '' '' (map sprint vs) @ '']''"
| "sprint (JObj m) = ''map['' @
     join_with '' '' (map (\<lambda>(k, v). k @ '':'' @ v) (sort_key fst (map (\<lambda>(k, v). (k, sprint v)) m))) @ '']''"

text \<open>\<open>str\<close>.\<close>

definition str :: "json \<Rightarrow> string" where
  "str v = (case v of JNull \<Rightarrow> [] | _ \<Rightarrow> sprint v)"

lemma str_simps [simp]:
  "str JNull = []" "str (JStr s) = s" "str (JBool True) = ''true''" "str (JBool False) = ''false''"
  "str (JNum r) = show_num r"
  by (simp_all add: str_def)

lemma str_code [code]:
  "str JNull = []" "str (JStr s) = s" "str (JBool b) = (if b then ''true'' else ''false'')"
  "str (JNum r) = show_num r" "str (JArr vs) = sprint (JArr vs)" "str (JObj m) = sprint (JObj m)"
  by (simp_all add: str_def)

text \<open>\<open>strconv.ParseInt(s, 10, 64)\<close> with its error dropped: 0 for bad syntax, the nearest bound
  of \<open>int64\<close> when out of range.\<close>

definition digit :: "char \<Rightarrow> bool" where
  "digit c \<longleftrightarrow> 48 \<le> byte c \<and> byte c \<le> 57"

definition digits_value :: "string \<Rightarrow> int" where
  "digits_value s = foldl (\<lambda>n c. n * 10 + (int (byte c) - 48)) 0 s"

definition int64_max :: int where "int64_max = 9223372036854775807"
definition int64_min :: int where "int64_min = - 9223372036854775808"

definition clamp64 :: "int \<Rightarrow> int" where
  "clamp64 i = max int64_min (min int64_max i)"

definition parse_int_syntax :: "string \<Rightarrow> int option" where
  "parse_int_syntax s =
     (let (neg, ds) = (case s of [] \<Rightarrow> (False, [])
        | c # t \<Rightarrow> if c = CHR ''-'' then (True, t) else if c = CHR ''+'' then (False, t) else (False, s))
      in if ds = [] \<or> \<not> list_all digit ds then None
         else Some (if neg then - digits_value ds else digits_value ds))"

definition parse_int :: "string \<Rightarrow> int" where
  "parse_int s = (case parse_int_syntax s of None \<Rightarrow> 0 | Some i \<Rightarrow> clamp64 i)"

text \<open>\<open>int64(f)\<close> of a float truncates towards zero.\<close>

definition truncate_rat :: "rat \<Rightarrow> int" where
  "truncate_rat r = (if r < 0 then - \<lfloor>- r\<rfloor> else \<lfloor>r\<rfloor>)"

text \<open>\<open>num\<close>.\<close>

definition num :: "json \<Rightarrow> int" where
  "num v = (case v of JNum r \<Rightarrow> truncate_rat r | _ \<Rightarrow> parse_int (str v))"

lemma num_simps [simp]: "num (JNum r) = truncate_rat r" "num JNull = 0"
  by (simp_all add: num_def parse_int_def parse_int_syntax_def)

lemma num_code [code]:
  "num JNull = 0" "num (JNum r) = truncate_rat r" "num (JStr s) = parse_int s"
  "num (JBool b) = parse_int (str (JBool b))" "num (JArr vs) = parse_int (str (JArr vs))"
  "num (JObj m) = parse_int (str (JObj m))"
  by (simp_all add: num_def parse_int_def parse_int_syntax_def)

text \<open>\<open>floatValue\<close> (processing.go).\<close>

definition float_value :: "json \<Rightarrow> rat" where
  "float_value v = (case v of JNum r \<Rightarrow> r | _ \<Rightarrow> of_int (num v))"

text \<open>\<open>truth\<close>, \<open>obj\<close>, \<open>list\<close>.\<close>

definition truth :: "json \<Rightarrow> bool" where
  "truth v = (case v of JBool b \<Rightarrow> b | _ \<Rightarrow> False)"

definition obj :: "json \<Rightarrow> object" where
  "obj v = (case v of JObj m \<Rightarrow> m | _ \<Rightarrow> [])"

definition list_of :: "json \<Rightarrow> json list" where
  "list_of v = (case v of JArr vs \<Rightarrow> vs | _ \<Rightarrow> [])"

lemma accessor_simps [simp]:
  "truth (JBool b) = b" "truth JNull = False" "truth (JStr s) = False" "truth (JNum r) = False"
  "obj (JObj m) = m" "obj JNull = []" "list_of (JArr vs) = vs" "list_of JNull = []"
  by (simp_all add: truth_def obj_def list_of_def)

text \<open>\<open>contains\<close> (http.go) and \<open>stringValues\<close> (policy.go).\<close>

fun contains :: "string list \<Rightarrow> string \<Rightarrow> bool" where
  "contains [] value = False"
| "contains (v # values) value = (v = value \<or> contains values value)"

lemma contains_iff [simp]: "contains vs v \<longleftrightarrow> v \<in> set vs"
  by (induction vs) auto

definition string_values :: "json \<Rightarrow> string list" where
  "string_values value = map str (list_of value)"

lemma string_values_simps [simp]:
  "string_values (JArr vs) = map str vs" "string_values JNull = []"
  by (simp_all add: string_values_def)

text \<open>\<open>brief\<close> (serialize.go): a selection of keys, nil for the missing ones.\<close>

definition brief :: "object \<Rightarrow> string list \<Rightarrow> object" where
  "brief row keys = map (\<lambda>k. (k, fld row k)) keys"

lemma fld_brief: "fld (brief row keys) k = (if k \<in> set keys then fld row k else JNull)"
  unfolding brief_def by (induction keys) auto

text \<open>
  \<open>==\<close> on interface values: values of different dynamic types are unequal, scalars compare by
  value, and two slices or two maps make the comparison panic (\<open>None\<close>).
\<close>

definition iface_eq :: "json \<Rightarrow> json \<Rightarrow> bool option" where
  "iface_eq a b = (case (a, b) of
       (JArr _, JArr _) \<Rightarrow> None
     | (JObj _, JObj _) \<Rightarrow> None
     | _ \<Rightarrow> Some (a = b))"

lemma iface_eq_scalar: "iface_eq a b = Some c \<Longrightarrow> c \<longleftrightarrow> a = b"
  by (auto simp: iface_eq_def split: json.splits)

subsection \<open>Numbers print and parse back\<close>

lemma digits_of_nonempty [simp]: "digits_of n \<noteq> []"
  by (subst digits_of.simps) simp

lemma digits_of_digit: "list_all digit (digits_of n)"
proof (induction n rule: digits_of.induct)
  case (1 n)
  have d: "digit (char_of (48 + n mod 10))" "n < 10 \<Longrightarrow> digit (char_of (48 + n))"
    by (simp_all add: digit_def)
  show ?case
    by (subst digits_of.simps) (use 1 d in simp)
qed

lemma digits_value_digits_of: "digits_value (digits_of n) = int n"
proof (induction n rule: digits_of.induct)
  case (1 n)
  show ?case
  proof (cases "n < 10")
    case True
    then show ?thesis by (subst digits_of.simps) (simp add: digits_value_def)
  next
    case False
    then have "digits_value (digits_of (n div 10)) = int (n div 10)" by (rule "1.IH")
    with False show ?thesis
      by (subst digits_of.simps) (simp add: digits_value_def zdiv_int zmod_int)
  qed
qed

lemma digits_of_sign: "hd (digits_of n) \<noteq> CHR ''-'' \<and> hd (digits_of n) \<noteq> CHR ''+''"
proof -
  have "digit (hd (digits_of n))"
    using digits_of_digit [of n] by (cases "digits_of n") auto
  then show ?thesis by (auto simp: digit_def byte_def)
qed

lemma parse_show_int:
  assumes "int64_min \<le> i" and "i \<le> int64_max"
  shows "parse_int (show_int i) = i"
proof -
  obtain c t where ct: "digits_of (nat \<bar>i\<bar>) = c # t" by (cases "digits_of (nat \<bar>i\<bar>)") auto
  have c: "c \<noteq> CHR ''-''" "c \<noteq> CHR ''+''" using digits_of_sign [of "nat \<bar>i\<bar>"] ct by auto
  have v: "digits_value (c # t) = \<bar>i\<bar>" "list_all digit (c # t)"
    using digits_value_digits_of [of "nat \<bar>i\<bar>"] digits_of_digit [of "nat \<bar>i\<bar>"] ct by auto
  have "parse_int_syntax (show_int i) = Some i"
    using v c ct by (cases "i < 0") (auto simp: show_int_def parse_int_syntax_def)
  then show ?thesis using assms by (simp add: parse_int_def clamp64_def)
qed

text \<open>An id prints as an integer exactly below one million.\<close>

lemma show_id_small:
  assumes "\<bar>i\<bar> < 1000000"
  shows "show_id i = show_int i"
proof -
  have "\<bar>of_int i :: rat\<bar> < 1000000" using assms by (metis of_int_abs of_int_less_iff of_int_numeral)
  moreover have "\<not> (0 < \<bar>of_int i :: rat\<bar> \<and> \<bar>of_int i :: rat\<bar> < 1 / 10000)"
  proof (cases "i = 0")
    case False
    then have "1 \<le> \<bar>i\<bar>" by simp
    then have "(1 :: rat) \<le> \<bar>of_int i\<bar>" by (metis of_int_1_le_iff of_int_abs)
    then show ?thesis by simp
  qed simp
  moreover have "\<lfloor>\<bar>of_int i :: rat\<bar>\<rfloor> = \<bar>i\<bar>" by (metis floor_of_int of_int_abs)
  ultimately show ?thesis
    by (auto simp: show_id_def show_num_def show_magnitude_def show_int_def Let_def numeral_eq_Suc)
qed

lemma show_id_large:
  assumes "1000000 \<le> i"
  shows "CHR ''e'' \<in> set (show_id i)"
proof -
  have r: "(1000000 :: rat) \<le> of_int i" using assms by (metis of_int_le_iff of_int_numeral)
  then have pos: "(0 :: rat) \<le> of_int i" by linarith
  have "\<exists>c \<in> set (digits_of (nat i)). c \<noteq> CHR ''0''"
  proof (rule ccontr)
    assume "\<not> ?thesis"
    then have z: "\<forall>c \<in> set (digits_of (nat i)). c = CHR ''0''" by simp
    have "foldl (\<lambda>n c. n * 10 + (int (byte c) - 48)) 0 ds = 0" if "\<forall>c \<in> set ds. c = CHR ''0''" for ds
      using that by (induction ds) (auto simp: byte_def)
    then have "digits_value (digits_of (nat i)) = 0" using z by (simp add: digits_value_def)
    then show False using assms digits_value_digits_of [of "nat i"] by simp
  qed
  then have "strip_zeros (digits_of (nat i)) \<noteq> []"
    by (auto simp: strip_zeros_def dropWhile_eq_Nil_conv)
  then show ?thesis
    using r pos by (auto simp: show_id_def show_num_def show_magnitude_def exponent_form_def Let_def
        numeral_eq_Suc split: list.splits)
qed

end
