(* ===== verification/GoTime.thy ===== *)
theory GoTime
  imports GoValues
begin

text \<open>
  Instants and calendar dates of package \<open>time\<close>. An instant is the number of nanoseconds since
  1970-01-01T00:00:00Z; Go's zero time is the instant \<open>zero_time\<close>. \<open>parse_rfc3339\<close> is
  \<open>time.Parse(time.RFC3339Nano, s)\<close> on the grammar of RFC 3339 (four-digit year, optional
  fraction, \<open>Z\<close> or a numeric offset); the single-digit hours and comma fractions that Go's general
  parser also lets through are treated as errors. \<open>parse_date\<close> is \<open>time.Parse("2006-01-02", s)\<close>.
\<close>

type_synonym instant = int

definition second :: int where "second = 1000000000"

text \<open>Days since 1970-01-01 in the proleptic Gregorian calendar.\<close>

definition days_from_civil :: "int \<Rightarrow> int \<Rightarrow> int \<Rightarrow> int" where
  "days_from_civil y m d =
     (let y' = (if m \<le> 2 then y - 1 else y);
          era = y' div 400; yoe = y' mod 400;
          doy = (153 * ((m + 9) mod 12) + 2) div 5 + d - 1;
          doe = yoe * 365 + yoe div 4 - yoe div 100 + doy
      in era * 146097 + doe - 719468)"

definition leap_year :: "int \<Rightarrow> bool" where
  "leap_year y \<longleftrightarrow> y mod 4 = 0 \<and> (y mod 100 \<noteq> 0 \<or> y mod 400 = 0)"

definition days_in :: "int \<Rightarrow> int \<Rightarrow> int" where
  "days_in m y = (if m = 2 then (if leap_year y then 29 else 28)
     else if m \<in> {4, 6, 9, 11} then 30 else 31)"

definition zero_time :: instant where
  "zero_time = days_from_civil 1 1 1 * 86400 * second"

text \<open>A field of exactly \<open>n\<close> digits within bounds.\<close>

definition fixed_digits :: "nat \<Rightarrow> int \<Rightarrow> int \<Rightarrow> string \<Rightarrow> (int \<times> string) option" where
  "fixed_digits n lo hi s =
     (let ds = take n s in
      if length ds = n \<and> list_all digit ds \<and> lo \<le> digits_value ds \<and> digits_value ds \<le> hi
      then Some (digits_value ds, drop n s) else None)"

definition expect :: "char \<Rightarrow> string \<Rightarrow> string option" where
  "expect c s = (case s of d # t \<Rightarrow> if d = c then Some t else None | [] \<Rightarrow> None)"

definition parse_ymd :: "string \<Rightarrow> ((int \<times> int \<times> int) \<times> string) option" where
  "parse_ymd s = Option.bind (fixed_digits 4 0 9999 s) (\<lambda>(y, s).
     Option.bind (expect (CHR ''-'') s) (\<lambda>s.
     Option.bind (fixed_digits 2 1 12 s) (\<lambda>(m, s).
     Option.bind (expect (CHR ''-'') s) (\<lambda>s.
     Option.bind (fixed_digits 2 1 (days_in m y) s) (\<lambda>(d, s).
     Some ((y, m, d), s))))))"

definition parse_hms :: "string \<Rightarrow> (int \<times> string) option" where
  "parse_hms s = Option.bind (fixed_digits 2 0 23 s) (\<lambda>(h, s).
     Option.bind (expect (CHR '':'') s) (\<lambda>s.
     Option.bind (fixed_digits 2 0 59 s) (\<lambda>(m, s).
     Option.bind (expect (CHR '':'') s) (\<lambda>s.
     Option.bind (fixed_digits 2 0 59 s) (\<lambda>(sec, s).
     Some (h * 3600 + m * 60 + sec, s))))))"

text \<open>The fraction, in nanoseconds: digits beyond the ninth are dropped.\<close>

definition fraction_value :: "string \<Rightarrow> int" where
  "fraction_value ds = digits_value (take 9 (ds @ replicate 9 (CHR ''0'')))"

definition parse_fraction :: "string \<Rightarrow> int \<times> string" where
  "parse_fraction s = (case s of
       c # d # t \<Rightarrow>
         (if c = CHR ''.'' \<and> digit d then
            let ds = takeWhile digit (d # t) in
            (fraction_value ds, drop (length ds) (d # t))
          else (0, s))
     | _ \<Rightarrow> (0, s))"

text \<open>The offset from UTC in seconds.\<close>

definition parse_zone :: "string \<Rightarrow> int option" where
  "parse_zone s = (if s = ''Z'' then Some 0
     else case s of
       c # t \<Rightarrow>
         (if c = CHR ''+'' \<or> c = CHR ''-'' then
            Option.bind (fixed_digits 2 0 24 t) (\<lambda>(h, t).
            Option.bind (expect (CHR '':'') t) (\<lambda>t.
            Option.bind (fixed_digits 2 0 59 t) (\<lambda>(m, t).
            if t = [] then Some ((if c = CHR ''-'' then -1 else 1) * (h * 3600 + m * 60)) else None)))
          else None)
     | [] \<Rightarrow> None)"

definition parse_rfc3339 :: "string \<Rightarrow> instant option" where
  "parse_rfc3339 s = Option.bind (parse_ymd s) (\<lambda>((y, m, d), s).
     Option.bind (expect (CHR ''T'') s) (\<lambda>s.
     Option.bind (parse_hms s) (\<lambda>(sec, s).
     Option.bind (parse_zone (snd (parse_fraction s))) (\<lambda>off.
     Some ((days_from_civil y m d * 86400 + sec - off) * second + fst (parse_fraction s))))))"

text \<open>\<open>t, _ := time.Parse(time.RFC3339Nano, s)\<close>: the zero time when the text does not parse.\<close>

definition time_or_zero :: "string \<Rightarrow> instant" where
  "time_or_zero s = (case parse_rfc3339 s of Some t \<Rightarrow> t | None \<Rightarrow> zero_time)"

definition parse_date :: "string \<Rightarrow> int option" where
  "parse_date s = (case parse_ymd s of
       Some ((y, m, d), []) \<Rightarrow> Some (days_from_civil y m d)
     | _ \<Rightarrow> None)"

text \<open>The civil date of a day number, and \<open>t.UTC().Format("2006-01-02T15:04:05.000000Z")\<close>.\<close>

definition civil_from_days :: "int \<Rightarrow> int \<times> int \<times> int" where
  "civil_from_days z =
     (let era = (z + 719468) div 146097; doe = (z + 719468) mod 146097;
          yoe = (doe - doe div 1460 + doe div 36524 - doe div 146096) div 365;
          doy = doe - (365 * yoe + yoe div 4 - yoe div 100);
          mp = (5 * doy + 2) div 153;
          m = (if mp < 10 then mp + 3 else mp - 9)
      in (yoe + era * 400 + (if m \<le> 2 then 1 else 0), m, doy - (153 * mp + 2) div 5 + 1))"

definition pad :: "nat \<Rightarrow> int \<Rightarrow> string" where
  "pad n i = (let ds = show_int i in replicate (n - length ds) (CHR ''0'') @ ds)"

definition format_micros :: "instant \<Rightarrow> string" where
  "format_micros t =
     (let (y, m, d) = civil_from_days (t div (86400 * second));
          s = t div second mod 86400
      in pad 4 y @ ''-'' @ pad 2 m @ ''-'' @ pad 2 d @ ''T'' @ pad 2 (s div 3600) @ '':'' @
         pad 2 (s div 60 mod 60) @ '':'' @ pad 2 (s mod 60) @ ''.'' @ pad 6 (t mod second div 1000) @ ''Z'')"

text \<open>\<open>t.Unix()\<close>.\<close>

definition unix :: "instant \<Rightarrow> int" where
  "unix t = t div second"

text \<open>Go's integer division truncates towards zero.\<close>

definition go_div :: "int \<Rightarrow> int \<Rightarrow> int" where
  "go_div a b = (if 0 \<le> a * b then \<bar>a\<bar> div \<bar>b\<bar> else - (\<bar>a\<bar> div \<bar>b\<bar>))"

lemma go_div_nonneg: "0 \<le> a \<Longrightarrow> 0 < b \<Longrightarrow> go_div a b = a div b"
  by (simp add: go_div_def)

lemma go_div_neg: "a < 0 \<Longrightarrow> 0 < b \<Longrightarrow> go_div a b \<le> 0"
  using mult_neg_pos [of a b] by (auto simp: go_div_def pos_imp_zdiv_nonneg_iff not_le)

text \<open>
  Years 0 to 9999 keep the seconds of an instant, and every difference of two of them, far inside
  \<open>int64\<close>.
\<close>

definition calendar_instant :: "instant \<Rightarrow> bool" where
  "calendar_instant t \<longleftrightarrow> - 62168000000 \<le> unix t \<and> unix t \<le> 253409000000"

lemma days_from_civil_bounds:
  assumes "0 \<le> y" "y \<le> 9999" "1 \<le> m" "m \<le> 12" "1 \<le> d" "d \<le> 31"
  shows "- 719530 \<le> days_from_civil y m d" and "days_from_civil y m d \<le> 2932970"
proof -
  define y' where "y' = (if m \<le> 2 then y - 1 else y)"
  have y': "-1 \<le> y'" "y' \<le> 9999" using assms by (auto simp: y'_def)
  define era yoe mp where "era = y' div 400" and "yoe = y' mod 400" and "mp = (m + 9) mod 12"
  have e: "y' = era * 400 + yoe" "0 \<le> yoe" "yoe < 400" by (auto simp: era_def yoe_def)
  have mp: "0 \<le> mp" "mp \<le> 11" by (auto simp: mp_def)
  have era: "-1 \<le> era" "era \<le> 24" using y' e by auto
  have low: "era = -1 \<Longrightarrow> yoe = 399" using y' e by auto
  define doy where "doy = (153 * mp + 2) div 5 + d - 1"
  have doy: "0 \<le> doy" "doy \<le> 367" using mp assms by (auto simp: doy_def)
  have early: "y' = -1 \<Longrightarrow> 306 \<le> doy"
  proof -
    assume "y' = -1"
    then have "m = 1 \<or> m = 2" using assms by (auto simp: y'_def split: if_splits)
    then have "10 \<le> mp" by (auto simp: mp_def)
    then show "306 \<le> doy" using assms by (auto simp: doy_def)
  qed
  have q: "0 \<le> yoe div 4" "yoe div 4 \<le> 99" "0 \<le> yoe div 100" "yoe div 100 \<le> 3"
    using e by auto
  have v: "days_from_civil y m d = era * 146097 + (yoe * 365 + yoe div 4 - yoe div 100 + doy) - 719468"
    by (simp add: days_from_civil_def Let_def y'_def era_def yoe_def mp_def doy_def)
  show "days_from_civil y m d \<le> 2932970"
    using v q e era doy by linarith
  show "- 719530 \<le> days_from_civil y m d"
  proof (cases "era = -1")
    case True
    then have "yoe = 399" "y' = -1" using low e by auto
    then show ?thesis using v True early by simp
  next
    case False
    then have "0 \<le> era" using era by simp
    moreover have "yoe div 100 \<le> yoe div 4" using e by auto
    ultimately show ?thesis using v e doy by linarith
  qed
qed

lemma fixed_digits_bounds:
  "fixed_digits n lo hi s = Some (v, t) \<Longrightarrow> lo \<le> v \<and> v \<le> hi"
  by (auto simp: fixed_digits_def Let_def split: if_splits)

lemma parse_ymd_bounds:
  "parse_ymd s = Some ((y, m, d), t) \<Longrightarrow>
     0 \<le> y \<and> y \<le> 9999 \<and> 1 \<le> m \<and> m \<le> 12 \<and> 1 \<le> d \<and> d \<le> days_in m y"
  by (auto simp: parse_ymd_def bind_eq_Some_conv dest!: fixed_digits_bounds)

lemma parse_hms_bounds: "parse_hms s = Some (v, t) \<Longrightarrow> 0 \<le> v \<and> v < 86400"
  by (auto simp: parse_hms_def bind_eq_Some_conv dest!: fixed_digits_bounds)

lemma parse_zone_bounds: "parse_zone s = Some v \<Longrightarrow> - 90000 \<le> v \<and> v \<le> 90000"
  by (auto simp: parse_zone_def bind_eq_Some_conv split: if_splits list.splits
      dest!: fixed_digits_bounds)

lemma digits_value_bounds:
  assumes "list_all digit s"
  shows "0 \<le> digits_value s \<and> digits_value s < 10 ^ length s"
  using assms
proof (induction s rule: rev_induct)
  case Nil
  then show ?case by (simp add: digits_value_def)
next
  case (snoc c s)
  then have d: "48 \<le> byte c" "byte c \<le> 57" and s: "0 \<le> digits_value s" "digits_value s < 10 ^ length s"
    by (auto simp: digit_def)
  have "digits_value (s @ [c]) = digits_value s * 10 + (int (byte c) - 48)"
    by (simp add: digits_value_def)
  moreover have "digits_value s * 10 + 9 < 10 ^ length s * 10" using s by linarith
  ultimately show ?case using d s by simp
qed

lemma fraction_value_bounds:
  assumes "list_all digit ds"
  shows "0 \<le> fraction_value ds \<and> fraction_value ds < second"
proof -
  let ?t = "take 9 (ds @ replicate 9 (CHR ''0''))"
  have "digit (CHR ''0'')" by (simp add: digit_def byte_def)
  then have "list_all digit (ds @ replicate 9 (CHR ''0''))"
    using assms by (auto simp: list_all_iff)
  then have "list_all digit ?t" by (metis append_take_drop_id list_all_append)
  moreover have "length ?t = 9" by simp
  ultimately show ?thesis
    using digits_value_bounds [of ?t] by (simp add: second_def fraction_value_def)
qed

lemma parse_fraction_bounds: "0 \<le> fst (parse_fraction s) \<and> fst (parse_fraction s) < second"
proof -
  have "list_all digit (takeWhile digit ds)" for ds
    by (auto simp: list_all_iff dest: set_takeWhileD)
  from fraction_value_bounds [OF this]
  have f: "0 \<le> fraction_value (takeWhile digit ds)" "fraction_value (takeWhile digit ds) < second"
    for ds by auto
  show ?thesis
    using f(2) [unfolded second_def]
    by (simp add: parse_fraction_def Let_def f(1) second_def split: list.splits
        del: takeWhile.simps)
qed

lemma parse_rfc3339_calendar:
  assumes "parse_rfc3339 s = Some t"
  shows "calendar_instant t"
proof -
  from assms obtain y m d s1 s2 sec s3 off where
    p: "parse_ymd s = Some ((y, m, d), s1)" "parse_hms s2 = Some (sec, s3)"
      "parse_zone (snd (parse_fraction s3)) = Some off"
      "t = (days_from_civil y m d * 86400 + sec - off) * second + fst (parse_fraction s3)"
    by (auto simp: parse_rfc3339_def bind_eq_Some_conv)
  have div: "(a * second + b) div second = a" if "0 \<le> b \<and> b < second" for a b
    using that by (simp add: second_def)
  have "unix t = days_from_civil y m d * 86400 + sec - off"
    unfolding p(4) unix_def by (rule div) (rule parse_fraction_bounds)
  moreover have "days_in m y \<le> 31" by (simp add: days_in_def)
  then have "- 719530 \<le> days_from_civil y m d \<and> days_from_civil y m d \<le> 2932970"
    using parse_ymd_bounds [OF p(1)] days_from_civil_bounds by force
  ultimately show ?thesis
    using parse_hms_bounds [OF p(2)] parse_zone_bounds [OF p(3)]
    by (auto simp: calendar_instant_def)
qed

end
