(* ===== verification/PoolPolicy.thy ===== *)
theory PoolPolicy
  imports GoTime
begin

text \<open>
  The pool policy of internal/platform/pools_policy.go: the validation of an edited policy
  (\<open>validatePoolPolicy\<close>), the requirement a standard stands for (\<open>standardJob\<close>) and the
  resolution of an application to the standard it is assessed by (\<open>resolveApplicationStandard\<close>).
  A policy is the JSON object the administrator edits; the job table is the parameter
  \<open>find_job\<close>, the content hash (config.go \<open>fingerprint\<close>, SHA-256 of the canonical JSON) the
  parameter \<open>fingerprint\<close>.
\<close>

subsection \<open>Items of a policy\<close>

text \<open>\<open>policyItem\<close>: nil is \<open>None\<close>. A string equals an interface value only if that is the string.\<close>

definition policyItem :: "object \<Rightarrow> string \<Rightarrow> string \<Rightarrow> object option" where
  "policyItem policy kind code =
     map_option obj (find (\<lambda>v. fld (obj v) ''code'' = JStr code) (list_of (fld policy kind)))"

definition active_item :: "object \<Rightarrow> bool" where
  "active_item item \<longleftrightarrow> fld item ''active'' \<noteq> JBool False"

definition activePolicyItem :: "object option \<Rightarrow> bool" where
  "activePolicyItem item = (case item of None \<Rightarrow> False | Some i \<Rightarrow> active_item i)"

text \<open>The regular expression \<open>^[a-z][a-z0-9_]{0,63}$\<close> of \<open>poolCode\<close>.\<close>

definition poolCode :: "string \<Rightarrow> bool" where
  "poolCode s = (case s of [] \<Rightarrow> False
     | c # t \<Rightarrow> 97 \<le> byte c \<and> byte c \<le> 122 \<and> length t \<le> 63 \<and>
         list_all (\<lambda>d. (97 \<le> byte d \<and> byte d \<le> 122) \<or> digit d \<or> d = CHR ''_'') t)"

definition emptyPoolPolicy :: object where
  "emptyPoolPolicy =
     [(''tags'', JArr []), (''pools'', JArr []), (''standards'', JArr []), (''rules'', JArr [])]"

text \<open>A comparison of interface values inside a condition: the run-time panic ends the handler.\<close>

definition compare_values :: "json \<Rightarrow> json \<Rightarrow> (bool \<Rightarrow> go_error + 'a) \<Rightarrow> go_error + 'a" where
  "compare_values a b k = (case iface_eq a b of None \<Rightarrow> Inl Panic | Some c \<Rightarrow> k c)"

subsection \<open>Validation\<close>

definition check_string_item :: "json \<Rightarrow> unit \<Rightarrow> go_error + unit" where
  "check_string_item v u = (case v of
       JStr s \<Rightarrow> ensure (\<not> blank s \<and> rune_count s \<le> 200) (bad ''list items must be non-empty texts'')
     | _ \<Rightarrow> Inl (bad ''list items must be non-empty texts''))"

definition validatePolicyStrings :: "json \<Rightarrow> go_error + unit" where
  "validatePolicyStrings value = (case value of
       JArr values \<Rightarrow>
         if 200 < length values then Inl (bad ''at most 200 items'')
         else foldE check_string_item values ()
     | _ \<Rightarrow> Inl (bad ''a list is required''))"

definition check_tag_code :: "object \<Rightarrow> string \<Rightarrow> string list \<Rightarrow> go_error + string list" where
  "check_tag_code policy tag seen =
     (if policyItem policy ''tags'' tag = None \<or> contains seen tag
      then Inl (bad ''unknown or repeated tag'') else Inr (tag # seen))"

definition check_tag_field :: "object \<Rightarrow> object \<Rightarrow> string \<Rightarrow> unit \<Rightarrow> go_error + unit" where
  "check_tag_field policy item field u =
     andThen (validatePolicyStrings (fld item field)) (\<lambda>_.
     andThen (foldE (check_tag_code policy) (string_values (fld item field)) []) (\<lambda>_. Inr ()))"

definition check_tag :: "object \<Rightarrow> go_error + unit" where
  "check_tag item =
     ensure (contains [''direction'', ''skill'', ''experience''] (str (fld item ''category''))
         \<and> \<not> blank (str (fld item ''description''))
         \<and> rune_count (str (fld item ''description'')) \<le> 1000)
       (bad ''a tag needs a category and a rule of evidence'')"

definition check_pool :: "object \<Rightarrow> go_error + unit" where
  "check_pool item = ensure (\<not> blank (str (fld item ''entity''))) (bad ''a pool needs an entity'')"

definition check_standard :: "object \<Rightarrow> object \<Rightarrow> object \<Rightarrow> go_error + unit" where
  "check_standard policy pool item =
     andThen (foldE (\<lambda>field u. validatePolicyStrings (fld item field))
        [''application_names'', ''required_majors''] ()) (\<lambda>_.
     andThen
       (if str (fld item ''configuration_issue'') = [] then
          compare_values (fld item ''entity'') (fld pool ''entity'') (\<lambda>same.
            ensure (same \<and> string_values (fld item ''application_names'') \<noteq> []
                \<and> \<not> blank (str (fld item ''responsibilities'')))
              (bad ''a standard needs its entity, application names and responsibilities''))
        else Inr ()) (\<lambda>_.
     andThen (foldE (\<lambda>name u. ensure (normalized name \<noteq> []) (bad ''empty application name''))
        (string_values (fld item ''application_names'')) ()) (\<lambda>_.
     foldE (check_tag_field policy item) [''tag_codes''] ())))"

definition check_rule ::
  "(int \<Rightarrow> object option) \<Rightarrow> object \<Rightarrow> object \<Rightarrow> object \<Rightarrow> go_error + unit" where
  "check_rule find_job policy pool item =
     (let v = float_value (fld item ''priority''); jobID = num (fld item ''job_id'') in
      if v < 0 \<or> 999 < v \<or> v \<noteq> of_int (num (fld item ''priority''))
      then Inl (bad ''the priority must be an integer from 0 to 999'')
      else if jobID \<le> 0 \<or> show_int jobID \<noteq> str (fld item ''job_id'')
      then Inl (bad ''a rule needs a valid job'')
      else case find_job jobID of
        None \<Rightarrow> Inl (bad ''the job and the pool have different entities'')
      | Some job \<Rightarrow>
          if normalized (str (fld job ''entity'')) \<noteq> normalized (str (fld pool ''entity''))
          then Inl (bad ''the job and the pool have different entities'')
          else if active_item item \<and>
            length (list_of (fld item ''required_tags'')) + length (list_of (fld item ''preferred_tags'')) = 0
          then Inl (bad ''an active rule needs a tag'')
          else foldE (check_tag_field policy item) [''required_tags'', ''preferred_tags''] ())"

definition item_code :: "string \<Rightarrow> object \<Rightarrow> string" where
  "item_code kind item = (if kind = ''rules'' then str (fld item ''job_id'') else str (fld item ''code''))"

definition check_item ::
  "(int \<Rightarrow> object option) \<Rightarrow> object \<Rightarrow> string \<Rightarrow> json \<Rightarrow> string list \<Rightarrow> go_error + string list" where
  "check_item find_job policy kind value seen =
     (let item = obj value; code = item_code kind item in
      if code = [] \<or> contains seen code then Inl (bad ''missing or repeated code'')
      else if kind \<noteq> ''rules'' \<and> (\<not> poolCode code \<or> blank (str (fld item ''name''))
          \<or> 100 < rune_count (str (fld item ''name'')))
      then Inl (bad ''invalid code or empty name'')
      else if has_key item ''active'' \<and> \<not> (case fld item ''active'' of JBool b \<Rightarrow> True | _ \<Rightarrow> False)
      then Inl (bad ''active must be a boolean'')
      else andThen
        (if kind = ''tags'' then check_tag item
         else if kind = ''pools'' then check_pool item
         else case policyItem policy ''pools'' (str (fld item ''pool_code'')) of
             None \<Rightarrow> Inl (bad ''unknown pool'')
           | Some pool \<Rightarrow> if kind = ''standards'' then check_standard policy pool item
                          else check_rule find_job policy pool item)
        (\<lambda>_. Inr (code # seen)))"

definition check_kind ::
  "(int \<Rightarrow> object option) \<Rightarrow> object \<Rightarrow> string \<Rightarrow> unit \<Rightarrow> go_error + unit" where
  "check_kind find_job policy kind u = (case fld policy kind of
       JArr values \<Rightarrow>
         if 2000 < length values \<or> (kind = ''tags'' \<and> 200 < length values)
         then Inl (bad ''invalid or too long list'')
         else andThen (foldE (check_item find_job policy kind) values []) (\<lambda>_. Inr ())
     | _ \<Rightarrow> Inl (bad ''invalid or too long list''))"

text \<open>The later passes over the whole policy.\<close>

definition count_rule :: "object \<Rightarrow> json \<Rightarrow> nat \<Rightarrow> go_error + nat" where
  "count_rule pool v n =
     (if active_item (obj v) then
        compare_values (fld (obj v) ''pool_code'') (fld pool ''code'')
          (\<lambda>same. Inr (if same then n + 1 else n))
      else Inr n)"

definition check_pool_size :: "object \<Rightarrow> json \<Rightarrow> unit \<Rightarrow> go_error + unit" where
  "check_pool_size policy value u =
     andThen (foldE (count_rule (obj value)) (list_of (fld policy ''rules'')) 0)
       (\<lambda>n. ensure (n \<le> 200) (bad ''too many active rules in one pool''))"

definition check_reachable :: "object \<Rightarrow> json \<Rightarrow> unit \<Rightarrow> go_error + unit" where
  "check_reachable standard v u =
     (let rule = obj v; codes = string_values (fld standard ''tag_codes'') in
      if \<not> active_item rule then Inr ()
      else compare_values (fld rule ''pool_code'') (fld standard ''pool_code'') (\<lambda>same.
        if \<not> same then Inr ()
        else ensure (list_all (contains codes)
            (string_values (fld rule ''required_tags'') @ string_values (fld rule ''preferred_tags'')))
          (bad ''a standard lacks a tag its demands need'')))"

definition check_standard_tags :: "object \<Rightarrow> json \<Rightarrow> unit \<Rightarrow> go_error + unit" where
  "check_standard_tags policy value u =
     (let standard = obj value in
      if \<not> active_item standard \<or> str (fld standard ''configuration_issue'') \<noteq> [] then Inr ()
      else foldE (check_reachable standard) (list_of (fld policy ''rules'')) ())"

definition mapping_key :: "object \<Rightarrow> string \<Rightarrow> string" where
  "mapping_key s name = normalized (str (fld s ''entity'')) @ [char_of (0x1f :: nat)] @ normalized name"

definition add_mapping :: "object \<Rightarrow> string \<Rightarrow> string list \<Rightarrow> go_error + string list" where
  "add_mapping s name mappings =
     (let key = mapping_key s name in
      if contains mappings key then Inl (bad ''two standards for one application name'')
      else Inr (key # mappings))"

definition add_mappings :: "json \<Rightarrow> string list \<Rightarrow> go_error + string list" where
  "add_mappings value mappings =
     (let s = obj value in
      if \<not> active_item s then Inr mappings
      else foldE (add_mapping s) (string_values (fld s ''application_names'')) mappings)"

definition validatePoolPolicy :: "(int \<Rightarrow> object option) \<Rightarrow> object \<Rightarrow> go_error + unit" where
  "validatePoolPolicy find_job policy =
     andThen (foldE (check_kind find_job policy) [''tags'', ''pools'', ''standards'', ''rules''] ()) (\<lambda>_.
     andThen (foldE (check_pool_size policy) (list_of (fld policy ''pools'')) ()) (\<lambda>_.
     andThen (foldE (check_standard_tags policy) (list_of (fld policy ''standards'')) ()) (\<lambda>_.
     andThen (foldE add_mappings (list_of (fld policy ''standards'')) []) (\<lambda>_. Inr ()))))"

subsection \<open>The requirement of a standard\<close>

definition standard_tags :: "object \<Rightarrow> object \<Rightarrow> object list" where
  "standard_tags policy standard =
     sort_key (\<lambda>t. str (fld t ''code'')) (List.map_filter (\<lambda>code.
       case policyItem policy ''tags'' code of
         Some tag \<Rightarrow> if active_item tag
           then Some (brief tag [''code'', ''name'', ''category'', ''description'']) else None
       | None \<Rightarrow> None) (string_values (fld standard ''tag_codes'')))"

definition standardJob :: "(json \<Rightarrow> string) \<Rightarrow> object \<Rightarrow> object \<Rightarrow> object" where
  "standardJob fingerprint policy standard =
     (let tags = JArr (map JObj (standard_tags policy standard));
          job = [(''ref'', JStr (str (fld standard ''code''))), (''entity'', fld standard ''entity''),
            (''public_name'', fld standard ''name''), (''position_name'', fld standard ''name''),
            (''category'', JStr []), (''job_family'', JStr []), (''location'', JStr []),
            (''education'', JStr (str (fld standard ''education''))),
            (''required_majors'', JArr (map JStr (string_values (fld standard ''required_majors'')))),
            (''responsibilities'', JStr (str (fld standard ''responsibilities''))),
            (''department_ref'', JStr []), (''department_name'', JStr [])];
          pool = policyItem policy ''pools'' (str (fld standard ''pool_code''))
      in put ''content_hash'' (JStr (fingerprint (JObj
           [(''requirement'', JObj job),
            (''pool'', JObj (brief (case pool of Some p \<Rightarrow> p | None \<Rightarrow> []) [''code'', ''entity''])),
            (''tags'', tags)]))) job)"

subsection \<open>The standard of an application\<close>

datatype resolution = Missing | Ambiguous | Resolved object

definition standard_applies :: "object \<Rightarrow> object \<Rightarrow> object \<Rightarrow> bool" where
  "standard_applies policy current s \<longleftrightarrow>
     active_item s \<and> activePolicyItem (policyItem policy ''pools'' (str (fld s ''pool_code''))) \<and>
     (normalized (str (fld current ''entity'')) = [] \<or>
      normalized (str (fld current ''entity'')) = normalized (str (fld s ''entity''))) \<and>
     (\<exists>name \<in> set (string_values (fld s ''application_names'')).
        normalized name = normalized (str (fld current ''position_name'')))"

text \<open>The loop over the standards; the comparison of two codes panics only on arrays or objects.\<close>

fun find_standard :: "object \<Rightarrow> object \<Rightarrow> json list \<Rightarrow> object option \<Rightarrow> go_error + resolution" where
  "find_standard policy current [] found =
     Inr (case found of None \<Rightarrow> Missing | Some s \<Rightarrow> Resolved s)"
| "find_standard policy current (v # vs) found =
     (let s = obj v in
      if \<not> standard_applies policy current s then find_standard policy current vs found
      else case found of
          None \<Rightarrow> find_standard policy current vs (Some s)
        | Some f \<Rightarrow> compare_values (fld f ''code'') (fld s ''code'') (\<lambda>same.
            if \<not> same then Inr Ambiguous else find_standard policy current vs (Some s)))"

definition mark_resolution :: "object \<Rightarrow> resolution \<Rightarrow> object" where
  "mark_resolution d r = (case r of
       Ambiguous \<Rightarrow> put ''status'' (JStr ''job_mapping_ambiguous'') d
     | Missing \<Rightarrow> put ''status'' (JStr ''assessment_standard_missing'') d
     | Resolved s \<Rightarrow>
         if str (fld s ''configuration_issue'') \<noteq> []
         then put ''status'' (JStr (str (fld s ''configuration_issue''))) d
         else if blank (str (fld s ''responsibilities''))
         then put ''status'' (JStr ''job_responsibility_missing'') d
         else put ''status'' (JStr ''ready'')
                (put ''job_refs'' (JArr [fld s ''code''])
                  (put ''pool_code'' (fld s ''pool_code'')
                    (put ''standard_code'' (fld s ''code'') d))))"

definition resolveApplicationStandard ::
  "object \<Rightarrow> object \<Rightarrow> object \<Rightarrow> go_error + object" where
  "resolveApplicationStandard snapshot current d =
     (let policy = obj (fld snapshot ''pool_policy'') in
      if blank (str (fld current ''entity'')) then Inr (mark_resolution d Missing)
      else andThen (find_standard policy current (list_of (fld policy ''standards'')) None)
        (\<lambda>r. Inr (mark_resolution d r)))"

subsection \<open>What the passes establish\<close>

lemma compare_values_Inr:
  "compare_values a b k = Inr r \<longleftrightarrow> (\<exists>c. iface_eq a b = Some c \<and> k c = Inr r)"
  by (auto simp: compare_values_def split: option.splits)

lemma check_kind_items:
  assumes "check_kind find_job policy kind () = Inr ()"
  shows "distinct (map (\<lambda>v. item_code kind (obj v)) (list_of (fld policy kind))) \<and>
    (\<forall>v \<in> set (list_of (fld policy kind)). \<exists>seen t. check_item find_job policy kind v seen = Inr t)"
proof -
  from assms obtain vs t where v: "fld policy kind = JArr vs"
      and f: "foldE (check_item find_job policy kind) vs [] = Inr t"
    by (auto simp: check_kind_def andThen_eq_Inr split: json.splits if_splits)
  have "distinct (map (\<lambda>v. item_code kind (obj v)) vs)
      \<and> (\<lambda>v. item_code kind (obj v)) ` set vs \<inter> set [] = {}
      \<and> (\<forall>v \<in> set vs. \<exists>seen t. check_item find_job policy kind v seen = Inr t)
      \<and> t = rev (map (\<lambda>v. item_code kind (obj v)) vs) @ []"
  proof (rule foldE_collect [OF f])
    fix x u w
    assume "check_item find_job policy kind x u = Inr w"
    moreover from this have "w = item_code kind (obj x) # u \<and> item_code kind (obj x) \<notin> set u"
      by (auto simp: check_item_def Let_def andThen_eq_Inr split: if_splits)
    ultimately show "w = item_code kind (obj x) # u \<and> item_code kind (obj x) \<notin> set u \<and>
        (\<exists>seen t. check_item find_job policy kind x seen = Inr t)" by blast
  qed
  then show ?thesis by (simp add: v)
qed

lemma check_tag_field_Inr:
  assumes "check_tag_field policy item field () = Inr ()"
  shows "distinct (string_values (fld item field)) \<and>
    (\<forall>tag \<in> set (string_values (fld item field)). policyItem policy ''tags'' tag \<noteq> None)"
proof -
  from assms obtain t where f: "foldE (check_tag_code policy) (string_values (fld item field)) [] = Inr t"
    by (auto simp: check_tag_field_def andThen_eq_Inr)
  have "distinct (map (\<lambda>c. c) (string_values (fld item field)))
      \<and> (\<lambda>c. c) ` set (string_values (fld item field)) \<inter> set [] = {}
      \<and> (\<forall>tag \<in> set (string_values (fld item field)). policyItem policy ''tags'' tag \<noteq> None)
      \<and> t = rev (map (\<lambda>c. c) (string_values (fld item field))) @ []"
    by (rule foldE_collect [OF f]) (auto simp: check_tag_code_def split: if_splits)
  then show ?thesis by simp
qed

lemma check_standard_item:
  assumes "check_item find_job policy ''standards'' v seen = Inr t"
  shows "\<exists>pool. policyItem policy ''pools'' (str (fld (obj v) ''pool_code'')) = Some pool \<and>
    check_standard policy pool (obj v) = Inr ()"
  using assms
  by (auto simp: check_item_def Let_def andThen_eq_Inr split: if_splits option.splits)

lemma check_rule_item:
  assumes "check_item find_job policy ''rules'' v seen = Inr t"
  shows "\<exists>pool. policyItem policy ''pools'' (str (fld (obj v) ''pool_code'')) = Some pool \<and>
    check_rule find_job policy pool (obj v) = Inr ()"
  using assms
  by (auto simp: check_item_def Let_def andThen_eq_Inr split: if_splits option.splits)

lemma check_standard_tags_known:
  "check_standard policy pool item = Inr () \<Longrightarrow>
    \<forall>tag \<in> set (string_values (fld item ''tag_codes'')). policyItem policy ''tags'' tag \<noteq> None"
  by (auto simp: check_standard_def andThen_eq_Inr dest!: check_tag_field_Inr)

lemma check_rule_facts:
  assumes "check_rule find_job policy pool item = Inr ()"
  shows "0 \<le> float_value (fld item ''priority'') \<and> float_value (fld item ''priority'') \<le> 999 \<and>
    float_value (fld item ''priority'') = of_int (num (fld item ''priority'')) \<and>
    (\<exists>job. find_job (num (fld item ''job_id'')) = Some job \<and>
       normalized (str (fld job ''entity'')) = normalized (str (fld pool ''entity''))) \<and>
    (\<forall>tag \<in> set (string_values (fld item ''required_tags'') @ string_values (fld item ''preferred_tags'')).
       policyItem policy ''tags'' tag \<noteq> None)"
  using assms
  by (auto simp: check_rule_def Let_def andThen_eq_Inr split: if_splits option.splits
      dest!: check_tag_field_Inr)

text \<open>The mappings of the active standards, and that the last pass keeps them apart.\<close>

definition mapping_keys :: "json \<Rightarrow> string list" where
  "mapping_keys v = (if active_item (obj v)
     then map (mapping_key (obj v)) (string_values (fld (obj v) ''application_names'')) else [])"

lemma add_mappings_Inr:
  assumes "add_mappings v m = Inr t" and "distinct m"
  shows "t = rev (mapping_keys v) @ m \<and> distinct t"
proof (cases "active_item (obj v)")
  case False
  then show ?thesis using assms by (simp add: add_mappings_def mapping_keys_def)
next
  case True
  then have f: "foldE (add_mapping (obj v)) (string_values (fld (obj v) ''application_names'')) m = Inr t"
    using assms(1) by (simp add: add_mappings_def Let_def)
  have "distinct (map (mapping_key (obj v)) (string_values (fld (obj v) ''application_names''))) \<and>
      mapping_key (obj v) ` set (string_values (fld (obj v) ''application_names'')) \<inter> set m = {} \<and>
      (\<forall>x \<in> set (string_values (fld (obj v) ''application_names'')). True) \<and>
      t = rev (map (mapping_key (obj v)) (string_values (fld (obj v) ''application_names''))) @ m"
    by (rule foldE_collect [OF f]) (auto simp: add_mapping_def Let_def split: if_splits)
  then show ?thesis using True assms(2) by (auto simp: mapping_keys_def)
qed

lemma all_mappings_distinct:
  assumes "foldE add_mappings vs m = Inr t" and "distinct m"
  shows "distinct (rev (concat (map mapping_keys vs)) @ m)"
  using assms
proof (induction vs arbitrary: m)
  case Nil
  then show ?case by simp
next
  case (Cons v vs)
  from Cons.prems(1) obtain u where u: "add_mappings v m = Inr u" "foldE add_mappings vs u = Inr t"
    by (auto simp: andThen_eq_Inr)
  have e: "u = rev (mapping_keys v) @ m" "distinct u"
    using add_mappings_Inr [OF u(1) Cons.prems(2)] by auto
  show ?case using Cons.IH [OF u(2) e(2)] by (simp add: e(1))
qed

lemma validatePoolPolicy_passes:
  assumes "validatePoolPolicy find_job policy = Inr ()"
  shows "\<And>kind. kind \<in> {''tags'', ''pools'', ''standards'', ''rules''} \<Longrightarrow>
      check_kind find_job policy kind () = Inr ()"
    and "\<forall>v \<in> set (list_of (fld policy ''pools'')). check_pool_size policy v () = Inr ()"
    and "\<forall>v \<in> set (list_of (fld policy ''standards'')). check_standard_tags policy v () = Inr ()"
    and "distinct (concat (map mapping_keys (list_of (fld policy ''standards''))))"
proof -
  have *: "foldE (check_kind find_job policy) [''tags'', ''pools'', ''standards'', ''rules''] () = Inr ()"
      "foldE (check_pool_size policy) (list_of (fld policy ''pools'')) () = Inr ()"
      "foldE (check_standard_tags policy) (list_of (fld policy ''standards'')) () = Inr ()"
      "\<exists>t. foldE add_mappings (list_of (fld policy ''standards'')) [] = Inr t"
    using assms unfolding validatePoolPolicy_def by (auto simp add: andThen_eq_Inr simp del: foldE.simps)
  show "\<And>kind. kind \<in> {''tags'', ''pools'', ''standards'', ''rules''} \<Longrightarrow>
      check_kind find_job policy kind () = Inr ()"
    using *(1) unfolding foldE_unit by auto
  show "\<forall>v \<in> set (list_of (fld policy ''pools'')). check_pool_size policy v () = Inr ()"
    using *(2) unfolding foldE_unit .
  show "\<forall>v \<in> set (list_of (fld policy ''standards'')). check_standard_tags policy v () = Inr ()"
    using *(3) unfolding foldE_unit .
  show "distinct (concat (map mapping_keys (list_of (fld policy ''standards''))))"
    using *(4) all_mappings_distinct [of _ "[]"] by (auto simp: distinct_rev)
qed

lemma check_standard_tags_reach:
  assumes "check_standard_tags policy v () = Inr ()"
    and "active_item (obj v)" and "str (fld (obj v) ''configuration_issue'') = []"
    and "r \<in> set (list_of (fld policy ''rules''))" and "active_item (obj r)"
    and "fld (obj r) ''pool_code'' = fld (obj v) ''pool_code''"
  shows "set (string_values (fld (obj r) ''required_tags'') @ string_values (fld (obj r) ''preferred_tags''))
    \<subseteq> set (string_values (fld (obj v) ''tag_codes''))"
proof -
  have "check_reachable (obj v) r () = Inr ()"
    using assms(1-4) unfolding check_standard_tags_def Let_def by (simp add: foldE_unit)
  then obtain c where "iface_eq (fld (obj r) ''pool_code'') (fld (obj v) ''pool_code'') = Some c"
      "\<not> c \<or> list_all (contains (string_values (fld (obj v) ''tag_codes'')))
        (string_values (fld (obj r) ''required_tags'') @ string_values (fld (obj r) ''preferred_tags''))"
    using assms(5) by (auto simp: check_reachable_def Let_def compare_values_Inr split: if_splits)
  then show ?thesis using iface_eq_scalar assms(6) by (fastforce simp: list_all_iff)
qed

text \<open>What the other components rely on in a policy that was accepted.\<close>

definition policy_contract :: "(int \<Rightarrow> object option) \<Rightarrow> object \<Rightarrow> bool" where
  "policy_contract find_job policy \<longleftrightarrow>
     (\<forall>kind \<in> {''tags'', ''pools'', ''standards'', ''rules''}.
        distinct (map (\<lambda>v. item_code kind (obj v)) (list_of (fld policy kind)))) \<and>
     distinct (concat (map mapping_keys (list_of (fld policy ''standards'')))) \<and>
     (\<forall>v \<in> set (list_of (fld policy ''standards'')).
        policyItem policy ''pools'' (str (fld (obj v) ''pool_code'')) \<noteq> None \<and>
        (\<forall>tag \<in> set (string_values (fld (obj v) ''tag_codes'')). policyItem policy ''tags'' tag \<noteq> None)) \<and>
     (\<forall>r \<in> set (list_of (fld policy ''rules'')).
        \<exists>pool job. policyItem policy ''pools'' (str (fld (obj r) ''pool_code'')) = Some pool \<and>
          find_job (num (fld (obj r) ''job_id'')) = Some job \<and>
          normalized (str (fld job ''entity'')) = normalized (str (fld pool ''entity'')) \<and>
          float_value (fld (obj r) ''priority'') \<in> of_int ` {0..999} \<and>
          (\<forall>tag \<in> set (string_values (fld (obj r) ''required_tags'')
              @ string_values (fld (obj r) ''preferred_tags'')). policyItem policy ''tags'' tag \<noteq> None)) \<and>
     (\<forall>v \<in> set (list_of (fld policy ''standards'')). \<forall>r \<in> set (list_of (fld policy ''rules'')).
        active_item (obj v) \<and> str (fld (obj v) ''configuration_issue'') = [] \<and> active_item (obj r) \<and>
        fld (obj r) ''pool_code'' = fld (obj v) ''pool_code'' \<longrightarrow>
        set (string_values (fld (obj r) ''required_tags'') @ string_values (fld (obj r) ''preferred_tags''))
          \<subseteq> set (string_values (fld (obj v) ''tag_codes'')))"

lemma accepted_rule:
  assumes "validatePoolPolicy find_job policy = Inr ()" and "r \<in> set (list_of (fld policy ''rules''))"
  shows "\<exists>pool job. policyItem policy ''pools'' (str (fld (obj r) ''pool_code'')) = Some pool \<and>
    find_job (num (fld (obj r) ''job_id'')) = Some job \<and>
    normalized (str (fld job ''entity'')) = normalized (str (fld pool ''entity'')) \<and>
    float_value (fld (obj r) ''priority'') \<in> of_int ` {0..999} \<and>
    (\<forall>tag \<in> set (string_values (fld (obj r) ''required_tags'')
        @ string_values (fld (obj r) ''preferred_tags'')). policyItem policy ''tags'' tag \<noteq> None)"
proof -
  have "check_kind find_job policy ''rules'' () = Inr ()"
    by (rule validatePoolPolicy_passes(1) [OF assms(1)]) simp
  then obtain pool where p: "policyItem policy ''pools'' (str (fld (obj r) ''pool_code'')) = Some pool"
      "check_rule find_job policy pool (obj r) = Inr ()"
    using check_kind_items check_rule_item assms(2) by blast
  have "0 \<le> num (fld (obj r) ''priority'')" "num (fld (obj r) ''priority'') \<le> 999"
    using check_rule_facts [OF p(2)] by (metis of_int_0_le_iff, metis of_int_le_numeral_iff)
  then show ?thesis using p check_rule_facts [OF p(2)] by fastforce
qed

lemma accepted_standard:
  assumes "validatePoolPolicy find_job policy = Inr ()" and "v \<in> set (list_of (fld policy ''standards''))"
  shows "policyItem policy ''pools'' (str (fld (obj v) ''pool_code'')) \<noteq> None \<and>
    (\<forall>tag \<in> set (string_values (fld (obj v) ''tag_codes'')). policyItem policy ''tags'' tag \<noteq> None)"
proof -
  have "check_kind find_job policy ''standards'' () = Inr ()"
    by (rule validatePoolPolicy_passes(1) [OF assms(1)]) simp
  then obtain seen t where "check_item find_job policy ''standards'' v seen = Inr t"
    using check_kind_items assms(2) by blast
  from check_standard_item [OF this] show ?thesis using check_standard_tags_known by fastforce
qed

subsection \<open>The loop over the standards\<close>

lemma find_standard_none:
  "filter (\<lambda>v. standard_applies policy current (obj v)) vs = [] \<Longrightarrow>
    find_standard policy current vs found = Inr (case found of None \<Rightarrow> Missing | Some s \<Rightarrow> Resolved s)"
  by (induction vs arbitrary: found) (auto simp: Let_def split: if_splits)

lemma find_standard_unique:
  "length (filter (\<lambda>v. standard_applies policy current (obj v)) vs) \<le> 1 \<Longrightarrow>
    find_standard policy current vs None =
      Inr (case filter (\<lambda>v. standard_applies policy current (obj v)) vs of
             [] \<Rightarrow> Missing | v # _ \<Rightarrow> Resolved (obj v))"
  by (induction vs) (auto simp: Let_def find_standard_none split: if_splits)

lemma applying_standard_key:
  assumes "standard_applies policy current (obj v)" and "normalized (str (fld current ''entity'')) \<noteq> []"
  shows "normalized (str (fld current ''entity'')) @ [char_of (0x1f :: nat)]
    @ normalized (str (fld current ''position_name'')) \<in> set (mapping_keys v)"
proof -
  from assms(1) obtain name where n: "name \<in> set (string_values (fld (obj v) ''application_names''))"
      "normalized name = normalized (str (fld current ''position_name''))" "active_item (obj v)"
    by (auto simp: standard_applies_def)
  moreover have "normalized (str (fld current ''entity'')) = normalized (str (fld (obj v) ''entity''))"
    using assms by (auto simp: standard_applies_def)
  moreover have "mapping_key (obj v) name \<in> set (mapping_keys v)"
    using n by (simp add: mapping_keys_def)
  ultimately show ?thesis by (simp add: mapping_key_def)
qed

subsection \<open>A small policy\<close>

definition sample_policy :: "json \<Rightarrow> json \<Rightarrow> object" where
  "sample_policy pool_entity standard_entity =
     [(''tags'', JArr [JObj [(''code'', JStr ''go''), (''name'', JStr ''Go''),
        (''category'', JStr ''skill''), (''description'', JStr ''writes Go'')]]),
      (''pools'', JArr [JObj [(''code'', JStr ''dev''), (''name'', JStr ''Dev''),
        (''entity'', pool_entity)]]),
      (''standards'', JArr [JObj [(''code'', JStr ''std''), (''name'', JStr ''Std''),
        (''entity'', standard_entity), (''pool_code'', JStr ''dev''),
        (''application_names'', JArr [JStr ''Engineer'']), (''required_majors'', JArr []),
        (''responsibilities'', JStr ''code''), (''tag_codes'', JArr [JStr ''go''])]]),
      (''rules'', JArr [JObj [(''job_id'', JNum 7), (''pool_code'', JStr ''dev''),
        (''required_tags'', JArr [JStr ''go'']), (''preferred_tags'', JArr []),
        (''priority'', JNum 1)]])]"

definition sample_jobs :: "int \<Rightarrow> object option" where
  "sample_jobs i = (if i = 7 then Some [(''entity'', JStr ''ACME'')] else None)"

lemma sample_policy_accepted:
  "validatePoolPolicy sample_jobs (sample_policy (JStr ''ACME'') (JStr ''ACME'')) = Inr ()"
  by code_simp

subsection \<open>Properties\<close>

text \<open>C22. A policy that passes validation keeps its contract with the allocation and the screening:
  codes are unique in each list, no two application names of the active standards give the same
  mapping key of entity and position, every reference to a pool, tag or job resolves, a rule's job has
  the entity of its pool and an integral priority from 0 to 999, and an active usable standard
  assesses every tag that an active rule of its pool needs.\<close>

theorem validated_policy_contract:
  assumes "validatePoolPolicy find_job policy = Inr ()"
  shows "policy_contract find_job policy"
proof -
  have keys: "\<forall>kind \<in> {''tags'', ''pools'', ''standards'', ''rules''}.
      distinct (map (\<lambda>v. item_code kind (obj v)) (list_of (fld policy kind)))"
  proof
    fix kind
    assume k: "kind \<in> {''tags'', ''pools'', ''standards'', ''rules''}"
    show "distinct (map (\<lambda>v. item_code kind (obj v)) (list_of (fld policy kind)))"
      using check_kind_items [OF validatePoolPolicy_passes(1) [OF assms k]] by (rule conjunct1)
  qed
  have reach: "\<forall>v \<in> set (list_of (fld policy ''standards'')). \<forall>r \<in> set (list_of (fld policy ''rules'')).
      active_item (obj v) \<and> str (fld (obj v) ''configuration_issue'') = [] \<and> active_item (obj r) \<and>
      fld (obj r) ''pool_code'' = fld (obj v) ''pool_code'' \<longrightarrow>
      set (string_values (fld (obj r) ''required_tags'') @ string_values (fld (obj r) ''preferred_tags''))
        \<subseteq> set (string_values (fld (obj v) ''tag_codes''))"
    by (intro ballI impI, rule check_standard_tags_reach, rule bspec [OF validatePoolPolicy_passes(3) [OF assms]])
      (erule conjE | assumption)+
  show ?thesis
    unfolding policy_contract_def
    by (rule conjI keys reach validatePoolPolicy_passes(4) [OF assms]
        | (rule ballI, rule accepted_standard [OF assms], assumption)
        | (rule ballI, rule accepted_rule [OF assms], assumption))+
qed

theorem validated_policy_contract_witness:
  "policy_contract sample_jobs (sample_policy (JStr ''ACME'') (JStr ''ACME''))"
  by (rule validated_policy_contract [OF sample_policy_accepted])

text \<open>C23. Under a validated policy an application resolves without a panic and is never ambiguous:
  at most one active standard with an active pool covers its entity and position, and the result is
  that standard's (ready, or its configuration issue, or the missing responsibilities), or the
  standard is reported missing.\<close>

theorem validated_policy_resolves:
  assumes "validatePoolPolicy find_job policy = Inr ()" and "obj (fld snapshot ''pool_policy'') = policy"
    and "applying = filter (\<lambda>v. standard_applies policy current (obj v)) (list_of (fld policy ''standards''))"
  shows "resolveApplicationStandard snapshot current d = Inr (mark_resolution d
      (if blank (str (fld current ''entity'')) \<or> applying = [] then Missing
       else Resolved (obj (hd applying)))) \<and>
    (\<not> blank (str (fld current ''entity'')) \<longrightarrow> length applying \<le> 1)"
proof (cases "blank (str (fld current ''entity''))")
  case True
  then show ?thesis by (simp add: resolveApplicationStandard_def)
next
  case False
  then have n: "normalized (str (fld current ''entity'')) \<noteq> []" by (rule normalized_nonempty)
  have one: "length applying \<le> 1"
    unfolding assms(3)
    by (rule filter_at_most_one [OF validatePoolPolicy_passes(4) [OF assms(1)]])
       (rule applying_standard_key [OF _ n])
  have "find_standard policy current (list_of (fld policy ''standards'')) None =
      Inr (if applying = [] then Missing else Resolved (obj (hd applying)))"
    using find_standard_unique [OF one [unfolded assms(3)]] by (auto simp: assms(3) split: list.splits)
  then show ?thesis using False one by (simp add: resolveApplicationStandard_def assms(2) Let_def)
qed

theorem validated_policy_resolves_witness:
  "\<exists>applying. resolveApplicationStandard
      [(''pool_policy'', JObj (sample_policy (JStr ''ACME'') (JStr ''ACME'')))]
      [(''entity'', JStr ''acme''), (''position_name'', JStr '' engineer'')] [] =
    Inr (mark_resolution [] (if blank ''acme'' \<or> applying = [] then Missing
      else Resolved (obj (hd applying)))) \<and> length applying \<le> 1 \<and> \<not> blank ''acme''"
proof -
  have "\<not> blank ''acme''" by code_simp
  then show ?thesis
    using validated_policy_resolves [OF sample_policy_accepted, OF _ refl, of
      "[(''pool_policy'', JObj (sample_policy (JStr ''ACME'') (JStr ''ACME'')))]"
      "[(''entity'', JStr ''acme''), (''position_name'', JStr '' engineer'')]" "[]"]
    by auto
qed

text \<open>Entities are compared as interface values: when a pool and a standard that uses it both
  carry a list as entity, the comparison panics instead of rejecting the policy.\<close>

theorem entity_lists_panic:
  "validatePoolPolicy sample_jobs (sample_policy (JArr [JStr ''ACME'']) (JArr [JStr ''ACME''])) = Inl Panic"
  by code_simp

end
