(* ===== verification/AllocationPlan.thy ===== *)
theory AllocationPlan
  imports GoTime
begin

text \<open>
  The allocation engine (internal/platform/allocation_policy.go over the protocol types of
  internal/contract/allocation_types.go): the platform recomputes the Kernel's plan from the frozen
  snapshot (\<open>expectedAllocation\<close>) and accepts a result only when it is that plan
  (\<open>validateAllocationResult\<close>). Counters of the protocol are \<open>int\<close>; the source's \<open>int64\<close> counters
  stay below the number of assignments ever made.
\<close>

subsection \<open>Protocol types\<close>

record alloc_pin =
  pin_id :: string
  pin_kernel_build :: string
  pin_protocol_version :: string
  pin_result_schema_version :: string
  pin_toolset_version :: string
  pin_policy_version :: string
  pin_instruction_version :: string

record alloc_tag =
  at_code :: string
  at_status :: string
  at_bps :: int
  at_source :: string
  at_ref :: string
  at_verified :: bool

record alloc_member =
  am_id :: int
  am_candidate_ref :: string
  am_application_ref :: string
  am_qualification_ref :: string
  am_qualification_revision :: int
  am_member_revision :: int
  am_workflow_revision :: int
  am_source_revision :: int
  am_standard_ref :: string
  am_standard_hash :: string
  am_tags_hash :: string
  am_admitted :: bool
  am_created_at :: string
  am_tags :: "alloc_tag list"
  am_allowed :: "int list"
  am_counted :: "int list"

record alloc_demand =
  ad_id :: int
  ad_department_ref :: string
  ad_revision :: int
  ad_reception_state :: string
  ad_required :: "string list"
  ad_preferred :: "string list"
  ad_priority :: int
  ad_recent_supply :: int
  ad_last_sequence :: int

record alloc_snapshot =
  as_id :: string
  as_at :: string
  as_scope_ref :: string
  as_entity_ref :: string
  as_pool_ref :: string
  as_scope_revision :: int
  as_policy_revision :: int
  as_epoch :: int
  as_next_sequence :: int
  as_window_seconds :: int
  as_members :: "alloc_member list"
  as_demands :: "alloc_demand list"

record alloc_request =
  rq_task_id :: string
  rq_idempotency_key :: string
  rq_pin :: alloc_pin
  rq_snapshot_hash :: string
  rq_snapshot :: alloc_snapshot

record alloc_decision =
  dn_member :: int
  dn_qualification_ref :: string
  dn_action :: string
  dn_demand :: int
  dn_department_ref :: string
  dn_matched :: "string list"
  dn_assertions :: "string list"
  dn_order :: "int list"
  dn_sequence :: int
  dn_reason :: string

record alloc_response =
  rs_protocol_version :: string
  rs_result_schema_version :: string
  rs_task_id :: string
  rs_idempotency_key :: string
  rs_pin :: alloc_pin
  rs_snapshot_hash :: string
  rs_terminal_state :: string
  rs_decisions :: "alloc_decision list"

subsection \<open>Tags and demands of one member\<close>

text \<open>The tags a member may be placed by: verified, supported, and manual or at least 80% sure.\<close>

definition usable_tag :: "alloc_tag \<Rightarrow> bool" where
  "usable_tag t \<longleftrightarrow> at_verified t \<and> at_status t = ''supported'' \<and>
     (at_source t = ''manual'' \<or> 8000 \<le> at_bps t)"

text \<open>The Go map \<open>tags\<close> from code to assertion reference; a missing key reads as the empty text.\<close>

definition tag_refs :: "alloc_tag list \<Rightarrow> string \<Rightarrow> string" where
  "tag_refs ts = fold (\<lambda>t f. if usable_tag t then f(at_code t := at_ref t) else f) ts (\<lambda>_. [])"

definition open_demand :: "alloc_member \<Rightarrow> alloc_demand \<Rightarrow> bool" where
  "open_demand m d \<longleftrightarrow> ad_id d \<in> set (am_allowed m) \<and> ad_reception_state d = ''receiving''"

text \<open>The keys of the Go map \<open>matched\<close>, sorted: every required code and the preferred ones held.\<close>

definition matched_tags :: "(string \<Rightarrow> string) \<Rightarrow> alloc_demand \<Rightarrow> string list" where
  "matched_tags tags d =
     sort (remdups (ad_required d @ filter (\<lambda>c. tags c \<noteq> []) (ad_preferred d)))"

definition preferred_hits :: "(string \<Rightarrow> string) \<Rightarrow> alloc_demand \<Rightarrow> int" where
  "preferred_hits tags d = int (length (filter (\<lambda>c. tags c \<noteq> []) (ad_preferred d)))"

definition tags_suffice :: "(string \<Rightarrow> string) \<Rightarrow> alloc_demand \<Rightarrow> bool" where
  "tags_suffice tags d \<longleftrightarrow>
     list_all (\<lambda>c. tags c \<noteq> []) (ad_required d) \<and> matched_tags tags d \<noteq> []"

definition demand_rank ::
  "(string \<Rightarrow> string) \<Rightarrow> (int \<Rightarrow> int) \<Rightarrow> (int \<Rightarrow> int) \<Rightarrow> alloc_demand \<Rightarrow> int list" where
  "demand_rank tags counts last_seq d =
     [- preferred_hits tags d, ad_priority d, counts (ad_id d), last_seq (ad_id d), ad_id d]"

text \<open>The loop that compares two orders element by element.\<close>

fun order_less :: "int list \<Rightarrow> int list \<Rightarrow> bool" where
  "order_less (n # ns) (o1 # os) = (if n \<noteq> o1 then n < o1 else order_less ns os)"
| "order_less _ _ = False"

subsection \<open>The decision for one member\<close>

definition initial_decision :: "alloc_member \<Rightarrow> alloc_decision" where
  "initial_decision m =
     \<lparr> dn_member = am_id m, dn_qualification_ref = am_qualification_ref m, dn_action = ''wait'',
       dn_demand = 0, dn_department_ref = [], dn_matched = [], dn_assertions = [], dn_order = [],
       dn_sequence = 0,
       dn_reason = (if am_allowed m = [] then ''no_active_mapping'' else ''no_receiving_demand'') \<rparr>"

definition assign_decision ::
  "alloc_member \<Rightarrow> (string \<Rightarrow> string) \<Rightarrow> int \<Rightarrow> int list \<Rightarrow> alloc_demand \<Rightarrow> alloc_decision" where
  "assign_decision m tags seq order d =
     \<lparr> dn_member = am_id m, dn_qualification_ref = am_qualification_ref m, dn_action = ''assign'',
       dn_demand = ad_id d, dn_department_ref = ad_department_ref d,
       dn_matched = matched_tags tags d, dn_assertions = map tags (matched_tags tags d),
       dn_order = order, dn_sequence = seq, dn_reason = ''allocated'' \<rparr>"

text \<open>The body of the loop over the demands.\<close>

definition weigh_demand ::
  "alloc_member \<Rightarrow> (string \<Rightarrow> string) \<Rightarrow> (int \<Rightarrow> int) \<Rightarrow> (int \<Rightarrow> int) \<Rightarrow> int
    \<Rightarrow> alloc_decision \<Rightarrow> alloc_demand \<Rightarrow> alloc_decision" where
  "weigh_demand m tags counts last_seq seq r d =
     (if \<not> open_demand m d then r
      else
        let r = (if dn_action r = ''wait'' then r\<lparr>dn_reason := ''required_tags_unavailable''\<rparr> else r)
        in if \<not> tags_suffice tags d then r
           else let order = demand_rank tags counts last_seq d
                in if dn_action r = ''wait'' \<or> order_less order (dn_order r)
                   then assign_decision m tags seq order d else r)"

definition decide ::
  "alloc_demand list \<Rightarrow> (int \<Rightarrow> int) \<Rightarrow> (int \<Rightarrow> int) \<Rightarrow> int \<Rightarrow> alloc_member \<Rightarrow> alloc_decision" where
  "decide ds counts last_seq seq m =
     foldl (weigh_demand m (tag_refs (am_tags m)) counts last_seq seq) (initial_decision m) ds"

subsection \<open>The plan\<close>

fun allocate ::
  "alloc_demand list \<Rightarrow> (int \<Rightarrow> int) \<Rightarrow> (int \<Rightarrow> int) \<Rightarrow> int \<Rightarrow> alloc_member list \<Rightarrow> alloc_decision list"
where
  "allocate ds counts last_seq seq [] = []"
| "allocate ds counts last_seq seq (m # ms) =
     (let r = decide ds counts last_seq seq m in
      if dn_action r = ''assign'' then
        r # allocate ds
              (if dn_demand r \<in> set (am_counted m) then counts
               else counts(dn_demand r := counts (dn_demand r) + 1))
              (last_seq(dn_demand r := seq)) (seq + 1) ms
      else r # allocate ds counts last_seq seq ms)"

definition demand_map :: "(alloc_demand \<Rightarrow> int) \<Rightarrow> alloc_demand list \<Rightarrow> int \<Rightarrow> int" where
  "demand_map f ds = fold (\<lambda>d g. g(ad_id d := f d)) ds (\<lambda>_. 0)"

text \<open>
  \<open>sort.Slice\<close> by creation time, then member id. The order is total when member ids are distinct,
  which is when the unstable sort of the source has one result.
\<close>

definition member_key :: "alloc_member \<Rightarrow> instant \<times> int" where
  "member_key m = (time_or_zero (am_created_at m), am_id m)"

definition allocation_order :: "alloc_member list \<Rightarrow> alloc_member list" where
  "allocation_order ms = sort_key member_key ms"

definition expectedAllocation :: "alloc_snapshot \<Rightarrow> alloc_decision list" where
  "expectedAllocation s =
     allocate (as_demands s) (demand_map ad_recent_supply (as_demands s))
       (demand_map ad_last_sequence (as_demands s)) (as_next_sequence s)
       (allocation_order (as_members s))"

text \<open>
  \<open>validateAllocationResult\<close>. The JSON schema of the response (the contract bundle, checked by a
  third-party validator) is the parameter \<open>schema_ok\<close>.
\<close>

definition validateAllocationResult ::
  "(alloc_response \<Rightarrow> bool) \<Rightarrow> alloc_request \<Rightarrow> alloc_response \<Rightarrow> go_error + unit" where
  "validateAllocationResult schema_ok request result =
     (if \<not> schema_ok result then Inl (TaskError ''allocation_output_invalid'')
      else if rs_task_id result \<noteq> rq_task_id request
        \<or> rs_idempotency_key result \<noteq> rq_idempotency_key request
        \<or> rs_snapshot_hash result \<noteq> rq_snapshot_hash request
        \<or> rs_pin result \<noteq> rq_pin request \<or> rs_terminal_state result \<noteq> ''DONE''
      then Inl (TaskError ''allocation_output_invalid'')
      else if expectedAllocation (rq_snapshot request) \<noteq> rs_decisions result
      then Inl (TaskError ''allocation_output_invalid'')
      else Inr ())"

text \<open>The canonical form that \<open>allocationSnapshotHash\<close> hashes: lists in key order.\<close>

definition canonical_member :: "alloc_member \<Rightarrow> alloc_member" where
  "canonical_member m = m\<lparr>am_tags := sort_key at_code (am_tags m),
     am_counted := sort (am_counted m), am_allowed := sort (am_allowed m)\<rparr>"

definition canonical_demand :: "alloc_demand \<Rightarrow> alloc_demand" where
  "canonical_demand d = d\<lparr>ad_required := sort (ad_required d), ad_preferred := sort (ad_preferred d)\<rparr>"

definition canonical_snapshot :: "alloc_snapshot \<Rightarrow> alloc_snapshot" where
  "canonical_snapshot s = s\<lparr>
     as_members := map canonical_member (sort_key am_id (as_members s)),
     as_demands := map canonical_demand (sort_key ad_id (as_demands s))\<rparr>"

text \<open>\<open>allocationSnapshotHash\<close>: the hash of the JSON text of the canonical form is a parameter.\<close>

definition allocationSnapshotHash :: "(alloc_snapshot \<Rightarrow> string) \<Rightarrow> alloc_snapshot \<Rightarrow> string" where
  "allocationSnapshotHash sha256_json s = sha256_json (canonical_snapshot s)"

text \<open>\<open>allocationReason\<close>: the codes that have a text of their own.\<close>

definition allocationReason_known :: "string \<Rightarrow> bool" where
  "allocationReason_known code \<longleftrightarrow> contains
     [''allocated'', ''no_active_mapping'', ''no_receiving_demand'', ''required_tags_unavailable'',
      ''qualification_stale'', ''allocation_snapshot_stale'', ''allocation_timeout'',
      ''kernel_unavailable''] code"

subsection \<open>Choosing by priority: the interface\<close>

text \<open>
  A selection that keeps the first candidate of least rank among the eligible ones. The laws are
  those of a left-to-right scan; everything the allocation promises about the chosen demand
  follows from them.
\<close>

locale priority_choice =
  fixes eligible :: "'d \<Rightarrow> bool"
    and rank :: "'d \<Rightarrow> 'k::linorder"
    and pick :: "'d list \<Rightarrow> 'd option"
  assumes pick_Nil: "pick [] = None"
    and pick_snoc: "pick (ds @ [d]) =
      (if eligible d \<and> (case pick ds of None \<Rightarrow> True | Some b \<Rightarrow> rank d < rank b)
       then Some d else pick ds)"
begin

lemma pick_None: "pick ds = None \<longleftrightarrow> (\<forall>d \<in> set ds. \<not> eligible d)"
  by (induction ds rule: rev_induct) (auto simp: pick_Nil pick_snoc split: option.splits if_splits)

lemma pick_Some:
  "pick ds = Some b \<Longrightarrow> b \<in> set ds \<and> eligible b \<and> (\<forall>d \<in> set ds. eligible d \<longrightarrow> rank b \<le> rank d)"
proof (induction ds arbitrary: b rule: rev_induct)
  case Nil
  then show ?case by (simp add: pick_Nil)
next
  case (snoc d ds)
  show ?case
  proof (cases "pick ds")
    case None
    then have "\<forall>d \<in> set ds. \<not> eligible d" by (simp add: pick_None)
    then show ?thesis using snoc.prems None by (auto simp: pick_snoc split: if_splits)
  next
    case (Some c)
    then have c: "c \<in> set ds" "eligible c" "\<forall>d \<in> set ds. eligible d \<longrightarrow> rank c \<le> rank d"
      using snoc.IH by auto
    show ?thesis
    proof (cases "eligible d \<and> rank d < rank c")
      case True
      then have "b = d" using snoc.prems Some by (simp add: pick_snoc)
      then show ?thesis using True c by fastforce
    next
      case False
      then have "b = c" using snoc.prems Some by (auto simp: pick_snoc split: if_splits)
      then show ?thesis using False c by auto
    qed
  qed
qed

text \<open>When ranks tell the candidates apart, the order they are scanned in does not matter.\<close>

lemma pick_permute:
  assumes "set ds = set es" and "inj_on rank (set ds)"
  shows "pick ds = pick es"
proof (cases "pick ds")
  case None
  then have "pick es = None" using assms(1) by (simp add: pick_None)
  then show ?thesis using None by simp
next
  case (Some b)
  then have "pick es \<noteq> None" using assms(1) pick_None [of es] pick_Some [OF Some] by auto
  then obtain c where c: "pick es = Some c" by auto
  have "rank b = rank c"
    using pick_Some [OF Some] pick_Some [OF c] assms(1) by (metis order_antisym)
  then show ?thesis using Some c pick_Some [OF Some] pick_Some [OF c] assms by (auto dest: inj_onD)
qed

end

subsection \<open>The decision is the choice of least rank\<close>

definition placeable :: "alloc_member \<Rightarrow> (string \<Rightarrow> string) \<Rightarrow> alloc_demand \<Rightarrow> bool" where
  "placeable m tags d \<longleftrightarrow> open_demand m d \<and> tags_suffice tags d"

definition chosen ::
  "alloc_member \<Rightarrow> (string \<Rightarrow> string) \<Rightarrow> (int \<Rightarrow> int) \<Rightarrow> (int \<Rightarrow> int) \<Rightarrow> alloc_demand list
    \<Rightarrow> alloc_demand option" where
  "chosen m tags counts last_seq ds = foldl (\<lambda>b d.
     if placeable m tags d \<and> (case b of None \<Rightarrow> True
        | Some b \<Rightarrow> demand_rank tags counts last_seq d < demand_rank tags counts last_seq b)
     then Some d else b) None ds"

interpretation demand_choice: priority_choice
  "placeable m tags" "demand_rank tags counts last_seq" "chosen m tags counts last_seq"
  for m tags counts last_seq
  by unfold_locales (simp_all add: chosen_def)

lemma order_less_iff: "length xs = length ys \<Longrightarrow> order_less xs ys \<longleftrightarrow> xs < ys"
  by (induction xs ys rule: order_less.induct) (auto simp: less_list_code)

lemma order_less_rank:
  "order_less (demand_rank tags counts last_seq d) (demand_rank tags counts last_seq e) \<longleftrightarrow>
     demand_rank tags counts last_seq d < demand_rank tags counts last_seq e"
  by (rule order_less_iff) (simp add: demand_rank_def)

definition waiting_decision :: "alloc_member \<Rightarrow> alloc_demand list \<Rightarrow> alloc_decision" where
  "waiting_decision m ds = (initial_decision m)\<lparr>dn_reason :=
     (if \<exists>d \<in> set ds. open_demand m d then ''required_tags_unavailable''
      else if am_allowed m = [] then ''no_active_mapping'' else ''no_receiving_demand'')\<rparr>"

lemma decide_refines_choice:
  "foldl (weigh_demand m tags counts last_seq seq) (initial_decision m) ds =
     (case chosen m tags counts last_seq ds of
        Some d \<Rightarrow> assign_decision m tags seq (demand_rank tags counts last_seq d) d
      | None \<Rightarrow> waiting_decision m ds)"
proof (induction ds rule: rev_induct)
  case Nil
  then show ?case
    by (simp add: demand_choice.pick_Nil waiting_decision_def initial_decision_def)
next
  case (snoc d ds)
  show ?case
  proof (cases "chosen m tags counts last_seq ds")
    case None
    then show ?thesis using snoc
      by (auto simp: demand_choice.pick_snoc weigh_demand_def placeable_def Let_def
          waiting_decision_def initial_decision_def)
  next
    case (Some b)
    have act: "dn_action (assign_decision m tags seq (demand_rank tags counts last_seq b) b) = ''assign''"
      by (simp add: assign_decision_def)
    have ord: "dn_order (assign_decision m tags seq (demand_rank tags counts last_seq b) b)
        = demand_rank tags counts last_seq b"
      by (simp add: assign_decision_def)
    show ?thesis using snoc Some act ord
      by (auto simp: demand_choice.pick_snoc weigh_demand_def placeable_def Let_def order_less_rank)
  qed
qed

lemma decide_eq:
  "decide ds counts last_seq seq m =
     (case chosen m (tag_refs (am_tags m)) counts last_seq ds of
        Some d \<Rightarrow> assign_decision m (tag_refs (am_tags m)) seq
                   (demand_rank (tag_refs (am_tags m)) counts last_seq d) d
      | None \<Rightarrow> waiting_decision m ds)"
  unfolding decide_def by (rule decide_refines_choice)

lemma decide_member [simp]:
  "dn_member (decide ds counts last_seq seq m) = am_id m"
  "dn_qualification_ref (decide ds counts last_seq seq m) = am_qualification_ref m"
  by (auto simp: decide_eq assign_decision_def waiting_decision_def initial_decision_def
      split: option.splits)

lemma waiting_not_assign [simp]: "dn_action (waiting_decision m ds) = ''wait''"
  by (simp add: waiting_decision_def initial_decision_def)

lemma assign_decision_simps [simp]:
  "dn_action (assign_decision m tags seq order d) = ''assign''"
  "dn_demand (assign_decision m tags seq order d) = ad_id d"
  "dn_sequence (assign_decision m tags seq order d) = seq"
  "dn_order (assign_decision m tags seq order d) = order"
  "dn_reason (assign_decision m tags seq order d) = ''allocated''"
  "dn_department_ref (assign_decision m tags seq order d) = ad_department_ref d"
  "dn_matched (assign_decision m tags seq order d) = matched_tags tags d"
  "dn_assertions (assign_decision m tags seq order d) = map tags (matched_tags tags d)"
  by (simp_all add: assign_decision_def)

lemma decide_action_cases:
  "dn_action (decide ds counts last_seq seq m) = ''assign'' \<or>
   dn_action (decide ds counts last_seq seq m) = ''wait''"
  by (auto simp: decide_eq split: option.splits)

subsection \<open>The state of the scan\<close>

text \<open>Supply counts, last sequences and next sequence after a prefix of the members.\<close>

fun scan_state ::
  "alloc_demand list \<Rightarrow> (int \<Rightarrow> int) \<Rightarrow> (int \<Rightarrow> int) \<Rightarrow> int \<Rightarrow> alloc_member list
    \<Rightarrow> (int \<Rightarrow> int) \<times> (int \<Rightarrow> int) \<times> int" where
  "scan_state ds counts last_seq seq [] = (counts, last_seq, seq)"
| "scan_state ds counts last_seq seq (m # ms) =
     (let r = decide ds counts last_seq seq m in
      if dn_action r = ''assign'' then
        scan_state ds
          (if dn_demand r \<in> set (am_counted m) then counts
           else counts(dn_demand r := counts (dn_demand r) + 1))
          (last_seq(dn_demand r := seq)) (seq + 1) ms
      else scan_state ds counts last_seq seq ms)"

lemma length_allocate [simp]: "length (allocate ds counts last_seq seq ms) = length ms"
  by (induction ds counts last_seq seq ms rule: allocate.induct) (auto simp: Let_def fun_upd_def)

lemma allocate_nth:
  "i < length ms \<Longrightarrow> allocate ds counts last_seq seq ms ! i =
     (let (c, l, n) = scan_state ds counts last_seq seq (take i ms) in decide ds c l n (ms ! i))"
proof (induction ms arbitrary: i counts last_seq seq)
  case Nil
  then show ?case by simp
next
  case (Cons m ms)
  then show ?case by (cases i) (auto simp: Let_def)
qed

lemma allocate_members: "map dn_member (allocate ds counts last_seq seq ms) = map am_id ms"
  by (induction ds counts last_seq seq ms rule: allocate.induct) (auto simp: Let_def fun_upd_def)

abbreviation assigned :: "alloc_decision \<Rightarrow> bool" where
  "assigned r \<equiv> dn_action r = ''assign''"

text \<open>The counters in closed form over the decisions already taken.\<close>

definition supply_gain :: "int \<Rightarrow> alloc_member list \<Rightarrow> alloc_decision list \<Rightarrow> int" where
  "supply_gain k ms rs = int (length (filter
     (\<lambda>(m, r). assigned r \<and> dn_demand r = k \<and> k \<notin> set (am_counted m)) (zip ms rs)))"

lemma supply_gain_simps [simp]:
  "supply_gain k [] rs = 0"
  "supply_gain k (m # ms) (r # rs) =
     (if assigned r \<and> dn_demand r = k \<and> k \<notin> set (am_counted m) then 1 else 0) + supply_gain k ms rs"
  by (simp_all add: supply_gain_def)

definition last_use :: "int \<Rightarrow> int \<Rightarrow> alloc_decision list \<Rightarrow> int" where
  "last_use k start rs = foldl (\<lambda>a r. if assigned r \<and> dn_demand r = k then dn_sequence r else a) start rs"

lemma decide_sequence: "assigned (decide ds counts last_seq seq m) \<Longrightarrow>
    dn_sequence (decide ds counts last_seq seq m) = seq"
  by (auto simp: decide_eq split: option.splits)

lemma scan_state_closed:
  "scan_state ds counts last_seq seq ms =
     (\<lambda>k. counts k + supply_gain k ms (allocate ds counts last_seq seq ms),
      \<lambda>k. last_use k (last_seq k) (allocate ds counts last_seq seq ms),
      seq + int (length (filter assigned (allocate ds counts last_seq seq ms))))"
proof (induction ms arbitrary: counts last_seq seq)
  case Nil
  then show ?case by (simp add: last_use_def)
next
  case (Cons m ms)
  show ?case
    by (auto simp: Let_def Cons.IH last_use_def fun_eq_iff decide_sequence fun_upd_def)
qed

lemma allocate_sequences:
  "map dn_sequence (filter assigned (allocate ds counts last_seq seq ms)) =
     [seq .. seq + int (length (filter assigned (allocate ds counts last_seq seq ms))) - 1]"
proof (induction ms arbitrary: counts last_seq seq)
  case Nil
  then show ?case by simp
next
  case (Cons m ms)
  show ?case
    by (auto simp: Let_def Cons.IH decide_sequence upto_rec1 algebra_simps fun_upd_def)
qed

lemma allocate_take:
  "allocate ds counts last_seq seq (take i ms) = take i (allocate ds counts last_seq seq ms)"
proof (induction ms arbitrary: i counts last_seq seq)
  case Nil
  then show ?case by simp
next
  case (Cons m ms)
  then show ?case by (cases i) (auto simp: Let_def fun_upd_def)
qed

text \<open>The counters of a snapshot when its \<open>i\<close>-th member is decided.\<close>

definition supply_at :: "alloc_snapshot \<Rightarrow> nat \<Rightarrow> int \<Rightarrow> int" where
  "supply_at s i k = demand_map ad_recent_supply (as_demands s) k
     + supply_gain k (take i (allocation_order (as_members s))) (take i (expectedAllocation s))"

definition last_sequence_at :: "alloc_snapshot \<Rightarrow> nat \<Rightarrow> int \<Rightarrow> int" where
  "last_sequence_at s i k =
     last_use k (demand_map ad_last_sequence (as_demands s) k) (take i (expectedAllocation s))"

definition next_sequence_at :: "alloc_snapshot \<Rightarrow> nat \<Rightarrow> int" where
  "next_sequence_at s i =
     as_next_sequence s + int (length (filter assigned (take i (expectedAllocation s))))"

lemma length_expectedAllocation [simp]: "length (expectedAllocation s) = length (as_members s)"
  by (simp add: expectedAllocation_def allocation_order_def)

lemma expectedAllocation_nth:
  assumes "i < length (as_members s)"
  shows "expectedAllocation s ! i =
    decide (as_demands s) (supply_at s i) (last_sequence_at s i) (next_sequence_at s i)
      (allocation_order (as_members s) ! i)"
proof -
  have "i < length (allocation_order (as_members s))"
    using assms by (simp add: allocation_order_def)
  then show ?thesis
    by (simp add: expectedAllocation_def allocate_nth scan_state_closed allocate_take
        supply_at_def last_sequence_at_def next_sequence_at_def fun_eq_iff [symmetric] cong: if_cong)
       (simp add: supply_at_def [abs_def] last_sequence_at_def [abs_def] expectedAllocation_def)
qed

abbreviation member_tags :: "alloc_member \<Rightarrow> string \<Rightarrow> string" where
  "member_tags m \<equiv> tag_refs (am_tags m)"

lemma expectedAllocation_assigned:
  assumes "i < length (as_members s)" and "assigned (expectedAllocation s ! i)"
  defines "m \<equiv> allocation_order (as_members s) ! i"
  defines "rank \<equiv> demand_rank (member_tags m) (supply_at s i) (last_sequence_at s i)"
  obtains d where "d \<in> set (as_demands s)" "placeable m (member_tags m) d"
    "\<forall>e \<in> set (as_demands s). placeable m (member_tags m) e \<longrightarrow> rank d \<le> rank e"
    "expectedAllocation s ! i = assign_decision m (member_tags m) (next_sequence_at s i) (rank d) d"
proof -
  let ?c = "chosen m (member_tags m) (supply_at s i) (last_sequence_at s i) (as_demands s)"
  have e: "expectedAllocation s ! i =
      (case ?c of Some d \<Rightarrow> assign_decision m (member_tags m) (next_sequence_at s i) (rank d) d
       | None \<Rightarrow> waiting_decision m (as_demands s))"
    unfolding expectedAllocation_nth [OF assms(1)] decide_eq m_def rank_def by simp
  obtain d where d: "?c = Some d" using e assms(2) by (cases ?c) auto
  show thesis
    using that [of d] demand_choice.pick_Some [OF d] e d by (auto simp: rank_def)
qed

lemma expectedAllocation_waiting:
  assumes "i < length (as_members s)" and "\<not> assigned (expectedAllocation s ! i)"
  defines "m \<equiv> allocation_order (as_members s) ! i"
  shows "(\<forall>d \<in> set (as_demands s). \<not> placeable m (member_tags m) d) \<and>
    expectedAllocation s ! i = waiting_decision m (as_demands s)"
proof -
  let ?c = "chosen m (member_tags m) (supply_at s i) (last_sequence_at s i) (as_demands s)"
  have e: "expectedAllocation s ! i =
      (case ?c of Some d \<Rightarrow> assign_decision m (member_tags m) (next_sequence_at s i)
           (demand_rank (member_tags m) (supply_at s i) (last_sequence_at s i) d) d
       | None \<Rightarrow> waiting_decision m (as_demands s))"
    unfolding expectedAllocation_nth [OF assms(1)] decide_eq m_def by simp
  have c: "?c = None" using e assms(2) by (cases ?c) auto
  then have "\<forall>d \<in> set (as_demands s). \<not> placeable m (member_tags m) d"
    by (simp add: demand_choice.pick_None)
  then show ?thesis using e unfolding c by simp
qed

end
