(* ===== verification/TextExtraction.thy ===== *)
theory TextExtraction
  imports GoValues
begin

text \<open>
  The extraction of a resume's text (internal/pdftext/extractor.go) and the check of an extracted text
  (validText of internal/platform/kernel.go). The Poppler tools are a parameter: for a command line the
  way the process ends and its output. The hex SHA-256 of a byte string is a parameter \<open>digest\<close>; the
  file is what reading it gives. The state of the context is asked at numbered points of the run.
  Warnings are short English texts.
\<close>

subsection \<open>Results and failures\<close>

definition MaxTextBytes :: nat where "MaxTextBytes = 1048576"

definition MaxPages :: int where "MaxPages = 100"

record pdf_text =
  txt_file_sha :: string
  txt_text_sha :: string
  txt_extractor :: string
  txt_pages :: "string list"
  txt_status :: string
  txt_warnings :: "string list"

record extraction =
  xtr_file_sha :: string
  xtr_version :: string
  xtr_text :: "pdf_text option"

record pdf_options =
  opt_sha :: string
  opt_size :: nat
  opt_pages :: int
  opt_inspect :: bool

definition contextError :: "go_error option \<Rightarrow> go_error + unit" where
  "contextError state = (case state of
       None \<Rightarrow> Inr ()
     | Some DeadlineExceeded \<Rightarrow> Inl (TaskError ''text_extraction_timeout'')
     | Some _ \<Rightarrow> Inl (TaskError ''agent_cancelled''))"

subsection \<open>The tools\<close>

text \<open>How a process ended: its context ended first, it does not exist, or it ran with an exit status
  (\<open>True\<close> for zero) and output.\<close>

datatype process = Interrupted go_error | NotFound | Exited bool string string

definition lower_text :: "string \<Rightarrow> string" where
  "lower_text s = concat (map (\<lambda>r. encode_rune (to_lower r)) (runes s))"

definition tool_output :: "process \<Rightarrow> go_error + string \<times> string" where
  "tool_output p = (case p of
       Interrupted e \<Rightarrow> andThen (contextError (Some e)) (\<lambda>_. Inr ([], []))
     | NotFound \<Rightarrow> Inl (TaskError ''text_extractor_unavailable'')
     | Exited ok out err \<Rightarrow>
         if MaxTextBytes + 1 < length out \<or> 65536 < length err then Inl (TaskError ''resume_text_too_large'')
         else if \<not> ok then
           (if contains_str (lower_text err) ''password'' \<or> contains_str (lower_text err) ''encrypted''
            then Inl (TaskError ''pdf_encrypted'') else Inl (TaskError ''pdf_damaged''))
         else Inr (out, err))"

text \<open>The white space of regular expressions.\<close>

definition re_space :: "char \<Rightarrow> bool" where
  "re_space c \<longleftrightarrow> byte c \<in> {9, 10, 12, 13, 32}"

definition after_prefix :: "string \<Rightarrow> string \<Rightarrow> string option" where
  "after_prefix p s = (if has_prefix s p then Some (drop (length p) s) else None)"

text \<open>The first match of \<open>pdftotext version ([^\s]+)\<close>.\<close>

fun tool_version :: "string \<Rightarrow> string option" where
  "tool_version [] = None"
| "tool_version (c # s) =
     (case after_prefix ''pdftotext version '' (c # s) of
        None \<Rightarrow> tool_version s
      | Some rest \<Rightarrow> if takeWhile (\<lambda>d. \<not> re_space d) rest = [] then tool_version s
                     else Some (takeWhile (\<lambda>d. \<not> re_space d) rest))"

text \<open>The texts that start where \<open>(?m)^\<close> matches.\<close>

fun after_newlines :: "string \<Rightarrow> string list" where
  "after_newlines [] = []"
| "after_newlines (c # s) = (if byte c = 10 then s # after_newlines s else after_newlines s)"

definition line_starts :: "string \<Rightarrow> string list" where
  "line_starts s = s # after_newlines s"

text \<open>\<open>key\s+(...)\<close> at the start of a line: what follows the white space.\<close>

definition field_value :: "string \<Rightarrow> string \<Rightarrow> string option" where
  "field_value key s = (case after_prefix key s of
       Some (c # rest) \<Rightarrow> if re_space c then Some (dropWhile re_space rest) else None
     | _ \<Rightarrow> None)"

definition encrypted_info :: "string \<Rightarrow> bool" where
  "encrypted_info info \<longleftrightarrow> list_ex (\<lambda>s. case field_value ''Encrypted:'' s of
     None \<Rightarrow> False | Some v \<Rightarrow> has_prefix v ''yes'') (line_starts info)"

definition page_digits :: "string \<Rightarrow> string" where
  "page_digits s = (case field_value ''Pages:'' s of None \<Rightarrow> [] | Some v \<Rightarrow> takeWhile digit v)"

definition info_pages :: "string \<Rightarrow> int" where
  "info_pages info = (case find (\<lambda>s. page_digits s \<noteq> []) (line_starts info) of
       None \<Rightarrow> 0 | Some s \<Rightarrow> parse_int (page_digits s))"

subsection \<open>The canonical text\<close>

definition visible_runes :: "string \<Rightarrow> nat" where
  "visible_runes s = length (filter (\<lambda>r. \<not> is_space r) (runes s))"

text \<open>\<open>\r\n\<close>, then \<open>\r\<close>, replaced by \<open>\n\<close>.\<close>

fun join_newlines :: "string \<Rightarrow> string" where
  "join_newlines [] = []"
| "join_newlines [c] = [c]"
| "join_newlines (c # d # s) =
     (if byte c = 13 \<and> byte d = 10 then d # join_newlines s else c # join_newlines (d # s))"

definition unix_newlines :: "string \<Rightarrow> string" where
  "unix_newlines s = map (\<lambda>c. if byte c = 13 then CHR 0x0A else c) (join_newlines s)"

definition page_break :: char where "page_break = CHR 0x0C"

text \<open>\<open>strings.Fields\<close>.\<close>

fun words_of :: "(nat \<times> string) list \<Rightarrow> string \<Rightarrow> string list" where
  "words_of [] w = (if w = [] then [] else [w])"
| "words_of ((r, s) # ps) w =
     (if is_space r then (if w = [] then [] else [w]) @ words_of ps [] else words_of ps (w @ s))"

definition fields_of :: "string \<Rightarrow> string list" where
  "fields_of s = words_of (segments s) []"

text \<open>The page of a large image in a line of \<open>pdfimages -list\<close>.\<close>

definition image_page :: "string \<Rightarrow> int option" where
  "image_page line = (case fields_of line of
       page # _ # _ # width # height # _ \<Rightarrow>
         if 256 \<le> parse_int width \<and> 256 \<le> parse_int height then Some (parse_int page) else None
     | _ \<Rightarrow> None)"

definition image_pages :: "string \<Rightarrow> nat \<Rightarrow> int list" where
  "image_pages images n = filter (\<lambda>p. 1 \<le> p \<and> p \<le> int n) (List.map_filter image_page (split_at (CHR 0x0A) images))"

definition scan_warning :: "int \<Rightarrow> string" where
  "scan_warning page = ''page '' @ show_int page @ '' may be scanned''"

definition text_warnings :: "string list \<Rightarrow> string \<Rightarrow> string list" where
  "text_warnings pages images =
     (if sum_list (map visible_runes pages) < 50 then [''not enough text''] else []) @
     List.map_filter (\<lambda>(i, p). if visible_runes p < 50 \<and> int i + 1 \<in> set (image_pages images (length pages))
       then Some (scan_warning (int i + 1)) else None) (enumerate 0 pages)"

definition canonical_text :: "(string \<Rightarrow> string) \<Rightarrow> string \<Rightarrow> string \<Rightarrow> int \<Rightarrow> go_error + pdf_text" where
  "canonical_text digest raw images n =
     (if \<not> utf8_valid raw \<or> CHR 0x00 \<in> set raw then Inl (TaskError ''pdf_damaged'')
      else let pages = split_at page_break (trim_suffix (unix_newlines raw) [page_break]);
               joined = join_with [page_break] pages; warnings = text_warnings pages images
           in if int (length pages) \<noteq> n then Inl (TaskError ''pdf_damaged'')
              else if MaxTextBytes < length joined then Inl (TaskError ''resume_text_too_large'')
              else Inr \<lparr> txt_file_sha = [], txt_text_sha = digest joined, txt_extractor = [], txt_pages = pages,
                txt_status = (if warnings = [] then ''ready'' else ''needs_attention''), txt_warnings = warnings \<rparr>)"

subsection \<open>The run\<close>

text \<open>The copy and checksum of the file; \<open>source\<close> is what opening and reading it gives.\<close>

definition pdf_snapshot ::
  "(string \<Rightarrow> string) \<Rightarrow> go_error option \<Rightarrow> pdf_options \<Rightarrow> go_error + string \<Rightarrow> go_error + string" where
  "pdf_snapshot digest state opts source = andThen source (\<lambda>content. andThen (contextError state) (\<lambda>_.
     if content = [] then Inl (TaskError ''pdf_damaged'')
     else if digest content \<noteq> opt_sha opts \<or> length content \<noteq> opt_size opts then Inl (TaskError ''pdf_changed'')
     else Inr (digest content)))"

definition diagnostics_warning :: string where
  "diagnostics_warning = ''the tools report an anomaly''"

definition with_diagnostics :: "string list \<Rightarrow> pdf_text \<Rightarrow> pdf_text" where
  "with_diagnostics errs text =
     (if list_ex (\<lambda>e. \<not> blank e) errs
      then text\<lparr>txt_status := ''needs_attention'', txt_warnings := txt_warnings text @ [diagnostics_warning]\<rparr>
      else text)"

definition extractor_version :: "string \<Rightarrow> go_error + string" where
  "extractor_version out = (case tool_version out of
       None \<Rightarrow> Inl (TaskError ''text_extractor_unavailable'')
     | Some v \<Rightarrow> if 80 < length v then Inl (TaskError ''text_extractor_unavailable'')
                 else Inr (''poppler-layout-go/v2.1:'' @ v))"

definition page_total :: "pdf_options \<Rightarrow> string \<Rightarrow> go_error + int" where
  "page_total opts info =
     (if encrypted_info info then Inl (TaskError ''pdf_encrypted'')
      else if info_pages info < 1 \<or> opt_pages opts < info_pages info then Inl (TaskError ''pdf_page_limit'')
      else Inr (info_pages info))"

definition extract_pages ::
  "(string \<Rightarrow> string) \<Rightarrow> (string list \<Rightarrow> process) \<Rightarrow> go_error option \<Rightarrow> string \<Rightarrow> pdf_options \<Rightarrow> go_error + pdf_text" where
  "extract_pages digest tool state pdf opts =
     andThen (tool_output (tool [''pdfinfo'', pdf])) (\<lambda>(info, info_err).
     andThen (page_total opts info) (\<lambda>n.
     andThen (tool_output (tool [''pdftotext'', ''-layout'', ''-enc'', ''UTF-8'', pdf, ''-''])) (\<lambda>(raw, text_err).
     andThen (tool_output (tool [''pdfimages'', ''-list'', pdf])) (\<lambda>(images, image_err).
     andThen (canonical_text digest raw images n) (\<lambda>text.
     andThen (contextError state) (\<lambda>_. Inr (with_diagnostics [info_err, text_err, image_err] text)))))))"

definition run_extractor ::
  "(string \<Rightarrow> string) \<Rightarrow> (string list \<Rightarrow> process) \<Rightarrow> (nat \<Rightarrow> go_error option) \<Rightarrow> string \<Rightarrow> pdf_options
    \<Rightarrow> go_error + string \<Rightarrow> go_error + extraction" where
  "run_extractor digest tool state pdf opts source =
     andThen (contextError (state 0)) (\<lambda>_.
       if opt_pages opts < 1 \<or> MaxPages < opt_pages opts then Inl (TaskError ''pdf_page_limit'')
       else andThen (pdf_snapshot digest (state 1) opts source) (\<lambda>checksum.
         andThen (tool_output (tool [''pdftotext'', ''-v''])) (\<lambda>(out, err).
         andThen (extractor_version (out @ err)) (\<lambda>version.
           if opt_inspect opts
           then Inr \<lparr> xtr_file_sha = checksum, xtr_version = version, xtr_text = None \<rparr>
           else andThen (extract_pages digest tool (state 2) pdf opts) (\<lambda>text.
             Inr \<lparr> xtr_file_sha = checksum, xtr_version = version,
               xtr_text = Some (text\<lparr>txt_file_sha := checksum, txt_extractor := version\<rparr>) \<rparr>)))))"

subsection \<open>The check of a text\<close>

definition lower_hex :: "char \<Rightarrow> bool" where
  "lower_hex c \<longleftrightarrow> digit c \<or> (97 \<le> byte c \<and> byte c \<le> 102)"

definition page_text :: "string \<Rightarrow> bool" where
  "page_text p \<longleftrightarrow> utf8_valid p \<and> list_all (\<lambda>c. byte c \<notin> {13, 12, 0}) p"

definition validText :: "(string \<Rightarrow> string) \<Rightarrow> pdf_text \<Rightarrow> bool" where
  "validText digest t \<longleftrightarrow>
     1 \<le> length (txt_pages t) \<and> length (txt_pages t) \<le> 100 \<and>
     1 \<le> length (txt_extractor t) \<and> length (txt_extractor t) \<le> 128 \<and> utf8_valid (txt_extractor t) \<and>
     contains [''ready'', ''needs_attention''] (txt_status t) \<and> length (txt_warnings t) \<le> 200 \<and>
     length (txt_file_sha t) = 64 \<and> list_all lower_hex (txt_file_sha t) \<and>
     list_all utf8_valid (txt_warnings t) \<and>
     (txt_status t = ''needs_attention'' \<longrightarrow> txt_warnings t \<noteq> []) \<and>
     list_all page_text (txt_pages t) \<and>
     (txt_status t = ''ready'' \<longrightarrow> \<not> blank (concat (txt_pages t))) \<and>
     length (join_with [page_break] (txt_pages t)) \<le> MaxTextBytes \<and>
     digest (join_with [page_break] (txt_pages t)) = txt_text_sha t"

end
