(* ===== verification/Tables.thy ===== *)
theory Tables
  imports PoolPolicy AllocationPlan TextExtraction
begin

text \<open>
  The database as the platform uses it (the schema of internal/compat/schema.sql and the tables the
  migrations in internal/platform create): one record per table row with the columns that the
  modelled operations read or write, the CHECK constraints on status columns as datatypes, and the
  tables as lists in insertion order. The partial unique indexes
  \<open>platform_one_effective_attempt\<close> and \<open>platform_pool_active_candidate\<close> are checked by the
  insertions. Fresh ids of all tables come from one counter (the source has a sequence per
  table; only that they are fresh matters). Row locks have no counterpart: an operation runs on
  the state it locks. Times are instants in nanoseconds, NULL is \<open>None\<close>.
\<close>

subsection \<open>Status columns\<close>

datatype application_status =
    AppPending | AppAssessing | AppBlocked | AppPendingReview | AppPendingAllocation
  | AppNeedsReanalysis | AppPendingDispatch | AppDepartmentReview | AppCancelled
  | AppAiRejected | AppDepartmentRejected | AppReviewRejected | AppPassed

datatype workflow_status =
    WfPending | WfInProgress | WfPassed | WfArchived | WfWaitingNext | WfTalentPool

datatype attempt_status =
    AttPendingReview | AttPendingDispatch | AttDispatched | AttPassed | AttRejected | AttCancelled

datatype member_status =
    PmPendingReview | PmPendingAllocation | PmAllocated | PmNeedsReanalysis | PmClosed | PmRejected

datatype work_status = WiPending | WiLeased | WiAssigned | WiWaiting | WiFailed | WiCancelled

datatype task_status = TaPending | TaRunning | TaCompleted | TaFailed | TaCancelled

datatype task_mode = Simulate | Execute

datatype plan_status = PlProposed | PlSimulated | PlCommitted | PlStale | PlInvalid | PlCancelled

datatype item_status =
    ItPending | ItProcessing | ItWaitingConflict | ItSuccess | ItNeedsAttention | ItFailed
  | ItSkipped | ItCancelled

datatype run_status =
    RuPending | RuRunning | RuWaitingConflict | RuCancelling | RuSuccess | RuPartialFailed
  | RuNeedsAttention | RuFailed | RuCancelled

datatype stage_status =
    SgPending | SgRunning | SgWaitingConflict | SgSuccess | SgPartialFailed | SgNeedsAttention
  | SgFailed | SgCancelled | SgSkipped

datatype schedule_status = ScActive | ScPaused | ScCompleted | ScCancelled | ScFailed

datatype repeat_kind = Once | Daily | Weekly

datatype attempt_source = FromRule | FromAi | FromManual

text \<open>The lists of statuses that the SQL conditions and guards of the program name.\<close>

definition closed_status :: "application_status \<Rightarrow> bool" where
  "closed_status s \<longleftrightarrow> s \<in> {AppAiRejected, AppDepartmentRejected, AppReviewRejected, AppPassed}"

definition effective_status :: "attempt_status \<Rightarrow> bool" where
  "effective_status s \<longleftrightarrow> s \<in> {AttPendingReview, AttPendingDispatch, AttDispatched, AttPassed}"

definition open_status :: "attempt_status \<Rightarrow> bool" where
  "open_status s \<longleftrightarrow> s \<in> {AttPendingReview, AttPendingDispatch, AttDispatched}"

definition active_member_status :: "member_status \<Rightarrow> bool" where
  "active_member_status s \<longleftrightarrow> s \<in> {PmPendingReview, PmPendingAllocation, PmAllocated, PmNeedsReanalysis}"

lemma closed_status_simps [simp]:
  "closed_status AppPending = False" "closed_status AppAssessing = False"
  "closed_status AppBlocked = False" "closed_status AppPendingReview = False"
  "closed_status AppPendingAllocation = False" "closed_status AppNeedsReanalysis = False"
  "closed_status AppPendingDispatch = False" "closed_status AppDepartmentReview = False"
  "closed_status AppCancelled = False" "closed_status AppAiRejected = True"
  "closed_status AppDepartmentRejected = True" "closed_status AppReviewRejected = True"
  "closed_status AppPassed = True"
  by (simp_all add: closed_status_def)

lemma attempt_status_simps [simp]:
  "effective_status AttPendingReview" "effective_status AttPendingDispatch"
  "effective_status AttDispatched" "effective_status AttPassed"
  "\<not> effective_status AttRejected" "\<not> effective_status AttCancelled"
  "open_status AttPendingReview" "open_status AttPendingDispatch" "open_status AttDispatched"
  "\<not> open_status AttPassed" "\<not> open_status AttRejected" "\<not> open_status AttCancelled"
  by (simp_all add: effective_status_def open_status_def)

lemma effective_iff_open: "effective_status s \<longleftrightarrow> open_status s \<or> s = AttPassed"
  by (cases s) simp_all

lemma member_status_simps [simp]:
  "active_member_status PmPendingReview" "active_member_status PmPendingAllocation"
  "active_member_status PmAllocated" "active_member_status PmNeedsReanalysis"
  "\<not> active_member_status PmClosed" "\<not> active_member_status PmRejected"
  by (simp_all add: active_member_status_def)

subsection \<open>Rows\<close>

record department_row =
  dep_id :: int
  dep_name :: string
  dep_level :: int
  dep_parent :: "int option"

record contact_row =
  con_id :: int
  con_name :: string
  con_employee :: string
  con_department :: "int option"
  con_level :: string
  con_can_delegate :: bool
  con_active :: bool

record job_row =
  job_id :: int
  job_entity :: string
  job_department :: "int option"
  job_category :: string
  job_position :: string
  job_active :: bool

record resume_row =
  res_id :: int
  res_candidate :: int
  res_apply_id :: string
  res_file :: string
  res_entity :: string
  res_position :: string
  res_apply_date :: string
  res_rank :: "int option"
  res_assigned_entity :: string
  res_job :: "int option"
  res_job_category :: string
  res_category_mode :: string
  res_category_reason :: string

record workflow_row =
  wf_id :: int
  wf_candidate :: int
  wf_status :: workflow_status
  wf_current_resume :: "int option"
  wf_current_rank :: "int option"
  wf_strategy :: string
  wf_archive_reason :: string
  wf_archive_detail :: string
  wf_block_reason :: string
  wf_block_detail :: string
  wf_passed_attempt :: "int option"
  wf_started :: "instant option"
  wf_completed :: "instant option"
  wf_revision :: int
  wf_item :: "int option"
  wf_token :: "string option"
  wf_expires :: "instant option"

record application_row =
  app_resume :: int
  app_candidate :: int
  app_status :: application_status
  app_reason :: string
  app_updated :: instant
  app_completed :: "instant option"

record app_event_row =
  aev_resume :: int
  aev_from :: "application_status option"
  aev_to :: application_status
  aev_reason :: string
  aev_payload :: object

record attempt_row =
  att_id :: int
  att_workflow :: int
  att_resume :: int
  att_no :: int
  att_source :: attempt_source
  att_status :: attempt_status
  att_initial_dept :: int
  att_current_dept :: int
  att_decision :: "int option"
  att_score :: json
  att_match_mode :: string
  att_match_reason :: string
  att_manual_reason :: string
  att_dispatched :: "instant option"
  att_feedback_result :: string
  att_feedback_note :: string
  att_feedback_code :: string
  att_feedback_label :: string
  att_feedback_at :: "instant option"
  att_cancelled :: "instant option"
  att_cancel_reason :: string
  att_initial_name :: string
  att_current_name :: string
  att_apply_id :: string
  att_position :: string
  att_created_by :: "int option"
  att_created_by_name :: string
  att_screener :: "int option"
  att_screener_employee :: string
  att_screener_name :: string
  att_screener_at :: "instant option"

record handling_event_row =
  hev_attempt :: int
  hev_kind :: string
  hev_from :: "int option"
  hev_to :: "int option"
  hev_from_name :: string
  hev_to_name :: string
  hev_actor :: "int option"
  hev_actor_name :: string
  hev_note :: string
  hev_batch :: "string option"
  hev_auto :: bool
  hev_metadata :: object
  hev_at :: instant

record member_row =
  mem_id :: int
  mem_candidate :: int
  mem_workflow :: int
  mem_resume :: int
  mem_decision :: int
  mem_run :: int
  mem_standard :: string
  mem_pool :: string
  mem_status :: member_status
  mem_tags :: "json list"
  mem_assessment :: object
  mem_checksum :: string
  mem_revision :: int
  mem_created :: instant

record member_event_row =
  mev_member :: int
  mev_kind :: string
  mev_payload :: object
  mev_actor :: "int option"

record source_row =
  src_resume :: int
  src_revision :: int
  src_path :: string
  src_checksum :: string
  src_verified :: bool
  src_checked :: "instant option"

record qualification_row =
  qua_id :: int
  qua_member :: int
  qua_revision :: int
  qua_decision :: int
  qua_source_revision :: int
  qua_checksum :: string
  qua_standard_hash :: json
  qua_tags_hash :: string
  qua_tags :: "alloc_tag list"

record scope_row =
  sco_id :: int
  sco_entity :: string
  sco_pool :: string
  sco_revision :: int
  sco_epoch :: int
  sco_next_sequence :: int
  sco_lease_token :: string
  sco_lease_until :: "instant option"
  sco_paused :: bool

record task_row =
  tsk_id :: int
  tsk_scope :: int
  tsk_mode :: task_mode
  tsk_status :: task_status
  tsk_generation :: int
  tsk_key :: string
  tsk_input_hash :: string
  tsk_members :: "int list"
  tsk_request :: "alloc_request option"
  tsk_pin :: "alloc_pin option"
  tsk_token :: string
  tsk_lease_until :: "instant option"
  tsk_error :: string
  tsk_progress :: object
  tsk_created_by :: "int option"
  tsk_automatic :: bool
  tsk_version :: string
  tsk_namespace :: string

record work_row =
  wrk_id :: int
  wrk_member :: int
  wrk_qualification :: int
  wrk_task :: "int option"
  wrk_status :: work_status
  wrk_reason :: string
  wrk_observed :: int

record plan_row =
  pln_id :: int
  pln_task :: int
  pln_generation :: int
  pln_hash :: string
  pln_result :: alloc_response
  pln_status :: plan_status
  pln_code :: string

record target_row =
  tgt_attempt :: int
  tgt_member :: "int option"
  tgt_qualification :: "int option"
  tgt_plan :: "int option"
  tgt_scope :: "int option"
  tgt_demand :: "int option"
  tgt_department :: int
  tgt_kind :: string
  tgt_demand_name :: string
  tgt_department_name :: string
  tgt_sequence :: int
  tgt_allocated :: instant
  tgt_dispatched :: "instant option"

record demand_row =
  dem_id :: int
  dem_state :: string
  dem_revision :: int
  dem_updated_by :: "int option"
  dem_reason :: json

record audit_row =
  aud_scope :: "int option"
  aud_demand :: "int option"
  aud_actor :: "int option"
  aud_kind :: string
  aud_payload :: object

record decision_row =
  dcn_id :: int
  dcn_workflow :: int
  dcn_resume :: int
  dcn_run :: int
  dcn_recommendation :: string
  dcn_job :: "int option"
  dcn_department :: "int option"
  dcn_error :: string
  dcn_values :: object

text \<open>The counters that a run and its analysis stage share.\<close>

record counts_row =
  cnt_processed :: int
  cnt_completed :: int
  cnt_success :: int
  cnt_attention :: int
  cnt_failed :: int
  cnt_skipped :: int
  cnt_cancelled :: int
  cnt_review :: int
  cnt_dispatch :: int
  cnt_archive :: int

record run_row =
  run_id :: int
  run_scope :: object
  run_summary :: object
  run_step :: string
  run_status :: run_status
  run_stage :: string
  run_params :: object
  run_pin :: object
  run_message :: string
  run_error :: string
  run_total :: int
  run_counts :: counts_row
  run_limit :: "int option"
  run_heartbeat :: "instant option"
  run_started :: "instant option"
  run_finished :: "instant option"
  run_cancel_requested :: "instant option"
  run_cancelled :: "instant option"
  run_cancelled_by :: "int option"
  run_created_by :: "int option"
  run_created_by_name :: string

record stage_row =
  stg_id :: int
  stg_run :: int
  stg_sequence :: int
  stg_step :: string
  stg_status :: stage_status
  stg_message :: string
  stg_error :: string
  stg_total :: int
  stg_counts :: counts_row
  stg_started :: "instant option"
  stg_finished :: "instant option"

record item_row =
  itm_id :: int
  itm_run :: int
  itm_candidate :: int
  itm_submit_revision :: "int option"
  itm_prepare_revision :: "int option"
  itm_status :: item_status
  itm_node :: string
  itm_result_type :: string
  itm_reason :: string
  itm_message :: string
  itm_error_code :: string
  itm_error_message :: string
  itm_resume :: "int option"
  itm_rule :: "int option"
  itm_extraction :: "int option"
  itm_snapshot :: object
  itm_result :: object
  itm_token :: "string option"
  itm_attempts :: int
  itm_started :: "instant option"
  itm_finished :: "instant option"

record queue_row =
  que_id :: int
  que_run :: int
  que_status :: string
  que_lease_until :: "instant option"
  que_token :: string
  que_attempts :: int

record schedule_row =
  sch_id :: int
  sch_name :: string
  sch_scope :: object
  sch_repeat :: repeat_kind
  sch_run_at :: instant
  sch_next :: "instant option"
  sch_status :: schedule_status
  sch_created_by :: "int option"
  sch_created_by_name :: string
  sch_last_run :: "int option"
  sch_last_triggered :: "instant option"
  sch_message :: string
  sch_count :: int

record candidate_row =
  cnd_id :: int
  cnd_fields :: object

record profile_row =
  prf_id :: int
  prf_resume :: int
  prf_values :: object

record extraction_row =
  ext_id :: int
  ext_sha :: string
  ext_version :: string
  ext_payload :: pdf_text

record config_event_row =
  cev_version :: int
  cev_policy :: object
  cev_actor :: "int option"

text \<open>The catalogue the preparation reads: rows as they arrive, JSON objects with all their columns.\<close>

record catalog =
  cat_schools :: "object list"
  cat_tags :: "object list"
  cat_jobs :: "object list"
  cat_majors :: "object list"
  cat_rules :: "object list"
  cat_rule_tags :: "object list"
  cat_rule_educations :: "object list"

record db =
  db_next :: int
  db_departments :: "department_row list"
  db_contacts :: "contact_row list"
  db_jobs :: "job_row list"
  db_candidates :: "candidate_row list"
  db_resumes :: "resume_row list"
  db_workflows :: "workflow_row list"
  db_applications :: "application_row list"
  db_app_events :: "app_event_row list"
  db_attempts :: "attempt_row list"
  db_handling :: "handling_event_row list"
  db_members :: "member_row list"
  db_member_events :: "member_event_row list"
  db_sources :: "source_row list"
  db_qualifications :: "qualification_row list"
  db_scopes :: "scope_row list"
  db_tasks :: "task_row list"
  db_work :: "work_row list"
  db_plans :: "plan_row list"
  db_targets :: "target_row list"
  db_demands :: "demand_row list"
  db_audit :: "audit_row list"
  db_decisions :: "decision_row list"
  db_runs :: "run_row list"
  db_stages :: "stage_row list"
  db_items :: "item_row list"
  db_queue :: "queue_row list"
  db_schedules :: "schedule_row list"
  db_profiles :: "profile_row list"
  db_candidate_tags :: "(int \<times> int) list"
  db_catalog :: catalog
  db_policy :: object
  db_policy_version :: int
  db_config_events :: "config_event_row list"
  db_extractions :: "extraction_row list"

subsection \<open>Column defaults\<close>

text \<open>The rows that \<open>save\<close> inserts: the defaults of the schema for every column it is not given.\<close>

definition attempt_defaults :: attempt_row where
  "attempt_defaults = \<lparr> att_id = 0, att_workflow = 0, att_resume = 0, att_no = 0,
     att_source = FromAi, att_status = AttPendingDispatch, att_initial_dept = 0,
     att_current_dept = 0, att_decision = None, att_score = JNull, att_match_mode = [],
     att_match_reason = [], att_manual_reason = [], att_dispatched = None, att_feedback_result = [],
     att_feedback_note = [], att_feedback_code = [], att_feedback_label = [],
     att_feedback_at = None, att_cancelled = None, att_cancel_reason = [], att_initial_name = [],
     att_current_name = [], att_apply_id = [], att_position = [], att_created_by = None,
     att_created_by_name = [], att_screener = None, att_screener_employee = [],
     att_screener_name = [], att_screener_at = None \<rparr>"

definition workflow_defaults :: workflow_row where
  "workflow_defaults = \<lparr> wf_id = 0, wf_candidate = 0, wf_status = WfPending,
     wf_current_resume = None, wf_current_rank = None, wf_strategy = ''ai'',
     wf_archive_reason = [], wf_archive_detail = [], wf_block_reason = [], wf_block_detail = [],
     wf_passed_attempt = None, wf_started = None, wf_completed = None, wf_revision = 0,
     wf_item = None, wf_token = None, wf_expires = None \<rparr>"

definition empty_catalog :: catalog where
  "empty_catalog = \<lparr> cat_schools = [], cat_tags = [], cat_jobs = [], cat_majors = [], cat_rules = [],
     cat_rule_tags = [], cat_rule_educations = [] \<rparr>"

definition no_counts :: counts_row where
  "no_counts = \<lparr> cnt_processed = 0, cnt_completed = 0, cnt_success = 0, cnt_attention = 0, cnt_failed = 0,
     cnt_skipped = 0, cnt_cancelled = 0, cnt_review = 0, cnt_dispatch = 0, cnt_archive = 0 \<rparr>"

definition empty_db :: db where
  "empty_db = \<lparr> db_next = 1, db_departments = [], db_contacts = [], db_jobs = [], db_candidates = [],
     db_resumes = [], db_workflows = [], db_applications = [], db_app_events = [],
     db_attempts = [], db_handling = [], db_members = [], db_member_events = [], db_sources = [],
     db_qualifications = [], db_scopes = [], db_tasks = [], db_work = [], db_plans = [],
     db_targets = [], db_demands = [], db_audit = [], db_decisions = [], db_runs = [],
     db_stages = [], db_items = [], db_queue = [], db_schedules = [], db_profiles = [],
     db_candidate_tags = [], db_catalog = empty_catalog, db_policy = emptyPoolPolicy,
     db_policy_version = 1, db_config_events = [], db_extractions = [] \<rparr>"

subsection \<open>Reading and writing a row\<close>

text \<open>\<open>one\<close> with an id condition, and \<open>get\<close>: the row or \<open>apiError 404\<close>.\<close>

definition fetch :: "('r \<Rightarrow> int) \<Rightarrow> int \<Rightarrow> 'r list \<Rightarrow> go_error + 'r" where
  "fetch key i rs = (case first_where (\<lambda>r. key r = i) rs of None \<Rightarrow> Inl not_found | Some r \<Rightarrow> Inr r)"

text \<open>\<open>get\<close> with a nullable id: a NULL id finds no row.\<close>

definition fetch_opt :: "('r \<Rightarrow> int) \<Rightarrow> int option \<Rightarrow> 'r list \<Rightarrow> go_error + 'r" where
  "fetch_opt key i rs = (case i of None \<Rightarrow> Inl not_found | Some i \<Rightarrow> fetch key i rs)"

text \<open>\<open>UPDATE ... WHERE id = i RETURNING\<close> through \<open>one\<close>: 404 when there is no such row.\<close>

definition save_row :: "('r \<Rightarrow> int) \<Rightarrow> int \<Rightarrow> ('r \<Rightarrow> 'r) \<Rightarrow> 'r list \<Rightarrow> go_error + 'r \<times> 'r list" where
  "save_row key i f rs = (case first_where (\<lambda>r. key r = i) rs of
       None \<Rightarrow> Inl not_found
     | Some r \<Rightarrow> Inr (f r, update_where (\<lambda>r. key r = i) f rs))"

lemma fetch_Inr [table_simps]: "fetch key i rs = Inr r \<Longrightarrow> r \<in> set rs \<and> key r = i"
  by (auto simp: fetch_def split: option.splits dest: first_where_SomeD)

lemma fetch_opt_Inr [table_simps]: "fetch_opt key i rs = Inr r \<Longrightarrow> r \<in> set rs \<and> Some (key r) = i"
  by (auto simp: fetch_opt_def split: option.splits dest: fetch_Inr)

lemma save_row_Inr [table_simps]:
  "save_row key i f rs = Inr (r, qs) \<longleftrightarrow>
     (\<exists>q. first_where (\<lambda>r. key r = i) rs = Some q \<and> r = f q \<and> qs = update_where (\<lambda>r. key r = i) f rs)"
  by (auto simp: save_row_def split: option.splits)

subsection \<open>Updates that leave a key alone\<close>

lemma distinct_update_where [table_simps]:
  "(\<And>r. k (f r) = k r) \<Longrightarrow> distinct (map k (update_where p f rs)) = distinct (map k rs)"
  by (simp add: map_update_where_key)

text \<open>How many rows satisfy a condition, and how an update or insertion changes that.\<close>

abbreviation count_where :: "('r \<Rightarrow> bool) \<Rightarrow> 'r list \<Rightarrow> nat" where
  "count_where p rs \<equiv> length (filter p rs)"

lemma count_update_le:
  "(\<And>r. r \<in> set rs \<Longrightarrow> c r \<Longrightarrow> p (f r) \<Longrightarrow> p r) \<Longrightarrow> count_where p (update_where c f rs) \<le> count_where p rs"
  by (induction rs) (auto simp: le_SucI)

lemma count_update_same:
  "(\<And>r. r \<in> set rs \<Longrightarrow> c r \<Longrightarrow> p (f r) = p r) \<Longrightarrow> count_where p (update_where c f rs) = count_where p rs"
  by (induction rs) auto

end
