(* ===== verification/Access.thy ===== *)
theory Access
  imports Tables
begin

text \<open>
  Who may see and do what (internal/platform auth.go, contact_grants.go, departments.go,
  screeners.go): the principal of a user, its department grants, the guards on an assignment
  attempt and the scope of a grant in the department tree.
\<close>

subsection \<open>Departments\<close>

definition isJobDepartment :: "int \<Rightarrow> bool" where
  "isJobDepartment level \<longleftrightarrow> level = 1 \<or> level = 2"

definition contactIncludesDescendants :: "string \<Rightarrow> bool" where
  "contactIncludesDescendants level \<longleftrightarrow> level = ''secondary'' \<or> level = ''secondary_hr''"

definition validContactLevel :: "string \<Rightarrow> bool" where
  "validContactLevel level \<longleftrightarrow> contains [''secondary'', ''tertiary'', ''secondary_hr''] level"

definition parent_of :: "department_row list \<Rightarrow> department_row \<Rightarrow> department_row option" where
  "parent_of deps d = (case fetch_opt dep_id (dep_parent d) deps of Inl _ \<Rightarrow> None | Inr p \<Rightarrow> Some p)"

text \<open>
  The loop of \<open>departmentInScope\<close>; a failed read of the parent leaves nil. The set of visited
  ids stops it on a cyclic table.
\<close>

function in_scope :: "department_row list \<Rightarrow> int list \<Rightarrow> department_row option \<Rightarrow> int \<Rightarrow> bool" where
  "in_scope deps visited None anchor = False"
| "in_scope deps visited (Some d) anchor =
     (if dep_id d \<in> set visited then False
      else if dep_id d = anchor then True
      else in_scope deps (dep_id d # visited) (parent_of deps d) anchor)"
  by pat_completeness auto

lemma parent_of_in: "parent_of deps d = Some p \<Longrightarrow> p \<in> set deps"
  by (auto simp: parent_of_def split: sum.splits dest: fetch_opt_Inr)

definition scope_measure :: "department_row list \<times> int list \<times> department_row option \<times> int \<Rightarrow> nat" where
  "scope_measure = (\<lambda>(deps, visited, d, anchor). case d of None \<Rightarrow> 0
     | Some d \<Rightarrow> Suc (2 * card (dep_id ` set deps - set visited)
         + (if dep_id d \<in> dep_id ` set deps then 0 else 1)))"

lemma scope_measure_step:
  assumes "dep_id d \<notin> set visited"
  shows "scope_measure (deps, dep_id d # visited, parent_of deps d, anchor)
    < scope_measure (deps, visited, Some d, anchor)"
proof (cases "parent_of deps d")
  case None
  then show ?thesis by (simp add: scope_measure_def)
next
  case (Some p)
  then have p: "dep_id p \<in> dep_id ` set deps" by (auto dest: parent_of_in)
  let ?ids = "dep_id ` set deps"
  have "?ids - set (dep_id d # visited) \<subseteq> ?ids - set visited" by auto
  then have le: "card (?ids - set (dep_id d # visited)) \<le> card (?ids - set visited)"
    by (intro card_mono) auto
  have "dep_id d \<in> ?ids \<Longrightarrow> card (?ids - set (dep_id d # visited)) < card (?ids - set visited)"
    using assms by (intro psubset_card_mono) auto
  then show ?thesis using Some p le by (auto simp: scope_measure_def)
qed

termination in_scope
  by (relation "measure scope_measure") (simp, simp only: in_measure scope_measure_step not_False_eq_True)

definition departmentInScope :: "department_row list \<Rightarrow> department_row option \<Rightarrow> int \<Rightarrow> bool" where
  "departmentInScope deps d anchor = in_scope deps [] d anchor"

subsection \<open>Principals\<close>

record grant =
  gr_contact :: contact_row
  gr_department :: department_row

text \<open>Maps from permission codes to true are lists of codes; a nil map or slice is \<open>None\<close>.\<close>

record principal =
  pri_user :: int
  pri_name :: string
  pri_superuser :: bool
  pri_permissions :: "string list"
  pri_roles :: "string list"
  pri_contact :: "grant option"
  pri_grants :: "grant list option"
  pri_global :: "string list option"
  pri_level :: "(string \<times> string) list"

definition role_admin :: string where
  "role_admin = [CHR 0xE7, CHR 0xAE, CHR 0xA1, CHR 0xE7, CHR 0x90, CHR 0x86, CHR 0xE5, CHR 0x91, CHR 0x98]"

definition role_liaison :: string where
  "role_liaison = [CHR 0xE6, CHR 0x8E, CHR 0xA5, CHR 0xE5, CHR 0x8F, CHR 0xA3, CHR 0xE4, CHR 0xBA, CHR 0xBA]"

definition role_screener :: string where
  "role_screener = [CHR 0xE7, CHR 0xAE, CHR 0x80, CHR 0xE5, CHR 0x8E, CHR 0x86, CHR 0xE7, CHR 0xAD, CHR 0x9B, CHR 0xE9, CHR 0x80, CHR 0x89, CHR 0xE4, CHR 0xBA, CHR 0xBA]"

definition role_hr :: string where
  "role_hr = [CHR 0xE4, CHR 0xBA, CHR 0x8C, CHR 0xE7, CHR 0xBA, CHR 0xA7, CHR 0xE9, CHR 0x83, CHR 0xA8, CHR 0xE9, CHR 0x97, CHR 0xA8, CHR 0x48, CHR 0x52]"

definition departmentGrants :: "principal \<Rightarrow> grant list" where
  "departmentGrants p = (case pri_grants p of Some gs \<Rightarrow> gs
     | None \<Rightarrow> (case pri_contact p of Some g \<Rightarrow> [g] | None \<Rightarrow> []))"

definition isAdministrator :: "principal \<Rightarrow> bool" where
  "isAdministrator p \<longleftrightarrow> pri_superuser p \<or> contains (pri_roles p) role_admin"

definition has :: "principal \<Rightarrow> string \<Rightarrow> bool" where
  "has p code \<longleftrightarrow> contains (pri_permissions p) code
     \<and> (\<not> has_prefix code ''settings.'' \<or> isAdministrator p)"

text \<open>\<open>has\<close> on a nil principal is false.\<close>

definition has_opt :: "principal option \<Rightarrow> string \<Rightarrow> bool" where
  "has_opt p code = (case p of None \<Rightarrow> False | Some p \<Rightarrow> has p code)"

definition allowed :: "principal option \<Rightarrow> json \<Rightarrow> bool" where
  "allowed p codes = (case codes of
       JNull \<Rightarrow> p \<noteq> None
     | JStr s \<Rightarrow> has_opt p s
     | _ \<Rightarrow> list_ex (\<lambda>v. has_opt p (str v)) (list_of codes))"

definition contactRoleMatchesDepartment :: "string \<Rightarrow> department_row \<Rightarrow> bool" where
  "contactRoleMatchesDepartment role d \<longleftrightarrow>
     isJobDepartment (dep_level d) \<and> (role \<noteq> ''secondary_hr'' \<or> dep_level d = 2)"

definition isDepartmentHR :: "string \<Rightarrow> bool" where
  "isDepartmentHR role \<longleftrightarrow> role = ''secondary_hr''"

definition grantHas :: "principal \<Rightarrow> grant \<Rightarrow> string \<Rightarrow> bool" where
  "grantHas p g code =
     (let level = con_level (gr_contact g) in
      if \<not> con_active (gr_contact g) \<or> \<not> validContactLevel level
        \<or> \<not> contactRoleMatchesDepartment level (gr_department g) then False
      else if pri_global p = None \<or> pri_superuser p then has p code
      else contains (the (pri_global p)) code \<or> (level, code) \<in> set (pri_level p))"

text \<open>\<open>rolePermissionAllowed\<close>; the table of role permissions is part of the compatibility spec.\<close>

definition rolePermissionAllowed :: "(string \<Rightarrow> string list) \<Rightarrow> string \<Rightarrow> string \<Rightarrow> bool" where
  "rolePermissionAllowed role_permissions name code =
     (if has_prefix code ''settings.'' then name = role_admin
      else if contains [role_hr, role_liaison, role_screener] name
      then contains (role_permissions name) code else True)"

definition grant_level :: "string \<Rightarrow> string" where
  "grant_level grp = (if grp = role_liaison then ''secondary''
     else if grp = role_screener then ''tertiary''
     else if grp = role_hr then ''secondary_hr'' else [])"

text \<open>\<open>strings.ReplaceAll(codename, "__", ".")\<close>: the codes are stored with doubled underscores.\<close>

fun dotted :: "string \<Rightarrow> string" where
  "dotted (x # y # cs) =
     (if x = CHR ''_'' \<and> y = CHR ''_'' then CHR ''.'' # dotted cs else x # dotted (y # cs))"
| "dotted cs = cs"


text \<open>The loop over the permission rows (codename, name of the group it comes from).\<close>

definition add_permission ::
  "string list \<Rightarrow> (string \<Rightarrow> string list) \<Rightarrow> string \<times> string \<Rightarrow> principal \<Rightarrow> principal" where
  "add_permission known role_permissions row p =
     (let (codename, grp) = row; code = dotted codename in
      if contains known code \<and> rolePermissionAllowed role_permissions grp code then
        let p = p\<lparr>pri_permissions := code # pri_permissions p\<rparr>; level = grant_level grp in
        if level = [] then p\<lparr>pri_global := Some (code # (case pri_global p of Some g \<Rightarrow> g | None \<Rightarrow> []))\<rparr>
        else p\<lparr>pri_level := (level, code) # pri_level p\<rparr>
      else p)"



subsection \<open>Guards on an attempt\<close>

definition grantCanViewAttempt :: "principal \<Rightarrow> grant \<Rightarrow> attempt_row \<Rightarrow> bool" where
  "grantCanViewAttempt p g att =
     (if \<not> grantHas p g ''attempt.view_department'' then False
      else if isDepartmentHR (con_level (gr_contact g)) then True
      else if att_status att \<notin> {AttDispatched, AttPassed, AttRejected} then False
      else con_level (gr_contact g) \<noteq> ''tertiary'' \<or> att_screener att = Some (con_id (gr_contact g)))"

definition grantCovers :: "department_row list \<Rightarrow> grant \<Rightarrow> department_row \<Rightarrow> bool" where
  "grantCovers deps g d \<longleftrightarrow> dep_id (gr_department g) = dep_id d
     \<or> (contactIncludesDescendants (con_level (gr_contact g))
        \<and> departmentInScope deps (Some d) (dep_id (gr_department g)))"

definition visibleAttempt :: "department_row list \<Rightarrow> principal \<Rightarrow> attempt_row \<Rightarrow> bool" where
  "visibleAttempt deps p att =
     (if has p ''attempt.view_all'' then True
      else if \<not> has p ''attempt.view_department'' then False
      else case fetch dep_id (att_current_dept att) deps of
        Inl _ \<Rightarrow> False
      | Inr d \<Rightarrow> list_ex (\<lambda>g. grantCanViewAttempt p g att \<and> grantCovers deps g d) (departmentGrants p))"

definition canManageAttempt ::
  "department_row list \<Rightarrow> principal \<Rightarrow> attempt_row \<Rightarrow> string \<Rightarrow> bool" where
  "canManageAttempt deps p att code =
     (if \<not> has p code then False
      else if has p ''attempt.view_all'' then True
      else case fetch dep_id (att_current_dept att) deps of
        Inl _ \<Rightarrow> False
      | Inr d \<Rightarrow> list_ex (\<lambda>g. isDepartmentHR (con_level (gr_contact g)) \<and> grantHas p g code
            \<and> grantHas p g ''attempt.view_department'' \<and> grantCovers deps g d) (departmentGrants p))"

definition grantCanDelegate :: "principal \<Rightarrow> grant \<Rightarrow> bool" where
  "grantCanDelegate p g \<longleftrightarrow> grantHas p g ''attempt.view_department''
     \<and> grantHas p g ''attempt.transfer_department''
     \<and> contactIncludesDescendants (con_level (gr_contact g)) \<and> con_can_delegate (gr_contact g)"

definition canTransfer :: "principal \<Rightarrow> bool" where
  "canTransfer p \<longleftrightarrow> (has p ''attempt.view_all'' \<and> has p ''attempt.transfer_department'')
     \<or> list_ex (grantCanDelegate p) (departmentGrants p)"

definition canTransferAttempt ::
  "department_row list \<Rightarrow> principal \<Rightarrow> attempt_row \<Rightarrow> department_row option \<Rightarrow> bool" where
  "canTransferAttempt deps p att target =
     (if \<not> has p ''attempt.transfer_department'' then False
      else if has p ''attempt.view_all'' then True
      else case fetch dep_id (att_current_dept att) deps of
        Inl _ \<Rightarrow> False
      | Inr current \<Rightarrow> list_ex (\<lambda>g. grantCanDelegate p g \<and> grantCovers deps g current \<and>
            (case target of None \<Rightarrow> True
             | Some t \<Rightarrow> isJobDepartment (dep_level t) \<and>
                 (\<not> isDepartmentHR (con_level (gr_contact g)) \<or> grantCovers deps g t)))
          (departmentGrants p))"

text \<open>A positive screener id or a screener time: the attempt belongs to a screener.\<close>

definition screener_set :: "attempt_row \<Rightarrow> bool" where
  "screener_set att \<longleftrightarrow>
     (case att_screener att of Some i \<Rightarrow> 0 < i | None \<Rightarrow> False) \<or> att_screener_at att \<noteq> None"

definition canFeedbackAttempt :: "principal \<Rightarrow> attempt_row \<Rightarrow> bool" where
  "canFeedbackAttempt p att \<longleftrightarrow> list_ex (\<lambda>g.
     grantHas p g ''attempt.view_department'' \<and> grantHas p g ''attempt.feedback''
     \<and> dep_id (gr_department g) = att_current_dept att \<and>
     (if screener_set att
      then att_screener att = Some (con_id (gr_contact g)) \<and> con_level (gr_contact g) = ''tertiary''
      else con_level (gr_contact g) = ''secondary'')) (departmentGrants p)"

definition canExportAttempt :: "department_row list \<Rightarrow> principal \<Rightarrow> attempt_row \<Rightarrow> bool" where
  "canExportAttempt deps p att =
     (if has p ''attempt.view_all'' then has p ''attempt.export''
      else case fetch dep_id (att_current_dept att) deps of
        Inl _ \<Rightarrow> False
      | Inr d \<Rightarrow> list_ex (\<lambda>g. grantCanViewAttempt p g att \<and> grantHas p g ''attempt.export''
            \<and> grantCovers deps g d) (departmentGrants p))"

text \<open>
  \<open>eligibleScreener\<close>: \<open>principal_of\<close> reads the active user with the contact's employee number
  and rebuilds its principal (\<open>userPrincipal\<close>), \<open>None\<close> on any error.
\<close>

definition eligibleScreener ::
  "(string \<Rightarrow> principal option) \<Rightarrow> contact_row \<Rightarrow> attempt_row \<Rightarrow> bool" where
  "eligibleScreener principal_of c att =
     (if con_level c \<noteq> ''tertiary'' \<or> \<not> con_active c \<or> con_department c \<noteq> Some (att_current_dept att)
      then False
      else case principal_of (con_employee c) of
        None \<Rightarrow> False
      | Some p \<Rightarrow> list_ex (\<lambda>g. con_id (gr_contact g) = con_id c
            \<and> grantHas p g ''attempt.view_department'' \<and> grantHas p g ''attempt.feedback'')
          (departmentGrants p))"

subsection \<open>The scope of a grant is its subtree\<close>

inductive reports_to :: "department_row list \<Rightarrow> department_row \<Rightarrow> int \<Rightarrow> bool" for deps where
  here: "reports_to deps d (dep_id d)"
| up: "parent_of deps d = Some q \<Longrightarrow> reports_to deps q a \<Longrightarrow> reports_to deps d a"

inductive_cases reports_to_elim: "reports_to deps d a"

lemma reports_to_unfold:
  "reports_to deps d a \<longleftrightarrow> dep_id d = a \<or> (\<exists>q. parent_of deps d = Some q \<and> reports_to deps q a)"
  by (auto intro: reports_to.intros elim: reports_to_elim)

definition in_table :: "department_row list \<Rightarrow> department_row \<Rightarrow> bool" where
  "in_table deps d \<longleftrightarrow> fetch dep_id (dep_id d) deps = Inr d"

lemma parent_in_table: "parent_of deps d = Some q \<Longrightarrow> in_table deps q"
  by (auto simp: parent_of_def in_table_def fetch_opt_def split: sum.splits option.splits
      dest: fetch_Inr)

lemma in_table_id: "in_table deps d \<Longrightarrow> in_table deps e \<Longrightarrow> dep_id d = dep_id e \<Longrightarrow> d = e"
  by (simp add: in_table_def)

text \<open>The visited rows: none is the anchor, and each leads to a visited row, to the current one or nowhere.\<close>

definition visited_closed :: "department_row list \<Rightarrow> int list \<Rightarrow> int option \<Rightarrow> int \<Rightarrow> bool" where
  "visited_closed deps visited current a \<longleftrightarrow> a \<notin> set visited \<and>
     (\<forall>w. in_table deps w \<longrightarrow> dep_id w \<in> set visited \<longrightarrow> (\<forall>q. parent_of deps w = Some q \<longrightarrow>
        dep_id q \<in> set visited \<or> Some (dep_id q) = current))"

lemma closed_not_reached:
  assumes "visited_closed deps visited None a" and "in_table deps d" and "dep_id d \<in> set visited"
  shows "\<not> reports_to deps d a"
proof
  assume "reports_to deps d a"
  from this assms show False
  proof induction
    case (here d)
    then show ?case by (auto simp: visited_closed_def)
  next
    case (up d q a)
    have "dep_id q \<in> set visited"
      using up.prems up.hyps(1) by (auto simp: visited_closed_def)
    then show ?case using up.IH up.prems(1) parent_in_table [OF up.hyps(1)] by blast
  qed
qed

lemma in_scope_iff:
  "case d of None \<Rightarrow> True | Some d \<Rightarrow> in_table deps d \<and> visited_closed deps visited (Some (dep_id d)) a \<Longrightarrow>
    in_scope deps visited d a \<longleftrightarrow> (case d of None \<Rightarrow> False | Some d \<Rightarrow> reports_to deps d a)"
proof (induction deps visited d a rule: in_scope.induct)
  case (1 deps visited a)
  then show ?case by simp
next
  case (2 deps visited d a)
  consider (seen) "dep_id d \<in> set visited" | (found) "dep_id d \<notin> set visited" "dep_id d = a"
    | (on) "dep_id d \<notin> set visited" "dep_id d \<noteq> a" by blast
  then show ?case
  proof cases
    case seen
    then have "visited_closed deps visited None a"
      using "2.prems" unfolding visited_closed_def by (simp, metis)
    then show ?thesis using seen "2.prems" closed_not_reached by auto
  next
    case found
    then show ?thesis by (auto intro: reports_to.here)
  next
    case on
    have "case parent_of deps d of None \<Rightarrow> True
      | Some q \<Rightarrow> in_table deps q \<and> visited_closed deps (dep_id d # visited) (Some (dep_id q)) a"
      using "2.prems" on
      by (auto simp: visited_closed_def parent_in_table split: option.splits dest: in_table_id)
    from "2.IH" [OF on this] show ?thesis
      using on by (subst reports_to_unfold) (auto split: option.splits)
  qed
qed

lemma grantCovers_reports:
  assumes "in_table deps d" and "grantCovers deps g d"
  shows "if contactIncludesDescendants (con_level (gr_contact g))
    then reports_to deps d (dep_id (gr_department g)) else dep_id d = dep_id (gr_department g)"
  using assms in_scope_iff [where d = "Some d" and deps = deps and visited = "[]" and a = "dep_id (gr_department g)"] reports_to.here [of deps d]
  by (auto simp: grantCovers_def departmentInScope_def visited_closed_def)

subsection \<open>Where the permissions of a principal come from\<close>



lemma add_permission_fields [simp]:
  "pri_superuser (add_permission known rp r p) = pri_superuser p"
  "pri_roles (add_permission known rp r p) = pri_roles p"
  by (auto simp: add_permission_def Let_def split: prod.splits)

lemma fold_add_permission_fields [simp]:
  "pri_superuser (fold (add_permission known rp) rows p) = pri_superuser p"
  "pri_roles (fold (add_permission known rp) rows p) = pri_roles p"
  by (induction rows arbitrary: p) simp_all


subsection \<open>Properties\<close>

definition sample_department :: "int \<Rightarrow> int option \<Rightarrow> int \<Rightarrow> department_row" where
  "sample_department i up level =
     \<lparr> dep_id = i, dep_name = ''d'', dep_level = level, dep_parent = up \<rparr>"

definition sample_cycle :: "department_row list" where
  "sample_cycle = [sample_department 1 (Some 2) 2, sample_department 2 (Some 1) 2]"

definition sample_contact :: "int \<Rightarrow> string \<Rightarrow> int \<Rightarrow> contact_row" where
  "sample_contact i level d = \<lparr> con_id = i, con_name = ''n'', con_employee = ''e1'',
     con_department = Some d, con_level = level, con_can_delegate = True, con_active = True \<rparr>"

text \<open>C29. The walk up the department tree returns on every table, cyclic ones included, and
  accepts a department exactly when following parent links from it reaches the anchor, the
  department itself counting as reached.\<close>

theorem departmentInScope_iff_reports_to:
  assumes "fetch dep_id (dep_id d) deps = Inr d"
  shows "departmentInScope deps (Some d) a \<longleftrightarrow> reports_to deps d a"
  using in_scope_iff [where d = "Some d" and deps = deps and visited = "[]" and a = a] assms
  by (simp add: departmentInScope_def visited_closed_def in_table_def)

theorem departmentInScope_iff_reports_to_witness:
  "departmentInScope sample_cycle (Some (sample_department 1 (Some 2) 2)) 3
     \<longleftrightarrow> reports_to sample_cycle (sample_department 1 (Some 2) 2) 3"
  by (rule departmentInScope_iff_reports_to)
     (simp add: fetch_def sample_cycle_def sample_department_def)



text \<open>C35. Without the right to view all attempts, an attempt is visible only through an active grant of
  the user whose department covers the attempt's: a liaison's or department HR's covers its
  subtree, a screener's its own department only, and a screener sees only what is assigned to it.\<close>

theorem visible_attempt_within_grants:
  assumes "visibleAttempt deps p att" and "\<not> has p ''attempt.view_all''"
  shows "\<exists>g \<in> set (departmentGrants p). \<exists>d \<in> set deps.
    con_active (gr_contact g) \<and> dep_id d = att_current_dept att \<and>
    (if contactIncludesDescendants (con_level (gr_contact g))
     then reports_to deps d (dep_id (gr_department g)) else dep_id d = dep_id (gr_department g)) \<and>
    (con_level (gr_contact g) = ''tertiary'' \<longrightarrow> att_screener att = Some (con_id (gr_contact g)))"
proof -
  from assms obtain d where d: "fetch dep_id (att_current_dept att) deps = Inr d"
      and g: "list_ex (\<lambda>g. grantCanViewAttempt p g att \<and> grantCovers deps g d) (departmentGrants p)"
    by (auto simp: visibleAttempt_def split: if_splits sum.splits)
  from g obtain g where g: "g \<in> set (departmentGrants p)" "grantCanViewAttempt p g att" "grantCovers deps g d"
    by (auto simp: list_ex_iff)
  have dd: "d \<in> set deps" "dep_id d = att_current_dept att" using fetch_Inr [OF d] by auto
  then have "in_table deps d" using d by (simp add: in_table_def)
  then have "if contactIncludesDescendants (con_level (gr_contact g))
      then reports_to deps d (dep_id (gr_department g)) else dep_id d = dep_id (gr_department g)"
    using g(3) by (rule grantCovers_reports)
  moreover have "con_active (gr_contact g)"
    using g(2) by (auto simp: grantCanViewAttempt_def grantHas_def Let_def split: if_splits)
  moreover have "con_level (gr_contact g) = ''tertiary'' \<longrightarrow> att_screener att = Some (con_id (gr_contact g))"
    using g(2) by (auto simp: grantCanViewAttempt_def isDepartmentHR_def split: if_splits)
  ultimately show ?thesis using g(1) dd by (intro bexI [of _ g] bexI [of _ d]) (auto split: if_splits)
qed

definition sample_principal :: "string \<Rightarrow> int \<Rightarrow> principal" where
  "sample_principal level d = \<lparr> pri_user = 1, pri_name = ''e1'', pri_superuser = False,
     pri_permissions = [''attempt.view_department''], pri_roles = [], pri_contact = None,
     pri_grants = Some [\<lparr> gr_contact = sample_contact 9 level d,
       gr_department = sample_department d None 2 \<rparr>],
     pri_global = Some [''attempt.view_department''], pri_level = [] \<rparr>"

theorem visible_attempt_within_grants_witness:
  "let p = sample_principal ''secondary'' 1;
       deps = [sample_department 1 None 2, sample_department 2 (Some 1) 3];
       att = attempt_defaults\<lparr>att_current_dept := 2, att_status := AttDispatched\<rparr> in
   \<exists>g \<in> set (departmentGrants p). \<exists>d \<in> set deps.
    con_active (gr_contact g) \<and> dep_id d = att_current_dept att \<and>
    (if contactIncludesDescendants (con_level (gr_contact g))
     then reports_to deps d (dep_id (gr_department g)) else dep_id d = dep_id (gr_department g)) \<and>
    (con_level (gr_contact g) = ''tertiary'' \<longrightarrow> att_screener att = Some (con_id (gr_contact g)))"
  unfolding Let_def by (rule visible_attempt_within_grants) code_simp+

end
