(* ===== verification/Applications.thy ===== *)
theory Applications
  imports Access
begin

text \<open>
  The ledger of applications (internal/platform/applications.go) with the pool memberships an
  operation closes on the way (\<open>closePoolMemberships\<close> of pools.go) and the workflow rows it saves.
  Of the handlers modelled here \<open>applicationState\<close> is the only writer of the ledger; the import of
  applications (imports.go), which is not modelled, adds rows to it as well. The clock is the parameter \<open>now\<close>.
\<close>

subsection \<open>Memberships and workflow rows\<close>

definition poolEvent :: "int \<Rightarrow> string \<Rightarrow> object \<Rightarrow> principal option \<Rightarrow> db \<Rightarrow> db" where
  "poolEvent member kind payload p db = db\<lparr>db_member_events := db_member_events db @
     [\<lparr> mev_member = member, mev_kind = kind, mev_payload = payload,
        mev_actor = map_option pri_user p \<rparr>]\<rparr>"

definition close_member :: "int \<Rightarrow> int option \<Rightarrow> member_row \<Rightarrow> bool" where
  "close_member workflow except m \<longleftrightarrow> mem_workflow m = workflow
     \<and> (case except of None \<Rightarrow> True | Some r \<Rightarrow> mem_resume m \<noteq> r) \<and> active_member_status (mem_status m)"

definition closePoolMemberships :: "int \<Rightarrow> int option \<Rightarrow> string \<Rightarrow> db \<Rightarrow> db" where
  "closePoolMemberships workflow except reason db =
     (let closing = filter (close_member workflow except) (db_members db);
          db = db\<lparr>db_members := update_where (close_member workflow except)
            (\<lambda>m. m\<lparr>mem_status := PmClosed, mem_revision := mem_revision m + 1\<rparr>) (db_members db)\<rparr>
      in fold (\<lambda>m. poolEvent (mem_id m) ''closed'' [(''reason'', JStr reason)] None) closing db)"

definition save_workflow :: "int \<Rightarrow> (workflow_row \<Rightarrow> workflow_row) \<Rightarrow> db \<Rightarrow> go_error + workflow_row \<times> db" where
  "save_workflow i f db = andThen (save_row wf_id i f (db_workflows db))
     (\<lambda>(w, ws). Inr (w, db\<lparr>db_workflows := ws\<rparr>))"

subsection \<open>The state of an application\<close>

definition closedApplication :: "application_status \<Rightarrow> bool" where
  "closedApplication = closed_status"

text \<open>\<open>INSERT ... SELECT FROM core_resume ... ON CONFLICT DO NOTHING\<close>.\<close>

definition ensure_application :: "instant \<Rightarrow> int \<Rightarrow> db \<Rightarrow> db" where
  "ensure_application now resume db =
     (case first_where (\<lambda>r. res_id r = resume) (db_resumes db) of
        None \<Rightarrow> db
      | Some r \<Rightarrow>
          if exists_where (\<lambda>a. app_resume a = resume) (db_applications db) then db
          else db\<lparr>db_applications := db_applications db @
            [\<lparr> app_resume = resume, app_candidate = res_candidate r, app_status = AppPending,
               app_reason = [], app_updated = now, app_completed = None \<rparr>]\<rparr>)"

definition applicationState ::
  "instant \<Rightarrow> int \<Rightarrow> application_status \<Rightarrow> string \<Rightarrow> object \<Rightarrow> db \<Rightarrow> go_error + db" where
  "applicationState now resume status reason payload db =
     (let db = ensure_application now resume db in
      case first_where (\<lambda>a. app_resume a = resume) (db_applications db) of
        None \<Rightarrow> Inl not_found
      | Some prior \<Rightarrow>
          if app_status prior = status \<and> app_reason prior = reason then Inr db
          else if closedApplication (app_status prior)
          then Inl (ApiError 409 ''application closed'')
          else Inr (db\<lparr>
            db_applications := update_where (\<lambda>a. app_resume a = resume)
              (\<lambda>a. a\<lparr>app_status := status, app_reason := reason, app_updated := now,
                 app_completed := (if closedApplication status then Some now else None)\<rparr>)
              (db_applications db),
            db_app_events := db_app_events db @
              [\<lparr> aev_resume = resume, aev_from = Some (app_status prior), aev_to = status,
                 aev_reason = reason, aev_payload = payload \<rparr>]\<rparr>))"

definition requireOpenApplication :: "int \<Rightarrow> db \<Rightarrow> go_error + unit" where
  "requireOpenApplication resume db =
     ensure (\<not> exists_where (\<lambda>a. app_resume a = resume \<and> closed_status (app_status a)) (db_applications db))
       (ApiError 409 ''application closed'')"

subsection \<open>After the last application\<close>

text \<open>A resume of the candidate that has no application row or an open one.\<close>

definition remaining_application :: "int \<Rightarrow> db \<Rightarrow> bool" where
  "remaining_application candidate db \<longleftrightarrow> exists_where (\<lambda>r. res_candidate r = candidate \<and>
     \<not> exists_where (\<lambda>a. app_resume a = res_id r \<and> closed_status (app_status a)) (db_applications db))
     (db_resumes db)"

definition waitForNextApplication :: "workflow_row \<Rightarrow> db \<Rightarrow> go_error + db" where
  "waitForNextApplication w db = andThen (save_workflow (wf_id w) (\<lambda>w. w\<lparr>wf_status := WfWaitingNext,
       wf_current_resume := None, wf_current_rank := None, wf_archive_reason := [],
       wf_archive_detail := [], wf_block_reason := [], wf_block_detail := [], wf_completed := None\<rparr>) db)
     (\<lambda>(_, db). Inr db)"

definition talentPool :: "instant \<Rightarrow> workflow_row \<Rightarrow> db \<Rightarrow> go_error + db" where
  "talentPool now w db =
     (if remaining_application (wf_candidate w) db then waitForNextApplication w db
      else andThen (save_workflow (wf_id w) (\<lambda>w. w\<lparr>wf_status := WfTalentPool,
             wf_archive_reason := ''all_rejected'', wf_archive_detail := ''every application was rejected'',
             wf_block_reason := [], wf_block_detail := [], wf_completed := Some now\<rparr>)
           (closePoolMemberships (wf_id w) None ''all_rejected'' db))
        (\<lambda>(_, db). Inr db))"

definition waitAfterDepartmentRejection :: "instant \<Rightarrow> workflow_row \<Rightarrow> db \<Rightarrow> go_error + db" where
  "waitAfterDepartmentRejection now w db =
     (let db = closePoolMemberships (wf_id w) None ''department_rejected'' db in
      if \<not> remaining_application (wf_candidate w) db then talentPool now w db
      else waitForNextApplication w db)"

subsection \<open>Work that is kept\<close>

definition forceReprocess :: "object \<Rightarrow> bool" where
  "forceReprocess scope \<longleftrightarrow> fld scope ''source'' \<noteq> JStr ''schedule'' \<and>
     (truth (fld scope ''force_reprocess'') \<or> str (fld scope ''source'') = ''ai_retry'')"

definition invalidateWorkflow :: "workflow_row \<Rightarrow> db \<Rightarrow> go_error + workflow_row \<times> db" where
  "invalidateWorkflow w db = save_workflow (wf_id w) (\<lambda>r. r\<lparr>wf_item := None, wf_token := None,
     wf_expires := None, wf_revision := wf_revision w + 1\<rparr>) db"

definition effective_attempt :: "int \<Rightarrow> db \<Rightarrow> bool" where
  "effective_attempt workflow db \<longleftrightarrow>
     exists_where (\<lambda>a. att_workflow a = workflow \<and> effective_status (att_status a)) (db_attempts db)"

text \<open>The result is the code of the kept work, or \<open>None\<close> to go on.\<close>

definition retainApplicationWork ::
  "object \<Rightarrow> workflow_row \<Rightarrow> db \<Rightarrow> go_error + string option \<times> db" where
  "retainApplicationWork scope w db =
     (if wf_status w \<in> {WfPassed, WfTalentPool} \<or> (wf_status w = WfArchived \<and> \<not> forceReprocess scope)
      then Inr (Some ''terminal_workflow'', db)
      else if effective_attempt (wf_id w) db then Inr (Some ''awaiting_department'', db)
      else if exists_where (\<lambda>m. mem_workflow m = wf_id w \<and> mem_status m = PmPendingAllocation) (db_members db)
        \<and> \<not> forceReprocess scope
      then andThen (invalidateWorkflow w db) (\<lambda>(_, db). Inr (Some ''allocation_queued'', db))
      else Inr (None, db))"

subsection \<open>The history of an application\<close>

text \<open>The events of an application lead from one status to another, and only open ones are left.\<close>

fun linked :: "application_status \<Rightarrow> app_event_row list \<Rightarrow> application_status \<Rightarrow> bool" where
  "linked s [] t \<longleftrightarrow> s = t"
| "linked s (e # es) t \<longleftrightarrow> aev_from e = Some s \<and> \<not> closed_status s \<and> linked (aev_to e) es t"

lemma linked_snoc:
  "linked s (es @ [e]) t \<longleftrightarrow> (\<exists>u. linked s es u \<and> aev_from e = Some u \<and> \<not> closed_status u \<and> aev_to e = t)"
  by (induction es arbitrary: s) auto

text \<open>Migrated rows start with an event that has no former status.\<close>

definition history_of :: "app_event_row list \<Rightarrow> application_status \<Rightarrow> bool" where
  "history_of es t \<longleftrightarrow> linked AppPending es t \<or>
     (case es of [] \<Rightarrow> False | e # es \<Rightarrow> aev_from e = None \<and> linked (aev_to e) es t)"

lemma history_of_snoc:
  "history_of es t \<Longrightarrow> \<not> closed_status t \<Longrightarrow> aev_from e = Some t \<Longrightarrow> history_of (es @ [e]) (aev_to e)"
  by (cases es) (auto simp: history_of_def linked_snoc)

definition events_of :: "int \<Rightarrow> db \<Rightarrow> app_event_row list" where
  "events_of resume db = filter (\<lambda>e. aev_resume e = resume) (db_app_events db)"

definition ledger_ok :: "db \<Rightarrow> bool" where
  "ledger_ok db \<longleftrightarrow> distinct (map app_resume (db_applications db)) \<and>
     (\<forall>a \<in> set (db_applications db). history_of (events_of (app_resume a) db) (app_status a)
        \<and> (closed_status (app_status a) \<longleftrightarrow> app_completed a \<noteq> None)) \<and>
     (\<forall>e \<in> set (db_app_events db). aev_resume e \<in> app_resume ` set (db_applications db))"

text \<open>No application row is lost, closed ones stay as they are, and events are only appended.\<close>

definition ledger_grows :: "db \<Rightarrow> db \<Rightarrow> bool" where
  "ledger_grows a b \<longleftrightarrow>
     (\<forall>r \<in> set (db_applications a). closed_status (app_status r) \<longrightarrow> r \<in> set (db_applications b)) \<and>
     app_resume ` set (db_applications a) \<subseteq> app_resume ` set (db_applications b) \<and>
     (\<exists>es. db_app_events b = db_app_events a @ es)"

definition ledger_step :: "db \<Rightarrow> db \<Rightarrow> bool" where
  "ledger_step a b \<longleftrightarrow> (ledger_ok a \<longrightarrow> ledger_ok b \<and> ledger_grows a b)"

lemma ledger_grows_refl: "db_applications b = db_applications a \<Longrightarrow> db_app_events b = db_app_events a
    \<Longrightarrow> ledger_grows a b"
  by (simp add: ledger_grows_def)

lemma ledger_grows_trans: "ledger_grows a b \<Longrightarrow> ledger_grows b c \<Longrightarrow> ledger_grows a c"
  by (force simp: ledger_grows_def)

subsection \<open>Relations between states: the interfaces\<close>

text \<open>
  A relation between the states before and after an operation, closed under the elementary steps.
  Every operation of the applications, the attempts, the pools, the allocation and the processing
  runs is a sequence of such steps, so its effect on the ledger, the attempt table or the
  allocation queue follows from these locales, once for all the relations of interest.
\<close>

locale core_relation =
  fixes R :: "db \<Rightarrow> db \<Rightarrow> bool"
  assumes refl: "R a a"
    and trans: "R a b \<Longrightarrow> R b c \<Longrightarrow> R a c"
    and state: "applicationState now resume status reason payload a = Inr b \<Longrightarrow> R a b"
    and save_workflow: "save_workflow i f a = Inr (w, b) \<Longrightarrow> R a b"
    and closePoolMemberships: "R a (closePoolMemberships k x reason a)"
begin

lemma loop:
  assumes "foldE f xs a = Inr b" and "\<And>x a b. x \<in> set xs \<Longrightarrow> f x a = Inr b \<Longrightarrow> R a b"
  shows "R a b"
  using assms(1) by (rule foldE_relation) (auto intro: refl trans assms(2))

lemma waitForNextApplication: "waitForNextApplication w a = Inr b \<Longrightarrow> R a b"
  by (auto simp: waitForNextApplication_def andThen_eq_Inr intro: save_workflow)

lemma talentPool: "talentPool now w a = Inr b \<Longrightarrow> R a b"
  by (auto simp: talentPool_def andThen_eq_Inr split: if_splits
      intro: waitForNextApplication trans [OF closePoolMemberships save_workflow])

lemma waitAfterDepartmentRejection: "waitAfterDepartmentRejection now w a = Inr b \<Longrightarrow> R a b"
  by (auto simp: waitAfterDepartmentRejection_def Let_def split: if_splits
      intro: trans [OF closePoolMemberships talentPool] trans [OF closePoolMemberships waitForNextApplication])

lemma invalidateWorkflow: "invalidateWorkflow w a = Inr (w', b) \<Longrightarrow> R a b"
  by (auto simp: invalidateWorkflow_def intro: save_workflow)

lemma retainApplicationWork: "retainApplicationWork scope w a = Inr (k, b) \<Longrightarrow> R a b"
  by (auto simp: retainApplicationWork_def andThen_eq_Inr split: if_splits intro: refl invalidateWorkflow)

end

text \<open>The ledger: a relation that holds for an update by \<open>applicationState\<close> and for whatever leaves the
  two tables of the ledger alone.\<close>

locale ledger_relation =
  fixes R :: "db \<Rightarrow> db \<Rightarrow> bool"
  assumes trans: "R a b \<Longrightarrow> R b c \<Longrightarrow> R a c"
    and frame: "db_applications b = db_applications a \<Longrightarrow> db_app_events b = db_app_events a \<Longrightarrow> R a b"
    and state: "applicationState now resume status reason payload a = Inr b \<Longrightarrow> R a b"
begin

lemma refl: "R a a"
  by (rule frame) simp_all

lemma fold_frame:
  "(\<And>x a. db_applications (f x a) = db_applications a \<and> db_app_events (f x a) = db_app_events a) \<Longrightarrow>
    R a (fold f xs a)"
proof (induction xs arbitrary: a)
  case Nil
  then show ?case by (simp add: refl)
next
  case (Cons x xs)
  have "R a (f x a)" by (rule frame) (simp_all add: Cons.prems)
  then show ?case using Cons.IH [OF Cons.prems] by (auto intro: trans)
qed

end

lemma fold_poolEvent:
  "fold (\<lambda>m. poolEvent (mem_id m) kind payload p) ms db = db\<lparr>db_member_events := db_member_events db @
     map (\<lambda>m. \<lparr> mev_member = mem_id m, mev_kind = kind, mev_payload = payload,
       mev_actor = map_option pri_user p \<rparr>) ms\<rparr>"
  by (induction ms arbitrary: db) (simp_all add: poolEvent_def)

text \<open>Closing memberships changes these two tables and nothing else.\<close>

lemma closePoolMemberships_eq [frame_simps]:
  "closePoolMemberships workflow except reason db = db\<lparr>
     db_members := update_where (close_member workflow except)
       (\<lambda>m. m\<lparr>mem_status := PmClosed, mem_revision := mem_revision m + 1\<rparr>) (db_members db),
     db_member_events := db_member_events db @
       map (\<lambda>m. \<lparr> mev_member = mem_id m, mev_kind = ''closed'', mev_payload = [(''reason'', JStr reason)],
         mev_actor = None \<rparr>) (filter (close_member workflow except) (db_members db))\<rparr>"
  unfolding closePoolMemberships_def Let_def fold_poolEvent by simp

lemma save_workflow_Inr [result_simps]:
  "save_workflow i f db = Inr (w, db') \<longleftrightarrow>
     (\<exists>r. first_where (\<lambda>r. wf_id r = i) (db_workflows db) = Some r \<and> w = f r \<and>
        db' = db\<lparr>db_workflows := update_where (\<lambda>r. wf_id r = i) f (db_workflows db)\<rparr>)"
  by (auto simp: save_workflow_def andThen_eq_Inr save_row_Inr)

subsection \<open>One ledger update\<close>

lemma image_update_where [table_simps]:
  "(\<And>r. k (f r) = k r) \<Longrightarrow> k ` set (update_where p f rs) = k ` set rs"
  by (metis map_update_where_key set_map)

lemma ensure_application_eq:
  "ensure_application now resume db = db\<lparr>db_applications := db_applications (ensure_application now resume db)\<rparr>"
  by (auto simp: ensure_application_def split: option.splits)

lemma ensure_application_cases:
  obtains (old) "db_applications (ensure_application now resume db) = db_applications db"
  | (new) r where "resume \<notin> app_resume ` set (db_applications db)" "app_resume r = resume"
      "app_status r = AppPending" "app_completed r = None"
      "db_applications (ensure_application now resume db) = db_applications db @ [r]"
proof (cases "first_where (\<lambda>r. res_id r = resume) (db_resumes db) = None
    \<or> exists_where (\<lambda>a. app_resume a = resume) (db_applications db)")
  case True
  then show ?thesis by (intro old) (auto simp: ensure_application_def split: option.splits)
next
  case False
  then obtain r where r: "first_where (\<lambda>r. res_id r = resume) (db_resumes db) = Some r" by auto
  show ?thesis
    by (rule new [of "\<lparr> app_resume = resume, app_candidate = res_candidate r, app_status = AppPending,
               app_reason = [], app_updated = now, app_completed = None \<rparr>"])
      (use False r in \<open>auto simp: ensure_application_def exists_where_iff\<close>)
qed

lemma db_app_events_ensure [simp]: "db_app_events (ensure_application now resume db) = db_app_events db"
  by (subst ensure_application_eq) simp

text \<open>The successful branches of \<open>applicationState\<close>.\<close>

lemma applicationState_cases:
  assumes "applicationState now resume status reason payload db = Inr db'"
  obtains (same) prior where "prior \<in> set (db_applications (ensure_application now resume db))"
      "app_resume prior = resume" "app_status prior = status" "app_reason prior = reason"
      "db' = ensure_application now resume db"
  | (change) prior where "prior \<in> set (db_applications (ensure_application now resume db))"
      "app_resume prior = resume" "\<not> closed_status (app_status prior)"
      "db_applications db' = update_where (\<lambda>a. app_resume a = resume)
         (\<lambda>a. a\<lparr>app_status := status, app_reason := reason, app_updated := now,
            app_completed := (if closed_status status then Some now else None)\<rparr>)
         (db_applications (ensure_application now resume db))"
      "db_app_events db' = db_app_events db @ [\<lparr> aev_resume = resume, aev_from = Some (app_status prior),
         aev_to = status, aev_reason = reason, aev_payload = payload \<rparr>]"
proof -
  let ?d = "ensure_application now resume db"
  have eq: "(case first_where (\<lambda>a. app_resume a = resume) (db_applications ?d) of None \<Rightarrow> Inl not_found
      | Some prior \<Rightarrow>
          if app_status prior = status \<and> app_reason prior = reason then Inr ?d
          else if closed_status (app_status prior) then Inl (ApiError 409 ''application closed'')
          else Inr (?d\<lparr>
            db_applications := update_where (\<lambda>a. app_resume a = resume)
              (\<lambda>a. a\<lparr>app_status := status, app_reason := reason, app_updated := now,
                 app_completed := (if closed_status status then Some now else None)\<rparr>) (db_applications ?d),
            db_app_events := db_app_events ?d @
              [\<lparr> aev_resume = resume, aev_from = Some (app_status prior), aev_to = status,
                 aev_reason = reason, aev_payload = payload \<rparr>]\<rparr>)) = Inr db'"
    using assms unfolding applicationState_def Let_def closedApplication_def .
  show thesis
  proof (cases "first_where (\<lambda>a. app_resume a = resume) (db_applications ?d)")
    case None
    then show ?thesis using eq by simp
  next
    case (Some prior)
    note p = first_where_SomeD [OF Some]
    show ?thesis
    proof (cases "app_status prior = status \<and> app_reason prior = reason")
      case True
      then have "db' = ?d" using eq Some by simp
      then show ?thesis using same [of prior] p True by simp
    next
      case False
      note eq' = eq [unfolded Some option.case if_not_P [OF False]]
      show ?thesis
      proof (cases "closed_status (app_status prior)")
        case True
        then show ?thesis using eq' by simp
      next
        case open_row: False
        note db' = eq' [unfolded if_not_P [OF open_row] sum.inject, symmetric]
        show ?thesis
          by (rule change [of prior]) (use p open_row in \<open>simp_all add: db'\<close>)
      qed
    qed
  qed
qed

lemma ledger_ok_ensure:
  assumes db: "ledger_ok db"
  shows "ledger_ok (ensure_application now resume db)"
proof (cases rule: ensure_application_cases [of now resume db])
  case old
  then show ?thesis using db by (simp add: ledger_ok_def events_of_def)
next
  case r: (new r)
  have "events_of resume db = []"
    using db r(1) by (auto simp: ledger_ok_def events_of_def filter_empty_conv)
  then show ?thesis using db r by (auto simp: ledger_ok_def events_of_def history_of_def)
qed

lemma applicationState_ledger_ok:
  assumes "applicationState now resume status reason payload db = Inr db'" and "ledger_ok db"
  shows "ledger_ok db'"
  using assms(1)
proof (cases rule: applicationState_cases)
  case (same prior)
  then show ?thesis using ledger_ok_ensure [OF assms(2)] by simp
next
  case (change prior)
  let ?db = "ensure_application now resume db"
  have ok: "ledger_ok ?db" by (rule ledger_ok_ensure [OF assms(2)])
  then have only: "a = prior" if "a \<in> set (db_applications ?db)" "app_resume a = resume" for a
    using that change(1,2) by (auto simp: ledger_ok_def dest: distinct_key_unique)
  have ev: "events_of i db' = (if i = resume then events_of i ?db @ [\<lparr> aev_resume = resume,
      aev_from = Some (app_status prior), aev_to = status, aev_reason = reason, aev_payload = payload \<rparr>]
      else events_of i ?db)" for i
    using change(5) by (simp add: events_of_def)
  have h: "history_of (events_of resume ?db) (app_status prior)"
    using ok change(1,2) unfolding ledger_ok_def by blast
  have hist: "history_of (events_of resume ?db @ [\<lparr> aev_resume = resume,
      aev_from = Some (app_status prior), aev_to = status, aev_reason = reason, aev_payload = payload \<rparr>]) status"
    using history_of_snoc [OF h change(3), of "\<lparr> aev_resume = resume,
      aev_from = Some (app_status prior), aev_to = status, aev_reason = reason, aev_payload = payload \<rparr>"]
    by simp
  have keys: "app_resume ` set (db_applications db') = app_resume ` set (db_applications ?db)"
    unfolding change(4) by (simp add: image_update_where)
  show ?thesis
    unfolding ledger_ok_def
  proof (intro conjI ballI)
    show "distinct (map app_resume (db_applications db'))"
      using ok unfolding change(4) by (simp add: ledger_ok_def distinct_update_where)
  next
    fix a
    assume "a \<in> set (db_applications db')"
    then obtain q where q: "q \<in> set (db_applications ?db)" and a: "a = (if app_resume q = resume
        then q\<lparr>app_status := status, app_reason := reason, app_updated := now,
          app_completed := (if closed_status status then Some now else None)\<rparr> else q)"
      unfolding change(4) by (auto simp: in_update_where)
    show "history_of (events_of (app_resume a) db') (app_status a)"
      using q a ok hist by (auto simp: ev ledger_ok_def)
    show "closed_status (app_status a) \<longleftrightarrow> app_completed a \<noteq> None"
      using q a ok by (auto simp: ledger_ok_def)
  next
    fix e
    assume "e \<in> set (db_app_events db')"
    then show "aev_resume e \<in> app_resume ` set (db_applications db')"
      unfolding keys using ok change(1,2,5) by (auto simp: ledger_ok_def)
  qed
qed

lemma applicationState_grows:
  assumes "applicationState now resume status reason payload db = Inr db'" and "ledger_ok db"
  shows "ledger_grows db db'"
proof -
  let ?as = "db_applications (ensure_application now resume db)"
  have e: "set (db_applications db) \<subseteq> set ?as"
    by (rule ensure_application_cases [of now resume db]) auto
  show ?thesis
    using assms(1)
  proof (cases rule: applicationState_cases)
    case (same prior)
    then show ?thesis using e by (auto simp: ledger_grows_def)
  next
    case (change prior)
    have d: "distinct (map app_resume ?as)" using ledger_ok_ensure [OF assms(2)] by (simp add: ledger_ok_def)
    have "r \<in> set (db_applications db')" if r: "r \<in> set (db_applications db)" "closed_status (app_status r)" for r
    proof -
      have "app_resume r \<noteq> resume"
        using r e d change(1-3) by (auto dest: distinct_key_unique)
      then show ?thesis using r e unfolding change(4) by (auto simp: in_update_where)
    qed
    moreover have "app_resume ` set (db_applications db) \<subseteq> app_resume ` set (db_applications db')"
      using e unfolding change(4) by (simp add: image_update_where image_mono)
    ultimately show ?thesis using change(5) by (simp add: ledger_grows_def)
  qed
qed

text \<open>A ledger update touches the two ledger tables only.\<close>

lemma applicationState_only:
  assumes "applicationState now resume status reason payload db = Inr db'"
  shows "db' = db\<lparr>db_applications := db_applications db', db_app_events := db_app_events db'\<rparr>"
proof -
  have e: "ensure_application now resume db =
      db\<lparr>db_applications := db_applications (ensure_application now resume db)\<rparr>"
    by (rule ensure_application_eq)
  show ?thesis
    using assms unfolding applicationState_def Let_def
    by (subst (asm) (1 2 3 4) e) (auto split: option.splits if_splits simp: ensure_application_def)
qed

lemma applicationState_frame [frame_simps]:
  assumes "applicationState now resume status reason payload db = Inr db'"
  shows "db_attempts db' = db_attempts db" "db_next db' = db_next db" "db_members db' = db_members db"
    "db_workflows db' = db_workflows db" "db_departments db' = db_departments db"
    "db_resumes db' = db_resumes db" "db_items db' = db_items db" "db_work db' = db_work db"
    "db_tasks db' = db_tasks db" "db_scopes db' = db_scopes db" "db_plans db' = db_plans db"
    "db_targets db' = db_targets db" "db_qualifications db' = db_qualifications db"
    "db_runs db' = db_runs db" "db_schedules db' = db_schedules db" "db_stages db' = db_stages db"
  by (subst applicationState_only [OF assms], simp)+

interpretation ledger: ledger_relation ledger_step
proof
  show "ledger_step a c" if "ledger_step a b" "ledger_step b c" for a b c
    using that by (auto simp: ledger_step_def intro: ledger_grows_trans)
  show "ledger_step a b" if "db_applications b = db_applications a" "db_app_events b = db_app_events a" for a b
    using that by (simp add: ledger_step_def ledger_grows_refl) (simp add: ledger_ok_def events_of_def)
  show "ledger_step a b" if "applicationState now resume status reason payload a = Inr b"
    for now resume status reason payload a b
    using that applicationState_ledger_ok applicationState_grows by (auto simp: ledger_step_def)
qed

sublocale ledger_relation < core?: core_relation
proof
  show "R a a" for a by (rule refl)
  show "R a c" if "R a b" "R b c" for a b c using that by (rule trans)
  show "R a b" if "applicationState now r st why payload a = Inr b" for now r st why payload a b
    using that by (rule state)
  show "R a b" if "save_workflow i f a = Inr (w, b)" for i f a w b
    using that by (auto simp: save_workflow_Inr intro: frame)
  show "R a (closePoolMemberships k x why a)" for k x why a
    by (rule frame) (simp_all add: closePoolMemberships_eq)
qed

end
