(* ===== verification/Workflows.thy ===== *)
theory Workflows
  imports Applications
begin

text \<open>
  The assignment of a candidate to a department and its handling (internal/platform/workflows.go):
  creation of an attempt, manual assignment, and the actions of the attempt API
  (\<open>mutateAttempt\<close>: dispatch, transfer to a department or a screener, cancellation, feedback).
  Parameters: the clock \<open>now\<close>, the configuration value \<open>welink_enabled\<close>, the choices of the
  feedback reason field (\<open>choices\<close>, from the compatibility spec) and the principals of other
  users (\<open>principal_of\<close>).
\<close>

subsection \<open>Workflow rows\<close>

definition touchWorkflow :: "instant \<Rightarrow> workflow_row \<Rightarrow> resume_row \<Rightarrow> db \<Rightarrow> go_error + db" where
  "touchWorkflow now w resume db =
     andThen (save_workflow (wf_id w) (\<lambda>r. r\<lparr>wf_status := WfInProgress,
        wf_current_resume := Some (res_id resume), wf_current_rank := res_rank resume,
        wf_strategy := ''ai'', wf_archive_reason := [], wf_archive_detail := [],
        wf_block_reason := [], wf_block_detail := [], wf_completed := None,
        wf_started := (if wf_started w = None then Some now else wf_started r)\<rparr>)
      (closePoolMemberships (wf_id w) (Some (res_id resume)) ''volunteer_changed'' db))
     (\<lambda>(_, db). Inr db)"

definition archiveWorkflow ::
  "instant \<Rightarrow> workflow_row \<Rightarrow> string \<Rightarrow> string \<Rightarrow> db \<Rightarrow> go_error + db" where
  "archiveWorkflow now w reason detail db =
     andThen (save_workflow (wf_id w) (\<lambda>r. r\<lparr>wf_status := WfArchived, wf_archive_reason := reason,
        wf_archive_detail := detail, wf_block_reason := [], wf_block_detail := [],
        wf_completed := Some now\<rparr>)
      (closePoolMemberships (wf_id w) None reason db))
     (\<lambda>(_, db). Inr db)"

subsection \<open>Attempt rows and their events\<close>

definition department_name :: "db \<Rightarrow> int option \<Rightarrow> string" where
  "department_name db i = (case fetch_opt dep_id i (db_departments db) of Inr d \<Rightarrow> dep_name d | Inl _ \<Rightarrow> [])"

text \<open>\<open>event\<close>: without an explicit flag an event is automatic when there is no principal.\<close>

definition handling_event ::
  "instant \<Rightarrow> attempt_row \<Rightarrow> string \<Rightarrow> int option \<Rightarrow> int option \<Rightarrow> string \<Rightarrow> principal option
    \<Rightarrow> string option \<Rightarrow> object \<Rightarrow> bool option \<Rightarrow> db \<Rightarrow> db" where
  "handling_event now att kind src dst note p batch metadata automatic db =
     db\<lparr>db_handling := db_handling db @ [\<lparr> hev_attempt = att_id att, hev_kind = kind, hev_from = src,
        hev_to = dst, hev_from_name = department_name db src, hev_to_name = department_name db dst,
        hev_actor = map_option pri_user p,
        hev_actor_name = (case p of None \<Rightarrow> [] | Some q \<Rightarrow> pri_name q), hev_note = note,
        hev_batch = batch, hev_auto = (case automatic of None \<Rightarrow> p = None | Some b \<Rightarrow> b),
        hev_metadata = metadata, hev_at = now \<rparr>]\<rparr>"

text \<open>
  Saving an attempt row. The trigger \<open>platform_allocation_changed\<close> stamps the target of a
  dispatched or answered attempt with its first dispatch time.
\<close>

definition mark_dispatched :: "instant \<Rightarrow> attempt_row \<Rightarrow> db \<Rightarrow> db" where
  "mark_dispatched now att db =
     (if att_status att \<in> {AttDispatched, AttPassed, AttRejected} then
        db\<lparr>db_targets := update_where (\<lambda>t. tgt_attempt t = att_id att)
          (\<lambda>t. t\<lparr>tgt_dispatched := (case tgt_dispatched t of None \<Rightarrow> Some now | Some d \<Rightarrow> Some d)\<rparr>)
          (db_targets db)\<rparr>
      else db)"

definition save_attempt ::
  "instant \<Rightarrow> int \<Rightarrow> (attempt_row \<Rightarrow> attempt_row) \<Rightarrow> db \<Rightarrow> go_error + attempt_row \<times> db" where
  "save_attempt now i f db = andThen (save_row att_id i f (db_attempts db))
     (\<lambda>(att, rows). Inr (att, mark_dispatched now att (db\<lparr>db_attempts := rows\<rparr>)))"

text \<open>Insertion under the index \<open>platform_one_effective_attempt\<close>.\<close>

definition insert_attempt :: "attempt_row \<Rightarrow> db \<Rightarrow> go_error + attempt_row \<times> db" where
  "insert_attempt att db =
     (let att = att\<lparr>att_id := db_next db\<rparr> in
      if effective_status (att_status att) \<and> effective_attempt (att_workflow att) db
      then Inl (OtherError ''platform_one_effective_attempt'')
      else Inr (att, db\<lparr>db_attempts := db_attempts db @ [att], db_next := db_next db + 1\<rparr>))"

definition open_attempts :: "int \<Rightarrow> db \<Rightarrow> attempt_row list" where
  "open_attempts workflow db = filter (\<lambda>a. att_workflow a = workflow \<and> open_status (att_status a)) (db_attempts db)"

definition cancel_attempt_row :: "instant \<Rightarrow> string \<Rightarrow> attempt_row \<Rightarrow> attempt_row" where
  "cancel_attempt_row now reason a =
     a\<lparr>att_status := AttCancelled, att_cancel_reason := reason, att_cancelled := Some now\<rparr>"

definition cancel_one :: "instant \<Rightarrow> string \<Rightarrow> attempt_source list \<Rightarrow> attempt_row \<Rightarrow> db \<Rightarrow> go_error + db" where
  "cancel_one now reason sources att db =
     (if sources \<noteq> [] \<and> att_source att \<notin> set sources then Inr db
      else andThen (save_attempt now (att_id att) (cancel_attempt_row now reason) db) (\<lambda>(_, db).
        andThen (applicationState now (att_resume att) AppCancelled reason
          [(''attempt_id'', JNum (of_int (att_id att)))] db) (\<lambda>db.
        Inr (handling_event now att ''cancelled'' (Some (att_current_dept att)) None reason None None
          [(''cancel_reason'', JStr reason)] None db))))"

text \<open>\<open>cancelOpenAttempts\<close>: the rows are read first (in id order), then cancelled one by one.\<close>

definition cancelOpenAttempts ::
  "instant \<Rightarrow> workflow_row \<Rightarrow> string \<Rightarrow> attempt_source list \<Rightarrow> db \<Rightarrow> go_error + db" where
  "cancelOpenAttempts now w reason sources db =
     foldE (cancel_one now reason sources) (open_attempts (wf_id w) db) db"

definition receivingDepartment :: "department_row \<Rightarrow> go_error + department_row" where
  "receivingDepartment target = (if isJobDepartment (dep_level target) then Inr target
     else Inl (bad ''the target must be a first or second level department''))"

text \<open>\<open>notificationMetadata\<close>.\<close>

definition notificationMetadata :: "bool \<Rightarrow> db \<Rightarrow> int \<Rightarrow> object" where
  "notificationMetadata welink_enabled db department =
     (let cs = filter (\<lambda>c. con_department c = Some department \<and> con_level c = ''secondary'' \<and> con_active c)
            (db_contacts db);
          (status, reason) =
            (if \<not> welink_enabled then (''skipped'', ''welink_disabled'')
             else if cs = [] then (''skipped'', ''no_active_recipient'')
             else (''stubbed'', ''welink_sender_not_configured''))
      in [(''welink'', JObj [(''enabled'', JBool welink_enabled),
           (''recipient_count'', JNum (of_nat (length cs))),
           (''recipient_ids'', JArr (map (\<lambda>c. JNum (of_int (con_id c))) cs)),
           (''recipient_employee_nos'', JArr (map (\<lambda>c. JStr (con_employee c)) cs)),
           (''delivery_status'', JStr status), (''skipped_reason'', JStr reason), (''error'', JStr [])])])"

text \<open>\<open>str(at["status"])\<close> as a status of the application.\<close>

fun attempt_application_status :: "attempt_status \<Rightarrow> application_status option" where
  "attempt_application_status AttPendingReview = Some AppPendingReview"
| "attempt_application_status AttPendingDispatch = Some AppPendingDispatch"
| "attempt_application_status AttPassed = Some AppPassed"
| "attempt_application_status AttCancelled = Some AppCancelled"
| "attempt_application_status _ = None"

definition next_attempt_no :: "int \<Rightarrow> db \<Rightarrow> int" where
  "next_attempt_no workflow db =
     fold (\<lambda>a n. if att_workflow a = workflow then max n (att_no a) else n) (db_attempts db) 0 + 1"

definition source_name :: "attempt_source \<Rightarrow> string" where
  "source_name s = (case s of FromRule \<Rightarrow> ''rule'' | FromAi \<Rightarrow> ''ai'' | FromManual \<Rightarrow> ''manual'')"

text \<open>
  The new row: \<open>vals\<close> sets the source, match and decision columns, as the \<open>Object\<close> argument of
  \<open>createAttempt\<close> does.
\<close>

definition new_attempt ::
  "workflow_row \<Rightarrow> resume_row \<Rightarrow> department_row \<Rightarrow> department_row \<Rightarrow> (attempt_row \<Rightarrow> attempt_row)
    \<Rightarrow> principal option \<Rightarrow> db \<Rightarrow> attempt_row" where
  "new_attempt w resume receiver target vals p db =
     (vals attempt_defaults)\<lparr>att_workflow := wf_id w, att_resume := res_id resume,
       att_no := next_attempt_no (wf_id w) db, att_initial_dept := dep_id receiver,
       att_current_dept := dep_id target, att_initial_name := dep_name receiver,
       att_current_name := dep_name target, att_apply_id := res_apply_id resume,
       att_position := res_position resume, att_created_by := map_option pri_user p,
       att_created_by_name := (case p of None \<Rightarrow> [] | Some q \<Rightarrow> pri_name q)\<rparr>"

definition manual_target :: "instant \<Rightarrow> attempt_row \<Rightarrow> department_row \<Rightarrow> db \<Rightarrow> db" where
  "manual_target now att target db =
     (if att_source att = FromManual then db\<lparr>db_targets := db_targets db @
        [\<lparr> tgt_attempt = att_id att, tgt_member = None, tgt_qualification = None, tgt_plan = None,
           tgt_scope = None, tgt_demand = None, tgt_department = dep_id target,
           tgt_kind = ''department_only'', tgt_demand_name = [],
           tgt_department_name = dep_name target, tgt_sequence = 0, tgt_allocated = now,
           tgt_dispatched = None \<rparr>]\<rparr>
      else db)"

definition created_event ::
  "instant \<Rightarrow> attempt_row \<Rightarrow> department_row \<Rightarrow> principal option \<Rightarrow> db \<Rightarrow> db" where
  "created_event now att receiver p db =
     handling_event now att ''attempt_created'' None None (att_match_reason att) p None
       [(''source'', JStr (source_name (att_source att))),
        (''initial_department_id'', JNum (of_int (dep_id receiver)))]
       (Some (att_source att \<noteq> FromManual)) db"

text \<open>The application takes the status of the attempt; its CHECK constraint refuses other ones.\<close>

definition application_follows :: "instant \<Rightarrow> attempt_row \<Rightarrow> db \<Rightarrow> go_error + db" where
  "application_follows now att db = (case attempt_application_status (att_status att) of
       None \<Rightarrow> Inl (OtherError ''application status'')
     | Some status \<Rightarrow> applicationState now (att_resume att) status (att_match_reason att)
         [(''attempt_id'', JNum (of_int (att_id att))),
          (''source'', JStr (source_name (att_source att)))] db)"

definition createAttempt ::
  "instant \<Rightarrow> workflow_row \<Rightarrow> resume_row \<Rightarrow> department_row \<Rightarrow> (attempt_row \<Rightarrow> attempt_row)
    \<Rightarrow> principal option \<Rightarrow> db \<Rightarrow> go_error + attempt_row \<times> db" where
  "createAttempt now w resume target vals p db =
     andThen (requireOpenApplication (res_id resume) db) (\<lambda>_.
     andThen (receivingDepartment target) (\<lambda>receiver.
     andThen (insert_attempt (new_attempt w resume receiver target vals p db) db) (\<lambda>(att, db).
     andThen (touchWorkflow now w resume
       (created_event now att receiver p (manual_target now att target db))) (\<lambda>db.
     andThen (save_workflow (wf_id w) (\<lambda>r. r\<lparr>wf_strategy := att_match_mode att\<rparr>) db) (\<lambda>(_, db).
     andThen (application_follows now att db) (\<lambda>db.
     Inr (att, db)))))))"

subsection \<open>Locking the workflow of a candidate\<close>

text \<open>\<open>lockWorkflow\<close> (processing.go): reads the workflow of a candidate and creates a missing one.\<close>

definition lockWorkflow :: "int \<Rightarrow> db \<Rightarrow> go_error + workflow_row \<times> db" where
  "lockWorkflow candidate db =
     andThen (fetch cnd_id candidate (db_candidates db)) (\<lambda>_.
       case first_where (\<lambda>w. wf_candidate w = candidate) (db_workflows db) of
         Some w \<Rightarrow> Inr (w, db)
       | None \<Rightarrow> let w = workflow_defaults\<lparr>wf_id := db_next db, wf_candidate := candidate\<rparr>
                in Inr (w, db\<lparr>db_workflows := db_workflows db @ [w], db_next := db_next db + 1\<rparr>))"

subsection \<open>Manual assignment\<close>

definition manual_values :: "string \<Rightarrow> attempt_row \<Rightarrow> attempt_row" where
  "manual_values reason a = a\<lparr>att_source := FromManual, att_match_mode := ''manual'',
     att_match_reason := ''assigned by HR'', att_manual_reason := reason\<rparr>"

definition assign_replacing ::
  "instant \<Rightarrow> resume_row \<Rightarrow> workflow_row \<Rightarrow> department_row \<Rightarrow> string \<Rightarrow> principal \<Rightarrow> db
    \<Rightarrow> go_error + attempt_row \<times> db" where
  "assign_replacing now resume w target reason p db =
     andThen (invalidateWorkflow w db) (\<lambda>(w, db).
     andThen (cancelOpenAttempts now w ''manual_replaced'' [] db) (\<lambda>db.
     createAttempt now w resume target (manual_values reason) (Some p)
       (closePoolMemberships (wf_id w) None ''manual_replaced'' db)))"

definition assign_locked ::
  "instant \<Rightarrow> resume_row \<Rightarrow> workflow_row \<Rightarrow> int option \<Rightarrow> string \<Rightarrow> principal \<Rightarrow> db
    \<Rightarrow> go_error + attempt_row \<times> db" where
  "assign_locked now resume w target_id reason p db =
     andThen (fetch_opt dep_id target_id (db_departments db)) (\<lambda>target.
     andThen (receivingDepartment target) (\<lambda>_. assign_replacing now resume w target reason p db))"

definition manualAssign ::
  "instant \<Rightarrow> int \<Rightarrow> int option \<Rightarrow> string \<Rightarrow> principal \<Rightarrow> db \<Rightarrow> go_error + attempt_row \<times> db" where
  "manualAssign now resume_id target_id reason p db =
     andThen (fetch res_id resume_id (db_resumes db)) (\<lambda>resume.
     andThen (lockWorkflow (res_candidate resume) db) (\<lambda>(w, db).
     if wf_status w = WfPassed then Inl (ApiError 409 ''a passed candidate cannot be assigned'')
     else assign_locked now resume w target_id reason p db))"

subsection \<open>The actions on an attempt\<close>

text \<open>An id in a request body, as the SQL parameter conversion reads it.\<close>

definition body_id :: "json \<Rightarrow> int option" where
  "body_id v = (case v of
       JNum r \<Rightarrow> if of_int \<lfloor>r\<rfloor> = r then Some \<lfloor>r\<rfloor> else None
     | JStr s \<Rightarrow> parse_int_syntax s
     | _ \<Rightarrow> None)"

text \<open>What the \<open>switch\<close> over the actions decides: the new column values and the event.\<close>

record attempt_change =
  chg_row :: "attempt_row \<Rightarrow> attempt_row"
  chg_event :: string
  chg_from :: "int option"
  chg_to :: "int option"
  chg_note :: string
  chg_metadata :: object

definition state_error :: "string \<Rightarrow> go_error" where
  "state_error gist = ApiError 409 gist"

definition decide_dispatch ::
  "bool \<Rightarrow> db \<Rightarrow> principal \<Rightarrow> instant \<Rightarrow> attempt_row \<Rightarrow> object \<Rightarrow> go_error + attempt_change" where
  "decide_dispatch welink db p now att body =
     (if \<not> canManageAttempt (db_departments db) p att ''attempt.dispatch''
      then Inl (ApiError 403 ''no right to dispatch'')
      else if att_status att \<noteq> AttPendingDispatch then Inl (state_error ''only a pending attempt is dispatched'')
      else Inr \<lparr> chg_row = (\<lambda>a. a\<lparr>att_status := AttDispatched, att_dispatched := Some now\<rparr>),
        chg_event = ''department_dispatched'', chg_from = None, chg_to = Some (att_current_dept att),
        chg_note = str (fld body ''note''),
        chg_metadata = notificationMetadata welink db (att_current_dept att) \<rparr>)"

definition optional_id :: "int option \<Rightarrow> json" where
  "optional_id i = (case i of None \<Rightarrow> JNull | Some n \<Rightarrow> JNum (of_int n))"

definition decide_screener ::
  "(string \<Rightarrow> principal option) \<Rightarrow> db \<Rightarrow> instant \<Rightarrow> attempt_row \<Rightarrow> object \<Rightarrow> go_error + attempt_change" where
  "decide_screener principal_of db now att body =
     (if fld body ''target_department_id'' \<noteq> JNull then Inl (bad ''choose a department or a screener'')
      else case fetch_opt con_id (body_id (fld body ''target_screener_id'')) (db_contacts db) of
        Inl _ \<Rightarrow> Inl (bad ''choose an active screener of the department'')
      | Inr c \<Rightarrow>
          if \<not> eligibleScreener principal_of c att then Inl (bad ''choose an active screener of the department'')
          else if att_screener att = Some (con_id c) then Inl (bad ''already assigned to this screener'')
          else Inr \<lparr> chg_row = (\<lambda>a. a\<lparr>att_screener := Some (con_id c), att_screener_employee := con_employee c,
              att_screener_name := con_name c, att_screener_at := Some now\<rparr>),
            chg_event = ''screener_assigned'', chg_from = None, chg_to = None,
            chg_note = str (fld body ''note''),
            chg_metadata = [(''from_screener_id'', optional_id (att_screener att)),
              (''to_screener_id'', JNum (of_int (con_id c))),
              (''to_screener_employee_no'', JStr (con_employee c)), (''to_screener_name'', JStr (con_name c)),
              (''department_id'', JNum (of_int (att_current_dept att)))] \<rparr>)"

definition decide_transfer ::
  "bool \<Rightarrow> (string \<Rightarrow> principal option) \<Rightarrow> db \<Rightarrow> principal \<Rightarrow> instant \<Rightarrow> attempt_row \<Rightarrow> object
    \<Rightarrow> go_error + attempt_change" where
  "decide_transfer welink principal_of db p now att body =
     (if \<not> canTransferAttempt (db_departments db) p att None
      then Inl (ApiError 403 ''no right to transfer'')
      else if att_status att \<noteq> AttDispatched then Inl (state_error ''only a dispatched attempt is transferred'')
      else if fld body ''target_screener_id'' \<noteq> JNull then decide_screener principal_of db now att body
      else case fetch_opt dep_id (body_id (fld body ''target_department_id'')) (db_departments db) of
        Inl _ \<Rightarrow> Inl (bad ''unknown target department'')
      | Inr target \<Rightarrow>
          andThen (receivingDepartment target) (\<lambda>_.
          if \<not> canTransferAttempt (db_departments db) p att (Some target)
          then Inl (ApiError 403 ''no right to transfer there'')
          else if dep_id target = att_current_dept att then Inl (bad ''same department'')
          else Inr \<lparr> chg_row = (\<lambda>a. a\<lparr>att_screener := None, att_screener_employee := [],
              att_screener_name := [], att_screener_at := None, att_current_dept := dep_id target,
              att_current_name := dep_name target\<rparr>),
            chg_event = ''department_transferred'', chg_from = Some (att_current_dept att),
            chg_to = Some (dep_id target), chg_note = str (fld body ''note''),
            chg_metadata = notificationMetadata welink db (dep_id target) \<rparr>))"

definition decide_cancel ::
  "db \<Rightarrow> principal \<Rightarrow> instant \<Rightarrow> attempt_row \<Rightarrow> object \<Rightarrow> go_error + attempt_change" where
  "decide_cancel db p now att body =
     (if \<not> canManageAttempt (db_departments db) p att ''attempt.dispatch''
      then Inl (ApiError 403 ''no right to dispatch'')
      else if att_status att \<noteq> AttPendingDispatch then Inl (state_error ''the attempt cannot be cancelled'')
      else let reason = (if str (fld body ''reason'') = [] then ''hr_cancelled'' else str (fld body ''reason'')) in
        Inr \<lparr> chg_row = cancel_attempt_row now reason, chg_event = ''cancelled'',
          chg_from = Some (att_current_dept att), chg_to = None, chg_note = reason,
          chg_metadata = [(''cancel_reason'', JStr reason)] \<rparr>)"

text \<open>The label of a reason code is that of its last choice.\<close>

definition reason_label :: "(string \<times> string) list \<Rightarrow> string \<Rightarrow> string" where
  "reason_label choices reason = (case last_where (\<lambda>c. fst c = reason) choices of None \<Rightarrow> [] | Some c \<Rightarrow> snd c)"

definition decide_feedback ::
  "(string \<times> string) list \<Rightarrow> principal \<Rightarrow> instant \<Rightarrow> attempt_row \<Rightarrow> object \<Rightarrow> go_error + attempt_change" where
  "decide_feedback choices p now att body =
     (let outcome = str (fld body ''result''); reason = str (fld body ''reason_code'');
          note = str (fld body ''note''); label = reason_label choices reason in
      if att_status att \<noteq> AttDispatched \<or> att_feedback_at att \<noteq> None
      then Inl (state_error ''only a dispatched attempt without feedback'')
      else if \<not> canFeedbackAttempt p att then Inl (ApiError 403 ''no right to give feedback'')
      else if outcome \<noteq> ''passed'' \<and> outcome \<noteq> ''rejected'' then Inl (bad ''passed or rejected'')
      else if outcome = ''passed'' \<and> reason \<noteq> [] then Inl (bad ''a pass has no rejection reason'')
      else if outcome = ''rejected'' \<and> (label = [] \<or> (reason = ''other'' \<and> blank note))
      then Inl (bad ''a rejection needs a reason'')
      else Inr \<lparr> chg_row = (\<lambda>a. a\<lparr>att_status := (if outcome = ''passed'' then AttPassed else AttRejected),
            att_feedback_result := outcome, att_feedback_note := note, att_feedback_code := reason,
            att_feedback_label := label, att_feedback_at := Some now\<rparr>),
          chg_event = ''feedback_'' @ outcome, chg_from = Some (att_current_dept att), chg_to = None,
          chg_note = note,
          chg_metadata = (if outcome = ''rejected'' then [(''reason_code'', JStr reason)] else []) \<rparr>)"

definition decide_action ::
  "bool \<Rightarrow> (string \<Rightarrow> principal option) \<Rightarrow> (string \<times> string) list \<Rightarrow> db \<Rightarrow> principal \<Rightarrow> instant
    \<Rightarrow> attempt_row \<Rightarrow> string \<Rightarrow> object \<Rightarrow> go_error + attempt_change" where
  "decide_action welink principal_of choices db p now att action body =
     (if action = ''dispatch_welink'' then decide_dispatch welink db p now att body
      else if action = ''transfer'' then decide_transfer welink principal_of db p now att body
      else if action = ''confirm_review'' \<or> action = ''cancel_review''
      then Inl (ApiError 410 ''the review stage no longer exists'')
      else if action = ''cancel_attempt'' then decide_cancel db p now att body
      else if action = ''feedback'' then decide_feedback choices p now att body
      else Inl (bad ''unknown action''))"

text \<open>What follows feedback: the application, the workflow and the attempts left open.\<close>

definition after_feedback ::
  "instant \<Rightarrow> workflow_row \<Rightarrow> attempt_row \<Rightarrow> principal \<Rightarrow> db \<Rightarrow> go_error + db" where
  "after_feedback now w att p db =
     (let passed = att_status att = AttPassed in
      andThen (applicationState now (att_resume att) (if passed then AppPassed else AppDepartmentRejected)
        (trim_space (att_feedback_label att @ '' '' @ att_feedback_note att))
        [(''attempt_id'', JNum (of_int (att_id att))), (''reason_code'', JStr (att_feedback_code att)),
         (''note'', JStr (att_feedback_note att)), (''actor_id'', JNum (of_int (pri_user p)))] db) (\<lambda>db.
      if passed then
        andThen (save_workflow (wf_id w) (\<lambda>r. r\<lparr>wf_status := WfPassed,
            wf_passed_attempt := Some (att_id att), wf_block_reason := [], wf_block_detail := [],
            wf_completed := Some now\<rparr>) db) (\<lambda>(_, db).
        cancelOpenAttempts now w ''workflow_passed'' [] db)
      else waitAfterDepartmentRejection now w db))"

definition after_other ::
  "instant \<Rightarrow> attempt_row \<Rightarrow> string \<Rightarrow> string \<Rightarrow> principal \<Rightarrow> db \<Rightarrow> go_error + db" where
  "after_other now att note action p db =
     (let payload = [(''attempt_id'', JNum (of_int (att_id att))), (''action'', JStr action),
            (''actor_id'', JNum (of_int (pri_user p)))] in
      case att_status att of
        AttDispatched \<Rightarrow> applicationState now (att_resume att) AppDepartmentReview note payload db
      | AttPendingDispatch \<Rightarrow> applicationState now (att_resume att) AppPendingDispatch note payload db
      | AttCancelled \<Rightarrow> applicationState now (att_resume att) AppCancelled note payload db
      | _ \<Rightarrow> Inr db)"

definition after_cancel :: "instant \<Rightarrow> workflow_row \<Rightarrow> attempt_row \<Rightarrow> db \<Rightarrow> go_error + db" where
  "after_cancel now w att db =
     (if open_attempts (wf_id w) db \<noteq> [] then Inr db
      else archiveWorkflow now w
        (if att_source att = FromAi then ''agent_no_recommendation'' else ''hr_cancelled'')
        ''cancelled by HR'' db)"

text \<open>The part of \<open>mutateAttempt\<close> after the switch.\<close>

definition finish_change ::
  "instant \<Rightarrow> workflow_row \<Rightarrow> attempt_row \<Rightarrow> string \<Rightarrow> string \<Rightarrow> principal \<Rightarrow> db \<Rightarrow> go_error + db" where
  "finish_change now w att note action p db =
     andThen (if action = ''feedback'' then after_feedback now w att p db
              else after_other now att note action p db) (\<lambda>db.
     if action = ''cancel_attempt'' then after_cancel now w att db else Inr db)"

definition apply_change ::
  "instant \<Rightarrow> workflow_row \<Rightarrow> attempt_row \<Rightarrow> attempt_change \<Rightarrow> string \<Rightarrow> principal \<Rightarrow> string option
    \<Rightarrow> db \<Rightarrow> go_error + attempt_row \<times> db" where
  "apply_change now w att c action p batch db =
     andThen (invalidateWorkflow w db) (\<lambda>(w, db).
     andThen (save_attempt now (att_id att) (chg_row c) db) (\<lambda>(att, db).
     andThen (finish_change now w att (chg_note c) action p
       (handling_event now att (chg_event c) (chg_from c) (chg_to c) (chg_note c) (Some p) batch
         (chg_metadata c) None db)) (\<lambda>db.
     Inr (att, db))))"

text \<open>
  \<open>mutateAttempt\<close>. \<open>seen\<close> is the row the request read before it took the locks: a change of
  department or screener in between is a conflict.
\<close>

definition mutateAttempt ::
  "bool \<Rightarrow> (string \<Rightarrow> principal option) \<Rightarrow> (string \<times> string) list \<Rightarrow> instant \<Rightarrow> attempt_row \<Rightarrow> string
    \<Rightarrow> object \<Rightarrow> principal \<Rightarrow> string option \<Rightarrow> db \<Rightarrow> go_error + attempt_row \<times> db" where
  "mutateAttempt welink principal_of choices now seen action body p batch db =
     (if \<not> visibleAttempt (db_departments db) p seen then Inl not_found
      else if action = ''transfer_to_manual'' then
        manualAssign now (att_resume seen) (body_id (fld body ''target_department_id''))
          (str (fld body ''manual_reason'')) p db
      else
        andThen (fetch wf_id (att_workflow seen) (db_workflows db)) (\<lambda>wf.
        andThen (lockWorkflow (wf_candidate wf) db) (\<lambda>(w, db).
        andThen (fetch att_id (att_id seen) (db_attempts db)) (\<lambda>att.
        if att_current_dept att \<noteq> att_current_dept seen then Inl (ApiError 409 ''department changed'')
        else if att_screener att \<noteq> att_screener seen then Inl (ApiError 409 ''screener changed'')
        else if \<not> visibleAttempt (db_departments db) p att then Inl not_found
        else
          andThen (decide_action welink principal_of choices db p now att action body) (\<lambda>c.
          apply_change now w att c action p batch db)))))"

subsection \<open>The effect on the ledger\<close>

lemma handling_event_eq:
  "\<exists>es. handling_event now att k src dst note p b md auto db = db\<lparr>db_handling := es\<rparr>"
  by (auto simp: handling_event_def)

lemma handling_event_frame [frame_simps]:
  "db_attempts (handling_event now att k src dst note p b md auto db) = db_attempts db"
  "db_next (handling_event now att k src dst note p b md auto db) = db_next db"
  "db_applications (handling_event now att k src dst note p b md auto db) = db_applications db"
  "db_app_events (handling_event now att k src dst note p b md auto db) = db_app_events db"
  "db_members (handling_event now att k src dst note p b md auto db) = db_members db"
  "db_workflows (handling_event now att k src dst note p b md auto db) = db_workflows db"
  "db_departments (handling_event now att k src dst note p b md auto db) = db_departments db"
  by (simp_all add: handling_event_def)

lemma mark_dispatched_frame [frame_simps]:
  "db_attempts (mark_dispatched now att db) = db_attempts db"
  "db_next (mark_dispatched now att db) = db_next db"
  "db_applications (mark_dispatched now att db) = db_applications db"
  "db_app_events (mark_dispatched now att db) = db_app_events db"
  "db_members (mark_dispatched now att db) = db_members db"
  "db_workflows (mark_dispatched now att db) = db_workflows db"
  "db_departments (mark_dispatched now att db) = db_departments db"
  by (simp_all add: mark_dispatched_def)

lemma save_attempt_Inr [result_simps]:
  "save_attempt now i f db = Inr (att, db') \<longleftrightarrow>
     (\<exists>r. first_where (\<lambda>a. att_id a = i) (db_attempts db) = Some r \<and> att = f r \<and>
        db' = mark_dispatched now (f r)
          (db\<lparr>db_attempts := update_where (\<lambda>a. att_id a = i) f (db_attempts db)\<rparr>))"
  by (auto simp: save_attempt_def andThen_eq_Inr save_row_Inr)

lemma insert_attempt_Inr [result_simps]:
  "insert_attempt att db = Inr (att', db') \<longleftrightarrow>
     att' = att\<lparr>att_id := db_next db\<rparr> \<and>
     \<not> (effective_status (att_status att) \<and> effective_attempt (att_workflow att) db) \<and>
     db' = db\<lparr>db_attempts := db_attempts db @ [att\<lparr>att_id := db_next db\<rparr>], db_next := db_next db + 1\<rparr>"
  by (auto simp: insert_attempt_def Let_def)

lemma lockWorkflow_Inr:
  assumes "lockWorkflow candidate db = Inr (w, db')"
  shows "w \<in> set (db_workflows db') \<and> wf_candidate w = candidate \<and> db_next db \<le> db_next db' \<and>
    db' = db\<lparr>db_workflows := db_workflows db', db_next := db_next db'\<rparr>"
  using assms by (auto simp: lockWorkflow_def andThen_eq_Inr Let_def split: option.splits dest: first_where_SomeD)

lemma lockWorkflow_frame [frame_simps]:
  assumes "lockWorkflow candidate db = Inr (w, db')"
  shows "db_attempts db' = db_attempts db" "db_applications db' = db_applications db"
    "db_app_events db' = db_app_events db" "db_members db' = db_members db"
    "db_departments db' = db_departments db" "db_resumes db' = db_resumes db"
    "db_work db' = db_work db" "db_tasks db' = db_tasks db" "db_items db' = db_items db"
  by (subst conjunct2 [OF conjunct2 [OF conjunct2 [OF lockWorkflow_Inr [OF assms]]]], simp)+

lemma mutateAttempt_Inr:
  assumes "mutateAttempt welink pof choices now seen action body p batch a = Inr (att, b)"
    and "action \<noteq> ''transfer_to_manual''"
  shows "\<exists>candidate w c x chg. (\<exists>wf. fetch wf_id (att_workflow seen) (db_workflows a) = Inr wf
      \<and> candidate = wf_candidate wf) \<and> lockWorkflow candidate a = Inr (w, c) \<and>
    fetch att_id (att_id seen) (db_attempts c) = Inr x \<and> visibleAttempt (db_departments c) p x \<and>
    decide_action welink pof choices c p now x action body = Inr chg \<and>
    apply_change now w x chg action p batch c = Inr (att, b)"
  using assms unfolding mutateAttempt_def
  by (simp add: andThen_eq_Inr split: if_splits)

text \<open>The operations on attempts add these elementary steps to those of the applications.\<close>

locale handling_relation = core_relation +
  assumes lockWorkflow: "lockWorkflow i a = Inr (w, b) \<Longrightarrow> R a b"
    and handling_event: "R a (handling_event now att k src dst note p bat md auto a)"
    and save_attempt: "save_attempt now i g a = Inr (att, b) \<Longrightarrow> R a b"
    and insert_attempt: "insert_attempt att a = Inr (att', b) \<Longrightarrow> R a b"
    and manual_target: "R a (manual_target now att target a)"
begin

lemma touchWorkflow: "touchWorkflow now w resume a = Inr b \<Longrightarrow> R a b"
  by (auto simp: touchWorkflow_def andThen_eq_Inr intro: trans [OF closePoolMemberships save_workflow])

lemma archiveWorkflow: "archiveWorkflow now w reason detail a = Inr b \<Longrightarrow> R a b"
  by (auto simp: archiveWorkflow_def andThen_eq_Inr intro: trans [OF closePoolMemberships save_workflow])

lemma cancelOpenAttempts:
  assumes "cancelOpenAttempts now w reason sources a = Inr b"
  shows "R a b"
  using assms unfolding cancelOpenAttempts_def
proof (rule loop)
  fix att a b
  assume c: "cancel_one now reason sources att a = Inr b"
  show "R a b"
  proof (cases "sources \<noteq> [] \<and> att_source att \<notin> set sources")
    case True
    then show ?thesis using c by (auto simp: cancel_one_def refl)
  next
    case False
    then obtain x d e where s: "save_attempt now (att_id att) (cancel_attempt_row now reason) a = Inr (x, d)"
        "applicationState now (att_resume att) AppCancelled reason
          [(''attempt_id'', JNum (of_int (att_id att)))] d = Inr e"
        "b = handling_event now att ''cancelled'' (Some (att_current_dept att)) None reason None None
          [(''cancel_reason'', JStr reason)] None e"
      using c by (auto simp: cancel_one_def andThen_eq_Inr)
    have "R a d" using s(1) by (rule save_attempt)
    moreover have "R d e" using s(2) by (rule state)
    moreover have "R e b" unfolding s(3) by (rule handling_event)
    ultimately show ?thesis by (blast intro: trans)
  qed
qed

lemma created_event: "R a (created_event now att receiver p a)"
  by (simp add: created_event_def handling_event)

lemma application_follows: "application_follows now att a = Inr b \<Longrightarrow> R a b"
  by (auto simp: application_follows_def split: option.splits intro: state)

lemma createAttempt:
  assumes "createAttempt now w resume target vals p a = Inr (att, b)"
  shows "R a b"
proof -
  obtain receiver c d e x where s:
      "insert_attempt (new_attempt w resume receiver target vals p a) a = Inr (att, c)"
      "touchWorkflow now w resume (created_event now att receiver p (manual_target now att target c)) = Inr d"
      "save_workflow (wf_id w) (\<lambda>r. r\<lparr>wf_strategy := att_match_mode att\<rparr>) d = Inr (x, e)"
      "application_follows now att e = Inr b"
    using assms by (auto simp: createAttempt_def andThen_eq_Inr)
  have "R c (created_event now att receiver p (manual_target now att target c))"
    by (rule trans [OF manual_target created_event])
  then show ?thesis
    using insert_attempt [OF s(1)] touchWorkflow [OF s(2)] save_workflow [OF s(3)]
      application_follows [OF s(4)] by (blast intro: trans)
qed

lemma manualAssign:
  assumes "manualAssign now resume_id target_id reason p a = Inr (att, b)"
  shows "R a b"
proof -
  obtain resume w target w' c d e where s: "lockWorkflow (res_candidate resume) a = Inr (w, c)"
      "invalidateWorkflow w c = Inr (w', d)" "cancelOpenAttempts now w' ''manual_replaced'' [] d = Inr e"
      "createAttempt now w' resume target (manual_values reason) (Some p)
        (closePoolMemberships (wf_id w') None ''manual_replaced'' e) = Inr (att, b)"
    using assms by (auto simp: manualAssign_def assign_locked_def assign_replacing_def andThen_eq_Inr split: if_splits)
  note steps = lockWorkflow [OF s(1)] invalidateWorkflow [OF s(2)] cancelOpenAttempts [OF s(3)]
    closePoolMemberships createAttempt [OF s(4)]
  then show ?thesis by (blast intro: trans)
qed

lemma after_feedback:
  assumes "after_feedback now w att p a = Inr b"
  shows "R a b"
proof -
  let ?passed = "att_status att = AttPassed"
  obtain payload c where s: "applicationState now (att_resume att)
      (if ?passed then AppPassed else AppDepartmentRejected)
      (trim_space (att_feedback_label att @ '' '' @ att_feedback_note att)) payload a = Inr c"
      "if ?passed then \<exists>x d. save_workflow (wf_id w) (\<lambda>r. r\<lparr>wf_status := WfPassed,
            wf_passed_attempt := Some (att_id att), wf_block_reason := [], wf_block_detail := [],
            wf_completed := Some now\<rparr>) c = Inr (x, d) \<and> cancelOpenAttempts now w ''workflow_passed'' [] d = Inr b
       else waitAfterDepartmentRejection now w c = Inr b"
    using assms by (auto simp: after_feedback_def Let_def andThen_eq_Inr split: if_splits)
  have "R a c" using s(1) by (rule state)
  moreover have "R c b"
  proof (cases ?passed)
    case True
    then obtain x d where "save_workflow (wf_id w) (\<lambda>r. r\<lparr>wf_status := WfPassed,
            wf_passed_attempt := Some (att_id att), wf_block_reason := [], wf_block_detail := [],
            wf_completed := Some now\<rparr>) c = Inr (x, d)" "cancelOpenAttempts now w ''workflow_passed'' [] d = Inr b"
      using s(2) by auto
    then show ?thesis using save_workflow cancelOpenAttempts by (blast intro: trans)
  next
    case False
    then show ?thesis using s(2) by (simp add: waitAfterDepartmentRejection)
  qed
  ultimately show ?thesis by (rule trans)
qed

lemma after_other: "after_other now att note action p a = Inr b \<Longrightarrow> R a b"
  by (auto simp: after_other_def Let_def split: attempt_status.splits intro: state refl)

lemma after_cancel: "after_cancel now w att a = Inr b \<Longrightarrow> R a b"
  by (auto simp: after_cancel_def split: if_splits intro: archiveWorkflow refl)

lemma finish_change: "finish_change now w att note action p a = Inr b \<Longrightarrow> R a b"
  by (auto simp: finish_change_def andThen_eq_Inr split: if_splits
      intro: after_feedback after_other after_cancel trans)

lemma apply_change:
  assumes "apply_change now w att c action p batch a = Inr (x, b)"
  shows "R a b"
proof -
  obtain w' d e where s: "invalidateWorkflow w a = Inr (w', d)"
      "save_attempt now (att_id att) (chg_row c) d = Inr (x, e)"
      "finish_change now w' x (chg_note c) action p
       (handling_event now x (chg_event c) (chg_from c) (chg_to c) (chg_note c) (Some p) batch
         (chg_metadata c) None e) = Inr b"
    using assms by (auto simp: apply_change_def andThen_eq_Inr)
  have "R e b" by (rule trans [OF handling_event finish_change [OF s(3)]])
  then show ?thesis using invalidateWorkflow [OF s(1)] save_attempt [OF s(2)] by (blast intro: trans)
qed

lemma mutateAttempt:
  assumes "mutateAttempt welink pof choices now seen action body p batch a = Inr (att, b)"
  shows "R a b"
proof (cases "action = ''transfer_to_manual''")
  case True
  then show ?thesis using assms by (auto simp: mutateAttempt_def split: if_splits intro: manualAssign)
next
  case False
  then obtain candidate w c x chg where s: "lockWorkflow candidate a = Inr (w, c)"
      "apply_change now w x chg action p batch c = Inr (att, b)"
    using mutateAttempt_Inr [OF assms] by blast
  show ?thesis by (rule trans [OF lockWorkflow [OF s(1)] apply_change [OF s(2)]])
qed

end

sublocale ledger_relation < handling?: handling_relation
proof unfold_locales
  show "R a b" if "lockWorkflow i a = Inr (w, b)" for i a w b
    using that by (auto intro!: frame simp: lockWorkflow_frame)
  show "R a (handling_event now att k src dst why p bat md auto a)" for a now att k src dst why p bat md auto
    by (rule frame) (simp_all add: frame_simps)
  show "R a b" if "save_attempt now i g a = Inr (att, b)" for now i g a att b
    using that by (auto simp: save_attempt_Inr intro!: frame) (simp_all add: frame_simps)
  show "R a b" if "insert_attempt att a = Inr (att', b)" for att a att' b
    using that by (auto simp: insert_attempt_Inr intro: frame)
  show "R a (manual_target now att target a)" for a now att target
    by (rule frame) (simp_all add: manual_target_def)
qed

end
