(* ===== verification/AllocationQueue.thy ===== *)
theory AllocationQueue
  imports Workflows
begin

text \<open>
  The allocation queue (internal/platform/allocation_tasks.go, the write operations of
  allocation_api.go): tasks over a scope, work items per screening qualification, and the lease a
  worker holds while it computes. The append-only change log that database triggers write is the
  parameter \<open>changes\<close> (the greatest change id of a scope in a state); the hash of a task's input is
  the parameter \<open>fingerprint\<close>; random tokens are the record \<open>entropy\<close>.
\<close>

subsection \<open>Scopes, members and work\<close>

record entropy =
  ent_key :: string
  ent_namespace :: string
  ent_fence :: string

type_synonym change_log = "db \<Rightarrow> int \<Rightarrow> int"
type_synonym task_input = "int \<times> int list \<times> string \<times> string"

text \<open>\<open>assessment->'pool'->>'entity'\<close>: NULL when it is missing.\<close>

definition member_entity :: "member_row \<Rightarrow> string option" where
  "member_entity m = (case fld (obj (fld (mem_assessment m) ''pool'')) ''entity'' of
     JNull \<Rightarrow> None | v \<Rightarrow> Some (str v))"

definition scope_member :: "scope_row \<Rightarrow> member_row \<Rightarrow> bool" where
  "scope_member s m \<longleftrightarrow> mem_pool m = sco_pool s \<and> member_entity m = Some (sco_entity s)"

text \<open>\<open>allocationScope\<close> and \<open>allocationRevision\<close> (allocation_snapshot.go).\<close>

definition allocationScope :: "member_row \<Rightarrow> db \<Rightarrow> go_error + scope_row" where
  "allocationScope m db = (case first_where (\<lambda>s. scope_member s m) (db_scopes db) of
     None \<Rightarrow> Inl not_found | Some s \<Rightarrow> Inr s)"

definition allocationRevision :: "change_log \<Rightarrow> scope_row \<Rightarrow> db \<Rightarrow> go_error + int" where
  "allocationRevision changes s db = andThen (fetch sco_id (sco_id s) (db_scopes db))
     (\<lambda>r. Inr (sco_revision r + changes db (sco_id r)))"

definition active_work :: "work_row \<Rightarrow> bool" where
  "active_work i \<longleftrightarrow> wrk_status i \<in> {WiPending, WiLeased}"

definition open_work :: "work_row \<Rightarrow> bool" where
  "open_work i \<longleftrightarrow> wrk_status i \<in> {WiPending, WiLeased, WiWaiting}"

text \<open>\<open>ORDER BY revision DESC LIMIT 1\<close>: the qualification of greatest revision.\<close>

definition latest_qualification :: "int \<Rightarrow> db \<Rightarrow> qualification_row option" where
  "latest_qualification member db = fold
     (\<lambda>q best. if qua_member q = member \<and>
        (case best of None \<Rightarrow> True | Some b \<Rightarrow> qua_revision b < qua_revision q) then Some q else best)
     (db_qualifications db) None"

text \<open>
  \<open>INSERT INTO platform_allocation_work_items ... ON CONFLICT(qualification_id) WHERE status IN
  ('pending','leased') DO NOTHING\<close>.
\<close>

definition insert_work :: "int \<Rightarrow> int \<Rightarrow> int option \<Rightarrow> db \<Rightarrow> db" where
  "insert_work member qualification task db =
     (if exists_where (\<lambda>i. wrk_qualification i = qualification \<and> active_work i) (db_work db) then db
      else db\<lparr>db_work := db_work db @ [\<lparr> wrk_id = db_next db, wrk_member = member,
             wrk_qualification = qualification, wrk_task = task, wrk_status = WiPending,
             wrk_reason = [], wrk_observed = 0 \<rparr>],
           db_next := db_next db + 1\<rparr>)"

definition update_work :: "(work_row \<Rightarrow> bool) \<Rightarrow> (work_row \<Rightarrow> work_row) \<Rightarrow> db \<Rightarrow> db" where
  "update_work c f db = db\<lparr>db_work := update_where c f (db_work db)\<rparr>"

definition update_task :: "(task_row \<Rightarrow> bool) \<Rightarrow> (task_row \<Rightarrow> task_row) \<Rightarrow> db \<Rightarrow> db" where
  "update_task c f db = db\<lparr>db_tasks := update_where c f (db_tasks db)\<rparr>"

definition update_scope :: "int \<Rightarrow> (scope_row \<Rightarrow> scope_row) \<Rightarrow> db \<Rightarrow> db" where
  "update_scope i f db = db\<lparr>db_scopes := update_where (\<lambda>s. sco_id s = i) f (db_scopes db)\<rparr>"

definition update_plan :: "(plan_row \<Rightarrow> bool) \<Rightarrow> (plan_row \<Rightarrow> plan_row) \<Rightarrow> db \<Rightarrow> db" where
  "update_plan c f db = db\<lparr>db_plans := update_where c f (db_plans db)\<rparr>"

subsection \<open>Creating a task\<close>

definition mode_name :: "task_mode \<Rightarrow> string" where
  "mode_name m = (case m of Simulate \<Rightarrow> ''simulate'' | Execute \<Rightarrow> ''execute'')"

definition mode_of :: "string \<Rightarrow> task_mode" where
  "mode_of s = (if s = ''simulate'' then Simulate else Execute)"

definition actor_number :: "int option \<Rightarrow> int" where
  "actor_number a = (case a of None \<Rightarrow> 0 | Some i \<Rightarrow> i)"

definition new_task ::
  "entropy \<Rightarrow> scope_row \<Rightarrow> int list \<Rightarrow> string \<Rightarrow> string \<Rightarrow> string \<Rightarrow> principal option \<Rightarrow> bool \<Rightarrow> string
    \<Rightarrow> db \<Rightarrow> task_row" where
  "new_task ent s ids mode key hash p automatic version db =
     \<lparr> tsk_id = db_next db, tsk_scope = sco_id s, tsk_mode = mode_of mode, tsk_status = TaPending,
       tsk_generation = 1, tsk_key = key, tsk_input_hash = hash, tsk_members = ids,
       tsk_request = None, tsk_pin = None, tsk_token = [], tsk_lease_until = None, tsk_error = [],
       tsk_progress = [], tsk_created_by = map_option pri_user p, tsk_automatic = automatic,
       tsk_version = version, tsk_namespace = ent_namespace ent \<rparr>"

text \<open>The loop that queues one work item per member, for its latest qualification.\<close>

definition queue_member :: "int \<Rightarrow> int \<Rightarrow> db \<Rightarrow> db" where
  "queue_member task member db = (case latest_qualification member db of
       None \<Rightarrow> db
     | Some q \<Rightarrow> insert_work member (qua_id q) (Some task) db)"

definition adopt_work :: "int \<Rightarrow> int list \<Rightarrow> db \<Rightarrow> db" where
  "adopt_work task ids = update_work
     (\<lambda>i. wrk_member i \<in> set ids \<and> wrk_status i = WiPending \<and> wrk_task i = None)
     (\<lambda>i. i\<lparr>wrk_task := Some task\<rparr>)"

definition insert_task :: "task_row \<Rightarrow> string \<Rightarrow> int list \<Rightarrow> db \<Rightarrow> db" where
  "insert_task t mode ids db =
     (let db = db\<lparr>db_tasks := db_tasks db @ [t], db_next := db_next db + 1\<rparr> in
      if mode = ''simulate'' then db
      else adopt_work (tsk_id t) ids (fold (queue_member (tsk_id t)) ids db))"

definition createAllocationTask ::
  "(task_input \<Rightarrow> string) \<Rightarrow> entropy \<Rightarrow> scope_row \<Rightarrow> int list \<Rightarrow> string \<Rightarrow> string \<Rightarrow> principal option
    \<Rightarrow> bool \<Rightarrow> string \<Rightarrow> db \<Rightarrow> go_error + task_row \<times> db" where
  "createAllocationTask fingerprint ent s ids mode key p automatic version db =
     (if sco_paused s \<and> mode \<noteq> ''simulate'' then Inl (ApiError 409 ''scope paused'')
      else if ids = [] \<or> 100 < length ids \<or> \<not> contains [''simulate'', ''execute''] mode
      then Inl (bad ''a task needs 1 to 100 candidates'')
      else
        let key = (if key = [] then ent_key ent else key) in
        if 128 < length key then Inl (bad ''idempotency key too long'')
        else
          let hash = fingerprint (sco_id s, ids, mode, version) in
          case first_where (\<lambda>t. tsk_key t = key) (db_tasks db) of
            Some t \<Rightarrow>
              if tsk_input_hash t \<noteq> hash
                \<or> actor_number (tsk_created_by t) \<noteq> actor_number (map_option pri_user p)
              then Inl (ApiError 409 ''idempotency key used for another request'')
              else Inr (t, db)
          | None \<Rightarrow>
              let t = new_task ent s ids mode key hash p automatic version db
              in Inr (t, insert_task t mode ids db))"

definition enqueuePoolAllocation ::
  "(task_input \<Rightarrow> string) \<Rightarrow> entropy \<Rightarrow> member_row \<Rightarrow> principal option \<Rightarrow> db \<Rightarrow> go_error + task_row \<times> db"
where
  "enqueuePoolAllocation fingerprint ent m p db =
     andThen (allocationScope m db) (\<lambda>s.
       createAllocationTask fingerprint ent s [mem_id m] ''execute'' [] p False ''v1'' db)"

subsection \<open>Claiming work\<close>

definition lease_seconds :: instant where
  "lease_seconds = 90 * second"

definition lease_free :: "instant \<Rightarrow> scope_row \<Rightarrow> bool" where
  "lease_free now s = (case sco_lease_until s of None \<Rightarrow> True | Some u \<Rightarrow> u < now)"

text \<open>The newest work item of its qualification.\<close>

definition newest_work :: "work_row \<Rightarrow> db \<Rightarrow> bool" where
  "newest_work i db \<longleftrightarrow> list_all (\<lambda>j. wrk_qualification j = wrk_qualification i \<longrightarrow> wrk_id j \<le> wrk_id i) (db_work db)"

definition wakes_scope :: "change_log \<Rightarrow> scope_row \<Rightarrow> db \<Rightarrow> work_row \<Rightarrow> bool" where
  "wakes_scope changes s db i \<longleftrightarrow>
     exists_where (\<lambda>m. mem_id m = wrk_member i \<and> scope_member s m \<and> mem_status m = PmPendingAllocation
       \<and> \<not> exists_where (\<lambda>q. qua_member q = mem_id m \<and> wrk_qualification i < qua_id q) (db_qualifications db))
       (db_members db)
     \<and> newest_work i db
     \<and> (wrk_status i = WiPending
        \<or> wrk_status i = WiWaiting \<and> wrk_observed i < sco_revision s + changes db (sco_id s))"

definition claimable :: "change_log \<Rightarrow> instant \<Rightarrow> db \<Rightarrow> scope_row \<Rightarrow> bool" where
  "claimable changes now db s \<longleftrightarrow> lease_free now s \<and>
     (exists_where (\<lambda>t. tsk_scope t = sco_id s \<and> tsk_status t \<in> {TaPending, TaRunning}
        \<and> (\<not> sco_paused s \<or> tsk_mode t = Simulate)) (db_tasks db)
      \<or> \<not> sco_paused s \<and> exists_where (wakes_scope changes s db) (db_work db))"

text \<open>An expired worker's task starts over with a new generation, three times at most.\<close>

definition recover_task :: "task_row \<Rightarrow> task_row" where
  "recover_task t = t\<lparr>tsk_status := (if 3 \<le> tsk_generation t then TaFailed else TaPending),
     tsk_error := ''allocation_lease_expired'', tsk_generation := tsk_generation t + 1,
     tsk_token := [], tsk_lease_until := None, tsk_request := None\<rparr>"

definition task_of_work :: "work_row \<Rightarrow> db \<Rightarrow> task_row option" where
  "task_of_work i db = (case wrk_task i of None \<Rightarrow> None
     | Some k \<Rightarrow> first_where (\<lambda>t. tsk_id t = k) (db_tasks db))"

definition recovered_work :: "int \<Rightarrow> db \<Rightarrow> work_row \<Rightarrow> bool" where
  "recovered_work scope db i \<longleftrightarrow> wrk_status i = WiLeased \<and>
     (case task_of_work i db of None \<Rightarrow> False
      | Some t \<Rightarrow> tsk_scope t = scope \<and> tsk_status t \<in> {TaPending, TaFailed})"

definition recover_work :: "db \<Rightarrow> work_row \<Rightarrow> work_row" where
  "recover_work db i = i\<lparr>wrk_status :=
     (case task_of_work i db of Some t \<Rightarrow> if tsk_status t = TaFailed then WiFailed else WiPending
      | None \<Rightarrow> WiPending)\<rparr>"

definition recover :: "int \<Rightarrow> db \<Rightarrow> db" where
  "recover scope db =
     (let db = update_task (\<lambda>t. tsk_scope t = scope \<and> tsk_status t = TaRunning) recover_task db
      in update_work (recovered_work scope db) (recover_work db) db)"

text \<open>Waiting work whose inputs changed becomes pending again.\<close>

definition woken :: "int \<Rightarrow> scope_row \<Rightarrow> db \<Rightarrow> work_row \<Rightarrow> bool" where
  "woken revision s db i \<longleftrightarrow> wrk_status i = WiWaiting \<and> wrk_observed i < revision \<and>
     exists_where (\<lambda>m. mem_id m = wrk_member i \<and> scope_member s m \<and> mem_status m = PmPendingAllocation)
       (db_members db) \<and>
     \<not> exists_where (\<lambda>j. wrk_qualification j = wrk_qualification i \<and> active_work j) (db_work db) \<and>
     newest_work i db"

definition wake_work :: "int \<Rightarrow> scope_row \<Rightarrow> db \<Rightarrow> db" where
  "wake_work revision s db =
     update_work (woken revision s db) (\<lambda>i. i\<lparr>wrk_status := WiPending, wrk_task := None\<rparr>) db"

definition pending_members :: "scope_row \<Rightarrow> db \<Rightarrow> int list" where
  "pending_members s db = map mem_id (take 100 (sort_key (\<lambda>m. (mem_created m, mem_id m))
     (filter (\<lambda>m. scope_member s m \<and> mem_status m = PmPendingAllocation
        \<and> exists_where (\<lambda>i. wrk_member i = mem_id m \<and> wrk_status i = WiPending) (db_work db))
      (db_members db))))"

definition next_task :: "scope_row \<Rightarrow> db \<Rightarrow> task_row option" where
  "next_task s db = first_where (\<lambda>t. tsk_scope t = sco_id s \<and> tsk_status t = TaPending
     \<and> (\<not> sco_paused s \<or> tsk_mode t = Simulate)) (db_tasks db)"

text \<open>The rest of the claim once a task is chosen: both rows take the fence, work is leased.\<close>

definition start_task ::
  "instant \<Rightarrow> string \<Rightarrow> scope_row \<Rightarrow> task_row \<Rightarrow> db \<Rightarrow> go_error + (scope_row \<times> task_row) \<times> db" where
  "start_task now fence s t db =
     andThen (save_row sco_id (sco_id s) (\<lambda>s. s\<lparr>sco_lease_token := fence,
       sco_lease_until := Some (now + lease_seconds)\<rparr>) (db_scopes db)) (\<lambda>(s, scopes).
     andThen (save_row tsk_id (tsk_id t) (\<lambda>t. t\<lparr>tsk_status := TaRunning, tsk_token := fence,
       tsk_lease_until := Some (now + lease_seconds), tsk_error := []\<rparr>) (db_tasks db)) (\<lambda>(t, tasks).
     let db = db\<lparr>db_scopes := scopes, db_tasks := tasks\<rparr> in
     Inr ((s, t),
       if tsk_mode t = Simulate then db
       else update_work (\<lambda>i. wrk_member i \<in> set (tsk_members t) \<and> wrk_status i = WiPending)
              (\<lambda>i. i\<lparr>wrk_status := WiLeased, wrk_task := Some (tsk_id t)\<rparr>) db)))"

text \<open>
  The transaction commits on three ways out: with a task, and with a 404 error when a paused scope
  has no simulation or no member is pending. \<open>Inl (e, Some db)\<close> is an error whose changes are kept.
\<close>

definition claim_scope ::
  "(task_input \<Rightarrow> string) \<Rightarrow> change_log \<Rightarrow> entropy \<Rightarrow> instant \<Rightarrow> scope_row \<Rightarrow> db
    \<Rightarrow> (go_error + scope_row \<times> task_row) \<times> db" where
  "claim_scope fingerprint changes ent now s before =
     (let db = recover (sco_id s) before;
          finish = (\<lambda>t db. case start_task now (ent_fence ent) s t db of
             Inl e \<Rightarrow> (Inl e, before) | Inr (r, db) \<Rightarrow> (Inr r, db))
      in case next_task s db of
           Some t \<Rightarrow> finish t db
         | None \<Rightarrow>
             if sco_paused s then (Inl not_found, db)
             else case allocationRevision changes s db of Inl e \<Rightarrow> (Inl e, before)
             | Inr revision \<Rightarrow>
                 let db = wake_work revision s db; ids = pending_members s db in
                 if ids = [] then (Inl not_found, db)
                 else case createAllocationTask fingerprint ent s ids ''execute'' [] None True ''v1'' db of
                     Inl e \<Rightarrow> (Inl e, before)
                   | Inr (t, db) \<Rightarrow> finish t db)"

text \<open>\<open>locked\<close> are the scopes that another transaction holds (\<open>SKIP LOCKED\<close>).\<close>

definition claimAllocation ::
  "(task_input \<Rightarrow> string) \<Rightarrow> change_log \<Rightarrow> entropy \<Rightarrow> (int \<Rightarrow> bool) \<Rightarrow> instant \<Rightarrow> db
    \<Rightarrow> (go_error + scope_row \<times> task_row) \<times> db" where
  "claimAllocation fingerprint changes ent locked now db =
     (case first_where (\<lambda>s. claimable changes now db s \<and> \<not> locked (sco_id s)) (db_scopes db) of
        None \<Rightarrow> (Inl not_found, db)
      | Some s \<Rightarrow> claim_scope fingerprint changes ent now s db)"

subsection \<open>Holding and giving up the lease\<close>

text \<open>Both rows still carry the worker's fence, and the lease has not run out.\<close>

definition lockAllocationLease :: "instant \<Rightarrow> scope_row \<Rightarrow> task_row \<Rightarrow> db \<Rightarrow> go_error + scope_row" where
  "lockAllocationLease now s t db =
     (case first_where (\<lambda>c. sco_id c = sco_id s \<and> (\<not> sco_paused c \<or> tsk_mode t = Simulate)
         \<and> sco_lease_token c = tsk_token t
         \<and> (case sco_lease_until c of None \<Rightarrow> False | Some u \<Rightarrow> now < u)) (db_scopes db) of
        None \<Rightarrow> Inl (TaskError ''allocation_lease_lost'')
      | Some c \<Rightarrow>
          if exists_where (\<lambda>r. tsk_id r = tsk_id t \<and> tsk_generation r = tsk_generation t
               \<and> tsk_status r = TaRunning \<and> tsk_token r = tsk_token t) (db_tasks db)
          then Inr c else Inl (TaskError ''allocation_lease_lost''))"

definition releaseAllocationLease :: "scope_row \<Rightarrow> task_row \<Rightarrow> db \<Rightarrow> db" where
  "releaseAllocationLease s t db = db\<lparr>db_scopes := update_where
     (\<lambda>c. sco_id c = sco_id s \<and> sco_lease_token c = tsk_token t)
     (\<lambda>c. c\<lparr>sco_lease_token := [], sco_lease_until := None\<rparr>) (db_scopes db)\<rparr>"

text \<open>
  \<open>failureInfo\<close> (processing.go), the code. A failure of the PDF extractor carries its code like a
  task failure and is one here.
\<close>

definition failure_code :: "go_error \<Rightarrow> string" where
  "failure_code e = (case e of TaskError code \<Rightarrow> code
     | Canceled \<Rightarrow> ''agent_cancelled'' | DeadlineExceeded \<Rightarrow> ''llm_timeout'' | _ \<Rightarrow> ''processing_error'')"

text \<open>\<open>conflict\<close>: PostgreSQL reported a serialization failure or a deadlock.\<close>

definition finishAllocationFailure ::
  "instant \<Rightarrow> scope_row \<Rightarrow> task_row \<Rightarrow> go_error \<Rightarrow> bool \<Rightarrow> db \<Rightarrow> db" where
  "finishAllocationFailure now s t cause conflict db =
     (case lockAllocationLease now s t db of Inl _ \<Rightarrow> db
      | Inr c \<Rightarrow>
          let code = (if conflict then ''allocation_snapshot_stale'' else failure_code cause);
              again = (code = ''allocation_snapshot_stale'' \<and> tsk_generation t < 3);
              db = update_task (\<lambda>r. tsk_id r = tsk_id t)
                (\<lambda>r. r\<lparr>tsk_status := (if again then TaPending else TaFailed), tsk_error := code,
                   tsk_generation := tsk_generation t + (if again then 1 else 0),
                   tsk_token := [], tsk_lease_until := None, tsk_request := None\<rparr>) db;
              db = update_plan (\<lambda>q. pln_task q = tsk_id t \<and> pln_generation q = tsk_generation t
                  \<and> pln_status q = PlProposed)
                (\<lambda>q. q\<lparr>pln_status := (if code = ''allocation_snapshot_stale'' then PlStale else PlInvalid),
                   pln_code := code\<rparr>) db;
              db = update_work (\<lambda>i. wrk_task i = Some (tsk_id t) \<and> wrk_status i = WiLeased)
                (\<lambda>i. i\<lparr>wrk_status := (if again then WiPending else WiFailed), wrk_reason := code\<rparr>) db
          in releaseAllocationLease c t db)"

subsection \<open>Who may see and steer a scope\<close>

text \<open>The body of the loop over the rules: \<open>Some b\<close> returns \<open>b\<close>, \<open>None\<close> goes on.\<close>

definition rule_department :: "db \<Rightarrow> object \<Rightarrow> department_row option" where
  "rule_department db rule =
     (case fetch_opt job_id (body_id (fld rule ''job_id'')) (db_jobs db) of Inl _ \<Rightarrow> None
      | Inr j \<Rightarrow> (case fetch_opt dep_id (job_department j) (db_departments db) of Inl _ \<Rightarrow> None
         | Inr d \<Rightarrow> Some d))"

definition scope_grant :: "db \<Rightarrow> principal \<Rightarrow> bool \<Rightarrow> department_row \<Rightarrow> grant \<Rightarrow> bool" where
  "scope_grant db p write d g \<longleftrightarrow> isDepartmentHR (con_level (gr_contact g))
     \<and> grantHas p g ''attempt.view_department'' \<and> (\<not> write \<or> grantHas p g ''attempt.dispatch'')
     \<and> grantCovers (db_departments db) g d"

fun rules_covered :: "db \<Rightarrow> principal \<Rightarrow> string \<Rightarrow> bool \<Rightarrow> json list \<Rightarrow> bool \<Rightarrow> bool" where
  "rules_covered db p pool write [] found = found"
| "rules_covered db p pool write (v # vs) found =
     (let rule = obj v in
      if fld rule ''pool_code'' \<noteq> JStr pool \<or> \<not> active_item rule
      then rules_covered db p pool write vs found
      else case rule_department db rule of None \<Rightarrow> False
        | Some d \<Rightarrow> list_ex (scope_grant db p write d) (departmentGrants p)
            \<and> rules_covered db p pool write vs True)"

definition canAccessAllocationScope :: "db \<Rightarrow> principal option \<Rightarrow> scope_row \<Rightarrow> bool \<Rightarrow> bool" where
  "canAccessAllocationScope db p s write = (case p of None \<Rightarrow> False
     | Some p \<Rightarrow>
         if \<not> has p ''resume.view'' \<or> (write \<and> \<not> has p ''attempt.dispatch'') then False
         else if has p ''attempt.view_all'' then True
         else rules_covered db p (sco_pool s) write (list_of (fld (db_policy db) ''rules'')) False)"

text \<open>
  \<open>users\<close> gives the principal of an active user (\<open>userPrincipal\<close> over the account tables); a missing
  or deactivated one has none.
\<close>

definition authorizeAllocationTask ::
  "(int \<Rightarrow> principal option) \<Rightarrow> scope_row \<Rightarrow> task_row \<Rightarrow> db \<Rightarrow> go_error + unit" where
  "authorizeAllocationTask users s t db = (case tsk_created_by t of None \<Rightarrow> Inr ()
     | Some u \<Rightarrow> (case users u of None \<Rightarrow> Inl (ApiError 403 ''the creator is deactivated'')
        | Some p \<Rightarrow> ensure (canAccessAllocationScope db (Some p) s True)
            (ApiError 403 ''the creator lost access to the scope'')))"

definition canReadPoolMember :: "db \<Rightarrow> principal \<Rightarrow> member_row \<Rightarrow> bool" where
  "canReadPoolMember db p m =
     (if \<not> has p ''resume.view'' then False
      else if has p ''attempt.view_all'' then True
      else if mem_status m = PmAllocated
      then (case last_where (\<lambda>a. att_decision a = Some (mem_decision m) \<and> effective_status (att_status a))
              (db_attempts db) of None \<Rightarrow> False | Some a \<Rightarrow> visibleAttempt (db_departments db) p a)
      else (case allocationScope m db of Inl _ \<Rightarrow> False
            | Inr s \<Rightarrow> canAccessAllocationScope db (Some p) s False))"

subsection \<open>The write operations of the API\<close>

text \<open>\<open>POST allocation-tasks\<close>: the member ids of the body, or the first hundred pending members.\<close>

fun body_ids :: "json list \<Rightarrow> int list \<Rightarrow> go_error + int list" where
  "body_ids [] seen = Inr seen"
| "body_ids (v # vs) seen =
     (if num v \<le> 0 \<or> num v \<in> set seen then Inl (bad ''invalid or repeated member id'')
      else body_ids vs (seen @ [num v]))"

definition pending_in_scope :: "scope_row \<Rightarrow> db \<Rightarrow> member_row \<Rightarrow> bool" where
  "pending_in_scope s db m \<longleftrightarrow> scope_member s m \<and> mem_status m = PmPendingAllocation"

definition requested_members :: "scope_row \<Rightarrow> object \<Rightarrow> db \<Rightarrow> go_error + int list" where
  "requested_members s body db =
     andThen (body_ids (list_of (fld body ''member_ids'')) []) (\<lambda>ids.
     let ids = (if ids = [] then map mem_id (take 100 (sort_key (\<lambda>m. (mem_created m, mem_id m))
                 (filter (pending_in_scope s db) (db_members db)))) else ids)
     in if list_all (\<lambda>i. exists_where (\<lambda>m. mem_id m = i \<and> pending_in_scope s db m) (db_members db)) ids
        then Inr (sort ids) else Inl (bad ''member not pending in this scope''))"

definition postAllocationTask ::
  "(task_input \<Rightarrow> string) \<Rightarrow> entropy \<Rightarrow> object \<Rightarrow> principal \<Rightarrow> db \<Rightarrow> go_error + task_row \<times> db" where
  "postAllocationTask fingerprint ent body p db =
     andThen (fetch_opt sco_id (body_id (fld body ''scope_id'')) (db_scopes db)) (\<lambda>s.
     if \<not> canAccessAllocationScope db (Some p) s True then Inl (ApiError 403 ''no access to the scope'')
     else andThen (requested_members s body db) (\<lambda>ids.
       createAllocationTask fingerprint ent s ids (str (fld body ''mode''))
         (str (fld body ''idempotency_key'')) (Some p) False ''v1'' db))"

definition cancel_task :: "scope_row \<Rightarrow> task_row \<Rightarrow> db \<Rightarrow> db" where
  "cancel_task s t db =
     releaseAllocationLease s t
       (update_work (\<lambda>i. wrk_task i = Some (tsk_id t) \<and> active_work i)
          (\<lambda>i. i\<lparr>wrk_status := WiCancelled, wrk_reason := ''task_cancelled''\<rparr>)
       (update_plan (\<lambda>q. pln_task q = tsk_id t \<and> pln_status q = PlProposed)
          (\<lambda>q. q\<lparr>pln_status := PlCancelled\<rparr>)
       (update_task (\<lambda>r. tsk_id r = tsk_id t) (\<lambda>r. r\<lparr>tsk_status := TaCancelled\<rparr>) db)))"

definition cancelAllocationTask :: "scope_row \<Rightarrow> task_row \<Rightarrow> principal \<Rightarrow> db \<Rightarrow> go_error + db" where
  "cancelAllocationTask s t p db =
     (if tsk_status t = TaCompleted then Inl (ApiError 409 ''a completed task cannot be cancelled'')
      else if actor_number (tsk_created_by t) \<noteq> pri_user p \<and> \<not> isAdministrator p
      then Inl (ApiError 403 ''only the creator or an administrator cancels'')
      else Inr (cancel_task s t db))"

definition retryAllocationTask ::
  "(task_input \<Rightarrow> string) \<Rightarrow> entropy \<Rightarrow> scope_row \<Rightarrow> task_row \<Rightarrow> object \<Rightarrow> principal \<Rightarrow> db \<Rightarrow> go_error + db"
where
  "retryAllocationTask fingerprint ent s t body p db =
     (let key = str (fld body ''idempotency_key'') in
      if tsk_status t \<notin> {TaFailed, TaCancelled, TaCompleted} then Inl (ApiError 409 ''still running'')
      else if key = [] then Inl (bad ''a retry needs an idempotency key'')
      else andThen (createAllocationTask fingerprint ent s (tsk_members t) (mode_name (tsk_mode t)) key
             (Some p) False (tsk_version t) db) (\<lambda>(_, db). Inr db))"

text \<open>\<open>POST allocation-tasks/<id>/retry|cancel\<close>.\<close>

definition allocationTaskAction ::
  "(task_input \<Rightarrow> string) \<Rightarrow> entropy \<Rightarrow> int \<Rightarrow> string \<Rightarrow> object \<Rightarrow> principal \<Rightarrow> db \<Rightarrow> go_error + db" where
  "allocationTaskAction fingerprint ent i action body p db =
     andThen (fetch tsk_id i (db_tasks db)) (\<lambda>t.
     andThen (fetch sco_id (tsk_scope t) (db_scopes db)) (\<lambda>s.
     if \<not> canAccessAllocationScope db (Some p) s True then Inl (ApiError 403 ''no access to the task'')
     else if \<not> contains [''retry'', ''cancel''] action then Inl (ApiError 405 ''method'')
     else if action = ''cancel'' then cancelAllocationTask s t p db
     else retryAllocationTask fingerprint ent s t body p db))"

text \<open>\<open>PATCH allocation-scopes/<id>\<close>: pausing or resuming starts a new epoch without open tasks.\<close>

definition scope_switched :: "scope_row \<Rightarrow> bool \<Rightarrow> db \<Rightarrow> db" where
  "scope_switched s paused db =
     (let db = update_scope (sco_id s) (\<lambda>s. s\<lparr>sco_paused := paused, sco_epoch := sco_epoch s + 1,
            sco_revision := sco_revision s + 1, sco_lease_token := [], sco_lease_until := None\<rparr>) db;
          db = update_task (\<lambda>t. tsk_scope t = sco_id s \<and> tsk_status t \<in> {TaPending, TaRunning})
            (\<lambda>t. t\<lparr>tsk_status := TaCancelled, tsk_error := ''allocation_scope_paused''\<rparr>) db;
          off = (\<lambda>k. exists_where (\<lambda>t. tsk_id t = k \<and> tsk_scope t = sco_id s \<and> tsk_status t = TaCancelled)
            (db_tasks db));
          db = update_plan (\<lambda>q. pln_status q = PlProposed \<and> off (pln_task q))
            (\<lambda>q. q\<lparr>pln_status := PlCancelled, pln_code := ''allocation_scope_changed''\<rparr>) db
      in update_work (\<lambda>i. active_work i \<and> (case wrk_task i of None \<Rightarrow> False | Some k \<Rightarrow> off k))
           (\<lambda>i. i\<lparr>wrk_status := WiPending, wrk_task := None, wrk_reason := []\<rparr>) db)"

definition patchAllocationScope ::
  "instant \<Rightarrow> int \<Rightarrow> object \<Rightarrow> principal \<Rightarrow> db \<Rightarrow> go_error + db" where
  "patchAllocationScope now i body p db =
     andThen (fetch sco_id i (db_scopes db)) (\<lambda>s.
     if \<not> canAccessAllocationScope db (Some p) s False then Inl (ApiError 403 ''no access to the scope'')
     else if \<not> has p ''settings.manage_config'' then Inl (ApiError 403 ''no right to pause'')
     else case fld body ''paused'' of
       JBool paused \<Rightarrow>
         if (str (fld body ''allocation_mode'') \<noteq> [] \<and> str (fld body ''allocation_mode'') \<noteq> ''execute_v1'')
           \<or> blank (str (fld body ''reason''))
         then Inl (bad ''a reason is needed'')
         else if num (fld body ''expected_revision'') \<noteq> sco_revision s then Inl (ApiError 409 ''scope changed'')
         else if (case sco_lease_until s of None \<Rightarrow> False | Some u \<Rightarrow> \<not> paused \<and> now < u)
         then Inl (ApiError 409 ''a task is still running'')
         else Inr ((scope_switched s paused db)\<lparr>db_audit := db_audit db @
           [\<lparr> aud_scope = Some (sco_id s), aud_demand = None, aud_actor = Some (pri_user p),
              aud_kind = ''pause_changed'',
              aud_payload = [(''paused'', JBool paused), (''reason'', fld body ''reason'')] \<rparr>]\<rparr>)
     | _ \<Rightarrow> Inl (bad ''paused must be a boolean''))"

text \<open>
  \<open>syncAllocationConfig\<close> (allocation_migration.go): a scope per pool of the policy and a reception
  setting per demand that has none.
\<close>

definition sync_scope :: "json \<Rightarrow> db \<Rightarrow> db" where
  "sync_scope v db =
     (let entity = str (fld (obj v) ''entity''); pool = str (fld (obj v) ''code'') in
      if exists_where (\<lambda>s. sco_entity s = entity \<and> sco_pool s = pool) (db_scopes db) then db
      else db\<lparr>db_scopes := db_scopes db @ [\<lparr> sco_id = db_next db, sco_entity = entity, sco_pool = pool,
             sco_revision = 1, sco_epoch = 1, sco_next_sequence = 1, sco_lease_token = [],
             sco_lease_until = None, sco_paused = False \<rparr>], db_next := db_next db + 1\<rparr>)"

definition sync_demand :: "job_row \<Rightarrow> db \<Rightarrow> db" where
  "sync_demand j db =
     (if exists_where (\<lambda>d. dem_id d = job_id j) (db_demands db) then db
      else db\<lparr>db_demands := db_demands db @ [\<lparr> dem_id = job_id j,
             dem_state = (if job_active j then ''receiving'' else ''paused''), dem_revision = 1,
             dem_updated_by = None, dem_reason = JStr ''migration'' \<rparr>]\<rparr>)"

definition syncAllocationConfig :: "db \<Rightarrow> db" where
  "syncAllocationConfig db =
     (let db = fold sync_scope (list_of (fld (db_policy db) ''pools'')) db
      in fold sync_demand (db_jobs db) db)"

text \<open>The columns of \<open>platform_demand_settings\<close> as \<open>row_to_json\<close> returns them; the time of the update,
  which no operation reads, is not kept.\<close>

definition demand_json :: "demand_row \<Rightarrow> object" where
  "demand_json d = [(''demand_id'', JNum (of_int (dem_id d))), (''reason'', dem_reason d),
     (''reception_state'', JStr (dem_state d)), (''revision'', JNum (of_int (dem_revision d))),
     (''updated_by'', case dem_updated_by d of None \<Rightarrow> JNull | Some u \<Rightarrow> JNum (of_int u))]"

text \<open>\<open>PATCH demands/<id>\<close>: whether a demand receives candidates, under its revision. The audit keeps
  the row that the UPDATE returned.\<close>

definition set_reception :: "int \<Rightarrow> string \<Rightarrow> object \<Rightarrow> principal \<Rightarrow> db \<Rightarrow> go_error + db" where
  "set_reception i state body p db =
     (let c = (\<lambda>d. dem_id d = i \<and> Some (dem_revision d) = body_id (fld body ''expected_revision''));
          f = (\<lambda>d. d\<lparr>dem_state := state, dem_revision := dem_revision d + 1,
            dem_updated_by := Some (pri_user p), dem_reason := fld body ''reason''\<rparr>) in
      case first_where c (db_demands db) of
        None \<Rightarrow> Inl (ApiError 409 ''demand changed'')
      | Some d \<Rightarrow> Inr (db\<lparr>db_demands := update_where c f (db_demands db),
           db_audit := db_audit db @ [\<lparr> aud_scope = None, aud_demand = Some i,
             aud_actor = Some (pri_user p), aud_kind = ''reception_changed'',
             aud_payload = demand_json (f d) \<rparr>]\<rparr>))"

definition demandReceptionAPI :: "int \<Rightarrow> object \<Rightarrow> principal \<Rightarrow> db \<Rightarrow> go_error + db" where
  "demandReceptionAPI i body p db =
     (let state = str (fld body ''reception_state'') in
      if \<not> has p ''job.manage'' then Inl (ApiError 403 ''no right to manage jobs'')
      else if \<not> contains [''receiving'', ''paused'', ''closed''] state \<or> blank (str (fld body ''reason''))
      then Inl (bad ''state and reason are needed'')
      else andThen (fetch job_id i (db_jobs db)) (\<lambda>j.
        andThen (fetch_opt dep_id (job_department j) (db_departments db)) (\<lambda>d.
        if isAdministrator p \<or> ''job.manage'' \<in> set (case pri_global p of None \<Rightarrow> [] | Some cs \<Rightarrow> cs)
          \<or> list_ex (\<lambda>g. grantHas p g ''job.manage'' \<and> grantCovers (db_departments db) g d) (departmentGrants p)
        then set_reception i state body p (syncAllocationConfig db)
        else Inl (ApiError 403 ''no right over the department of the demand''))))"

end
