(* ===== verification/Screening.thy ===== *)
theory Screening
  imports AllocationQueue
begin

text \<open>
  Screening qualifications and the allocation snapshot (internal/platform/allocation_snapshot.go,
  candidate_inputs.go): the qualification that a screened or revised membership gets, whether it
  still holds, and the snapshot of members and demands that a plan is computed from.
\<close>

subsection \<open>What the code relies on\<close>

text \<open>
  Hashes of JSON texts, the SQL functions \<open>lower(btrim(s))\<close>, the change log, the JSON schemas and
  the principals of active users are parameters, gathered in a record.
\<close>

record platform_env =
  env_fingerprint :: "json \<Rightarrow> string"
  env_tag_hash :: "alloc_tag list \<Rightarrow> string"
  env_snapshot_hash :: "alloc_snapshot \<Rightarrow> string"
  env_lower_trim :: "string \<Rightarrow> string"
  env_changes :: change_log
  env_request_ok :: "alloc_request \<Rightarrow> bool"
  env_response_ok :: "alloc_response \<Rightarrow> bool"
  env_users :: "int \<Rightarrow> principal option"

subsection \<open>Candidate inputs\<close>

definition candidateAssessmentInputs :: "object \<Rightarrow> object" where
  "candidateAssessmentInputs candidate = map (\<lambda>k. (k, JStr (str (fld candidate k))))
     [''highest_major'', ''highest_education'', ''household_province'', ''first_degree_school'',
      ''highest_degree_school'']"

subsection \<open>Tag facts\<close>

text \<open>\<open>allocationRef\<close> (allocation_policy.go).\<close>

definition allocationRef :: "string \<Rightarrow> string \<Rightarrow> string" where
  "allocationRef kind i = kind @ ''-'' @ i"

text \<open>
  The basis points of a confidence are the floor of the exact product of the decimal. The source takes
  \<open>math.Floor\<close> of a product of float64 values, which can lie just below the integer: a confidence of
  0.57 has 5699 points there and 5700 here. The properties of the plan take the basis points of a
  snapshot as they are.
\<close>

definition tag_fact :: "int \<Rightarrow> int \<Rightarrow> object \<Rightarrow> alloc_tag" where
  "tag_fact member revision t =
     \<lparr> at_code = str (fld t ''code''), at_status = str (fld t ''status''),
       at_bps = \<lfloor>float_value (fld t ''confidence'') * 10000\<rfloor>,
       at_source = (if fld t ''source'' = JStr ''manual'' then ''manual'' else ''model''),
       at_ref = allocationRef ''assertion''
         (show_id member @ ''-'' @ show_int revision @ ''-'' @ str (fld t ''code'')),
       at_verified = True \<rparr>"

fun tag_facts :: "int \<Rightarrow> int \<Rightarrow> json list \<Rightarrow> go_error + alloc_tag list" where
  "tag_facts member revision [] = Inr []"
| "tag_facts member revision (v # vs) =
     (let t = obj v in
      if fld t ''source'' = JStr ''manual'' \<and> str (fld t ''note'') = []
      then Inl (bad ''a manual tag needs its audit note'')
      else andThen (tag_facts member revision vs) (\<lambda>ts. Inr (tag_fact member revision t # ts)))"

text \<open>\<open>sort.Slice\<close> by code; codes of a membership are distinct, so the order is the only one.\<close>

definition allocationTagFacts :: "member_row \<Rightarrow> int \<Rightarrow> go_error + alloc_tag list" where
  "allocationTagFacts m revision =
     andThen (tag_facts (mem_id m) revision (mem_tags m)) (\<lambda>ts. Inr (sort_key at_code ts))"

definition allocationTagHash :: "platform_env \<Rightarrow> alloc_tag list \<Rightarrow> string" where
  "allocationTagHash env ts = env_tag_hash env (sort_key at_code ts)"

subsection \<open>Qualifications\<close>

definition screened_source :: "member_row \<Rightarrow> bool \<Rightarrow> db \<Rightarrow> db" where
  "screened_source m screened db =
     (if screened then db\<lparr>db_sources := update_where (\<lambda>s. src_resume s = mem_resume m)
        (\<lambda>s. s\<lparr>src_checksum := mem_checksum m, src_verified := True\<rparr>) (db_sources db)\<rparr>
      else db)"

definition new_qualification ::
  "platform_env \<Rightarrow> member_row \<Rightarrow> source_row \<Rightarrow> alloc_tag list \<Rightarrow> db \<Rightarrow> qualification_row" where
  "new_qualification env m src tags db =
     \<lparr> qua_id = db_next db, qua_member = mem_id m, qua_revision = mem_revision m,
       qua_decision = mem_decision m, qua_source_revision = src_revision src,
       qua_checksum = src_checksum src,
       qua_standard_hash = fld (obj (fld (mem_assessment m) ''requirement'')) ''content_hash'',
       qua_tags_hash = allocationTagHash env tags, qua_tags = tags \<rparr>"

text \<open>\<open>INSERT ... ON CONFLICT(member_id,revision) DO NOTHING\<close>, else the row that is there.\<close>

definition insert_qualification :: "qualification_row \<Rightarrow> db \<Rightarrow> qualification_row \<times> db" where
  "insert_qualification q db =
     (case first_where (\<lambda>r. qua_member r = qua_member q \<and> qua_revision r = qua_revision q)
        (db_qualifications db) of
        Some r \<Rightarrow> (r, db)
      | None \<Rightarrow> (q, db\<lparr>db_qualifications := db_qualifications db @ [q], db_next := db_next db + 1\<rparr>))"

definition requalify_work :: "int \<Rightarrow> int \<Rightarrow> db \<Rightarrow> db" where
  "requalify_work member q db =
     insert_work member q None
       (update_work (\<lambda>i. wrk_member i = member \<and> wrk_qualification i \<noteq> q \<and> open_work i)
          (\<lambda>i. i\<lparr>wrk_status := WiCancelled, wrk_reason := ''qualification_replaced''\<rparr>) db)"

definition saveScreeningQualification ::
  "platform_env \<Rightarrow> member_row \<Rightarrow> bool \<Rightarrow> db \<Rightarrow> go_error + qualification_row \<times> db" where
  "saveScreeningQualification env m screened db =
     andThen (fetch src_resume (mem_resume m) (db_sources db)) (\<lambda>_.
     let db = screened_source m screened db in
     andThen (fetch src_resume (mem_resume m) (db_sources db)) (\<lambda>src.
     if \<not> src_verified src \<or> src_checksum src \<noteq> mem_checksum m
     then Inl (TaskError ''qualification_stale'')
     else andThen (allocationTagFacts m (mem_revision m)) (\<lambda>tags.
       let r = insert_qualification (new_qualification env m src tags db) db
       in Inr (fst r, requalify_work (mem_id m) (qua_id (fst r)) (snd r)))))"

subsection \<open>Members as the snapshot reads them\<close>

record member_view =
  mv_member :: member_row
  mv_workflow :: workflow_row
  mv_resume :: resume_row
  mv_candidate :: candidate_row
  mv_source :: source_row
  mv_qualification :: "qualification_row option"
  mv_assigned :: bool

text \<open>The inner joins of \<open>allocationMemberRows\<close>: a member without one of the rows is left out.\<close>

definition member_view_of :: "db \<Rightarrow> member_row \<Rightarrow> member_view option" where
  "member_view_of db m =
     Option.bind (first_where (\<lambda>w. wf_id w = mem_workflow m) (db_workflows db)) (\<lambda>w.
     Option.bind (first_where (\<lambda>r. res_id r = mem_resume m) (db_resumes db)) (\<lambda>r.
     Option.bind (first_where (\<lambda>c. cnd_id c = mem_candidate m) (db_candidates db)) (\<lambda>c.
     Option.bind (first_where (\<lambda>s. src_resume s = res_id r) (db_sources db)) (\<lambda>s.
     Some \<lparr> mv_member = m, mv_workflow = w, mv_resume = r, mv_candidate = c, mv_source = s,
            mv_qualification = latest_qualification (mem_id m) db,
            mv_assigned = effective_attempt (wf_id w) db \<rparr>))))"

definition allocationMemberRows :: "int list \<Rightarrow> db \<Rightarrow> member_view list" where
  "allocationMemberRows ids db = List.map_filter (member_view_of db)
     (sort_key (\<lambda>m. (mem_workflow m, mem_id m)) (filter (\<lambda>m. mem_id m \<in> set ids) (db_members db)))"

definition resume_object :: "resume_row \<Rightarrow> object" where
  "resume_object r = [(''entity'', JStr (res_entity r)), (''position_name'', JStr (res_position r))]"

text \<open>The conjunction of the checks once the facts and the current standard are known.\<close>

definition qualification_holds ::
  "platform_env \<Rightarrow> object \<Rightarrow> member_view \<Rightarrow> object \<Rightarrow> qualification_row \<Rightarrow> bool" where
  "qualification_holds env policy v current q \<longleftrightarrow>
     (let m = mv_member v; w = mv_workflow v; src = mv_source v;
          standard = policyItem policy ''standards'' (mem_standard m);
          pool = policyItem policy ''pools'' (mem_pool m)
      in mem_status m = PmPendingAllocation \<and> wf_current_resume w = Some (mem_resume m)
         \<and> \<not> mv_assigned v \<and> wf_status w \<notin> {WfPassed, WfArchived, WfWaitingNext, WfTalentPool}
         \<and> activePolicyItem standard \<and> activePolicyItem pool
         \<and> fld current ''standard_code'' = JStr (mem_standard m)
         \<and> fld current ''pool_code'' = JStr (mem_pool m)
         \<and> qua_standard_hash q = fld (standardJob (env_fingerprint env) policy
              (case standard of Some s \<Rightarrow> s | None \<Rightarrow> [])) ''content_hash''
         \<and> qua_source_revision q = src_revision src \<and> qua_checksum q = src_checksum src
         \<and> src_verified src
         \<and> env_fingerprint env (JObj (candidateAssessmentInputs (cnd_fields (mv_candidate v))))
           = env_fingerprint env (JObj (obj (fld (mem_assessment m) ''candidate''))))"

definition allocationQualificationValid ::
  "platform_env \<Rightarrow> object \<Rightarrow> member_view \<Rightarrow> go_error + bool" where
  "allocationQualificationValid env policy v =
     andThen (resolveApplicationStandard [(''pool_policy'', JObj policy)] (resume_object (mv_resume v)) [])
       (\<lambda>current. Inr (case mv_qualification v of None \<Rightarrow> False
          | Some q \<Rightarrow> (case allocationTagFacts (mv_member v) (qua_revision q) of Inl _ \<Rightarrow> False
             | Inr facts \<Rightarrow> allocationTagHash env facts = qua_tags_hash q
                \<and> qualification_holds env policy v current q)))"

subsection \<open>Supply and demands\<close>

definition window :: int where
  "window = 604800"

text \<open>
  A target counts while its attempt is effective or once it was dispatched. \<open>target_candidate\<close> is the
  join through the attempt and its workflow.
\<close>

definition target_attempt :: "db \<Rightarrow> target_row \<Rightarrow> attempt_row option" where
  "target_attempt db t = first_where (\<lambda>a. att_id a = tgt_attempt t) (db_attempts db)"

definition target_candidate :: "db \<Rightarrow> target_row \<Rightarrow> int option" where
  "target_candidate db t = Option.bind (target_attempt db t) (\<lambda>a.
     map_option wf_candidate (first_where (\<lambda>w. wf_id w = att_workflow a) (db_workflows db)))"

definition counted_target :: "int \<Rightarrow> db \<Rightarrow> target_row \<Rightarrow> bool" where
  "counted_target scope db t \<longleftrightarrow> tgt_scope t = Some scope \<and> tgt_kind t = ''demand''
     \<and> target_candidate db t \<noteq> None
     \<and> (tgt_dispatched t \<noteq> None
        \<or> (case target_attempt db t of None \<Rightarrow> False | Some a \<Rightarrow> effective_status (att_status a)))"

definition in_window :: "instant \<Rightarrow> target_row \<Rightarrow> bool" where
  "in_window moment t \<longleftrightarrow> moment - window * second \<le> tgt_allocated t \<and> tgt_allocated t < moment"

definition demand_targets :: "int \<Rightarrow> db \<Rightarrow> int \<Rightarrow> target_row list" where
  "demand_targets scope db d =
     filter (\<lambda>t. counted_target scope db t \<and> tgt_demand t = Some d) (db_targets db)"

definition recent_supply :: "int \<Rightarrow> db \<Rightarrow> instant \<Rightarrow> int \<Rightarrow> int" where
  "recent_supply scope db moment d =
     int (length (remdups (map (target_candidate db) (filter (in_window moment) (demand_targets scope db d)))))"

definition last_sequence :: "int \<Rightarrow> db \<Rightarrow> int \<Rightarrow> int" where
  "last_sequence scope db d = foldr max (map tgt_sequence (demand_targets scope db d)) 0"

text \<open>The join of jobs, departments and reception settings: the demands of the scope's entity.\<close>

definition scope_job :: "platform_env \<Rightarrow> scope_row \<Rightarrow> db \<Rightarrow> int \<Rightarrow> (job_row \<times> demand_row) option" where
  "scope_job env s db i =
     Option.bind (first_where (\<lambda>j. job_id j = i) (db_jobs db)) (\<lambda>j.
     Option.bind (first_where (\<lambda>d. dem_id d = job_id j) (db_demands db)) (\<lambda>d.
     if env_lower_trim env (job_entity j) = env_lower_trim env (sco_entity s) \<and> job_active j
       \<and> exists_where (\<lambda>p. Some (dep_id p) = job_department j \<and> dep_level p \<in> {1, 2}) (db_departments db)
     then Some (j, d) else None))"

definition rule_demand :: "platform_env \<Rightarrow> scope_row \<Rightarrow> instant \<Rightarrow> db \<Rightarrow> json \<Rightarrow> alloc_demand option" where
  "rule_demand env s moment db v =
     (let rule = obj v in
      if \<not> active_item rule \<or> fld rule ''pool_code'' \<noteq> JStr (sco_pool s) then None
      else map_option (\<lambda>(j, d).
        \<lparr> ad_id = job_id j,
          ad_department_ref = allocationRef ''department''
            (case job_department j of None \<Rightarrow> [] | Some p \<Rightarrow> show_id p),
          ad_revision = dem_revision d, ad_reception_state = dem_state d,
          ad_required = string_values (fld rule ''required_tags''),
          ad_preferred = string_values (fld rule ''preferred_tags''),
          ad_priority = num (fld rule ''priority''),
          ad_recent_supply = recent_supply (sco_id s) db moment (job_id j),
          ad_last_sequence = last_sequence (sco_id s) db (job_id j) \<rparr>)
        (scope_job env s db (num (fld rule ''job_id''))))"

definition scope_demands :: "platform_env \<Rightarrow> scope_row \<Rightarrow> instant \<Rightarrow> db \<Rightarrow> alloc_demand list" where
  "scope_demands env s moment db =
     List.map_filter (rule_demand env s moment db) (list_of (fld (db_policy db) ''rules''))"

definition counted_for :: "int \<Rightarrow> db \<Rightarrow> instant \<Rightarrow> int \<Rightarrow> int \<Rightarrow> bool" where
  "counted_for scope db moment candidate d \<longleftrightarrow>
     exists_where (\<lambda>t. in_window moment t \<and> target_candidate db t = Some candidate) (demand_targets scope db d)"

subsection \<open>The snapshot\<close>

definition snapshot_member ::
  "scope_row \<Rightarrow> instant \<Rightarrow> db \<Rightarrow> alloc_demand list \<Rightarrow> member_view \<Rightarrow> qualification_row \<Rightarrow> alloc_member" where
  "snapshot_member s moment db ds v q =
     (let m = mv_member v in
      \<lparr> am_id = mem_id m,
        am_candidate_ref = allocationRef ''candidate'' (show_id (mem_candidate m)),
        am_application_ref = allocationRef ''application'' (show_id (mem_resume m)),
        am_qualification_ref = allocationRef ''qualification'' (show_id (qua_id q)),
        am_qualification_revision = qua_revision q, am_member_revision = mem_revision m,
        am_workflow_revision = wf_revision (mv_workflow v),
        am_source_revision = qua_source_revision q, am_standard_ref = mem_standard m,
        am_standard_hash = str (qua_standard_hash q), am_tags_hash = qua_tags_hash q,
        am_admitted = True, am_created_at = format_micros (mem_created m), am_tags = qua_tags q,
        am_allowed = map ad_id ds,
        am_counted = filter (counted_for (sco_id s) db moment (mem_candidate m)) (map ad_id ds) \<rparr>)"

text \<open>What a membership loses when its qualification no longer holds.\<close>

definition no_longer_waiting :: "member_view \<Rightarrow> bool" where
  "no_longer_waiting v \<longleftrightarrow> mem_status (mv_member v) \<noteq> PmPendingAllocation \<or> mv_assigned v
     \<or> wf_current_resume (mv_workflow v) \<noteq> Some (mem_resume (mv_member v))"

definition reanalyse_member :: "instant \<Rightarrow> member_row \<Rightarrow> db \<Rightarrow> go_error + db" where
  "reanalyse_member now m db =
     applicationState now (mem_resume m) AppNeedsReanalysis ''qualification stale''
       [(''member_id'', JNum (of_int (mem_id m)))]
       (db\<lparr>db_members := update_where (\<lambda>r. mem_id r = mem_id m)
          (\<lambda>r. r\<lparr>mem_status := PmNeedsReanalysis, mem_revision := mem_revision r + 1\<rparr>) (db_members db)\<rparr>)"

definition drop_member :: "instant \<Rightarrow> member_view \<Rightarrow> db \<Rightarrow> go_error + db" where
  "drop_member now v db =
     (let m = mv_member v;
          code = (if no_longer_waiting v then ''candidate_already_assigned'' else ''qualification_stale'')
      in andThen (if no_longer_waiting v \<and> mem_status m \<noteq> PmNeedsReanalysis then Inr db
                  else reanalyse_member now m db) (\<lambda>db.
         Inr (update_work (\<lambda>i. wrk_member i = mem_id m \<and> open_work i)
           (\<lambda>i. i\<lparr>wrk_status := WiCancelled, wrk_reason := code\<rparr>) db)))"

text \<open>One turn of the loop over the member rows.\<close>

definition snapshot_row ::
  "platform_env \<Rightarrow> scope_row \<Rightarrow> instant \<Rightarrow> instant \<Rightarrow> bool \<Rightarrow> db \<Rightarrow> alloc_demand list \<Rightarrow> member_view
    \<Rightarrow> alloc_member list \<times> db \<Rightarrow> go_error + alloc_member list \<times> db" where
  "snapshot_row env s now moment clean read ds v acc =
     (if \<not> scope_member s (mv_member v) then Inl (bad ''not of this scope'')
      else andThen (allocationQualificationValid env (db_policy read) v) (\<lambda>valid.
        case mv_qualification v of
          Some q \<Rightarrow> if valid then Inr (fst acc @ [snapshot_member s moment read ds v q], snd acc)
            else if clean then andThen (drop_member now v (snd acc)) (\<lambda>db. Inr (fst acc, db)) else Inr acc
        | None \<Rightarrow> if clean then andThen (drop_member now v (snd acc)) (\<lambda>db. Inr (fst acc, db)) else Inr acc))"

definition empty_snapshot :: "platform_env \<Rightarrow> scope_row \<Rightarrow> task_row \<Rightarrow> instant \<Rightarrow> db \<Rightarrow> alloc_snapshot" where
  "empty_snapshot env s t moment db =
     \<lparr> as_id = allocationRef ''snapshot'' (show_id (tsk_id t) @ ''-'' @ show_id (tsk_generation t)),
       as_at = format_micros moment, as_scope_ref = allocationRef ''scope'' (show_id (sco_id s)),
       as_entity_ref = allocationRef ''entity'' (env_fingerprint env (JStr (sco_entity s))),
       as_pool_ref = sco_pool s, as_scope_revision = 0, as_policy_revision = db_policy_version db,
       as_epoch = sco_epoch s, as_next_sequence = sco_next_sequence s, as_window_seconds = window,
       as_members = [], as_demands = [] \<rparr>"

definition buildAllocationSnapshot ::
  "platform_env \<Rightarrow> scope_row \<Rightarrow> task_row \<Rightarrow> instant \<Rightarrow> instant \<Rightarrow> bool \<Rightarrow> db
    \<Rightarrow> go_error + alloc_snapshot \<times> db" where
  "buildAllocationSnapshot env s t now moment clean db =
     (let ds = scope_demands env s moment db in
      if 200 < length ds then Inl (TaskError ''allocation_scope_too_large'')
      else
        andThen (foldE (snapshot_row env s now moment clean db ds) (allocationMemberRows (tsk_members t) db) ([], db))
          (\<lambda>(ms, after).
        andThen (allocationRevision (env_changes env) s after) (\<lambda>revision.
        Inr ((empty_snapshot env s t moment db)\<lparr>as_scope_revision := revision, as_members := ms,
          as_demands := ds\<rparr>, after))))"

end
