(* ===== verification/AllocationCommit.thy ===== *)
theory AllocationCommit
  imports Screening
begin

text \<open>
  The work of an allocation worker (\<open>processAllocation\<close> of internal/platform/allocation_tasks.go,
  allocation_execute.go): a first transaction freezes the snapshot into a request, the Kernel
  computes a plan, and a second transaction applies it under the same lease when the state still
  hashes to the frozen snapshot. The two transactions are separate definitions, since anything
  may happen between them. The answer of the Kernel, an external service, is a parameter.
\<close>

subsection \<open>Recording a plan\<close>

text \<open>\<open>INSERT ... ON CONFLICT(task_id,generation) DO NOTHING\<close>, outside of the transaction.\<close>

definition recordAllocationPlan ::
  "task_row \<Rightarrow> alloc_request \<Rightarrow> alloc_response \<Rightarrow> plan_status \<Rightarrow> string \<Rightarrow> db \<Rightarrow> db" where
  "recordAllocationPlan t request result status code db =
     (if exists_where (\<lambda>q. pln_task q = tsk_id t \<and> pln_generation q = tsk_generation t) (db_plans db)
      then db
      else db\<lparr>db_plans := db_plans db @ [\<lparr> pln_id = db_next db, pln_task = tsk_id t,
             pln_generation = tsk_generation t, pln_hash = rq_snapshot_hash request,
             pln_result = result, pln_status = status, pln_code = code \<rparr>],
           db_next := db_next db + 1\<rparr>)"

subsection \<open>Freezing the snapshot\<close>

definition allocation_request :: "platform_env \<Rightarrow> task_row \<Rightarrow> alloc_pin \<Rightarrow> alloc_snapshot \<Rightarrow> alloc_request" where
  "allocation_request env t pin snapshot =
     \<lparr> rq_task_id = allocationRef ''allocation'' (tsk_namespace t @ ''-'' @ show_id (tsk_generation t)),
       rq_idempotency_key = allocationRef ''allocation-key''
         (tsk_namespace t @ ''-'' @ show_id (tsk_generation t)),
       rq_pin = pin, rq_snapshot_hash = allocationSnapshotHash (env_snapshot_hash env) snapshot,
       rq_snapshot = snapshot \<rparr>"

definition truncate_micros :: "instant \<Rightarrow> instant" where
  "truncate_micros t = t div 1000 * 1000"

definition finish_empty :: "scope_row \<Rightarrow> task_row \<Rightarrow> db \<Rightarrow> db" where
  "finish_empty c t db = releaseAllocationLease c t (update_task (\<lambda>r. tsk_id r = tsk_id t)
     (\<lambda>r. r\<lparr>tsk_status := TaCompleted, tsk_progress :=
        [(''assigned'', JNum 0), (''waiting'', JNum 0), (''ineligible'', JBool True)]\<rparr>) db)"

definition freeze_request :: "task_row \<Rightarrow> alloc_request \<Rightarrow> db \<Rightarrow> db" where
  "freeze_request t request db = update_task (\<lambda>r. tsk_id r = tsk_id t)
     (\<lambda>r. r\<lparr>tsk_request := Some request, tsk_pin := Some (rq_pin request), tsk_progress :=
        [(''selected'', JNum (of_nat (length (as_members (rq_snapshot request))))),
         (''stage'', JStr ''computing'')]\<rparr>) db"

text \<open>
  The first transaction: no request when no member is left to place. \<open>capabilities\<close> is the pin that
  the Kernel offers; a task that already has a pin keeps it.
\<close>

definition prepareAllocation ::
  "platform_env \<Rightarrow> (go_error + alloc_pin) \<Rightarrow> instant \<Rightarrow> scope_row \<Rightarrow> task_row \<Rightarrow> db
    \<Rightarrow> go_error + alloc_request option \<times> db" where
  "prepareAllocation env capabilities now s t db =
     andThen (case tsk_pin t of Some pin \<Rightarrow> Inr pin | None \<Rightarrow> capabilities) (\<lambda>pin.
     andThen (lockAllocationLease now s t db) (\<lambda>c.
     andThen (authorizeAllocationTask (env_users env) c t db) (\<lambda>_.
     andThen (buildAllocationSnapshot env c t now (truncate_micros now) (tsk_mode t \<noteq> Simulate) db)
       (\<lambda>(snapshot, db).
     if as_members snapshot = [] then Inr (None, finish_empty c t db)
     else let request = allocation_request env t pin snapshot in
       if \<not> env_request_ok env request then Inl (TaskError ''allocation_snapshot_invalid'')
       else Inr (Some request, freeze_request t request db)))))"

subsection \<open>Applying one decision\<close>

definition match_reason :: "alloc_decision \<Rightarrow> string" where
  "match_reason d = ''matched tags: '' @ join_with '', '' (dn_matched d)"

definition allocation_values :: "member_row \<Rightarrow> alloc_decision \<Rightarrow> attempt_row \<Rightarrow> attempt_row" where
  "allocation_values m d a = a\<lparr>att_source := FromAi, att_match_mode := ''ai'',
     att_decision := Some (mem_decision m), att_score := fld (mem_assessment m) ''score'',
     att_match_reason := match_reason d\<rparr>"

text \<open>
  The text behind the prefix goes into a \<open>bigint\<close> column, which refuses what is not an integer literal.
\<close>

definition qualification_number :: "string \<Rightarrow> go_error + int" where
  "qualification_number reference = (case parse_int_syntax (trim_prefix reference ''qualification-'') of
      Some i \<Rightarrow> Inr i | None \<Rightarrow> Inl (OtherError ''22P02''))"

definition demand_target ::
  "instant \<Rightarrow> int \<Rightarrow> int \<Rightarrow> member_row \<Rightarrow> alloc_decision \<Rightarrow> int \<Rightarrow> attempt_row \<Rightarrow> job_row \<Rightarrow> department_row
    \<Rightarrow> target_row"
where
  "demand_target now scope plan m d q att job dep =
     \<lparr> tgt_attempt = att_id att, tgt_member = Some (mem_id m), tgt_qualification = Some q,
       tgt_plan = Some plan, tgt_scope = Some scope, tgt_demand = Some (job_id job),
       tgt_department = dep_id dep, tgt_kind = ''demand'', tgt_demand_name = job_position job,
       tgt_department_name = dep_name dep, tgt_sequence = dn_sequence d, tgt_allocated = now,
       tgt_dispatched = None \<rparr>"

definition place_resume :: "resume_row \<Rightarrow> job_row \<Rightarrow> string \<Rightarrow> db \<Rightarrow> go_error + db" where
  "place_resume r job reason db = andThen (save_row res_id (res_id r)
     (\<lambda>r. r\<lparr>res_job := Some (job_id job), res_job_category := job_category job,
        res_category_mode := ''ai'', res_category_reason := reason\<rparr>) (db_resumes db))
     (\<lambda>(_, rs). Inr (db\<lparr>db_resumes := rs\<rparr>))"

definition place_decision :: "int \<Rightarrow> job_row \<Rightarrow> department_row \<Rightarrow> db \<Rightarrow> go_error + db" where
  "place_decision i job dep db = andThen (save_row dcn_id i
     (\<lambda>d. d\<lparr>dcn_recommendation := ''dispatch'', dcn_job := Some (job_id job),
        dcn_department := Some (dep_id dep)\<rparr>) (db_decisions db))
     (\<lambda>(_, ds). Inr (db\<lparr>db_decisions := ds\<rparr>))"

definition mark_allocated :: "member_row \<Rightarrow> db \<Rightarrow> db" where
  "mark_allocated m db =
     update_work (\<lambda>i. wrk_member i = mem_id m \<and> open_work i)
       (\<lambda>i. i\<lparr>wrk_status := WiAssigned, wrk_reason := ''allocated''\<rparr>)
     (db\<lparr>db_members := update_where (\<lambda>r. mem_id r = mem_id m)
        (\<lambda>r. r\<lparr>mem_status := PmAllocated, mem_revision := mem_revision r + 1\<rparr>) (db_members db)\<rparr>)"

definition allocated_event :: "member_row \<Rightarrow> alloc_decision \<Rightarrow> job_row \<Rightarrow> attempt_row \<Rightarrow> int \<Rightarrow> db \<Rightarrow> db" where
  "allocated_event m d job att plan = poolEvent (mem_id m) ''allocated''
     [(''job_id'', JNum (of_int (job_id job))), (''attempt_id'', JNum (of_int (att_id att))),
      (''plan_id'', JNum (of_int plan)), (''matched_tags'', JArr (map JStr (dn_matched d))),
      (''order'', JArr (map (\<lambda>i. JNum (of_int i)) (dn_order d))),
      (''reason'', JStr (match_reason d)), (''allocation_version'', JStr ''v1'')] None"

definition assign_member ::
  "instant \<Rightarrow> int \<Rightarrow> int \<Rightarrow> alloc_decision \<Rightarrow> db \<Rightarrow> go_error + db" where
  "assign_member now scope plan d db =
     andThen (fetch mem_id (dn_member d) (db_members db)) (\<lambda>m.
     andThen (lockWorkflow (mem_candidate m) db) (\<lambda>(w, db).
     andThen (fetch res_id (mem_resume m) (db_resumes db)) (\<lambda>r.
     andThen (fetch job_id (dn_demand d) (db_jobs db)) (\<lambda>job.
     andThen (fetch_opt dep_id (job_department job) (db_departments db)) (\<lambda>dep.
     andThen (createAttempt now w r dep (allocation_values m d) None db) (\<lambda>(att, db).
     andThen (qualification_number (dn_qualification_ref d)) (\<lambda>q.
     andThen (place_resume r job (match_reason d)
       (db\<lparr>db_targets := db_targets db @ [demand_target now scope plan m d q att job dep]\<rparr>)) (\<lambda>db.
     andThen (place_decision (mem_decision m) job dep db) (\<lambda>db.
     Inr (allocated_event m d job att plan (mark_allocated m db)))))))))))"

definition wait_member :: "int \<Rightarrow> alloc_decision \<Rightarrow> db \<Rightarrow> db" where
  "wait_member task d = update_work
     (\<lambda>i. wrk_member i = dn_member d \<and> wrk_task i = Some task \<and> wrk_status i = WiLeased)
     (\<lambda>i. i\<lparr>wrk_status := WiWaiting, wrk_reason := dn_reason d\<rparr>)"

text \<open>One turn of the loop over the decisions of the plan.\<close>

definition apply_decision :: "instant \<Rightarrow> scope_row \<Rightarrow> task_row \<Rightarrow> int \<Rightarrow> alloc_decision \<Rightarrow> db \<Rightarrow> go_error + db" where
  "apply_decision now c t plan d db =
     (if tsk_mode t = Simulate then Inr db
      else if dn_action d = ''wait'' then Inr (wait_member (tsk_id t) d db)
      else assign_member now (sco_id c) plan d db)"

subsection \<open>Committing a plan\<close>

definition assignments :: "alloc_decision list \<Rightarrow> alloc_decision list" where
  "assignments ds = filter (\<lambda>d. dn_action d = ''assign'') ds"

text \<open>\<open>maxSequence\<close>: the greatest sequence of a decision that was carried out.\<close>

definition max_sequence :: "task_row \<Rightarrow> alloc_decision list \<Rightarrow> int" where
  "max_sequence t ds = (if tsk_mode t = Simulate then 0
     else foldl max 0 (map dn_sequence (filter (\<lambda>d. dn_action d \<noteq> ''wait'') ds)))"

definition advance_scope :: "int \<Rightarrow> int \<Rightarrow> db \<Rightarrow> db" where
  "advance_scope scope top_sequence db =
     (if 0 < top_sequence then update_scope scope (\<lambda>s. s\<lparr>sco_next_sequence :=
        max (sco_next_sequence s) (top_sequence + 1), sco_revision := sco_revision s + 1\<rparr>) db
      else db)"

definition return_simulated_work :: "task_row \<Rightarrow> db \<Rightarrow> db" where
  "return_simulated_work t db =
     (if tsk_mode t = Simulate then update_work
        (\<lambda>i. wrk_task i = Some (tsk_id t) \<and> wrk_status i = WiLeased)
        (\<lambda>i. i\<lparr>wrk_status := WiPending, wrk_task := None\<rparr>) db
      else db)"

definition commit_progress :: "task_row \<Rightarrow> alloc_response \<Rightarrow> object" where
  "commit_progress t result =
     [(''selected'', JNum (of_nat (length (rs_decisions result)))),
      (''assigned'', JNum (of_nat (length (assignments (rs_decisions result))))),
      (''waiting'', JNum (of_nat (length (rs_decisions result) - length (assignments (rs_decisions result))))),
      (''stage'', JStr (if tsk_mode t = Simulate then ''simulated'' else ''committed'')),
      (''simulated'', JBool (tsk_mode t = Simulate))]"

text \<open>What follows the loop: counters of the scope, the waiting work, the plan, the task, the lease.\<close>

definition close_commit ::
  "platform_env \<Rightarrow> scope_row \<Rightarrow> task_row \<Rightarrow> int \<Rightarrow> alloc_response \<Rightarrow> db \<Rightarrow> go_error + db" where
  "close_commit env c t plan result db =
     (let db = advance_scope (sco_id c) (max_sequence t (rs_decisions result)) (return_simulated_work t db) in
      andThen (allocationRevision (env_changes env) c db) (\<lambda>revision.
      Inr (releaseAllocationLease c t
        (update_task (\<lambda>r. tsk_id r = tsk_id t)
           (\<lambda>r. r\<lparr>tsk_status := TaCompleted, tsk_progress := commit_progress t result\<rparr>)
        (update_plan (\<lambda>q. pln_id q = plan)
           (\<lambda>q. q\<lparr>pln_status := (if tsk_mode t = Simulate then PlSimulated else PlCommitted)\<rparr>)
        (update_work (\<lambda>i. wrk_task i = Some (tsk_id t) \<and> wrk_status i = WiWaiting)
           (\<lambda>i. i\<lparr>wrk_observed := revision\<rparr>) db))))))"

definition plan_of :: "task_row \<Rightarrow> db \<Rightarrow> go_error + plan_row" where
  "plan_of t db = (case first_where (\<lambda>q. pln_task q = tsk_id t \<and> pln_generation q = tsk_generation t)
     (db_plans db) of None \<Rightarrow> Inl not_found | Some q \<Rightarrow> Inr q)"

definition snapshot_age_ok :: "instant \<Rightarrow> string \<Rightarrow> bool" where
  "snapshot_age_ok now taken = (case parse_rfc3339 taken of None \<Rightarrow> False
     | Some t \<Rightarrow> now - t \<le> 60 * second)"

text \<open>The transaction of \<open>commitAllocation\<close>.\<close>

definition commit_transaction ::
  "platform_env \<Rightarrow> instant \<Rightarrow> scope_row \<Rightarrow> task_row \<Rightarrow> alloc_request \<Rightarrow> alloc_response \<Rightarrow> db \<Rightarrow> go_error + db"
where
  "commit_transaction env now s t request result db =
     andThen (lockAllocationLease now s t db) (\<lambda>c.
     andThen (authorizeAllocationTask (env_users env) c t db) (\<lambda>_.
     if \<not> snapshot_age_ok now (as_at (rq_snapshot request))
     then Inl (TaskError ''allocation_snapshot_stale'')
     else andThen (buildAllocationSnapshot env c t now (time_or_zero (as_at (rq_snapshot request))) False db)
       (\<lambda>(current, db).
     if allocationSnapshotHash (env_snapshot_hash env) current \<noteq> rq_snapshot_hash request
     then Inl (TaskError ''allocation_snapshot_stale'')
     else andThen (plan_of t db) (\<lambda>plan.
       andThen (foldE (apply_decision now c t (pln_id plan)) (rs_decisions result) db)
         (close_commit env c t (pln_id plan) result)))))"

text \<open>The plan is recorded before the transaction, which leaves nothing behind when it fails.\<close>

definition commitAllocation ::
  "platform_env \<Rightarrow> instant \<Rightarrow> scope_row \<Rightarrow> task_row \<Rightarrow> alloc_request \<Rightarrow> alloc_response \<Rightarrow> db
    \<Rightarrow> (go_error + unit) \<times> db" where
  "commitAllocation env now s t request result db =
     (case validateAllocationResult (env_response_ok env) request result of
        Inl e \<Rightarrow> (Inl e, db)
      | Inr _ \<Rightarrow>
          let db = recordAllocationPlan t request result PlProposed [] db in
          (case commit_transaction env now s t request result db of
             Inl e \<Rightarrow> (Inl e, db)
           | Inr db \<Rightarrow> (Inr (), db)))"

text \<open>
  What \<open>processAllocation\<close> does with the answer of \<open>callAllocation\<close>: a decoded answer that is not the
  expected plan is recorded as invalid.
\<close>

definition receiveAllocation ::
  "platform_env \<Rightarrow> instant \<Rightarrow> scope_row \<Rightarrow> task_row \<Rightarrow> alloc_request \<Rightarrow> go_error + alloc_response \<Rightarrow> db
    \<Rightarrow> (go_error + unit) \<times> db" where
  "receiveAllocation env now s t request answer db =
     (case answer of Inl e \<Rightarrow> (Inl e, db)
      | Inr result \<Rightarrow>
          (case validateAllocationResult (env_response_ok env) request result of
             Inl e \<Rightarrow> (Inl e, if rs_task_id result \<noteq> []
                then recordAllocationPlan t request result PlInvalid (failure_code e) db else db)
           | Inr _ \<Rightarrow> commitAllocation env now s t request result db))"

subsection \<open>Relations kept by the worker: the interfaces\<close>

text \<open>
  A relation that holds when a membership is dropped from a snapshot holds across its construction;
  one that also holds for the placement of a decision and for what opens and closes a run holds
  across the worker's transactions.
\<close>

locale snapshot_relation =
  fixes R :: "db \<Rightarrow> db \<Rightarrow> bool"
  assumes refl: "R a a"
    and trans: "R a b \<Longrightarrow> R b c \<Longrightarrow> R a c"
    and drop_member: "drop_member now v a = Inr b \<Longrightarrow> R a b"
begin

lemma snapshot_row:
  "snapshot_row env s now moment clean rd ds v acc = Inr res \<Longrightarrow> R (snd acc) (snd res)"
  by (cases "mv_qualification v")
    (auto simp: snapshot_row_def andThen_eq_Inr refl split: if_split_asm intro: drop_member)

lemma buildAllocationSnapshot:
  assumes "buildAllocationSnapshot env s t now moment clean a = Inr (snap, b)"
  shows "R a b"
proof -
  obtain ms where f: "foldE (snapshot_row env s now moment clean a (scope_demands env s moment a))
      (allocationMemberRows (tsk_members t) a) ([], a) = Inr (ms, b)"
    using assms by (auto simp: buildAllocationSnapshot_def Let_def andThen_eq_Inr split: if_splits)
  have "R (snd ([] :: alloc_member list, a)) (snd (ms, b))"
    using f by (rule foldE_relation) (auto intro: refl trans snapshot_row)
  then show ?thesis by simp
qed

end

locale worker_relation = snapshot_relation +
  assumes assign_member: "assign_member now scope plan d a = Inr b \<Longrightarrow> R a b"
    and wait_member: "R a (wait_member task d a)"
    and recordAllocationPlan: "R a (recordAllocationPlan t request result status code a)"
    and finish_empty: "R a (finish_empty c t a)"
    and freeze_request: "R a (freeze_request t request a)"
    and close_commit: "close_commit env c t plan result a = Inr b \<Longrightarrow> R a b"
begin

lemma prepareAllocation:
  assumes "prepareAllocation env caps now s t a = Inr (r, b)"
  shows "R a b"
proof -
  obtain pin c snap d where s: "buildAllocationSnapshot env c t now (truncate_micros now)
      (tsk_mode t \<noteq> Simulate) a = Inr (snap, d)"
      "b = finish_empty c t d \<or> b = freeze_request t (allocation_request env t pin snap) d"
    using assms by (auto simp: prepareAllocation_def andThen_eq_Inr Let_def split: if_splits)
  have "R d b" using s(2) finish_empty freeze_request by auto
  then show ?thesis by (rule trans [OF buildAllocationSnapshot [OF s(1)]])
qed

lemma apply_decision: "apply_decision now c t plan d a = Inr b \<Longrightarrow> R a b"
  by (auto simp: apply_decision_def refl wait_member split: if_splits intro: assign_member)

lemma commit_transaction:
  assumes "commit_transaction env now s t request result a = Inr b"
  shows "R a b"
proof -
  obtain c current d and q :: plan_row and e where s: "buildAllocationSnapshot env c t now
        (time_or_zero (as_at (rq_snapshot request))) False a = Inr (current, d)"
      "foldE (apply_decision now c t (pln_id q)) (rs_decisions result) d = Inr e"
      "close_commit env c t (pln_id q) result e = Inr b"
    using assms by (auto simp: commit_transaction_def andThen_eq_Inr split: if_splits)
  have "R d e" using s(2) by (rule foldE_relation) (auto intro: refl trans apply_decision)
  then show ?thesis
    using trans [OF trans [OF buildAllocationSnapshot [OF s(1)]] close_commit [OF s(3)]] by blast
qed

lemma commitAllocation:
  assumes "commitAllocation env now s t request result a = (r, b)"
  shows "R a b"
  using assms unfolding commitAllocation_def Let_def
  by (auto simp: refl recordAllocationPlan split: sum.splits
      intro: trans [OF recordAllocationPlan commit_transaction])

lemma receiveAllocation:
  "receiveAllocation env now s t request answer a = (r, b) \<Longrightarrow> R a b"
  by (auto simp: receiveAllocation_def refl recordAllocationPlan split: sum.splits if_splits
      intro: commitAllocation)

end

end
