(* ===== verification/AllocationLease.thy ===== *)
theory AllocationLease
  imports AllocationCommit
begin

text \<open>
  Exclusion in the allocation queue. A locale collects the elementary changes that the queue's
  operations are made of; every relation that is closed under them holds across the operations.
  It is interpreted twice: for the uniqueness of active work, and for the fence (a worker that
  lost its lease never gets it back). The leases themselves are an invariant of tasks and scopes.
\<close>

subsection \<open>Elementary changes of the queue\<close>

text \<open>A change of a work item that does not activate it.\<close>

definition quiet :: "work_row \<Rightarrow> work_row \<Rightarrow> bool" where
  "quiet i j \<longleftrightarrow> wrk_id j = wrk_id i \<and> wrk_qualification j = wrk_qualification i
     \<and> (active_work j \<longrightarrow> active_work i)"

definition same_lease :: "scope_row \<Rightarrow> scope_row \<Rightarrow> bool" where
  "same_lease s s' \<longleftrightarrow> sco_lease_token s' = sco_lease_token s
     \<and> sco_lease_until s' = sco_lease_until s \<and> sco_paused s' = sco_paused s"

definition same_run :: "task_row \<Rightarrow> task_row \<Rightarrow> bool" where
  "same_run t t' \<longleftrightarrow> tsk_status t' = tsk_status t \<and> tsk_generation t' = tsk_generation t
     \<and> tsk_token t' = tsk_token t"

locale placement_relation =
  fixes R :: "db \<Rightarrow> db \<Rightarrow> bool"
  assumes trans: "R a b \<Longrightarrow> R b c \<Longrightarrow> R a c"
    and frame: "db_work b = db_work a \<Longrightarrow> db_tasks b = db_tasks a \<Longrightarrow> db_scopes b = db_scopes a
      \<Longrightarrow> db_next a \<le> db_next b \<Longrightarrow> R a b"
    and work: "(\<And>i. w i \<Longrightarrow> quiet i (f i)) \<Longrightarrow> R a (update_work w f a)"
begin

lemma refl: "R a a"
  by (rule frame) simp_all

lemma plan: "R a (update_plan c f a)"
  by (rule frame) (simp_all add: update_plan_def)

end

text \<open>The operations on applications and attempts leave the queue alone.\<close>

lemma save_workflow_queue:
  "save_workflow i f a = Inr (w, b) \<Longrightarrow> db_work b = db_work a \<and> db_tasks b = db_tasks a \<and>
    db_scopes b = db_scopes a \<and> db_next a \<le> db_next b"
  by (auto simp: save_workflow_Inr)

sublocale placement_relation < handling?: handling_relation
proof
  show "R a a" for a by (rule refl)
  show "R a c" if "R a b" "R b c" for a b c using that by (rule trans)
  show "R a b" if "applicationState now r st why payload a = Inr b" for now r st why payload a b
    using that by (intro frame) (simp_all add: applicationState_frame)
  show "R a b" if "save_workflow i f a = Inr (w, b)" for i f a w b
    using save_workflow_queue [OF that] by (intro frame) simp_all
  show "R a (closePoolMemberships k x why a)" for k x why a
    by (rule frame) (simp_all add: closePoolMemberships_eq)
  show "R a b" if "lockWorkflow i a = Inr (w, b)" for i a w b
    using lockWorkflow_Inr [OF that] by (intro frame) (metis db.select_convs db.surjective db.update_convs)+
  show "R a (handling_event now att k src dst why p bat md auto a)" for a now att k src dst why p bat md auto
    by (rule frame) (simp_all add: handling_event_def)
  show "R a b" if "save_attempt now i g a = Inr (att, b)" for now i g a att b
    using that by (intro frame) (auto simp: save_attempt_Inr mark_dispatched_def)
  show "R a b" if "insert_attempt att a = Inr (att', b)" for att a att' b
    using that by (auto simp: insert_attempt_Inr intro: frame)
  show "R a (manual_target now att target a)" for a now att target
    by (rule frame) (simp_all add: manual_target_def)
qed

context placement_relation
begin

lemma poolEvent: "R a (poolEvent m kind payload p a)"
  by (rule frame) (simp_all add: poolEvent_def)

lemma drop_member:
  assumes "drop_member now v a = Inr b"
  shows "R a b"
proof -
  obtain c code where c: "c = a \<or> reanalyse_member now (mv_member v) a = Inr c"
      "b = update_work (\<lambda>i. wrk_member i = mem_id (mv_member v) \<and> open_work i)
         (\<lambda>i. i\<lparr>wrk_status := WiCancelled, wrk_reason := code\<rparr>) c"
    using assms by (auto simp: drop_member_def Let_def andThen_eq_Inr split: if_splits)
  have mark: "R a (a\<lparr>db_members := ms\<rparr>)" for ms by (rule frame) simp_all
  have "R a c" using c(1) unfolding reanalyse_member_def
    by (elim disjE) (simp add: refl, rule trans [OF mark state])
  moreover have "R c b" unfolding c(2) by (rule work) (simp add: quiet_def active_work_def)
  ultimately show ?thesis by (rule trans)
qed

lemma assign_member:
  assumes "assign_member now scope plan d a = Inr b"
  shows "R a b"
proof -
  obtain m w c r job dep att e q f g where s: "lockWorkflow (mem_candidate m) a = Inr (w, c)"
      "createAttempt now w r dep (allocation_values m d) None c = Inr (att, e)"
      "place_resume r job (match_reason d)
         (e\<lparr>db_targets := db_targets e @ [demand_target now scope plan m d q att job dep]\<rparr>) = Inr f"
      "place_decision (mem_decision m) job dep f = Inr g"
      "b = allocated_event m d job att plan (mark_allocated m g)"
    using assms by (auto simp: assign_member_def andThen_eq_Inr)
  have 1: "R e f" using s(3) by (intro frame) (auto simp: place_resume_def andThen_eq_Inr save_row_Inr)
  have 2: "R f g" using s(4) by (intro frame) (auto simp: place_decision_def andThen_eq_Inr save_row_Inr)
  have 3: "R g (mark_allocated m g)"
    unfolding mark_allocated_def
    by (rule trans [OF frame work]) (simp_all add: quiet_def active_work_def)
  have 4: "R (mark_allocated m g) b" unfolding s(5) allocated_event_def by (rule poolEvent)
  show ?thesis
    using trans [OF trans [OF trans [OF trans [OF trans [OF lockWorkflow [OF s(1)] createAttempt [OF s(2)]] 1] 2] 3] 4] .
qed

lemma wait_member: "R a (wait_member task d a)"
  unfolding wait_member_def by (rule work) (simp add: quiet_def active_work_def)

lemma apply_decision: "apply_decision now c t plan d a = Inr b \<Longrightarrow> R a b"
  by (auto simp: apply_decision_def refl wait_member split: if_splits intro: assign_member)

lemma recordAllocationPlan: "R a (recordAllocationPlan t request result status code a)"
  by (rule frame) (simp_all add: recordAllocationPlan_def)

end

sublocale placement_relation < snapshot?: snapshot_relation
  by unfold_locales (rule refl, erule (1) trans, erule drop_member)

text \<open>The queue proper: new work, new tasks, changes of a run, of a lease, and the start of a task.\<close>

locale queue_relation = placement_relation R for R :: "db \<Rightarrow> db \<Rightarrow> bool" +
  fixes fresh :: "string \<Rightarrow> bool"
  assumes insert_work: "R a (insert_work m q k a)"
    and wake_work: "R a (wake_work rvn s a)"
    and add_task: "tsk_status t = TaPending \<Longrightarrow>
      R a (a\<lparr>db_tasks := db_tasks a @ [t], db_next := db_next a + 1\<rparr>)"
    and tasks: "(\<And>t. d t \<Longrightarrow> tsk_id (g t) = tsk_id t \<and> (tsk_status (g t) \<noteq> TaRunning \<or> same_run t (g t)))
      \<Longrightarrow> R a (update_task d g a)"
    and scopes: "(\<And>s. e s \<Longrightarrow> sco_id (h s) = sco_id s \<and> (sco_lease_token (h s) = [] \<or> same_lease s (h s)))
      \<Longrightarrow> R a (a\<lparr>db_scopes := update_where e h (db_scopes a)\<rparr>)"
    and add_scope: "sco_lease_token n = [] \<Longrightarrow>
      R a (a\<lparr>db_scopes := db_scopes a @ [n], db_next := db_next a + 1\<rparr>)"
    and begin_task: "fresh fence \<Longrightarrow> R a (a\<lparr>
      db_scopes := update_where (\<lambda>s. sco_id s = i) (\<lambda>s. s\<lparr>sco_lease_token := fence, sco_lease_until := u\<rparr>) (db_scopes a),
      db_tasks := update_where (\<lambda>t. tsk_id t = j) (\<lambda>t. t\<lparr>tsk_status := TaRunning, tsk_token := fence,
        tsk_lease_until := v, tsk_error := []\<rparr>) (db_tasks a)\<rparr>)"
begin

lemma queue_member: "R a (queue_member k m a)"
  by (auto simp: queue_member_def refl insert_work split: option.splits)

lemma queue_members: "R a (fold (queue_member k) ids a)"
  by (induction ids arbitrary: a) (auto simp: refl intro: trans [OF queue_member])

lemma adopt_work: "R a (adopt_work k ids a)"
  unfolding adopt_work_def by (rule work) (simp add: quiet_def active_work_def)

lemma insert_task: "tsk_status t = TaPending \<Longrightarrow> R a (insert_task t mode ids a)"
  unfolding insert_task_def Let_def
  by (auto intro: add_task trans [OF add_task trans [OF queue_members adopt_work]])

lemma createAllocationTask:
  "createAllocationTask fp ent s ids mode key p auto ver a = Inr (t, b) \<Longrightarrow> R a b"
  by (auto simp: createAllocationTask_def Let_def new_task_def split: if_splits option.splits
      intro: refl insert_task)

lemma recover: "R a (recover i a)"
proof -
  let ?b = "update_task (\<lambda>t. tsk_scope t = i \<and> tsk_status t = TaRunning) recover_task a"
  have 1: "R a ?b" by (rule tasks) (simp add: recover_task_def)
  have 2: "R ?b (update_work (recovered_work i ?b) (recover_work ?b) ?b)"
    by (rule work) (simp add: recovered_work_def recover_work_def quiet_def active_work_def)
  show ?thesis using trans [OF 1 2] by (simp add: recover_def Let_def)
qed

lemma start_task:
  assumes "start_task now fence s t a = Inr (r, b)" and "fresh fence"
  shows "R a b"
proof -
  obtain s' t' c where c: "c = a\<lparr>
      db_scopes := update_where (\<lambda>q. sco_id q = sco_id s) (\<lambda>q. q\<lparr>sco_lease_token := fence,
        sco_lease_until := Some (now + lease_seconds)\<rparr>) (db_scopes a),
      db_tasks := update_where (\<lambda>q. tsk_id q = tsk_id t) (\<lambda>q. q\<lparr>tsk_status := TaRunning, tsk_token := fence,
        tsk_lease_until := Some (now + lease_seconds), tsk_error := []\<rparr>) (db_tasks a)\<rparr>"
      "r = (s', t')" "b = (if tsk_mode t' = Simulate then c else update_work
        (\<lambda>i. wrk_member i \<in> set (tsk_members t') \<and> wrk_status i = WiPending)
        (\<lambda>i. i\<lparr>wrk_status := WiLeased, wrk_task := Some (tsk_id t')\<rparr>) c)"
    using assms(1) by (auto simp: start_task_def andThen_eq_Inr save_row_Inr Let_def)
  have 1: "R a c" unfolding c(1) by (rule begin_task [OF assms(2)])
  have 2: "R c b" unfolding c(3)
    by (auto intro!: refl work simp: quiet_def active_work_def)
  show ?thesis using trans [OF 1 2] .
qed

lemma claim_scope:
  assumes "claim_scope fp changes ent now s a = (r, b)" and "fresh (ent_fence ent)"
  shows "R a b"
proof -
  have start: "R d b" if "(case start_task now (ent_fence ent) s t d of
      Inl e \<Rightarrow> (Inl e, a) | Inr (q, c) \<Rightarrow> (Inr q, c)) = (r, b)" "R a d" "r = Inr x" for t d x
    using that start_task [OF _ assms(2)] by (auto split: sum.splits)
  show ?thesis
  proof (cases r)
    case (Inl e)
    then show ?thesis using assms(1)
      by (auto simp: claim_scope_def Let_def refl recover intro: trans [OF recover wake_work]
          split: option.splits sum.splits if_splits prod.splits)
  next
    case (Inr x)
    note r = this
    show ?thesis
    proof (cases "next_task s (recover (sco_id s) a)")
      case (Some t)
      then show ?thesis
        using assms(1) trans [OF recover start [OF _ recover r]]
        by (simp add: claim_scope_def Let_def)
    next
      case None
      then obtain rvn t c where c: "createAllocationTask fp ent s
          (pending_members s (wake_work rvn s (recover (sco_id s) a))) ''execute'' [] None True ''v1''
          (wake_work rvn s (recover (sco_id s) a)) = Inr (t, c)"
          "(case start_task now (ent_fence ent) s t c of
            Inl e \<Rightarrow> (Inl e, a) | Inr (q, c) \<Rightarrow> (Inr q, c)) = (r, b)"
        using assms(1) r by (auto simp: claim_scope_def Let_def split: sum.splits if_splits)
      have "R a c" using trans [OF trans [OF recover wake_work] createAllocationTask [OF c(1)]] .
      then show ?thesis using trans start [OF c(2) _ r] by blast
    qed
  qed
qed

lemma claimAllocation:
  "claimAllocation fp changes ent locked now a = (r, b) \<Longrightarrow> fresh (ent_fence ent) \<Longrightarrow> R a b"
  by (auto simp: claimAllocation_def refl intro: claim_scope split: option.splits)

lemma releaseAllocationLease: "R a (releaseAllocationLease s t a)"
  unfolding releaseAllocationLease_def by (rule scopes) simp

lemma finishAllocationFailure: "R a (finishAllocationFailure now s t cause conflict a)"
proof (cases "lockAllocationLease now s t a")
  case (Inl e)
  then show ?thesis by (simp add: finishAllocationFailure_def refl)
next
  case (Inr c)
  show ?thesis
    unfolding finishAllocationFailure_def Inr sum.case Let_def
    by (rule trans [OF trans [OF trans [OF tasks plan] work] releaseAllocationLease])
      (auto simp: quiet_def active_work_def)
qed

lemma tasks_plans_work:
  assumes "\<And>t. d t \<Longrightarrow> tsk_id (g t) = tsk_id t \<and> (tsk_status (g t) \<noteq> TaRunning \<or> same_run t (g t))"
    and "\<And>i. w i \<Longrightarrow> quiet i (f i)"
  shows "R a (update_work w f (update_plan c h (update_task d g a)))"
  using trans [OF trans [OF tasks [OF assms(1)] plan] work [OF assms(2)]] by blast

lemma cancel_task: "R a (cancel_task s t a)"
proof -
  let ?b = "update_work (\<lambda>i. wrk_task i = Some (tsk_id t) \<and> active_work i)
      (\<lambda>i. i\<lparr>wrk_status := WiCancelled, wrk_reason := ''task_cancelled''\<rparr>)
    (update_plan (\<lambda>q. pln_task q = tsk_id t \<and> pln_status q = PlProposed) (\<lambda>q. q\<lparr>pln_status := PlCancelled\<rparr>)
    (update_task (\<lambda>r. tsk_id r = tsk_id t) (\<lambda>r. r\<lparr>tsk_status := TaCancelled\<rparr>) a))"
  have "R a ?b" by (rule tasks_plans_work) (simp_all add: quiet_def active_work_def)
  then show ?thesis unfolding cancel_task_def by (rule trans [OF _ releaseAllocationLease])
qed

lemma allocationTaskAction: "allocationTaskAction fp ent i action body p a = Inr b \<Longrightarrow> R a b"
  by (auto simp: allocationTaskAction_def cancelAllocationTask_def retryAllocationTask_def andThen_eq_Inr
      Let_def cancel_task split: if_splits intro: createAllocationTask)

lemma postAllocationTask: "postAllocationTask fp ent body p a = Inr (t, b) \<Longrightarrow> R a b"
  by (auto simp: postAllocationTask_def andThen_eq_Inr split: if_splits intro: createAllocationTask)

lemma scope_switched: "R a (scope_switched s paused a)"
proof -
  have "R a (update_scope (sco_id s) (\<lambda>s. s\<lparr>sco_paused := paused, sco_epoch := sco_epoch s + 1,
      sco_revision := sco_revision s + 1, sco_lease_token := [], sco_lease_until := None\<rparr>) a)"
    unfolding update_scope_def by (rule scopes) simp
  then show ?thesis unfolding scope_switched_def Let_def
    by (rule trans [OF _ tasks_plans_work]) (simp_all add: quiet_def active_work_def)
qed

lemma patchAllocationScope:
  assumes "patchAllocationScope now i body p a = Inr b"
  shows "R a b"
proof -
  obtain s paused log where "b = (scope_switched s paused a)\<lparr>db_audit := log\<rparr>"
    using assms unfolding patchAllocationScope_def
    by (auto simp only: andThen_eq_Inr split: if_splits json.splits)
  then show ?thesis using trans [OF scope_switched [of a s paused] frame [of b]] by simp
qed

lemma sync_scope: "R a (sync_scope v a)"
  by (auto simp: sync_scope_def Let_def refl intro: add_scope)

lemma sync_scopes: "R a (fold sync_scope vs a)"
  by (induction vs arbitrary: a) (auto simp: refl intro: trans [OF sync_scope])

lemma sync_demands: "R a (fold sync_demand js a)"
proof (induction js arbitrary: a)
  case (Cons j js)
  have "R a (sync_demand j a)" by (rule frame) (simp_all add: sync_demand_def)
  then show ?case using Cons trans by auto
qed (simp add: refl)

lemma syncAllocationConfig: "R a (syncAllocationConfig a)"
  by (simp add: syncAllocationConfig_def Let_def trans [OF sync_scopes sync_demands])

lemma set_reception: "set_reception i state body p a = Inr b \<Longrightarrow> R a b"
  by (rule frame) (auto simp: set_reception_def Let_def split: option.splits)

lemma demandReceptionAPI:
  assumes "demandReceptionAPI i body p a = Inr b"
  shows "R a b"
proof -
  have "set_reception i (str (fld body ''reception_state'')) body p (syncAllocationConfig a) = Inr b"
    using assms by (auto simp: demandReceptionAPI_def andThen_eq_Inr Let_def split: if_splits)
  then show ?thesis by (rule trans [OF syncAllocationConfig set_reception])
qed

lemma enqueuePoolAllocation: "enqueuePoolAllocation fp ent m p a = Inr (t, b) \<Longrightarrow> R a b"
  by (auto simp: enqueuePoolAllocation_def andThen_eq_Inr intro: createAllocationTask)

lemma requalify_work: "R a (requalify_work m q a)"
  unfolding requalify_work_def
  by (rule trans [OF work insert_work]) (simp add: quiet_def active_work_def)

lemma saveScreeningQualification:
  assumes "saveScreeningQualification env m screened a = Inr (q, b)"
  shows "R a b"
proof -
  obtain src tags c where s: "insert_qualification (new_qualification env m src tags
      (screened_source m screened a)) (screened_source m screened a) = (q, c)"
      "b = requalify_work (mem_id m) (qua_id q) c"
    using assms by (auto simp: saveScreeningQualification_def Let_def andThen_eq_Inr
        split: if_split_asm intro: prod.collapse [symmetric])
  have "R a (screened_source m screened a)" by (rule frame) (simp_all add: screened_source_def)
  moreover have "R (screened_source m screened a) c"
    using s(1) by (intro frame) (auto simp: insert_qualification_def split: option.splits)
  ultimately show ?thesis using requalify_work s(2) trans by blast
qed

lemma finish_empty: "R a (finish_empty c t a)"
  unfolding finish_empty_def by (rule trans [OF tasks releaseAllocationLease]) simp

lemma freeze_request: "R a (freeze_request t request a)"
  unfolding freeze_request_def by (rule tasks) (simp add: same_run_def)

lemma close_commit:
  assumes "close_commit env c t plan result a = Inr b"
  shows "R a b"
proof -
  let ?d = "return_simulated_work t a" and ?m = "max_sequence t (rs_decisions result)"
  obtain revision where b: "b = releaseAllocationLease c t
        (update_task (\<lambda>r. tsk_id r = tsk_id t)
           (\<lambda>r. r\<lparr>tsk_status := TaCompleted, tsk_progress := commit_progress t result\<rparr>)
        (update_plan (\<lambda>q. pln_id q = plan)
           (\<lambda>q. q\<lparr>pln_status := (if tsk_mode t = Simulate then PlSimulated else PlCommitted)\<rparr>)
        (update_work (\<lambda>i. wrk_task i = Some (tsk_id t) \<and> wrk_status i = WiWaiting)
           (\<lambda>i. i\<lparr>wrk_observed := revision\<rparr>) (advance_scope (sco_id c) ?m ?d))))"
    using assms by (auto simp: close_commit_def Let_def andThen_eq_Inr)
  have 1: "R a ?d" unfolding return_simulated_work_def
    by (auto intro!: work refl simp: quiet_def active_work_def)
  have 2: "R ?d (advance_scope (sco_id c) ?m ?d)" unfolding advance_scope_def update_scope_def
    by (auto intro!: scopes refl simp: same_lease_def)
  have 3: "R (advance_scope (sco_id c) ?m ?d) b" unfolding b
    by (rule trans [OF trans [OF trans [OF work plan] tasks] releaseAllocationLease])
      (simp_all add: quiet_def active_work_def)
  show ?thesis using trans [OF trans [OF 1 2] 3] .
qed

end

sublocale queue_relation < worker?: worker_relation
  by unfold_locales (erule assign_member, rule wait_member, rule recordAllocationPlan, rule finish_empty,
    rule freeze_request, erule close_commit)

context queue_relation
begin

lemma is_worker: "worker_relation R"
  by unfold_locales

end

end
