(* ===== verification/AllocationSafety.thy ===== *)
theory AllocationSafety
  imports AllocationLease
begin

text \<open>
  What the allocation queue guarantees: active work is unique per qualification, a worker that lost
  its lease never gets it back, a running task holds the lease of its scope alone, and no task
  starts over more than three times. The steps of the queue, with anything else happening in
  between, are a transition relation whose reachable states keep the invariants.
\<close>

subsection \<open>Active work is unique\<close>

definition active_unique :: "work_row list \<Rightarrow> bool" where
  "active_unique rows \<longleftrightarrow> (\<forall>i \<in> set rows. \<forall>j \<in> set rows.
     active_work i \<and> active_work j \<and> wrk_qualification i = wrk_qualification j \<longrightarrow> wrk_id i = wrk_id j)"

definition work_ok :: "db \<Rightarrow> bool" where
  "work_ok db \<longleftrightarrow> distinct (map wrk_id (db_work db)) \<and> (\<forall>i \<in> set (db_work db). wrk_id i < db_next db)
     \<and> active_unique (db_work db)"

definition work_step :: "db \<Rightarrow> db \<Rightarrow> bool" where
  "work_step a b \<longleftrightarrow> (work_ok a \<longrightarrow> work_ok b)"

lemma work_ok_frame: "work_ok a \<Longrightarrow> db_work b = db_work a \<Longrightarrow> db_next a \<le> db_next b \<Longrightarrow> work_ok b"
  unfolding work_ok_def by (metis order_less_le_trans)

lemma work_ok_update:
  assumes ok: "work_ok a"
    and ids: "\<And>i. c i \<Longrightarrow> wrk_id (f i) = wrk_id i \<and> wrk_qualification (f i) = wrk_qualification i"
    and active: "\<And>i. i \<in> set (db_work a) \<Longrightarrow> c i \<Longrightarrow> active_work (f i) \<Longrightarrow> active_work i \<or>
      (\<forall>j \<in> set (db_work a). wrk_qualification j = wrk_qualification i \<longrightarrow> \<not> active_work j) \<and>
      (\<forall>j \<in> set (db_work a). wrk_qualification j = wrk_qualification i \<and> c j \<longrightarrow> j = i)"
  shows "work_ok (update_work c f a)"
proof -
  let ?g = "\<lambda>i. if c i then f i else i"
  have key: "map wrk_id (update_where c f (db_work a)) = map wrk_id (db_work a)"
    using ids by (simp add: update_where_def)
  have "wrk_id (?g i) = wrk_id (?g j)"
    if "i \<in> set (db_work a)" "j \<in> set (db_work a)" "active_work (?g i)" "active_work (?g j)"
      "wrk_qualification (?g i) = wrk_qualification (?g j)" for i j
  proof -
    have q: "wrk_qualification i = wrk_qualification j" using that(5) ids by (auto split: if_splits)
    have act: "active_work k \<or> c k \<and>
        (\<forall>j \<in> set (db_work a). wrk_qualification j = wrk_qualification k \<longrightarrow> \<not> active_work j) \<and>
        (\<forall>j \<in> set (db_work a). wrk_qualification j = wrk_qualification k \<and> c j \<longrightarrow> j = k)"
      if "k \<in> set (db_work a)" "active_work (?g k)" for k
      using active [OF that(1)] that(2) by (cases "c k") auto
    have "i = j \<or> active_work i \<and> active_work j"
      using act [OF that(1,3)] act [OF that(2,4)] that(1,2) q by metis
    then have "wrk_id i = wrk_id j"
      using ok that(1,2) q unfolding work_ok_def active_unique_def by blast
    then show ?thesis using ids by simp
  qed
  then have unique: "active_unique (update_where c f (db_work a))"
    unfolding active_unique_def in_update_where Ball_def by blast
  have "\<forall>i \<in> set (update_where c f (db_work a)). wrk_id i < db_next a"
    using ok ids by (auto simp: work_ok_def in_update_where)
  then show ?thesis using ok key unique by (simp add: work_ok_def update_work_def)
qed

lemma work_ok_insert:
  assumes "work_ok a"
  shows "work_ok (insert_work m q k a)"
proof (cases "exists_where (\<lambda>i. wrk_qualification i = q \<and> active_work i) (db_work a)")
  case True
  then show ?thesis using assms by (simp add: insert_work_def)
next
  case False
  then have free: "\<forall>i \<in> set (db_work a). wrk_qualification i = q \<longrightarrow> \<not> active_work i"
    by (auto simp: exists_where_iff)
  have below: "\<forall>i \<in> set (db_work a). wrk_id i < db_next a" using assms by (simp add: work_ok_def)
  then have fresh: "db_next a \<notin> wrk_id ` set (db_work a)" "\<forall>i \<in> set (db_work a). wrk_id i < db_next a + 1"
    by force+
  have "wrk_id i = wrk_id j" if "i \<in> set (db_work (insert_work m q k a))"
      "j \<in> set (db_work (insert_work m q k a))" "active_work i \<and> active_work j"
      "wrk_qualification i = wrk_qualification j" for i j
  proof -
    have old: "wrk_id i = wrk_id j" if "i \<in> set (db_work a)" "j \<in> set (db_work a)"
      using assms that \<open>active_work i \<and> active_work j\<close> \<open>wrk_qualification i = wrk_qualification j\<close>
      unfolding work_ok_def active_unique_def by blast
    show ?thesis using that(1,2) False
    proof (simp add: insert_work_def, elim disjE)
      assume "i \<in> set (db_work a)" "j \<in> set (db_work a)"
      then show ?thesis by (rule old)
    qed (use that(3,4) free in auto)
  qed
  then have "active_unique (db_work (insert_work m q k a))" unfolding active_unique_def by blast
  then show ?thesis using fresh assms False by (simp add: insert_work_def work_ok_def)
qed

lemma work_ok_wake: "work_ok a \<Longrightarrow> work_ok (wake_work rvn s a)"
  unfolding wake_work_def
proof (rule work_ok_update)
  fix i
  assume ok: "work_ok a" and i: "i \<in> set (db_work a)" "woken rvn s a i"
  show "active_work i \<or>
      (\<forall>j \<in> set (db_work a). wrk_qualification j = wrk_qualification i \<longrightarrow> \<not> active_work j) \<and>
      (\<forall>j \<in> set (db_work a). wrk_qualification j = wrk_qualification i \<and> woken rvn s a j \<longrightarrow> j = i)"
  proof (intro disjI2 conjI ballI impI)
    show "\<not> active_work j" if "j \<in> set (db_work a)" "wrk_qualification j = wrk_qualification i" for j
      using i(2) that by (auto simp: woken_def exists_where_iff)
    show "j = i" if "j \<in> set (db_work a)" "wrk_qualification j = wrk_qualification i \<and> woken rvn s a j" for j
    proof (rule distinct_key_unique)
      show "distinct (map wrk_id (db_work a))" using ok by (simp add: work_ok_def)
      show "wrk_id j = wrk_id i"
        using i that by (auto simp: woken_def newest_work_def list_all_iff intro: order_antisym)
    qed (use i that in simp_all)
  qed
qed auto

interpretation work: queue_relation work_step "\<lambda>_. True"
proof
  show "work_step a c" if "work_step a b" "work_step b c" for a b c
    using that by (simp add: work_step_def)
  show "work_step a b" if "db_work b = db_work a" "db_next a \<le> db_next b" for a b
    using that work_ok_frame by (simp add: work_step_def)
  show "work_step a (update_work w f a)" if "\<And>i. w i \<Longrightarrow> quiet i (f i)" for a w f
    unfolding work_step_def by (rule impI, rule work_ok_update) (use that in \<open>auto simp: quiet_def\<close>)
  show "work_step a (insert_work m q k a)" for a m q k
    using work_ok_insert by (simp add: work_step_def)
  show "work_step a (wake_work rvn s a)" for a rvn s
    using work_ok_wake by (simp add: work_step_def)
  show "work_step a (a\<lparr>db_tasks := db_tasks a @ [t], db_next := db_next a + 1\<rparr>)" for a t
    using work_ok_frame [of a] by (simp add: work_step_def)
  show "work_step a (update_task d g a)" for a d g
    using work_ok_frame [of a] by (simp add: work_step_def update_task_def)
  show "work_step a (a\<lparr>db_scopes := update_where e h (db_scopes a)\<rparr>)" for a e h
    using work_ok_frame [of a] by (simp add: work_step_def)
  show "work_step a (a\<lparr>db_scopes := db_scopes a @ [n], db_next := db_next a + 1\<rparr>)" for a n
    using work_ok_frame [of a] by (simp add: work_step_def)
  show "work_step a (a\<lparr>
      db_scopes := update_where (\<lambda>s. sco_id s = i) (\<lambda>s. s\<lparr>sco_lease_token := fence, sco_lease_until := u\<rparr>) (db_scopes a),
      db_tasks := update_where (\<lambda>t. tsk_id t = j) (\<lambda>t. t\<lparr>tsk_status := TaRunning, tsk_token := fence,
        tsk_lease_until := v, tsk_error := []\<rparr>) (db_tasks a)\<rparr>)" for a i fence u j v
    using work_ok_frame [of a] by (simp add: work_step_def)
qed

subsection \<open>The fence\<close>

text \<open>What \<open>lockAllocationLease\<close> asks of the two rows.\<close>

definition leases :: "instant \<Rightarrow> scope_row \<Rightarrow> task_row \<Rightarrow> scope_row \<Rightarrow> bool" where
  "leases now s t c \<longleftrightarrow> sco_id c = sco_id s \<and> (\<not> sco_paused c \<or> tsk_mode t = Simulate)
     \<and> sco_lease_token c = tsk_token t \<and> (case sco_lease_until c of None \<Rightarrow> False | Some u \<Rightarrow> now < u)"

definition runs :: "task_row \<Rightarrow> task_row \<Rightarrow> bool" where
  "runs t r \<longleftrightarrow> tsk_id r = tsk_id t \<and> tsk_generation r = tsk_generation t \<and> tsk_status r = TaRunning
     \<and> tsk_token r = tsk_token t"

definition lease_held :: "instant \<Rightarrow> scope_row \<Rightarrow> task_row \<Rightarrow> db \<Rightarrow> bool" where
  "lease_held now s t db \<longleftrightarrow> (\<exists>c. lockAllocationLease now s t db = Inr c)"

lemma lockAllocationLease_Inr:
  "lockAllocationLease now s t db = Inr c \<Longrightarrow>
    c \<in> set (db_scopes db) \<and> leases now s t c \<and> (\<exists>r \<in> set (db_tasks db). runs t r)"
  by (auto simp: lockAllocationLease_def leases_def runs_def exists_where_iff split: option.splits if_splits
      dest!: first_where_SomeD)

lemma lease_held_iff:
  "lease_held now s t db \<longleftrightarrow>
    (\<exists>c \<in> set (db_scopes db). leases now s t c) \<and> (\<exists>r \<in> set (db_tasks db). runs t r)"
proof
  assume "lease_held now s t db"
  then show "(\<exists>c \<in> set (db_scopes db). leases now s t c) \<and> (\<exists>r \<in> set (db_tasks db). runs t r)"
    using lockAllocationLease_Inr unfolding lease_held_def by blast
next
  assume h: "(\<exists>c \<in> set (db_scopes db). leases now s t c) \<and> (\<exists>r \<in> set (db_tasks db). runs t r)"
  then obtain c where c: "first_where (leases now s t) (db_scopes db) = Some c"
    by (cases "first_where (leases now s t) (db_scopes db)") (auto simp: first_where_None)
  have "exists_where (runs t) (db_tasks db)" using h by (simp add: exists_where_iff)
  then show "lease_held now s t db"
    using c by (simp add: lease_held_def lockAllocationLease_def leases_def [abs_def] runs_def [abs_def])
qed

lemma lock_fails: "\<not> lease_held now s t db \<longleftrightarrow>
    lockAllocationLease now s t db = Inl (TaskError ''allocation_lease_lost'')"
  by (auto simp: lease_held_def lockAllocationLease_def split: option.splits)

lemma lease_held_earlier: "lease_held now' s t db \<Longrightarrow> now \<le> now' \<Longrightarrow> lease_held now s t db"
  unfolding lease_held_iff leases_def by (fastforce split: option.splits)

definition fenced :: "string \<Rightarrow> db \<Rightarrow> db \<Rightarrow> bool" where
  "fenced tok a b \<longleftrightarrow> (tok \<noteq> [] \<longrightarrow>
     (\<forall>now s t. tsk_token t = tok \<and> lease_held now s t b \<longrightarrow> lease_held now s t a))"

lemma fencedI:
  assumes "\<And>c now s t. c \<in> set (db_scopes b) \<Longrightarrow> leases now s t c \<Longrightarrow> tsk_token t = tok \<Longrightarrow> tok \<noteq> [] \<Longrightarrow>
      \<exists>c' \<in> set (db_scopes a). leases now s t c'"
    and "\<And>r t. r \<in> set (db_tasks b) \<Longrightarrow> runs t r \<Longrightarrow> tsk_token t = tok \<Longrightarrow> tok \<noteq> [] \<Longrightarrow>
      \<exists>r' \<in> set (db_tasks a). runs t r'"
  shows "fenced tok a b"
  unfolding fenced_def lease_held_iff using assms by blast

interpretation fence: queue_relation "fenced tok" "\<lambda>f. f \<noteq> tok" for tok
proof
  show "fenced tok a c" if "fenced tok a b" "fenced tok b c" for a b c
    using that by (simp add: fenced_def)
  show "fenced tok a b" if "db_tasks b = db_tasks a" "db_scopes b = db_scopes a" for a b
    using that by (intro fencedI) auto
  show "fenced tok a (update_work w f a)" for a w f
    by (rule fencedI) (auto simp: update_work_def)
  show "fenced tok a (insert_work m q k a)" for a m q k
    by (rule fencedI) (auto simp: insert_work_def split: if_splits)
  show "fenced tok a (wake_work rvn s a)" for a rvn s
    by (rule fencedI) (auto simp: wake_work_def update_work_def)
  show "fenced tok a (a\<lparr>db_tasks := db_tasks a @ [t], db_next := db_next a + 1\<rparr>)" if "tsk_status t = TaPending" for a t
    using that by (intro fencedI) (auto simp: runs_def)
  show "fenced tok a (update_task d g a)"
    if "\<And>t. d t \<Longrightarrow> tsk_id (g t) = tsk_id t \<and> (tsk_status (g t) \<noteq> TaRunning \<or> same_run t (g t))" for a d g
    using that by (intro fencedI) (fastforce simp: update_task_def in_update_where runs_def same_run_def split: if_splits)+
  show "fenced tok a (a\<lparr>db_scopes := update_where e h (db_scopes a)\<rparr>)"
    if "\<And>s. e s \<Longrightarrow> sco_id (h s) = sco_id s \<and> (sco_lease_token (h s) = [] \<or> same_lease s (h s))" for a e h
    using that by (intro fencedI) (fastforce simp: in_update_where leases_def same_lease_def split: if_splits)+
  show "fenced tok a (a\<lparr>db_scopes := db_scopes a @ [n], db_next := db_next a + 1\<rparr>)" if "sco_lease_token n = []" for a n
    using that by (intro fencedI) (auto simp: leases_def)
  show "fenced tok a (a\<lparr>
      db_scopes := update_where (\<lambda>s. sco_id s = i) (\<lambda>s. s\<lparr>sco_lease_token := f, sco_lease_until := u\<rparr>) (db_scopes a),
      db_tasks := update_where (\<lambda>t. tsk_id t = j) (\<lambda>t. t\<lparr>tsk_status := TaRunning, tsk_token := f,
        tsk_lease_until := v, tsk_error := []\<rparr>) (db_tasks a)\<rparr>)" if "f \<noteq> tok" for a i f u j v
    using that by (intro fencedI) (fastforce simp: in_update_where leases_def runs_def split: if_splits)+
qed

end
