(* ===== verification/QueueInvariant.thy ===== *)
theory QueueInvariant
  imports AllocationSafety
begin

text \<open>
  The tasks and leases of the allocation queue as an invariant: keys are unique, a task restarts at
  most three times, and a running task carries the fence that its scope carries, so a scope has at
  most one running task. The steps of the queue are an inductive relation; everything it reaches
  from an empty queue satisfies the invariant.
\<close>

subsection \<open>The invariant\<close>

definition keys_ok :: "db \<Rightarrow> bool" where
  "keys_ok db \<longleftrightarrow> distinct (map tsk_id (db_tasks db)) \<and> distinct (map tsk_key (db_tasks db))
     \<and> distinct (map sco_id (db_scopes db)) \<and> (\<forall>t \<in> set (db_tasks db). tsk_id t < db_next db)
     \<and> (\<forall>s \<in> set (db_scopes db). sco_id s < db_next db)"

definition task_ok :: "task_row \<Rightarrow> bool" where
  "task_ok t \<longleftrightarrow> 1 \<le> tsk_generation t
     \<and> tsk_generation t \<le> (if tsk_status t \<in> {TaPending, TaRunning} then 3 else 4)"

definition tokens_unique :: "task_row list \<Rightarrow> bool" where
  "tokens_unique ts \<longleftrightarrow> (\<forall>t \<in> set ts. \<forall>u \<in> set ts.
     tsk_token t = tsk_token u \<and> tsk_token t \<noteq> [] \<longrightarrow> tsk_id t = tsk_id u)"

definition holds_lease :: "scope_row list \<Rightarrow> task_row \<Rightarrow> bool" where
  "holds_lease scopes t \<longleftrightarrow> tsk_token t \<noteq> [] \<and> (\<exists>c \<in> set scopes. sco_id c = tsk_scope t
     \<and> sco_lease_token c = tsk_token t \<and> (sco_paused c \<longrightarrow> tsk_mode t = Simulate))"

definition queue_ok :: "db \<Rightarrow> bool" where
  "queue_ok db \<longleftrightarrow> keys_ok db \<and> (\<forall>t \<in> set (db_tasks db). task_ok t) \<and> tokens_unique (db_tasks db)
     \<and> (\<forall>t \<in> set (db_tasks db). tsk_status t = TaRunning \<longrightarrow> holds_lease (db_scopes db) t)"

lemma queue_okD:
  assumes "queue_ok db"
  shows "distinct (map tsk_id (db_tasks db))" "distinct (map sco_id (db_scopes db))"
    "t \<in> set (db_tasks db) \<Longrightarrow> task_ok t"
    "t \<in> set (db_tasks db) \<Longrightarrow> tsk_status t = TaRunning \<Longrightarrow> holds_lease (db_scopes db) t"
    "t \<in> set (db_tasks db) \<Longrightarrow> u \<in> set (db_tasks db) \<Longrightarrow> tsk_token t = tsk_token u \<Longrightarrow> tsk_token t \<noteq> []
      \<Longrightarrow> tsk_id t = tsk_id u"
proof -
  show "distinct (map tsk_id (db_tasks db))" "distinct (map sco_id (db_scopes db))"
    "t \<in> set (db_tasks db) \<Longrightarrow> task_ok t"
    "t \<in> set (db_tasks db) \<Longrightarrow> tsk_status t = TaRunning \<Longrightarrow> holds_lease (db_scopes db) t"
    using assms unfolding queue_ok_def keys_ok_def by blast+
  assume "t \<in> set (db_tasks db)" "u \<in> set (db_tasks db)" "tsk_token t = tsk_token u" "tsk_token t \<noteq> []"
  then show "tsk_id t = tsk_id u" using assms unfolding queue_ok_def tokens_unique_def by blast
qed

text \<open>The token of a scope names the task that runs in it.\<close>

lemma running_token:
  assumes "queue_ok db" and "t \<in> set (db_tasks db)" and "tsk_status t = TaRunning"
    and "c \<in> set (db_scopes db)" and "sco_id c = tsk_scope t"
  shows "sco_lease_token c = tsk_token t \<and> tsk_token t \<noteq> []"
proof -
  obtain d where d: "d \<in> set (db_scopes db)" "sco_id d = tsk_scope t" "sco_lease_token d = tsk_token t"
      "tsk_token t \<noteq> []"
    using queue_okD(4) [OF assms(1-3)] by (auto simp: holds_lease_def)
  then have "d = c" using distinct_key_unique [OF queue_okD(2) [OF assms(1)]] assms(4,5) by auto
  then show ?thesis using d by simp
qed

lemma one_running:
  assumes "queue_ok db" and "t \<in> set (db_tasks db)" and "u \<in> set (db_tasks db)"
    and "tsk_status t = TaRunning" and "tsk_status u = TaRunning" and "tsk_scope t = tsk_scope u"
  shows "t = u"
proof -
  obtain c where "c \<in> set (db_scopes db)" "sco_id c = tsk_scope t"
    using queue_okD(4) [OF assms(1,2,4)] by (auto simp: holds_lease_def)
  then have "tsk_token t = tsk_token u" "tsk_token t \<noteq> []"
    using running_token [OF assms(1,2,4)] running_token [OF assms(1,3,5)] assms(6) by auto
  then have "tsk_id t = tsk_id u" using queue_okD(5) [OF assms(1-3)] by simp
  then show ?thesis using distinct_key_unique [OF queue_okD(1) [OF assms(1)]] assms(2,3) by simp
qed

subsection \<open>Elementary changes keep it\<close>

lemma update_whereE:
  assumes "r \<in> set (update_where p f rs)"
  obtains q where "q \<in> set rs" and "r = (if p q then f q else q)"
  using assms by (auto simp: in_update_where)

lemma queue_ok_frame [inv_intros]:
  "queue_ok a \<Longrightarrow> db_tasks b = db_tasks a \<Longrightarrow> db_scopes b = db_scopes a \<Longrightarrow> db_next a \<le> db_next b \<Longrightarrow> queue_ok b"
  unfolding queue_ok_def keys_ok_def by (auto intro: order_less_le_trans)

definition keeps_task :: "task_row \<Rightarrow> task_row \<Rightarrow> bool" where
  "keeps_task t t' \<longleftrightarrow> tsk_id t' = tsk_id t \<and> tsk_key t' = tsk_key t \<and> tsk_scope t' = tsk_scope t
     \<and> tsk_mode t' = tsk_mode t \<and> (tsk_token t' = [] \<or> tsk_token t' = tsk_token t) \<and> task_ok t'
     \<and> (tsk_status t' = TaRunning \<longrightarrow> tsk_status t = TaRunning \<and> tsk_token t' = tsk_token t)"

lemma queue_ok_tasks:
  assumes ok: "queue_ok a" and g: "\<And>t. t \<in> set (db_tasks a) \<Longrightarrow> d t \<Longrightarrow> keeps_task t (g t)"
  shows "queue_ok (update_task d g a)"
proof -
  let ?ts = "update_where d g (db_tasks a)"
  have keys: "map tsk_id ?ts = map tsk_id (db_tasks a)" "map tsk_key ?ts = map tsk_key (db_tasks a)"
    using g by (auto simp: update_where_def keeps_task_def)
  have row: "\<exists>t \<in> set (db_tasks a). tsk_id t = tsk_id u \<and> tsk_scope t = tsk_scope u \<and> tsk_mode t = tsk_mode u
      \<and> (tsk_token u \<noteq> [] \<longrightarrow> tsk_token u = tsk_token t) \<and> task_ok u
      \<and> (tsk_status u = TaRunning \<longrightarrow> tsk_status t = TaRunning \<and> tsk_token u = tsk_token t)"
    if "u \<in> set ?ts" for u
    using that g queue_okD(3) [OF ok] unfolding in_update_where keeps_task_def by metis
  have "tokens_unique ?ts"
    unfolding tokens_unique_def using row queue_okD(5) [OF ok] by metis
  moreover have "holds_lease (db_scopes a) u" if "u \<in> set ?ts" "tsk_status u = TaRunning" for u
    using row [OF that(1)] that(2) queue_okD(4) [OF ok] unfolding holds_lease_def by metis
  moreover have "\<forall>u \<in> set ?ts. task_ok u" "\<forall>u \<in> set ?ts. tsk_id u < db_next a"
    using row ok unfolding queue_ok_def keys_ok_def by metis+
  ultimately show ?thesis
    using ok keys by (simp add: queue_ok_def keys_ok_def update_task_def)
qed

lemma queue_ok_scopes:
  assumes ok: "queue_ok a"
    and h: "\<And>s. s \<in> set (db_scopes a) \<Longrightarrow> e s \<Longrightarrow> sco_id (h s) = sco_id s \<and>
      (sco_lease_token (h s) = sco_lease_token s \<and> sco_paused (h s) = sco_paused s \<or>
       (\<forall>t \<in> set (db_tasks a). tsk_scope t = sco_id s \<longrightarrow> tsk_status t \<noteq> TaRunning))"
  shows "queue_ok (a\<lparr>db_scopes := update_where e h (db_scopes a)\<rparr>)"
proof -
  let ?ss = "update_where e h (db_scopes a)"
  have key: "map sco_id ?ss = map sco_id (db_scopes a)"
    using h by (auto simp: update_where_def)
  have "holds_lease ?ss t" if t: "t \<in> set (db_tasks a)" "tsk_status t = TaRunning" for t
  proof -
    obtain c where c: "c \<in> set (db_scopes a)" "sco_id c = tsk_scope t" "sco_lease_token c = tsk_token t"
        "sco_paused c \<longrightarrow> tsk_mode t = Simulate" "tsk_token t \<noteq> []"
      using queue_okD(4) [OF ok t] by (auto simp: holds_lease_def)
    let ?c = "if e c then h c else c"
    have "?c \<in> set ?ss" using c(1) by (auto simp: update_where_def)
    moreover have "sco_id ?c = tsk_scope t \<and> sco_lease_token ?c = tsk_token t \<and>
        (sco_paused ?c \<longrightarrow> tsk_mode t = Simulate)"
      using h [OF c(1)] c t by auto
    ultimately show ?thesis using c(5) unfolding holds_lease_def by blast
  qed
  moreover have "\<forall>s \<in> set ?ss. sco_id s < db_next a"
    using ok h by (auto simp: queue_ok_def keys_ok_def in_update_where)
  ultimately show ?thesis using ok key by (simp add: queue_ok_def keys_ok_def)
qed

lemma keys_ok_add_task:
  assumes "keys_ok a" and "tsk_id t = db_next a" and "tsk_key t \<notin> tsk_key ` set (db_tasks a)"
  shows "keys_ok (a\<lparr>db_tasks := db_tasks a @ [t], db_next := db_next a + 1\<rparr>)"
proof -
  have "tsk_id t \<notin> tsk_id ` set (db_tasks a)" using assms(1,2) by (auto simp: keys_ok_def)
  then show ?thesis using assms by (auto simp: keys_ok_def)
qed

lemma queue_ok_add_task:
  assumes ok: "queue_ok a" and "tsk_id t = db_next a" and "tsk_key t \<notin> tsk_key ` set (db_tasks a)"
    and t: "tsk_status t = TaPending" "tsk_generation t = 1" "tsk_token t = []"
  shows "queue_ok (a\<lparr>db_tasks := db_tasks a @ [t], db_next := db_next a + 1\<rparr>)"
proof -
  have "tokens_unique (db_tasks a @ [t])"
    using ok t(3) unfolding queue_ok_def tokens_unique_def by (auto simp only: set_append set_simps)
  moreover have "task_ok t" using t by (simp add: task_ok_def)
  ultimately show ?thesis
    using keys_ok_add_task [of a t] assms by (simp add: queue_ok_def)
qed

lemma queue_ok_add_scope:
  assumes ok: "queue_ok a" and n: "sco_id n = db_next a"
  shows "queue_ok (a\<lparr>db_scopes := db_scopes a @ [n], db_next := db_next a + 1\<rparr>)"
proof -
  have "sco_id n \<notin> sco_id ` set (db_scopes a)" using ok n by (auto simp: queue_ok_def keys_ok_def)
  then have "keys_ok (a\<lparr>db_scopes := db_scopes a @ [n], db_next := db_next a + 1\<rparr>)"
    using ok n by (auto simp: queue_ok_def keys_ok_def)
  moreover have "holds_lease (db_scopes a @ [n]) t" if "holds_lease (db_scopes a) t" for t
    using that unfolding holds_lease_def by (metis UnI1 set_append)
  ultimately show ?thesis using ok by (simp add: queue_ok_def)
qed

lemma queue_ok_release:
  assumes ok: "queue_ok a"
    and free: "\<And>u. u \<in> set (db_tasks a) \<Longrightarrow> tsk_token u = tsk_token t \<Longrightarrow> tsk_token t \<noteq> [] \<Longrightarrow> tsk_status u \<noteq> TaRunning"
  shows "queue_ok (releaseAllocationLease s t a)"
  unfolding releaseAllocationLease_def
proof (rule queue_ok_scopes [OF ok])
  fix c
  assume c: "c \<in> set (db_scopes a)" "sco_id c = sco_id s \<and> sco_lease_token c = tsk_token t"
  have "tsk_status u \<noteq> TaRunning" if "u \<in> set (db_tasks a)" "tsk_scope u = sco_id c" for u
  proof
    assume "tsk_status u = TaRunning"
    then show False using running_token [OF ok that(1) _ c(1)] that free c(2) by auto
  qed
  then show "sco_id (c\<lparr>sco_lease_token := [], sco_lease_until := None\<rparr>) = sco_id c \<and>
      (sco_lease_token (c\<lparr>sco_lease_token := [], sco_lease_until := None\<rparr>) = sco_lease_token c \<and>
       sco_paused (c\<lparr>sco_lease_token := [], sco_lease_until := None\<rparr>) = sco_paused c \<or>
       (\<forall>t \<in> set (db_tasks a). tsk_scope t = sco_id c \<longrightarrow> tsk_status t \<noteq> TaRunning))"
    by simp
qed

subsection \<open>What leaves tasks and scopes alone\<close>

definition untouched :: "db \<Rightarrow> db \<Rightarrow> bool" where
  "untouched a b \<longleftrightarrow> db_tasks b = db_tasks a \<and> db_scopes b = db_scopes a \<and> db_next a \<le> db_next b"

interpretation calm: placement_relation untouched
proof
  show "untouched a c" if "untouched a b" "untouched b c" for a b c
    using that by (auto simp: untouched_def)
  show "untouched a b" if "db_work b = db_work a" "db_tasks b = db_tasks a" "db_scopes b = db_scopes a"
      "db_next a \<le> db_next b" for a b
    using that by (simp add: untouched_def)
  show "untouched a (update_work w f a)" for a w f
    by (simp add: untouched_def update_work_def)
qed

lemma queue_ok_untouched [inv_intros]: "queue_ok a \<Longrightarrow> untouched a b \<Longrightarrow> queue_ok b"
  unfolding untouched_def by (blast intro: queue_ok_frame)

lemma untouched_work [intro, simp]:
  "untouched a (insert_work m q k a)" "untouched a (wake_work rvn s a)" "untouched a (update_work w f a)"
  "untouched a (update_plan c h a)"
  by (simp_all add: untouched_def insert_work_def wake_work_def update_work_def update_plan_def)

lemma untouched_queue_members: "untouched a (fold (queue_member k) ids a)"
proof (induction ids arbitrary: a)
  case (Cons i ids)
  have "untouched a (queue_member k i a)" by (auto simp: queue_member_def calm.refl split: option.splits)
  then show ?case using Cons by (auto intro: calm.trans)
qed (simp add: calm.refl)

lemma untouched_qualification:
  "saveScreeningQualification env m screened a = Inr (q, b) \<Longrightarrow> untouched a b"
  by (auto simp: saveScreeningQualification_def andThen_eq_Inr Let_def requalify_work_def insert_qualification_def
      screened_source_def untouched_def insert_work_def update_work_def split: if_split_asm option.split_asm)

subsection \<open>The operations keep it\<close>

lemma queue_ok_insert_task:
  assumes "queue_ok a" and "tsk_id t = db_next a" and "tsk_key t \<notin> tsk_key ` set (db_tasks a)"
    and "tsk_status t = TaPending" "tsk_generation t = 1" "tsk_token t = []"
  shows "queue_ok (insert_task t mode ids a)"
proof -
  let ?b = "a\<lparr>db_tasks := db_tasks a @ [t], db_next := db_next a + 1\<rparr>"
  have b: "queue_ok ?b" using assms by (rule queue_ok_add_task)
  have "untouched ?b (adopt_work (tsk_id t) ids (fold (queue_member (tsk_id t)) ids ?b))"
    unfolding adopt_work_def by (rule calm.trans [OF untouched_queue_members untouched_work(3)])
  then have "queue_ok (adopt_work (tsk_id t) ids (fold (queue_member (tsk_id t)) ids ?b))"
    by (rule queue_ok_untouched [OF b])
  then show ?thesis using b by (simp add: insert_task_def Let_def)
qed

lemma queue_ok_create [inv_intros]:
  assumes ok: "queue_ok a" and c: "createAllocationTask fp ent s ids mode key p auto ver a = Inr (t, b)"
  shows "queue_ok b"
proof -
  let ?key = "if key = [] then ent_key ent else key"
  let ?t = "new_task ent s ids mode ?key (fp (sco_id s, ids, mode, ver)) p auto ver a"
  have "b = a \<or> b = insert_task ?t mode ids a \<and> first_where (\<lambda>t. tsk_key t = ?key) (db_tasks a) = None"
    using c by (auto simp: createAllocationTask_def Let_def split: if_split_asm option.split_asm)
  moreover have "queue_ok (insert_task ?t mode ids a)" if "first_where (\<lambda>t. tsk_key t = ?key) (db_tasks a) = None"
    by (rule queue_ok_insert_task [OF ok]) (use that in \<open>auto simp: new_task_def first_where_None\<close>)
  ultimately show ?thesis using ok by blast
qed

text \<open>Ending a run and giving up its lease.\<close>

definition ends :: "task_row \<Rightarrow> task_row \<Rightarrow> bool" where
  "ends t t' \<longleftrightarrow> keeps_task t t' \<and> tsk_status t' \<noteq> TaRunning"

lemma queue_ok_end:
  assumes ok: "queue_ok a"
    and own: "\<And>u. u \<in> set (db_tasks a) \<Longrightarrow> tsk_token u = tsk_token t \<Longrightarrow> tsk_token t \<noteq> [] \<Longrightarrow> tsk_id u = tsk_id t"
    and g: "\<And>r. r \<in> set (db_tasks a) \<Longrightarrow> tsk_id r = tsk_id t \<Longrightarrow> ends r (g r)"
    and b: "untouched (update_task (\<lambda>r. tsk_id r = tsk_id t) g a) b"
  shows "queue_ok (releaseAllocationLease s t b)"
proof (rule queue_ok_release)
  have "queue_ok (update_task (\<lambda>r. tsk_id r = tsk_id t) g a)"
    by (rule queue_ok_tasks [OF ok]) (use g in \<open>auto simp: ends_def\<close>)
  then show "queue_ok b" using b by (rule queue_ok_untouched)
  fix u
  assume u: "u \<in> set (db_tasks b)" "tsk_token u = tsk_token t" "tsk_token t \<noteq> []"
  then obtain r where r: "r \<in> set (db_tasks a)" "u = (if tsk_id r = tsk_id t then g r else r)"
    using b by (auto simp: untouched_def update_task_def in_update_where)
  show "tsk_status u \<noteq> TaRunning"
    using r u own [OF r(1)] g [OF r(1)] by (auto simp: ends_def split: if_splits)
qed

lemma own_token:
  assumes "queue_ok a" and "r \<in> set (db_tasks a)" and "runs t r"
  shows "u \<in> set (db_tasks a) \<Longrightarrow> tsk_token u = tsk_token t \<Longrightarrow> tsk_token t \<noteq> [] \<Longrightarrow> tsk_id u = tsk_id t"
  using queue_okD(5) [OF assms(1) _ assms(2), of u] assms(3) by (simp add: runs_def)

lemma runs_unique:
  assumes "queue_ok a" and "r \<in> set (db_tasks a)" and "runs t r"
  shows "u \<in> set (db_tasks a) \<Longrightarrow> tsk_id u = tsk_id t \<Longrightarrow> u = r"
  using distinct_key_unique [OF queue_okD(1) [OF assms(1)] _ assms(2), of u] assms(3) by (simp add: runs_def)

lemma queue_ok_failure [inv_intros]:
  assumes ok: "queue_ok a"
  shows "queue_ok (finishAllocationFailure now s t cause conflict a)"
proof (cases "lockAllocationLease now s t a")
  case (Inl e)
  then show ?thesis using ok by (simp add: finishAllocationFailure_def)
next
  case (Inr c)
  then obtain r where r: "r \<in> set (db_tasks a)" "runs t r" using lockAllocationLease_Inr by blast
  show ?thesis
    unfolding finishAllocationFailure_def Inr sum.case Let_def
  proof (rule queue_ok_end [OF ok own_token [OF ok r]])
    fix u
    assume "u \<in> set (db_tasks a)" "tsk_id u = tsk_id t"
    then have "u = r" by (rule runs_unique [OF ok r])
    then show "ends u (u\<lparr>tsk_status := if (if conflict then ''allocation_snapshot_stale'' else failure_code cause) =
             ''allocation_snapshot_stale'' \<and> tsk_generation t < 3 then TaPending else TaFailed,
          tsk_error := if conflict then ''allocation_snapshot_stale'' else failure_code cause,
          tsk_generation := tsk_generation t + (if (if conflict then ''allocation_snapshot_stale''
             else failure_code cause) = ''allocation_snapshot_stale'' \<and> tsk_generation t < 3 then 1 else 0),
          tsk_token := [], tsk_lease_until := None, tsk_request := None\<rparr>)"
      using r queue_okD(3) [OF ok r(1)] by (auto simp: ends_def keeps_task_def task_ok_def runs_def)
  qed (assumption | rule calm.trans [OF untouched_work(4) untouched_work(3)])+
qed

lemma queue_ok_recover:
  assumes ok: "queue_ok a"
  shows "queue_ok (recover i a)"
    and "\<forall>t \<in> set (db_tasks (recover i a)). tsk_scope t = i \<longrightarrow> tsk_status t \<noteq> TaRunning"
    and "db_scopes (recover i a) = db_scopes a"
    and "tsk_token ` set (db_tasks (recover i a)) \<subseteq> insert [] (tsk_token ` set (db_tasks a))"
    and "tsk_key ` set (db_tasks (recover i a)) = tsk_key ` set (db_tasks a)"
proof -
  have "queue_ok (update_task (\<lambda>t. tsk_scope t = i \<and> tsk_status t = TaRunning) recover_task a)"
    by (rule queue_ok_tasks [OF ok])
      (use queue_okD(3) [OF ok] in \<open>fastforce simp: keeps_task_def recover_task_def task_ok_def\<close>)
  then show "queue_ok (recover i a)"
    unfolding recover_def Let_def by (rule queue_ok_untouched) simp
  show "\<forall>t \<in> set (db_tasks (recover i a)). tsk_scope t = i \<longrightarrow> tsk_status t \<noteq> TaRunning"
  proof (intro ballI impI)
    fix t
    assume t: "t \<in> set (db_tasks (recover i a))" "tsk_scope t = i"
    have "t \<in> set (update_where (\<lambda>t. tsk_scope t = i \<and> tsk_status t = TaRunning) recover_task (db_tasks a))"
      using t(1) by (simp add: recover_def Let_def update_work_def update_task_def)
    then obtain q where q: "t = (if tsk_scope q = i \<and> tsk_status q = TaRunning then recover_task q else q)"
      by (rule update_whereE)
    show "tsk_status t \<noteq> TaRunning"
      using q t(2) by (cases "tsk_scope q = i \<and> tsk_status q = TaRunning") (auto simp: recover_task_def)
  qed
  show "db_scopes (recover i a) = db_scopes a"
    by (simp add: recover_def Let_def update_work_def update_task_def)
  show "tsk_token ` set (db_tasks (recover i a)) \<subseteq> insert [] (tsk_token ` set (db_tasks a))"
    by (auto simp: recover_def Let_def update_work_def update_task_def in_update_where recover_task_def)
  have "map tsk_key (db_tasks (recover i a)) = map tsk_key (db_tasks a)"
    by (simp add: recover_def Let_def update_work_def update_task_def update_where_def recover_task_def)
  then show "tsk_key ` set (db_tasks (recover i a)) = tsk_key ` set (db_tasks a)"
    by (metis list.set_map)
qed

text \<open>The start of a task puts the same fresh fence on the task and on its scope.\<close>

lemma queue_ok_start:
  assumes ok: "queue_ok a"
    and idle: "\<forall>u \<in> set (db_tasks a). tsk_scope u = sco_id s \<longrightarrow> tsk_status u \<noteq> TaRunning"
    and s: "s \<in> set (db_scopes a)"
    and t: "t \<in> set (db_tasks a)" "tsk_scope t = sco_id s" "tsk_status t = TaPending"
      "sco_paused s \<longrightarrow> tsk_mode t = Simulate"
    and fence: "fence \<noteq> []" "fence \<notin> tsk_token ` set (db_tasks a)"
  shows "queue_ok (a\<lparr>
      db_scopes := update_where (\<lambda>q. sco_id q = sco_id s) (\<lambda>q. q\<lparr>sco_lease_token := fence, sco_lease_until := u\<rparr>) (db_scopes a),
      db_tasks := update_where (\<lambda>q. tsk_id q = tsk_id t) (\<lambda>q. q\<lparr>tsk_status := TaRunning, tsk_token := fence,
        tsk_lease_until := v, tsk_error := []\<rparr>) (db_tasks a)\<rparr>)" (is "queue_ok ?b")
proof -
  let ?f = "\<lambda>q. q\<lparr>tsk_status := TaRunning, tsk_token := fence, tsk_lease_until := v, tsk_error := []\<rparr>"
  have row: "q = ?f t \<or> q \<in> set (db_tasks a) \<and> tsk_id q \<noteq> tsk_id t" if "q \<in> set (db_tasks ?b)" for q
  proof -
    have "q \<in> set (update_where (\<lambda>q. tsk_id q = tsk_id t) ?f (db_tasks a))" using that by simp
    then obtain p where p: "p \<in> set (db_tasks a)" "q = (if tsk_id p = tsk_id t then ?f p else p)"
      by (rule update_whereE)
    show ?thesis
    proof (cases "tsk_id p = tsk_id t")
      case True
      then have "p = t" using distinct_key_unique [OF queue_okD(1) [OF ok] p(1) t(1)] by simp
      then show ?thesis using p True by simp
    qed (use p in simp)
  qed
  have keys: "keys_ok ?b"
    using ok t(1) s by (auto simp: queue_ok_def keys_ok_def map_update_where_key in_update_where)
  have tasks: "\<forall>q \<in> set (db_tasks ?b). task_ok q"
    using row queue_okD(3) [OF ok] t by (fastforce simp: task_ok_def)
  have tokens: "tokens_unique (db_tasks ?b)"
    unfolding tokens_unique_def
  proof (intro ballI impI)
    fix x y
    assume x: "x \<in> set (db_tasks ?b)" and y: "y \<in> set (db_tasks ?b)"
      and eq: "tsk_token x = tsk_token y \<and> tsk_token x \<noteq> []"
    have fresh: "tsk_token q \<noteq> fence" if "q \<in> set (db_tasks a)" for q using fence(2) that by blast
    show "tsk_id x = tsk_id y"
      using row [OF x] row [OF y]
    proof (elim disjE)
      assume "x = ?f t" "y \<in> set (db_tasks a) \<and> tsk_id y \<noteq> tsk_id t"
      then show ?thesis using eq fresh [of y] by simp
    next
      assume "x \<in> set (db_tasks a) \<and> tsk_id x \<noteq> tsk_id t" "y = ?f t"
      then show ?thesis using eq fresh [of x] by simp
    next
      assume "x \<in> set (db_tasks a) \<and> tsk_id x \<noteq> tsk_id t" "y \<in> set (db_tasks a) \<and> tsk_id y \<noteq> tsk_id t"
      then show ?thesis using eq queue_okD(5) [OF ok, of x y] by metis
    qed simp
  qed
  have "holds_lease (db_scopes ?b) q" if q: "q \<in> set (db_tasks ?b)" "tsk_status q = TaRunning" for q
    using row [OF q(1)]
  proof
    assume "q = ?f t"
    moreover have "s\<lparr>sco_lease_token := fence, sco_lease_until := u\<rparr> \<in> set (db_scopes ?b)"
      using s by (auto simp: in_update_where)
    moreover have "tsk_token (?f t) \<noteq> []" using fence(1) by simp
    moreover have "sco_id (s\<lparr>sco_lease_token := fence, sco_lease_until := u\<rparr>) = tsk_scope (?f t)
        \<and> sco_lease_token (s\<lparr>sco_lease_token := fence, sco_lease_until := u\<rparr>) = tsk_token (?f t)
        \<and> (sco_paused (s\<lparr>sco_lease_token := fence, sco_lease_until := u\<rparr>) \<longrightarrow> tsk_mode (?f t) = Simulate)"
      using t by simp
    ultimately show ?thesis unfolding holds_lease_def by blast
  next
    assume q': "q \<in> set (db_tasks a) \<and> tsk_id q \<noteq> tsk_id t"
    then obtain c where c: "c \<in> set (db_scopes a)" "sco_id c = tsk_scope q" "sco_lease_token c = tsk_token q"
        "sco_paused c \<longrightarrow> tsk_mode q = Simulate" "tsk_token q \<noteq> []"
      using queue_okD(4) [OF ok _ q(2)] by (auto simp: holds_lease_def)
    have "sco_id c \<noteq> sco_id s" using idle q' q(2) c(2) by auto
    then have "c \<in> set (db_scopes ?b)" using c(1) by (auto simp: in_update_where intro!: bexI [of _ c])
    then show ?thesis using c unfolding holds_lease_def by blast
  qed
  then show ?thesis using keys tasks tokens by (simp add: queue_ok_def)
qed

lemma queue_ok_start_task:
  assumes "start_task now fence s t a = Inr (r, b)" and "queue_ok a"
    and "\<forall>u \<in> set (db_tasks a). tsk_scope u = sco_id s \<longrightarrow> tsk_status u \<noteq> TaRunning"
    and "s \<in> set (db_scopes a)" and "t \<in> set (db_tasks a)" "tsk_scope t = sco_id s" "tsk_status t = TaPending"
    and "sco_paused s \<longrightarrow> tsk_mode t = Simulate"
    and "fence \<noteq> []" "fence \<notin> tsk_token ` set (db_tasks a)"
  shows "queue_ok b"
proof -
  have "untouched (a\<lparr>
      db_scopes := update_where (\<lambda>q. sco_id q = sco_id s) (\<lambda>q. q\<lparr>sco_lease_token := fence,
        sco_lease_until := Some (now + lease_seconds)\<rparr>) (db_scopes a),
      db_tasks := update_where (\<lambda>q. tsk_id q = tsk_id t) (\<lambda>q. q\<lparr>tsk_status := TaRunning, tsk_token := fence,
        tsk_lease_until := Some (now + lease_seconds), tsk_error := []\<rparr>) (db_tasks a)\<rparr>) b"
    using assms(1) by (auto simp: start_task_def andThen_eq_Inr save_row_Inr Let_def calm.refl)
  then show ?thesis using queue_ok_start [OF assms(2-10)] queue_ok_untouched by blast
qed

text \<open>A claim takes fresh random tokens.\<close>

definition fresh_entropy :: "entropy \<Rightarrow> db \<Rightarrow> bool" where
  "fresh_entropy ent db \<longleftrightarrow> ent_fence ent \<noteq> [] \<and> ent_fence ent \<notin> tsk_token ` set (db_tasks db)
     \<and> ent_key ent \<notin> tsk_key ` set (db_tasks db)"

lemma created_task:
  assumes "createAllocationTask fp ent s ids mode [] p auto ver a = Inr (t, b)"
    and "ent_key ent \<notin> tsk_key ` set (db_tasks a)"
  shows "t \<in> set (db_tasks b) \<and> tsk_scope t = sco_id s \<and> tsk_status t = TaPending \<and> tsk_token t = []
    \<and> tsk_mode t = mode_of mode
    \<and> db_tasks b = db_tasks a @ [t] \<and> db_scopes b = db_scopes a"
proof -
  have none: "first_where (\<lambda>t. tsk_key t = ent_key ent) (db_tasks a) = None"
    using assms(2) by (simp add: first_where_None image_iff) metis
  let ?t = "new_task ent s ids mode (ent_key ent) (fp (sco_id s, ids, mode, ver)) p auto ver a"
  have b: "t = ?t" "b = insert_task ?t mode ids a"
    using assms(1) none by (auto simp: createAllocationTask_def Let_def split: if_split_asm)
  have "untouched (a\<lparr>db_tasks := db_tasks a @ [?t], db_next := db_next a + 1\<rparr>) b"
    unfolding b(2) insert_task_def Let_def
    by (auto simp: calm.refl adopt_work_def intro: calm.trans [OF untouched_queue_members untouched_work(3)])
  then show ?thesis unfolding b(1) by (simp add: untouched_def new_task_def)
qed

lemma queue_ok_claim_scope:
  assumes c: "claim_scope fp changes ent now s a = (r, b)" and ok: "queue_ok a"
    and s: "s \<in> set (db_scopes a)" and fresh: "fresh_entropy ent a"
  shows "queue_ok b"
proof -
  let ?r = "recover (sco_id s) a"
  note rec = queue_ok_recover [OF ok, of "sco_id s"]
  have fence: "ent_fence ent \<noteq> []" "ent_fence ent \<notin> tsk_token ` set (db_tasks ?r)"
      "ent_key ent \<notin> tsk_key ` set (db_tasks ?r)"
    using fresh rec(4,5) by (auto simp: fresh_entropy_def)
  have finish: "queue_ok b" if "(case start_task now (ent_fence ent) s t d of
      Inl e \<Rightarrow> (Inl e, a) | Inr (q, c) \<Rightarrow> (Inr q, c)) = (r, b)" "queue_ok d"
      "\<forall>u \<in> set (db_tasks d). tsk_scope u = sco_id s \<longrightarrow> tsk_status u \<noteq> TaRunning"
      "db_scopes d = db_scopes a" "t \<in> set (db_tasks d)" "tsk_scope t = sco_id s" "tsk_status t = TaPending"
      "sco_paused s \<longrightarrow> tsk_mode t = Simulate" "ent_fence ent \<notin> tsk_token ` set (db_tasks d)" for t d
    using that(1) ok queue_ok_start_task [OF _ that(2,3) _ that(5-8) fence(1) that(9)] s that(4)
    by (auto split: sum.splits)
  show ?thesis
  proof (cases "next_task s ?r")
    case (Some t)
    then have t: "t \<in> set (db_tasks ?r)" "tsk_scope t = sco_id s" "tsk_status t = TaPending"
        "sco_paused s \<longrightarrow> tsk_mode t = Simulate"
      by (auto simp: next_task_def dest: first_where_SomeD)
    show ?thesis
      by (rule finish [OF _ rec(1,2,3) t fence(2)])
        (use c Some in \<open>simp add: claim_scope_def Let_def\<close>)
  next
    case None
    note none = this
    show ?thesis
    proof (cases "allocationRevision changes s ?r")
      case (Inl e)
      then show ?thesis using c none ok rec(1) by (auto simp: claim_scope_def Let_def split: if_split_asm)
    next
      case (Inr revision)
      let ?w = "wake_work revision s ?r"
      have w: "untouched ?r ?w" by simp
      then have tables: "db_tasks ?w = db_tasks ?r" "db_scopes ?w = db_scopes ?r" by (simp_all add: untouched_def)
      have okw: "queue_ok ?w" using rec(1) w by (rule queue_ok_untouched)
      show ?thesis
      proof (cases "createAllocationTask fp ent s (pending_members s ?w) ''execute'' [] None True ''v1'' ?w")
        case (Inl e)
        then show ?thesis using c none Inr ok rec(1) okw
          by (auto simp: claim_scope_def Let_def split: if_split_asm)
      next
        case create: (Inr q)
        obtain t d where q: "q = (t, d)" by (cases q)
        note t = created_task [OF create [unfolded q]]
        have okd: "queue_ok d" using okw create [unfolded q] by (rule queue_ok_create)
        show ?thesis
        proof (cases "sco_paused s \<or> pending_members s ?w = []")
          case True
          then show ?thesis using c none Inr rec(1) okw
            by (cases "sco_paused s") (auto simp: claim_scope_def Let_def)
        next
          case False
          show ?thesis
          proof (rule finish [OF _ okd])
            show "(case start_task now (ent_fence ent) s t d of
                Inl e \<Rightarrow> (Inl e, a) | Inr (q, c) \<Rightarrow> (Inr q, c)) = (r, b)"
              using c none Inr create q False by (simp add: claim_scope_def Let_def)
          qed (use t rec fence tables False in auto)
        qed
      qed
    qed
  qed
qed

lemma queue_ok_claim [inv_intros]:
  "claimAllocation fp changes ent locked now a = (r, b) \<Longrightarrow> queue_ok a \<Longrightarrow> fresh_entropy ent a \<Longrightarrow> queue_ok b"
  by (auto simp: claimAllocation_def dest: first_where_SomeD intro: queue_ok_claim_scope split: option.splits)

lemma task_ok_idle:
  "task_ok t \<Longrightarrow> tsk_generation t' = tsk_generation t \<Longrightarrow> tsk_status t' \<notin> {TaPending, TaRunning} \<Longrightarrow> task_ok t'"
  by (auto simp: task_ok_def split: if_splits)

lemma queue_ok_cancel_task:
  assumes ok: "queue_ok a" and t: "t \<in> set (db_tasks a)"
  shows "queue_ok (cancel_task s t a)"
  unfolding cancel_task_def
proof (rule queue_ok_end [OF ok])
  show "tsk_id u = tsk_id t" if "u \<in> set (db_tasks a)" "tsk_token u = tsk_token t" "tsk_token t \<noteq> []" for u
    using queue_okD(5) [OF ok that(1) t] that(2,3) by simp
  show "ends r (r\<lparr>tsk_status := TaCancelled\<rparr>)" if "r \<in> set (db_tasks a)" for r
    using task_ok_idle [OF queue_okD(3) [OF ok that]] by (simp add: ends_def keeps_task_def)
qed (rule calm.trans [OF untouched_work(4) untouched_work(3)])

lemma queue_ok_action [inv_intros]:
  assumes "allocationTaskAction fp ent i action body p a = Inr b" and ok: "queue_ok a"
  shows "queue_ok b"
proof -
  obtain t s where t: "fetch tsk_id i (db_tasks a) = Inr t" and s: "fetch sco_id (tsk_scope t) (db_scopes a) = Inr s"
    using assms(1) by (auto simp: allocationTaskAction_def andThen_eq_Inr)
  have row: "t \<in> set (db_tasks a)" using fetch_Inr [OF t] by simp
  have "cancelAllocationTask s t p a = Inr b \<or> retryAllocationTask fp ent s t body p a = Inr b"
    using assms(1) t s by (auto simp: allocationTaskAction_def split: if_split_asm)
  then show ?thesis
    using queue_ok_cancel_task [OF ok row] queue_ok_create [OF ok]
    by (auto simp: cancelAllocationTask_def retryAllocationTask_def andThen_eq_Inr Let_def split: if_split_asm)
qed

lemma queue_ok_post [inv_intros]:
  "postAllocationTask fp ent body p a = Inr (t, b) \<Longrightarrow> queue_ok a \<Longrightarrow> queue_ok b"
  by (auto simp: postAllocationTask_def andThen_eq_Inr split: if_splits intro: queue_ok_create)

lemma queue_ok_enqueue [inv_intros]:
  "enqueuePoolAllocation fp ent m p a = Inr (t, b) \<Longrightarrow> queue_ok a \<Longrightarrow> queue_ok b"
  by (auto simp: enqueuePoolAllocation_def andThen_eq_Inr intro: queue_ok_create)

text \<open>Pausing cancels what runs in the scope together with its lease.\<close>

lemma queue_ok_scope_switched:
  assumes ok: "queue_ok a"
  shows "queue_ok (scope_switched s paused a)"
proof -
  let ?e = "\<lambda>t. tsk_scope t = sco_id s \<and> tsk_status t \<in> {TaPending, TaRunning}"
  let ?g = "\<lambda>t. t\<lparr>tsk_status := TaCancelled, tsk_error := ''allocation_scope_paused''\<rparr>"
  let ?h = "\<lambda>s. s\<lparr>sco_paused := paused, sco_epoch := sco_epoch s + 1, sco_revision := sco_revision s + 1,
    sco_lease_token := [], sco_lease_until := None\<rparr>"
  let ?b = "update_task ?e ?g a"
  let ?c = "?b\<lparr>db_scopes := update_where (\<lambda>c. sco_id c = sco_id s) ?h (db_scopes ?b)\<rparr>"
  have "queue_ok ?b"
    by (rule queue_ok_tasks [OF ok])
      (use task_ok_idle [OF queue_okD(3) [OF ok]] in \<open>auto simp: keeps_task_def\<close>)
  then have c: "queue_ok ?c"
  proof (rule queue_ok_scopes)
    fix c
    assume "sco_id c = sco_id s"
    then show "sco_id (?h c) = sco_id c \<and> (sco_lease_token (?h c) = sco_lease_token c \<and> sco_paused (?h c) = sco_paused c \<or>
        (\<forall>t \<in> set (db_tasks ?b). tsk_scope t = sco_id c \<longrightarrow> tsk_status t \<noteq> TaRunning))"
      by (auto simp: update_task_def elim!: update_whereE split: if_split_asm)
  qed
  have same: "update_task ?e ?g (update_scope (sco_id s) ?h a) = ?c"
    by (simp add: update_task_def update_scope_def)
  have "untouched ?c (scope_switched s paused a)"
    unfolding scope_switched_def Let_def same
    by (rule calm.trans [OF untouched_work(4) untouched_work(3)])
  then show ?thesis by (rule queue_ok_untouched [OF c])
qed

lemma queue_ok_patch [inv_intros]:
  assumes "patchAllocationScope now i body p a = Inr b" and ok: "queue_ok a"
  shows "queue_ok b"
proof -
  obtain s paused log where "b = (scope_switched s paused a)\<lparr>db_audit := log\<rparr>"
    using assms(1) unfolding patchAllocationScope_def
    by (auto simp only: andThen_eq_Inr split: if_splits json.splits)
  then show ?thesis using queue_ok_frame [OF queue_ok_scope_switched [OF ok], of b] by simp
qed

lemma queue_ok_sync [inv_intros]:
  assumes "queue_ok a"
  shows "queue_ok (syncAllocationConfig a)"
proof -
  have scopes: "queue_ok (fold sync_scope vs b)" if "queue_ok b" for vs b
    using that
  proof (induction vs arbitrary: b)
    case (Cons v vs)
    have "queue_ok (sync_scope v b)"
      using Cons.prems by (auto simp: sync_scope_def Let_def intro: queue_ok_add_scope)
    then show ?case using Cons.IH by simp
  qed simp
  have "untouched b (fold sync_demand js b)" for js b
  proof (induction js arbitrary: b)
    case (Cons j js)
    have "untouched b (sync_demand j b)" by (simp add: untouched_def sync_demand_def)
    then show ?case using Cons.IH calm.trans by auto
  qed (simp add: calm.refl)
  then show ?thesis unfolding syncAllocationConfig_def Let_def
    using queue_ok_untouched scopes [OF assms] by blast
qed

lemma queue_ok_reception [inv_intros]:
  assumes "demandReceptionAPI i body p a = Inr b" and ok: "queue_ok a"
  shows "queue_ok b"
proof -
  have "set_reception i (str (fld body ''reception_state'')) body p (syncAllocationConfig a) = Inr b"
    using assms(1) by (auto simp: demandReceptionAPI_def andThen_eq_Inr Let_def split: if_splits)
  then have "untouched (syncAllocationConfig a) b"
    by (auto simp: set_reception_def Let_def untouched_def split: option.splits)
  then show ?thesis by (rule queue_ok_untouched [OF queue_ok_sync [OF ok]])
qed

subsection \<open>The worker's transactions keep it\<close>

lemma finish_run:
  assumes ok: "queue_ok a" and r: "r \<in> set (db_tasks a)" "runs t r"
  shows "queue_ok (releaseAllocationLease c t (update_task (\<lambda>r. tsk_id r = tsk_id t)
    (\<lambda>r. r\<lparr>tsk_status := TaCompleted, tsk_progress := f r\<rparr>) a))"
proof (rule queue_ok_end [OF ok own_token [OF ok r]])
  show "ends u (u\<lparr>tsk_status := TaCompleted, tsk_progress := f u\<rparr>)" if "u \<in> set (db_tasks a)" for u
    using task_ok_idle [OF queue_okD(3) [OF ok that]] by (simp add: ends_def keeps_task_def)
qed (assumption | rule calm.refl)+

lemma queue_ok_prepare [inv_intros]:
  assumes "prepareAllocation env caps now s t a = Inr (r, b)" and ok: "queue_ok a"
  shows "queue_ok b"
proof -
  obtain pin c snap d where s: "lockAllocationLease now s t a = Inr c"
      "buildAllocationSnapshot env c t now (truncate_micros now) (tsk_mode t \<noteq> Simulate) a = Inr (snap, d)"
      "b = finish_empty c t d \<or> b = freeze_request t (allocation_request env t pin snap) d"
    using assms(1) by (auto simp: prepareAllocation_def andThen_eq_Inr Let_def split: if_splits)
  have d: "untouched a d" using s(2) by (rule calm.buildAllocationSnapshot)
  then have okd: "queue_ok d" by (rule queue_ok_untouched [OF ok])
  obtain r where r: "r \<in> set (db_tasks d)" "runs t r"
    using lockAllocationLease_Inr [OF s(1)] d by (auto simp: untouched_def)
  have "queue_ok (finish_empty c t d)" unfolding finish_empty_def by (rule finish_run [OF okd r])
  moreover have "queue_ok (freeze_request t q d)" for q
    unfolding freeze_request_def
    by (rule queue_ok_tasks [OF okd]) (use queue_okD(3) [OF okd] in \<open>auto simp: keeps_task_def task_ok_def\<close>)
  ultimately show ?thesis using s(3) by blast
qed

lemma queue_ok_commit_transaction:
  assumes "commit_transaction env now s t request result a = Inr b" and ok: "queue_ok a"
  shows "queue_ok b"
proof -
  obtain c current d and q :: plan_row and e where s: "lockAllocationLease now s t a = Inr c"
      "buildAllocationSnapshot env c t now (time_or_zero (as_at (rq_snapshot request))) False a = Inr (current, d)"
      "foldE (apply_decision now c t (pln_id q)) (rs_decisions result) d = Inr e"
      "close_commit env c t (pln_id q) result e = Inr b"
    using assms(1) by (auto simp: commit_transaction_def andThen_eq_Inr split: if_splits)
  have "untouched d e" using s(3) by (rule calm.loop) (rule calm.apply_decision)
  then have e: "untouched a e" by (rule calm.trans [OF calm.buildAllocationSnapshot [OF s(2)]])
  let ?d = "return_simulated_work t e"
  let ?f = "advance_scope (sco_id c) (max_sequence t (rs_decisions result)) ?d"
  obtain revision where b: "b = releaseAllocationLease c t
        (update_task (\<lambda>r. tsk_id r = tsk_id t)
           (\<lambda>r. r\<lparr>tsk_status := TaCompleted, tsk_progress := commit_progress t result\<rparr>)
        (update_plan (\<lambda>p. pln_id p = pln_id q)
           (\<lambda>p. p\<lparr>pln_status := (if tsk_mode t = Simulate then PlSimulated else PlCommitted)\<rparr>)
        (update_work (\<lambda>i. wrk_task i = Some (tsk_id t) \<and> wrk_status i = WiWaiting)
           (\<lambda>i. i\<lparr>wrk_observed := revision\<rparr>) ?f)))"
    using s(4) by (auto simp: close_commit_def Let_def andThen_eq_Inr)
  let ?g = "update_plan (\<lambda>p. pln_id p = pln_id q)
           (\<lambda>p. p\<lparr>pln_status := (if tsk_mode t = Simulate then PlSimulated else PlCommitted)\<rparr>)
        (update_work (\<lambda>i. wrk_task i = Some (tsk_id t) \<and> wrk_status i = WiWaiting)
           (\<lambda>i. i\<lparr>wrk_observed := revision\<rparr>) ?f)"
  have "untouched e ?d" by (simp add: return_simulated_work_def calm.refl)
  then have okd: "queue_ok ?d" using queue_ok_untouched [OF ok calm.trans [OF e]] by blast
  have okf: "queue_ok ?f"
    using queue_ok_scopes [OF okd] okd by (auto simp: advance_scope_def update_scope_def)
  have g: "untouched ?f ?g" by (rule calm.trans [OF untouched_work(3) untouched_work(4)])
  have okg: "queue_ok ?g" by (rule queue_ok_untouched [OF okf g])
  have "db_tasks ?g = db_tasks a"
    using g e \<open>untouched e ?d\<close> by (simp add: untouched_def advance_scope_def update_scope_def)
  then obtain r where r: "r \<in> set (db_tasks ?g)" "runs t r"
    using lockAllocationLease_Inr [OF s(1)] by auto
  show ?thesis unfolding b by (rule finish_run [OF okg r])
qed

lemma untouched_plan: "untouched a (recordAllocationPlan t request result status code a)"
  by (simp add: untouched_def recordAllocationPlan_def)

lemma queue_ok_receive [inv_intros]:
  assumes "receiveAllocation env now s t request answer a = (r, b)" and ok: "queue_ok a"
  shows "queue_ok b"
  using assms(1) queue_ok_untouched [OF ok untouched_plan] ok unfolding receiveAllocation_def commitAllocation_def Let_def
  by (auto split: sum.splits if_splits intro: queue_ok_commit_transaction)

subsection \<open>The queue as a transition relation\<close>

text \<open>
  A step is labelled with the fence it issues, if it issues one. \<open>elsewhere\<close> is any other handler
  of the platform: it leaves the queue's tables alone.
\<close>

inductive queue_step ::
  "platform_env \<Rightarrow> (task_input \<Rightarrow> string) \<Rightarrow> string list \<Rightarrow> db \<Rightarrow> db \<Rightarrow> bool" for env fp where
  claim: "fresh_entropy ent a \<Longrightarrow> claimAllocation fp (env_changes env) ent locked now a = (r, b)
    \<Longrightarrow> queue_step env fp [ent_fence ent] a b"
| post: "postAllocationTask fp ent body p a = Inr (t, b) \<Longrightarrow> queue_step env fp [] a b"
| enqueue: "enqueuePoolAllocation fp ent m q a = Inr (t, b) \<Longrightarrow> queue_step env fp [] a b"
| action: "allocationTaskAction fp ent i act body p a = Inr b \<Longrightarrow> queue_step env fp [] a b"
| pause: "patchAllocationScope now i body p a = Inr b \<Longrightarrow> queue_step env fp [] a b"
| reception: "demandReceptionAPI i body p a = Inr b \<Longrightarrow> queue_step env fp [] a b"
| screen: "saveScreeningQualification env m screened a = Inr (q, b) \<Longrightarrow> queue_step env fp [] a b"
| prepare: "prepareAllocation env caps now s t a = Inr (req, b) \<Longrightarrow> queue_step env fp [] a b"
| receive: "receiveAllocation env now s t request answer a = (res, b) \<Longrightarrow> queue_step env fp [] a b"
| fail: "finishAllocationFailure now s t cause conflict a = b \<Longrightarrow> queue_step env fp [] a b"
| elsewhere: "db_work b = db_work a \<Longrightarrow> db_tasks b = db_tasks a \<Longrightarrow> db_scopes b = db_scopes a
    \<Longrightarrow> db_next a \<le> db_next b \<Longrightarrow> queue_step env fp [] a b"

inductive queue_run ::
  "platform_env \<Rightarrow> (task_input \<Rightarrow> string) \<Rightarrow> string list \<Rightarrow> db \<Rightarrow> db \<Rightarrow> bool" for env fp where
  here: "queue_run env fp [] a a"
| there: "queue_run env fp ts a b \<Longrightarrow> queue_step env fp l b c \<Longrightarrow> queue_run env fp (ts @ l) a c"

inductive_cases queue_stepE: "queue_step env fp l a b"

lemma queue_step_ok:
  assumes "queue_step env fp l a b" and "queue_ok a"
  shows "queue_ok b"
  using assms
proof (cases rule: queue_step.cases)
  case (claim ent locked now r)
  then show ?thesis using queue_ok_claim assms(2) by blast
next
  case (elsewhere)
  then show ?thesis using queue_ok_frame assms(2) by blast
next
  case (screen m screened q)
  then show ?thesis using queue_ok_untouched [OF assms(2)] untouched_qualification by blast
qed (use assms(2) in \<open>blast intro: inv_intros\<close>)+

lemma queue_step_relation:
  assumes "queue_step env fp l a b" and R: "queue_relation R fresh" and "\<forall>f \<in> set l. fresh f"
  shows "R a b"
proof -
  have P: "placement_relation R" using R by (rule queue_relation.axioms)
  show ?thesis
    using assms(1)
  proof (cases rule: queue_step.cases)
    case (claim ent locked now r)
    then show ?thesis using queue_relation.claimAllocation [OF R] assms(3) by auto
  next
    case elsewhere
    then show ?thesis using placement_relation.frame [OF P] by blast
  next
    case (fail now s t cause conflict)
    then show ?thesis using queue_relation.finishAllocationFailure [OF R] by blast
  qed (simp_all add: queue_relation.postAllocationTask [OF R] queue_relation.enqueuePoolAllocation [OF R]
      queue_relation.allocationTaskAction [OF R] queue_relation.patchAllocationScope [OF R]
      queue_relation.demandReceptionAPI [OF R] queue_relation.saveScreeningQualification [OF R]
      worker_relation.prepareAllocation [OF queue_relation.is_worker [OF R]]
      worker_relation.receiveAllocation [OF queue_relation.is_worker [OF R]])
qed

lemma queue_run_relation:
  assumes "queue_run env fp ts a b" and R: "queue_relation R fresh" and "\<forall>f \<in> set ts. fresh f"
  shows "R a b"
  using assms(1,3)
proof (induction rule: queue_run.induct)
  case (here a)
  show ?case by (rule placement_relation.refl [OF queue_relation.axioms(1) [OF R]])
next
  case (there ts a b l c)
  then have "R a b" "R b c" using queue_step_relation [OF there.hyps(2) R] by simp_all
  then show ?case using placement_relation.trans [OF queue_relation.axioms(1) [OF R]] by blast
qed

lemma queue_run_ok: "queue_run env fp ts a b \<Longrightarrow> queue_ok a \<Longrightarrow> queue_ok b"
  by (induction rule: queue_run.induct) (auto intro: queue_step_ok)

lemma queue_run_work: "queue_run env fp ts a b \<Longrightarrow> work_ok a \<Longrightarrow> work_ok b"
  using queue_run_relation [OF _ work.queue_relation_axioms] by (auto simp: work_step_def)

subsection \<open>A claim\<close>

text \<open>What a successful start leaves behind.\<close>

lemma start_task_rows:
  assumes "start_task now fence s t a = Inr ((s', t'), b)" and s: "s \<in> set (db_scopes a)" and t: "t \<in> set (db_tasks a)"
    and keys: "distinct (map sco_id (db_scopes a))" "distinct (map tsk_id (db_tasks a))"
  shows "s' = s\<lparr>sco_lease_token := fence, sco_lease_until := Some (now + lease_seconds)\<rparr> \<and> s' \<in> set (db_scopes b)
    \<and> t' = t\<lparr>tsk_status := TaRunning, tsk_token := fence, tsk_lease_until := Some (now + lease_seconds), tsk_error := []\<rparr>
    \<and> t' \<in> set (db_tasks b)"
proof -
  have row: "first_where (\<lambda>q. sco_id q = sco_id s) (db_scopes a) = Some s"
      "first_where (\<lambda>q. tsk_id q = tsk_id t) (db_tasks a) = Some t"
    using first_where_key [OF keys(1) s] first_where_key [OF keys(2) t] by simp_all
  define c where "c = a\<lparr>
      db_scopes := update_where (\<lambda>q. sco_id q = sco_id s) (\<lambda>q. q\<lparr>sco_lease_token := fence,
        sco_lease_until := Some (now + lease_seconds)\<rparr>) (db_scopes a),
      db_tasks := update_where (\<lambda>q. tsk_id q = tsk_id t) (\<lambda>q. q\<lparr>tsk_status := TaRunning, tsk_token := fence,
        tsk_lease_until := Some (now + lease_seconds), tsk_error := []\<rparr>) (db_tasks a)\<rparr>"
  have eq: "s' = s\<lparr>sco_lease_token := fence, sco_lease_until := Some (now + lease_seconds)\<rparr>"
      "t' = t\<lparr>tsk_status := TaRunning, tsk_token := fence, tsk_lease_until := Some (now + lease_seconds), tsk_error := []\<rparr>"
    using assms(1) row by (simp_all add: start_task_def save_row_def Let_def)
  have b: "b = (if tsk_mode t' = Simulate then c else update_work
        (\<lambda>i. wrk_member i \<in> set (tsk_members t') \<and> wrk_status i = WiPending)
        (\<lambda>i. i\<lparr>wrk_status := WiLeased, wrk_task := Some (tsk_id t')\<rparr>) c)"
    using assms(1) row unfolding eq c_def by (simp add: start_task_def save_row_def Let_def split del: if_split)
  have "s' \<in> set (db_scopes c)" "t' \<in> set (db_tasks c)"
    using s t unfolding eq c_def update_where_def by force+
  moreover have "db_scopes b = db_scopes c" "db_tasks b = db_tasks c"
    unfolding b by (simp_all add: update_work_def)
  ultimately show ?thesis using eq by simp
qed

lemma claim_scope_starts:
  assumes c: "claim_scope fp changes ent now s a = (Inr r, b)" and ok: "queue_ok a"
    and s: "s \<in> set (db_scopes a)" and fresh: "fresh_entropy ent a"
  shows "\<exists>d t. start_task now (ent_fence ent) s t d = Inr (r, b) \<and> queue_ok d \<and> s \<in> set (db_scopes d)
    \<and> t \<in> set (db_tasks d) \<and> tsk_scope t = sco_id s \<and> tsk_status t = TaPending \<and> (sco_paused s \<longrightarrow> tsk_mode t = Simulate)"
proof -
  let ?r = "recover (sco_id s) a"
  note rec = queue_ok_recover [OF ok, of "sco_id s"]
  have start: "start_task now (ent_fence ent) s t d = Inr (r, b)"
    if "(case start_task now (ent_fence ent) s t d of Inl e \<Rightarrow> (Inl e, a) | Inr (q, c) \<Rightarrow> (Inr q, c)) = (Inr r, b)" for t d
    using that by (auto split: sum.splits)
  show ?thesis
  proof (cases "next_task s ?r")
    case (Some t)
    then have "t \<in> set (db_tasks ?r)" "tsk_scope t = sco_id s" "tsk_status t = TaPending"
        "sco_paused s \<longrightarrow> tsk_mode t = Simulate"
      by (auto simp: next_task_def dest: first_where_SomeD)
    moreover have "start_task now (ent_fence ent) s t ?r = Inr (r, b)"
      by (rule start) (use c Some in \<open>simp add: claim_scope_def Let_def\<close>)
    ultimately show ?thesis using rec s by metis
  next
    case None
    then obtain rvn t d where c': "\<not> sco_paused s" "createAllocationTask fp ent s
        (pending_members s (wake_work rvn s ?r)) ''execute'' [] None True ''v1'' (wake_work rvn s ?r) = Inr (t, d)"
        "(case start_task now (ent_fence ent) s t d of Inl e \<Rightarrow> (Inl e, a) | Inr (q, c) \<Rightarrow> (Inr q, c)) = (Inr r, b)"
      using c by (auto simp: claim_scope_def Let_def split: sum.splits if_splits)
    have w: "untouched ?r (wake_work rvn s ?r)" by simp
    then have okw: "queue_ok (wake_work rvn s ?r)" using rec(1) queue_ok_untouched by blast
    have key: "ent_key ent \<notin> tsk_key ` set (db_tasks (wake_work rvn s ?r))"
      using fresh rec(5) w by (simp add: fresh_entropy_def untouched_def)
    have "db_scopes (wake_work rvn s ?r) = db_scopes a" using w rec(3) by (simp add: untouched_def)
    then have "s \<in> set (db_scopes d)" using created_task [OF c'(2) key] s by simp
    then show ?thesis
      using start [OF c'(3)] queue_ok_create [OF okw c'(2)] created_task [OF c'(2) key] c'(1) by blast
  qed
qed

lemma claim_starts:
  assumes "claimAllocation fp changes ent locked now a = (Inr (s, t), b)" and ok: "queue_ok a"
    and "fresh_entropy ent a"
  shows "s \<in> set (db_scopes b) \<and> t \<in> set (db_tasks b) \<and> tsk_scope t = sco_id s \<and> tsk_status t = TaRunning
    \<and> tsk_token t = ent_fence ent \<and> sco_lease_token s = ent_fence ent
    \<and> sco_lease_until s = Some (now + lease_seconds) \<and> (sco_paused s \<longrightarrow> tsk_mode t = Simulate)
    \<and> 1 \<le> tsk_generation t \<and> tsk_generation t \<le> 3 \<and> \<not> locked (sco_id s)"
proof -
  obtain c where c: "c \<in> set (db_scopes a)" "\<not> locked (sco_id c)"
      "claim_scope fp changes ent now c a = (Inr (s, t), b)"
    using assms(1) by (auto simp: claimAllocation_def split: option.splits dest: first_where_SomeD)
  obtain d u where d: "start_task now (ent_fence ent) c u d = Inr ((s, t), b)" "queue_ok d" "c \<in> set (db_scopes d)"
      "u \<in> set (db_tasks d)" "tsk_scope u = sco_id c" "tsk_status u = TaPending" "sco_paused c \<longrightarrow> tsk_mode u = Simulate"
    using claim_scope_starts [OF c(3) ok c(1) assms(3)] by blast
  have "1 \<le> tsk_generation u \<and> tsk_generation u \<le> 3"
    using queue_okD(3) [OF d(2,4)] d(6) by (simp add: task_ok_def)
  moreover note rows = start_task_rows [OF d(1,3,4) queue_okD(2,1) [OF d(2)]]
  moreover have "s \<in> set (db_scopes b) \<and> t \<in> set (db_tasks b)" using rows by blast
  ultimately show ?thesis using d(5-7) c(2) by simp
qed

lemma leased_scope:
  assumes ok: "queue_ok a" and "lease_held now s t a"
  shows "\<exists>r \<in> set (db_tasks a). runs t r \<and> tsk_token t \<noteq> []"
proof -
  obtain r where r: "r \<in> set (db_tasks a)" "runs t r" using assms(2) by (auto simp: lease_held_iff)
  then have "holds_lease (db_scopes a) r" using queue_okD(4) [OF ok r(1)] by (simp add: runs_def)
  then show ?thesis using r by (auto simp: holds_lease_def runs_def)
qed

lemma lease_exclusive:
  assumes ok: "queue_ok a" and "lease_held now s t a" and "lease_held now' s' t' a" and "sco_id s = sco_id s'"
  shows "tsk_id t = tsk_id t' \<and> tsk_generation t = tsk_generation t' \<and> tsk_token t = tsk_token t'"
proof -
  obtain r r' where r: "r \<in> set (db_tasks a)" "runs t r" "tsk_token t \<noteq> []" "r' \<in> set (db_tasks a)" "runs t' r'"
    using leased_scope [OF ok assms(2)] leased_scope [OF ok assms(3)] by blast
  obtain c c' where c: "c \<in> set (db_scopes a)" "leases now s t c" "c' \<in> set (db_scopes a)" "leases now' s' t' c'"
    using assms(2,3) unfolding lease_held_iff by blast
  have "c = c'"
    using distinct_key_unique [OF queue_okD(2) [OF ok] c(1,3)] c(2,4) assms(4) by (simp add: leases_def)
  then have tok: "tsk_token t = tsk_token t'" using c(2,4) by (simp add: leases_def)
  then have "tsk_id r = tsk_id r'"
    using queue_okD(5) [OF ok r(1,4)] r(2,3,5) by (simp add: runs_def)
  then have "r = r'" using distinct_key_unique [OF queue_okD(1) [OF ok] r(1,4)] by simp
  then show ?thesis using r(2,5) tok by (auto simp: runs_def)
qed

end
