(* ===== verification/QueueProperties.thy ===== *)
theory QueueProperties
  imports QueueInvariant
begin

text \<open>
  The guarantees of the allocation queue, stated over its transition relation: the invariant, one
  worker per scope, the permanence of a lost lease, what a claim gives, idempotent creation, and
  what a failure does. A small queue with one scope and one task serves the witnesses.
\<close>

subsection \<open>A sample queue\<close>

definition sample_scope :: scope_row where
  "sample_scope = \<lparr> sco_id = 1, sco_entity = ''acme'', sco_pool = ''dev'', sco_revision = 1, sco_epoch = 1,
     sco_next_sequence = 1, sco_lease_token = [], sco_lease_until = None, sco_paused = False \<rparr>"

definition sample_task :: task_row where
  "sample_task = \<lparr> tsk_id = 2, tsk_scope = 1, tsk_mode = Simulate, tsk_status = TaPending, tsk_generation = 1,
     tsk_key = ''k1'', tsk_input_hash = ''h'', tsk_members = [7], tsk_request = None, tsk_pin = None,
     tsk_token = [], tsk_lease_until = None, tsk_error = [], tsk_progress = [], tsk_created_by = None,
     tsk_automatic = False, tsk_version = ''v1'', tsk_namespace = ''n1'' \<rparr>"

definition sample_queue :: db where
  "sample_queue = empty_db\<lparr>db_next := 3, db_scopes := [sample_scope], db_tasks := [sample_task]\<rparr>"

definition sample_entropy :: entropy where
  "sample_entropy = \<lparr> ent_key = ''k2'', ent_namespace = ''n2'', ent_fence = ''f2'' \<rparr>"

definition sample_env :: platform_env where
  "sample_env = \<lparr> env_fingerprint = (\<lambda>_. ''h''), env_tag_hash = (\<lambda>_. ''h''), env_snapshot_hash = (\<lambda>_. ''h''),
     env_lower_trim = (\<lambda>s. s), env_changes = (\<lambda>_ _. 0), env_request_ok = (\<lambda>_. True),
     env_response_ok = (\<lambda>_. True), env_users = (\<lambda>_. None) \<rparr>"

definition leased_scope_row :: scope_row where
  "leased_scope_row = sample_scope\<lparr>sco_lease_token := ''f2'', sco_lease_until := Some lease_seconds\<rparr>"

definition leased_task_row :: task_row where
  "leased_task_row = sample_task\<lparr>tsk_status := TaRunning, tsk_token := ''f2'', tsk_lease_until := Some lease_seconds\<rparr>"

definition leased_queue :: db where
  "leased_queue = sample_queue\<lparr>db_scopes := [leased_scope_row], db_tasks := [leased_task_row]\<rparr>"

lemmas sample_defs = sample_scope_def sample_task_def sample_queue_def sample_entropy_def sample_env_def
  leased_scope_row_def leased_task_row_def leased_queue_def empty_db_def lease_seconds_def second_def

lemma sample_claim:
  "claimAllocation (\<lambda>_. ''h'') (env_changes sample_env) sample_entropy (\<lambda>_. False) 0 sample_queue
     = (Inr (leased_scope_row, leased_task_row), leased_queue)"
  by code_simp

lemma sample_ok: "queue_ok sample_queue" "work_ok sample_queue" "fresh_entropy sample_entropy sample_queue"
  by code_simp+

lemma leased_ok: "queue_ok leased_queue"
  by code_simp

lemma sample_run: "queue_run sample_env (\<lambda>_. ''h'') [''f2''] sample_queue leased_queue"
proof -
  have "queue_step sample_env (\<lambda>_. ''h'') [ent_fence sample_entropy] sample_queue leased_queue"
    using sample_ok(3) sample_claim by (rule queue_step.claim)
  then show ?thesis
    using queue_run.there [OF queue_run.here] by (fastforce simp: sample_entropy_def)
qed

lemma sample_lease: "lease_held 5 leased_scope_row leased_task_row leased_queue"
  unfolding lease_held_iff by code_simp

subsection \<open>The invariant\<close>

text \<open>C12. Every run of the queue's operations, in any order and with any other handler in between, keeps
  the invariant of the queue: unique keys, at most one active work item per qualification, tokens
  that belong to one task, and running tasks that hold the lease of their scope.\<close>

theorem queue_invariant:
  assumes "queue_run env fp fences a b" and "queue_ok a" and "work_ok a"
  shows "queue_ok b \<and> work_ok b"
  using assms queue_run_ok queue_run_work by blast

theorem queue_invariant_witness: "queue_ok leased_queue \<and> work_ok leased_queue"
  using queue_invariant [OF sample_run sample_ok(1,2)] .

text \<open>C28. A task restarts at most three times: in every state a run reaches, its generation is between 1
  and 4, and a task that is pending or running is in generation 3 at most.\<close>

theorem generations_bounded:
  assumes "queue_run env fp fences a b" and "queue_ok a" and "t \<in> set (db_tasks b)"
  shows "1 \<le> tsk_generation t \<and> tsk_generation t \<le> 4
    \<and> (tsk_status t \<in> {TaPending, TaRunning} \<longrightarrow> tsk_generation t \<le> 3)"
  using queue_okD(3) [OF queue_run_ok [OF assms(1,2)] assms(3)] by (auto simp: task_ok_def split: if_splits)

theorem generations_bounded_witness: "leased_task_row \<in> set (db_tasks leased_queue) \<and> tsk_generation leased_task_row \<le> 3"
proof -
  have "leased_task_row \<in> set (db_tasks leased_queue)" "tsk_status leased_task_row = TaRunning"
    by (simp_all add: leased_queue_def leased_task_row_def)
  then show ?thesis using generations_bounded [OF sample_run sample_ok(1), of leased_task_row] by simp
qed

subsection \<open>The lease\<close>

text \<open>C13. Two workers that both pass the lease check of the same scope, at whatever times, are one: the
  same task in the same generation with the same fence.\<close>

theorem single_worker:
  assumes "queue_run env fp fences a b" and "queue_ok a"
    and "lease_held now s t b" and "lease_held now' s' t' b" and "sco_id s = sco_id s'"
  shows "tsk_id t = tsk_id t' \<and> tsk_generation t = tsk_generation t' \<and> tsk_token t = tsk_token t'"
  using lease_exclusive [OF queue_run_ok [OF assms(1,2)] assms(3-5)] .

theorem single_worker_witness:
  "lease_held 5 leased_scope_row leased_task_row leased_queue \<and> tsk_token leased_task_row = tsk_token leased_task_row"
  using single_worker [OF sample_run sample_ok(1) sample_lease sample_lease refl] sample_lease by blast

text \<open>A worker that has lost its lease never holds it again, whatever the queue does and however late
  the check, as long as no later claim draws the worker's token.\<close>

theorem lost_lease_stays_lost:
  assumes "queue_run env fp fences a b" and "tsk_token t \<notin> set fences" and "tsk_token t \<noteq> []"
    and "\<not> lease_held now s t a" and "now \<le> now'"
  shows "\<not> lease_held now' s t b
    \<and> lockAllocationLease now' s t b = Inl (TaskError ''allocation_lease_lost'')"
proof -
  have "fenced (tsk_token t) a b"
    using queue_run_relation [OF assms(1) fence.queue_relation_axioms, of "tsk_token t"] assms(2) by metis
  then have "lease_held now' s t b \<Longrightarrow> lease_held now' s t a" using assms(3) by (simp add: fenced_def)
  then have "\<not> lease_held now' s t b" using lease_held_earlier assms(4,5) by blast
  then show ?thesis by (simp add: lock_fails)
qed

theorem lost_lease_stays_lost_witness:
  "\<not> lease_held 9 sample_scope (sample_task\<lparr>tsk_token := ''old''\<rparr>) leased_queue"
proof -
  have "\<not> lease_held 5 sample_scope (sample_task\<lparr>tsk_token := ''old''\<rparr>) sample_queue"
    unfolding lease_held_iff by code_simp
  then show ?thesis
    using lost_lease_stays_lost [OF sample_run, of "sample_task\<lparr>tsk_token := ''old''\<rparr>" 5 sample_scope 9]
    by (simp add: sample_task_def)
qed

text \<open>A successful claim returns a running task of the claimed scope, in one of its three attempts,
  whose lease check passes for the next 90 seconds and for no longer.\<close>

theorem claim_gives_lease:
  assumes "claimAllocation fp changes ent locked now a = (Inr (s, t), b)" and "queue_ok a"
    and "fresh_entropy ent a"
  shows "tsk_status t = TaRunning \<and> tsk_scope t = sco_id s \<and> tsk_generation t \<le> 3 \<and> \<not> locked (sco_id s)
    \<and> (\<forall>later. lease_held later s t b \<longleftrightarrow> later < now + lease_seconds)"
proof -
  note c = claim_starts [OF assms]
  have okb: "queue_ok b" using queue_ok_claim [OF assms(1,2,3)] .
  have "lease_held later s t b \<longleftrightarrow> later < now + lease_seconds" for later
  proof
    assume "later < now + lease_seconds"
    then show "lease_held later s t b"
      using c unfolding lease_held_iff leases_def runs_def by force
  next
    assume "lease_held later s t b"
    then obtain c' where c': "c' \<in> set (db_scopes b)" "leases later s t c'" unfolding lease_held_iff by blast
    have "s \<in> set (db_scopes b)" using c by blast
    then have "c' = s"
      using distinct_key_unique [OF queue_okD(2) [OF okb] c'(1)] c'(2) by (simp add: leases_def)
    then show "later < now + lease_seconds" using c' c by (simp add: leases_def)
  qed
  then show ?thesis using c by blast
qed

theorem claim_gives_lease_witness:
  "lease_held 89 leased_scope_row leased_task_row leased_queue \<and>
   \<not> lease_held (90 * second) leased_scope_row leased_task_row leased_queue"
  using claim_gives_lease [OF sample_claim sample_ok(1,3)] by (simp add: lease_seconds_def second_def)

subsection \<open>Idempotent creation\<close>

lemma first_where_append:
  "first_where p (rs @ qs) = (case first_where p rs of None \<Rightarrow> first_where p qs | Some r \<Rightarrow> Some r)"
  by (induction rs) simp_all

text \<open>Creating a task is idempotent: repeating the request under its key returns the task of the first
  call and changes nothing, and the key is refused for a request that hashes differently.\<close>

theorem creation_is_idempotent:
  assumes "createAllocationTask fp ent s ids mode key p auto ver a = Inr (t, b)" and "key \<noteq> []"
  shows "createAllocationTask fp ent' s ids mode key p auto' ver b = Inr (t, b)
    \<and> (fp (sco_id s, ids', mode', ver') \<noteq> fp (sco_id s, ids, mode, ver) \<longrightarrow>
        (\<exists>e. createAllocationTask fp ent' s ids' mode' key p auto' ver' b = Inl e))"
proof -
  let ?hash = "fp (sco_id s, ids, mode, ver)"
  have input: "\<not> (sco_paused s \<and> mode \<noteq> ''simulate'')" "ids \<noteq> []" "\<not> 100 < length ids"
      "contains [''simulate'', ''execute''] mode" "\<not> 128 < length key"
    using assms by (auto simp: createAllocationTask_def Let_def split: if_split_asm)
  have row: "first_where (\<lambda>t. tsk_key t = key) (db_tasks b) = Some t \<and> tsk_input_hash t = ?hash
      \<and> actor_number (tsk_created_by t) = actor_number (map_option pri_user p)"
  proof (cases "first_where (\<lambda>t. tsk_key t = key) (db_tasks a)")
    case (Some u)
    then have "t = u" "b = a" "tsk_input_hash u = ?hash"
        "actor_number (tsk_created_by u) = actor_number (map_option pri_user p)"
      using assms input by (auto simp: createAllocationTask_def split: if_split_asm)
    then show ?thesis using Some by simp
  next
    case None
    let ?t = "new_task ent s ids mode key ?hash p auto ver a"
    have b: "t = ?t" "b = insert_task ?t mode ids a"
      using assms input None by (auto simp: createAllocationTask_def Let_def)
    have "untouched (a\<lparr>db_tasks := db_tasks a @ [?t], db_next := db_next a + 1\<rparr>) b"
      unfolding b(2) insert_task_def Let_def
      by (auto simp: calm.refl adopt_work_def intro: calm.trans [OF untouched_queue_members untouched_work(3)])
    then have tasks: "db_tasks b = db_tasks a @ [t]" using b(1) by (simp add: untouched_def)
    have "tsk_key t = key" "tsk_input_hash t = ?hash" "tsk_created_by t = map_option pri_user p"
      by (simp_all add: b(1) new_task_def)
    then show ?thesis using None tasks by (simp add: first_where_append)
  qed
  then show ?thesis using input assms(2) by (simp add: createAllocationTask_def Let_def)
qed

theorem creation_is_idempotent_witness:
  "\<exists>t b. createAllocationTask (\<lambda>(_, _, m, _). m) sample_entropy sample_scope [7] ''simulate'' ''k9'' None True ''v1''
        sample_queue = Inr (t, b)
      \<and> createAllocationTask (\<lambda>(_, _, m, _). m) sample_entropy sample_scope [7] ''simulate'' ''k9'' None False ''v1''
        b = Inr (t, b)
      \<and> (\<exists>e. createAllocationTask (\<lambda>(_, _, m, _). m) sample_entropy sample_scope [7] ''execute'' ''k9'' None False ''v1''
        b = Inl e)"
proof -
  obtain t b where c: "createAllocationTask (\<lambda>(_, _, m, _). m) sample_entropy sample_scope [7] ''simulate'' ''k9'' None
      True ''v1'' sample_queue = Inr (t, b)"
    by (simp add: createAllocationTask_def Let_def sample_queue_def sample_task_def sample_scope_def)
  have "''k9'' \<noteq> []" by simp
  from creation_is_idempotent [OF c this, of sample_entropy False "[7]" "''execute''" "''v1''"] c
  show ?thesis by fastforce
qed

subsection \<open>Failure\<close>

text \<open>C20. A failed task whose worker lost its lease is left to the next claim: nothing changes. While the
  lease is held, the failure ends the run, frees the scope and every work item the task had leased;
  a stale snapshot (or a serialization conflict) starts the task over in a new generation, in its
  third generation and for any other cause the task fails with the code of the error.\<close>

theorem failure_outcome:
  assumes ok: "queue_ok a" and b: "b = finishAllocationFailure now s t cause conflict a"
    and code: "code = (if conflict then ''allocation_snapshot_stale'' else failure_code cause)"
  shows "(\<not> lease_held now s t a \<longrightarrow> b = a)
    \<and> (lease_held now s t a \<longrightarrow>
        (\<forall>later s'. \<not> lease_held later s' t b)
        \<and> (\<exists>r \<in> set (db_tasks b). tsk_id r = tsk_id t \<and> tsk_token r = [] \<and> tsk_error r = code
             \<and> (if code = ''allocation_snapshot_stale'' \<and> tsk_generation t < 3
                then tsk_status r = TaPending \<and> tsk_generation r = tsk_generation t + 1
                else tsk_status r = TaFailed \<and> tsk_generation r = tsk_generation t))
        \<and> (\<forall>i \<in> set (db_work b). wrk_task i = Some (tsk_id t) \<longrightarrow> wrk_status i \<noteq> WiLeased))"
proof (cases "lockAllocationLease now s t a")
  case (Inl e)
  then show ?thesis using b by (simp add: lease_held_def finishAllocationFailure_def)
next
  case (Inr c)
  then have held: "lease_held now s t a" by (simp add: lease_held_def)
  obtain r where r: "r \<in> set (db_tasks a)" "runs t r" using lockAllocationLease_Inr [OF Inr] by blast
  let ?again = "code = ''allocation_snapshot_stale'' \<and> tsk_generation t < 3"
  let ?g = "\<lambda>r. r\<lparr>tsk_status := if ?again then TaPending else TaFailed, tsk_error := code,
    tsk_generation := tsk_generation t + (if ?again then 1 else 0), tsk_token := [],
    tsk_lease_until := None, tsk_request := None\<rparr>"
  have tasks: "db_tasks b = update_where (\<lambda>r. tsk_id r = tsk_id t) ?g (db_tasks a)"
    using b Inr by (simp add: finishAllocationFailure_def Let_def code [symmetric] releaseAllocationLease_def
        update_work_def update_plan_def update_task_def)
  have work: "db_work b = update_where (\<lambda>i. wrk_task i = Some (tsk_id t) \<and> wrk_status i = WiLeased)
      (\<lambda>i. i\<lparr>wrk_status := if ?again then WiPending else WiFailed, wrk_reason := code\<rparr>) (db_work a)"
    using b Inr by (simp add: finishAllocationFailure_def Let_def code [symmetric] releaseAllocationLease_def
        update_work_def update_plan_def update_task_def)
  have "?g r \<in> set (db_tasks b)" unfolding tasks using r by (auto simp: update_where_def runs_def)
  then have row: "\<exists>r \<in> set (db_tasks b). tsk_id r = tsk_id t \<and> tsk_token r = [] \<and> tsk_error r = code
      \<and> (if ?again then tsk_status r = TaPending \<and> tsk_generation r = tsk_generation t + 1
         else tsk_status r = TaFailed \<and> tsk_generation r = tsk_generation t)"
    by (rule rev_bexI) (use r in \<open>simp add: runs_def\<close>)
  have lost: "\<not> lease_held later s' t b" for later s'
  proof
    assume "lease_held later s' t b"
    then obtain u where "u \<in> set (db_tasks b)" "runs t u" unfolding lease_held_iff by blast
    then show False unfolding tasks by (elim update_whereE) (auto simp: runs_def split: if_split_asm)
  qed
  have "\<forall>i \<in> set (db_work b). wrk_task i = Some (tsk_id t) \<longrightarrow> wrk_status i \<noteq> WiLeased"
    unfolding work by (auto elim!: update_whereE split: if_split_asm)
  then show ?thesis using held row lost by simp
qed

theorem failure_outcome_witness:
  "\<exists>r \<in> set (db_tasks (finishAllocationFailure 5 leased_scope_row leased_task_row (TaskError ''x'') True leased_queue)).
     tsk_status r = TaPending \<and> tsk_generation r = 2"
  using failure_outcome [OF leased_ok refl refl, of 5 leased_scope_row leased_task_row "TaskError ''x''" True] sample_lease
  by (auto simp: leased_task_row_def sample_task_def)

end
