(* ===== verification/AllocationReplay.thy ===== *)
theory AllocationReplay
  imports AllocationPlan
begin

text \<open>The plan read from its frozen snapshot: the canonical form that is hashed, the plan's independence
  of the order in which the rows were read, and what the hash of the snapshot determines.\<close>

subsection \<open>The plan depends on the canonical snapshot only\<close>

definition well_keyed :: "alloc_snapshot \<Rightarrow> bool" where
  "well_keyed s \<longleftrightarrow> distinct (map am_id (as_members s)) \<and> distinct (map ad_id (as_demands s))
     \<and> (\<forall>m \<in> set (as_members s). distinct (map at_code (am_tags m)))"

lemma tag_refs_eq:
  assumes "distinct (map at_code ts)"
  shows "tag_refs ts c =
    (if \<exists>t \<in> set ts. usable_tag t \<and> at_code t = c
     then at_ref (THE t. t \<in> set ts \<and> usable_tag t \<and> at_code t = c) else [])"
proof (cases "\<exists>t \<in> set ts. usable_tag t \<and> at_code t = c")
  case False
  then have "fold (\<lambda>t f. if usable_tag t then f(at_code t := at_ref t) else f) ts g c = g c" for g
    by (induction ts arbitrary: g) auto
  then have "tag_refs ts c = []" by (simp add: tag_refs_def)
  then show ?thesis by (simp only: False if_False)
next
  case True
  then obtain t where t: "t \<in> set ts" "usable_tag t" "at_code t = c" by auto
  have later: "c \<notin> at_code ` set us \<Longrightarrow>
      fold (\<lambda>t f. if usable_tag t then f(at_code t := at_ref t) else f) us g c = g c" for us g
    by (induction us arbitrary: g) auto
  have "fold (\<lambda>t f. if usable_tag t then f(at_code t := at_ref t) else f) ts g c = at_ref t" for g
    using assms t
  proof (induction ts arbitrary: g)
    case Nil
    then show ?case by simp
  next
    case (Cons u us)
    then show ?case by (cases "u = t") (auto simp: later image_iff)
  qed
  moreover have "(THE t. t \<in> set ts \<and> usable_tag t \<and> at_code t = c) = t"
    using t assms by (auto intro!: the_equality dest: distinct_key_unique)
  ultimately show ?thesis by (simp only: True if_True tag_refs_def)
qed

lemma tag_refs_permute:
  assumes "distinct (map at_code ts)" and "mset ts = mset us"
  shows "tag_refs ts = tag_refs us"
proof
  fix c
  have same: "set ts = set us" using assms(2) by (rule mset_eq_setD)
  have dist: "distinct (map at_code us)"
    using assms by (metis mset_eq_imp_distinct_iff mset_map)
  show "tag_refs ts c = tag_refs us c"
    by (simp only: tag_refs_eq [OF assms(1)] tag_refs_eq [OF dist] same)
qed

lemma demand_map_eq:
  assumes "distinct (map ad_id ds)" and "d \<in> set ds"
  shows "demand_map f ds (ad_id d) = f d"
proof -
  have later: "k \<notin> ad_id ` set es \<Longrightarrow> fold (\<lambda>d g. g(ad_id d := f d)) es h k = h k" for es h k
    by (induction es arbitrary: h) auto
  have "fold (\<lambda>d g. g(ad_id d := f d)) ds h (ad_id d) = f d" for h
    using assms by (induction ds arbitrary: h) (auto simp: later)
  then show ?thesis by (simp add: demand_map_def)
qed

lemma demand_map_other: "k \<notin> ad_id ` set ds \<Longrightarrow> demand_map f ds k = 0"
proof -
  have "k \<notin> ad_id ` set es \<Longrightarrow> fold (\<lambda>d g. g(ad_id d := f d)) es h k = h k" for es h
    by (induction es arbitrary: h) auto
  then show "k \<notin> ad_id ` set ds \<Longrightarrow> demand_map f ds k = 0" by (simp add: demand_map_def)
qed

lemma demand_map_canonical:
  assumes "distinct (map ad_id ds)" and "\<And>d. f (canonical_demand d) = f d"
  shows "demand_map f (map canonical_demand (sort_key ad_id ds)) = demand_map f ds"
proof
  fix k
  let ?es = "map canonical_demand (sort_key ad_id ds)"
  have ids: "ad_id (canonical_demand d) = ad_id d" for d by (simp add: canonical_demand_def)
  have "distinct (map ad_id (sort_key ad_id ds))"
    using assms(1) by (metis distinct_map distinct_sort set_sort)
  then have dist: "distinct (map ad_id ?es)" by (simp add: o_def ids)
  show "demand_map f ?es k = demand_map f ds k"
  proof (cases "k \<in> ad_id ` set ds")
    case True
    then obtain d where d: "d \<in> set ds" "k = ad_id d" by auto
    then have "canonical_demand d \<in> set ?es" by auto
    from demand_map_eq [OF dist this, of f] d show ?thesis
      by (simp add: ids assms demand_map_eq)
  next
    case False
    moreover have "k \<notin> ad_id ` set ?es" using False by (auto simp: ids)
    ultimately show ?thesis by (simp add: demand_map_other)
  qed
qed

lemma matched_tags_canonical [simp]: "matched_tags tags (canonical_demand d) = matched_tags tags d"
proof -
  let ?xs = "sort (ad_required d) @ filter (\<lambda>c. tags c \<noteq> []) (sort (ad_preferred d))"
  let ?ys = "ad_required d @ filter (\<lambda>c. tags c \<noteq> []) (ad_preferred d)"
  have "set (remdups ?xs) = set (remdups ?ys)" by simp
  then have "mset (remdups ?xs) = mset (remdups ?ys)"
    using set_eq_iff_mset_eq_distinct [of "remdups ?xs" "remdups ?ys"] by (simp del: set_remdups)
  then have "sort (remdups ?xs) = sort (remdups ?ys)" by (rule sort_permute)
  then show ?thesis by (simp add: matched_tags_def canonical_demand_def)
qed

lemma preferred_hits_canonical [simp]: "preferred_hits tags (canonical_demand d) = preferred_hits tags d"
proof -
  have "length (filter (\<lambda>c. tags c \<noteq> []) (sort (ad_preferred d))) =
      length (filter (\<lambda>c. tags c \<noteq> []) (ad_preferred d))"
    by (metis mset_filter mset_sort size_mset)
  then show ?thesis by (simp add: preferred_hits_def canonical_demand_def)
qed

lemma canonical_demand_simps [simp]:
  "ad_id (canonical_demand d) = ad_id d"
  "ad_priority (canonical_demand d) = ad_priority d"
  "ad_department_ref (canonical_demand d) = ad_department_ref d"
  "ad_reception_state (canonical_demand d) = ad_reception_state d"
  "tags_suffice tags (canonical_demand d) = tags_suffice tags d"
  "demand_rank tags counts last_seq (canonical_demand d) = demand_rank tags counts last_seq d"
  by (simp_all add: tags_suffice_def demand_rank_def)
     (simp_all add: canonical_demand_def list_all_iff)

lemma open_demand_canonical [simp]:
  "open_demand (canonical_member m) (canonical_demand d) = open_demand m d"
  by (simp add: open_demand_def canonical_member_def)

lemma placeable_canonical [simp]:
  "placeable (canonical_member m) tags (canonical_demand d) = placeable m tags d"
  by (simp add: placeable_def)

lemma chosen_canonical:
  "chosen (canonical_member m) tags counts last_seq (map canonical_demand ds) =
     map_option canonical_demand (chosen m tags counts last_seq ds)"
  by (induction ds rule: rev_induct)
     (auto simp: demand_choice.pick_Nil demand_choice.pick_snoc split: option.splits)

lemma inj_on_demand_rank:
  "distinct (map ad_id ds) \<Longrightarrow> inj_on (demand_rank tags counts last_seq) (set ds)"
  by (auto intro!: inj_onI simp: demand_rank_def dest: distinct_key_unique)

lemma sort_eq_Nil [simp]: "sort xs = [] \<longleftrightarrow> xs = []"
  by (metis set_empty set_sort)

lemma decide_canonical:
  assumes "distinct (map ad_id ds)" and "distinct (map at_code (am_tags m))"
  shows "decide (map canonical_demand (sort_key ad_id ds)) counts last_seq seq (canonical_member m)
    = decide ds counts last_seq seq m"
proof -
  have tags: "member_tags (canonical_member m) = member_tags m"
    using tag_refs_permute [OF assms(2), of "sort_key at_code (am_tags m)"]
    by (simp add: canonical_member_def)
  have perm: "chosen m tags counts last_seq (sort_key ad_id ds) = chosen m tags counts last_seq ds"
    for tags
    by (rule demand_choice.pick_permute) (simp_all add: inj_on_demand_rank assms(1))
  have wait: "waiting_decision (canonical_member m) (map canonical_demand (sort_key ad_id ds))
      = waiting_decision m ds"
    by (auto simp: waiting_decision_def initial_decision_def) (auto simp: canonical_member_def)
  have assign: "assign_decision (canonical_member m) tg seq order (canonical_demand d)
      = assign_decision m tg seq order d" for tg order d
    by (simp add: assign_decision_def) (simp add: canonical_member_def)
  show ?thesis
    by (auto simp: decide_eq tags chosen_canonical perm wait assign split: option.splits)
qed

lemma allocate_canonical:
  assumes "distinct (map ad_id ds)" and "\<forall>m \<in> set ms. distinct (map at_code (am_tags m))"
  shows "allocate (map canonical_demand (sort_key ad_id ds)) counts last_seq seq
      (map canonical_member ms) = allocate ds counts last_seq seq ms"
  using assms(2)
proof (induction ms arbitrary: counts last_seq seq)
  case Nil
  then show ?case by simp
next
  case (Cons m ms)
  have d: "decide (map canonical_demand (sort_key ad_id ds)) counts last_seq seq (canonical_member m)
      = decide ds counts last_seq seq m"
    using Cons.prems assms(1) by (simp add: decide_canonical)
  have "set (am_counted (canonical_member m)) = set (am_counted m)"
    by (simp add: canonical_member_def)
  then show ?case using Cons by (simp add: d Let_def)
qed

lemma sort_key_map_same:
  "(\<And>x. f (g x) = f x) \<Longrightarrow> sort_key f (map g xs) = map g (sort_key f xs)"
proof (induction xs)
  case Nil
  then show ?case by simp
next
  case (Cons x xs)
  have "map g (insort_key f x ys) = insort_key f (g x) (map g ys)" for ys
    by (induction ys) (auto simp: Cons.prems)
  then show ?case using Cons by simp
qed

lemma expectedAllocation_canonical:
  assumes "well_keyed s"
  shows "expectedAllocation (canonical_snapshot s) = expectedAllocation s"
proof -
  let ?ms = "as_members s" and ?ds = "as_demands s"
  have k: "member_key (canonical_member m) = member_key m" for m
    by (simp add: member_key_def canonical_member_def)
  have "inj_on member_key (set (sort_key am_id ?ms))"
    using assms by (auto simp: well_keyed_def member_key_def intro!: inj_onI dest: distinct_key_unique)
  then have "sort_key member_key (sort_key am_id ?ms) = sort_key member_key ?ms"
    by (intro sort_key_permute) auto
  then have order: "allocation_order (map canonical_member (sort_key am_id ?ms))
      = map canonical_member (allocation_order ?ms)"
    by (simp add: allocation_order_def sort_key_map_same k)
  have maps: "demand_map ad_recent_supply (map canonical_demand (sort_key ad_id ?ds))
        = demand_map ad_recent_supply ?ds"
      "demand_map ad_last_sequence (map canonical_demand (sort_key ad_id ?ds))
        = demand_map ad_last_sequence ?ds"
    using assms by (auto simp: well_keyed_def canonical_demand_def intro!: demand_map_canonical)
  show ?thesis
    using assms
    by (simp add: expectedAllocation_def canonical_snapshot_def order maps well_keyed_def
        allocate_canonical) (simp add: allocate_canonical allocation_order_def)
qed

subsection \<open>Two snapshots that agree up to the order of their rows\<close>

text \<open>Rows match when they hold the same values, the lists inside a row (the tags of a member, its
  mapped and counted demands, the tag codes of a demand) being read in any order.\<close>

definition same_member :: "alloc_member \<Rightarrow> alloc_member \<Rightarrow> bool" where
  "same_member m n \<longleftrightarrow> mset (am_tags m) = mset (am_tags n)
     \<and> mset (am_allowed m) = mset (am_allowed n) \<and> mset (am_counted m) = mset (am_counted n)
     \<and> n\<lparr>am_tags := [], am_allowed := [], am_counted := []\<rparr>
         = m\<lparr>am_tags := [], am_allowed := [], am_counted := []\<rparr>"

definition same_demand :: "alloc_demand \<Rightarrow> alloc_demand \<Rightarrow> bool" where
  "same_demand d e \<longleftrightarrow> mset (ad_required d) = mset (ad_required e)
     \<and> mset (ad_preferred d) = mset (ad_preferred e)
     \<and> e\<lparr>ad_required := [], ad_preferred := []\<rparr> = d\<lparr>ad_required := [], ad_preferred := []\<rparr>"

definition permuted_rows :: "('a \<Rightarrow> 'a \<Rightarrow> bool) \<Rightarrow> 'a list \<Rightarrow> 'a list \<Rightarrow> bool" where
  "permuted_rows R xs ys \<longleftrightarrow> (\<exists>zs. mset zs = mset ys \<and> list_all2 R xs zs)"

definition same_rows :: "alloc_snapshot \<Rightarrow> alloc_snapshot \<Rightarrow> bool" where
  "same_rows s t \<longleftrightarrow> permuted_rows same_member (as_members s) (as_members t)
     \<and> permuted_rows same_demand (as_demands s) (as_demands t)
     \<and> t\<lparr>as_members := [], as_demands := []\<rparr> = s\<lparr>as_members := [], as_demands := []\<rparr>"

lemma same_member_canonical:
  assumes "same_member m n" and "distinct (map at_code (am_tags m))"
  shows "canonical_member n = canonical_member m"
proof -
  have "sort_key at_code (am_tags m) = sort_key at_code (am_tags n)"
    using assms by (intro sort_key_permute) (auto simp: same_member_def distinct_map)
  moreover have "sort (am_allowed m) = sort (am_allowed n)" "sort (am_counted m) = sort (am_counted n)"
    using assms(1) by (auto simp: same_member_def intro!: sort_permute)
  ultimately show ?thesis
    using assms(1) by (cases m; cases n) (simp add: canonical_member_def same_member_def)
qed

lemma same_demand_canonical: "same_demand d e \<Longrightarrow> canonical_demand e = canonical_demand d"
  by (cases d; cases e)
    (simp add: canonical_demand_def same_demand_def sort_permute [of "ad_required d" "ad_required e"]
      sort_permute [of "ad_preferred d" "ad_preferred e"], auto intro!: sort_permute)

lemma permuted_rows_canonical:
  fixes key :: "'a \<Rightarrow> int"
  assumes "permuted_rows R xs ys" and "distinct (map key xs)"
    and "\<And>x y. R x y \<Longrightarrow> x \<in> set xs \<Longrightarrow> g y = g x" and "\<And>x. key (g x) = key x"
  shows "map g (sort_key key ys) = map g (sort_key key xs)" and "distinct (map key ys)"
    and "\<forall>y \<in> set ys. \<exists>x \<in> set xs. R x y"
proof -
  obtain zs where zs: "mset zs = mset ys" "list_all2 R xs zs"
    using assms(1) by (auto simp: permuted_rows_def)
  have same: "map g zs = map g xs"
    using zs(2) assms(3) by (auto simp: list_all2_conv_all_nth intro!: nth_equalityI)
  then have "map key zs = map key xs"
    using assms(4) by (metis (no_types, lifting) list.map_comp comp_apply map_eq_conv)
  then have dz: "distinct (map key zs)" using assms(2) by simp
  then show "distinct (map key ys)"
    using zs(1) by (metis mset_eq_imp_distinct_iff mset_map)
  have "sort_key key zs = sort_key key ys"
    using zs(1) dz by (intro sort_key_permute) (auto simp: distinct_map)
  then show "map g (sort_key key ys) = map g (sort_key key xs)"
    using same assms(4) by (metis sort_key_map_same)
  show "\<forall>y \<in> set ys. \<exists>x \<in> set xs. R x y"
    using zs(2) unfolding mset_eq_setD [OF zs(1), symmetric]
    by (metis in_set_conv_nth list_all2_conv_all_nth)
qed

lemma same_rows_members:
  assumes "same_rows s t" and "well_keyed s"
  shows "map canonical_member (sort_key am_id (as_members t))
      = map canonical_member (sort_key am_id (as_members s))"
    and "distinct (map am_id (as_members t))"
    and "\<forall>n \<in> set (as_members t). distinct (map at_code (am_tags n))"
proof -
  have p: "permuted_rows same_member (as_members s) (as_members t)"
      and d: "distinct (map am_id (as_members s))"
      and c: "\<forall>m \<in> set (as_members s). distinct (map at_code (am_tags m))"
    using assms by (simp_all add: same_rows_def well_keyed_def)
  have k: "am_id (canonical_member m) = am_id m" for m by (simp add: canonical_member_def)
  note rows = permuted_rows_canonical [OF p d, of canonical_member]
  show "map canonical_member (sort_key am_id (as_members t))
      = map canonical_member (sort_key am_id (as_members s))"
    by (rule rows(1)) (auto simp: k c intro!: same_member_canonical)
  show "distinct (map am_id (as_members t))"
    by (rule rows(2)) (auto simp: k c intro!: same_member_canonical)
  have "\<forall>n \<in> set (as_members t). \<exists>m \<in> set (as_members s). same_member m n"
    by (rule rows(3)) (auto simp: k c intro!: same_member_canonical)
  then show "\<forall>n \<in> set (as_members t). distinct (map at_code (am_tags n))"
    using c by (metis mset_eq_imp_distinct_iff mset_map same_member_def)
qed

lemma same_rows_demands:
  assumes "same_rows s t" and "well_keyed s"
  shows "map canonical_demand (sort_key ad_id (as_demands t))
      = map canonical_demand (sort_key ad_id (as_demands s))"
    and "distinct (map ad_id (as_demands t))"
proof -
  have p: "permuted_rows same_demand (as_demands s) (as_demands t)"
      and d: "distinct (map ad_id (as_demands s))"
    using assms by (simp_all add: same_rows_def well_keyed_def)
  note rows = permuted_rows_canonical [OF p d, of canonical_demand]
  show "map canonical_demand (sort_key ad_id (as_demands t))
      = map canonical_demand (sort_key ad_id (as_demands s))"
    by (rule rows(1)) (auto intro!: same_demand_canonical)
  show "distinct (map ad_id (as_demands t))"
    by (rule rows(2)) (auto intro!: same_demand_canonical)
qed

lemma same_rows_well_keyed: "same_rows s t \<Longrightarrow> well_keyed s \<Longrightarrow> well_keyed t"
  using same_rows_members [of s t] same_rows_demands [of s t] by (simp add: well_keyed_def)

lemma same_rows_canonical:
  assumes "same_rows s t" and "well_keyed s"
  shows "canonical_snapshot s = canonical_snapshot t"
  using assms(1) same_rows_members(1) [OF assms] same_rows_demands(1) [OF assms]
  by (cases s; cases t) (simp add: canonical_snapshot_def same_rows_def)

lemma permuted_rowsI: "mset zs = mset ys \<Longrightarrow> list_all2 R xs zs \<Longrightarrow> permuted_rows R xs ys"
  by (auto simp: permuted_rows_def)

lemma permuted_rows_rev: "(\<And>x. R x x) \<Longrightarrow> permuted_rows R xs (rev xs)"
  by (rule permuted_rowsI [of xs]) (simp_all add: list_all2_refl)

lemma same_row_refl [simp]: "same_member m m" "same_demand d d"
  by (simp_all add: same_member_def same_demand_def)

subsection \<open>A small snapshot\<close>

definition sample_tag :: "string \<Rightarrow> alloc_tag" where
  "sample_tag c = \<lparr> at_code = c, at_status = ''supported'', at_bps = 9000, at_source = ''model'',
     at_ref = ''a-'' @ c, at_verified = True \<rparr>"

definition sample_member :: "int \<Rightarrow> alloc_tag list \<Rightarrow> alloc_member" where
  "sample_member i ts = \<lparr> am_id = i, am_candidate_ref = ''c'', am_application_ref = ''p'',
     am_qualification_ref = ''q'', am_qualification_revision = 1, am_member_revision = 1,
     am_workflow_revision = 1, am_source_revision = 1, am_standard_ref = ''s'', am_standard_hash = ''h'',
     am_tags_hash = ''t'', am_admitted = True, am_created_at = ''2024-01-02T03:04:05Z'',
     am_tags = ts, am_allowed = [5, 7], am_counted = [] \<rparr>"

definition sample_demand :: "int \<Rightarrow> int \<Rightarrow> alloc_demand" where
  "sample_demand i prio = \<lparr> ad_id = i, ad_department_ref = ''d'', ad_revision = 1,
     ad_reception_state = ''receiving'', ad_required = [''go''], ad_preferred = [''sql''],
     ad_priority = prio, ad_recent_supply = 0, ad_last_sequence = 0 \<rparr>"

definition sample_snapshot :: alloc_snapshot where
  "sample_snapshot = \<lparr> as_id = ''s'', as_at = ''2024-01-03T00:00:00Z'', as_scope_ref = ''sc'',
     as_entity_ref = ''e'', as_pool_ref = ''pool'', as_scope_revision = 1, as_policy_revision = 1,
     as_epoch = 1, as_next_sequence = 4, as_window_seconds = 3600,
     as_members = [sample_member 1 [sample_tag ''go''], sample_member 2 []],
     as_demands = [sample_demand 5 2, sample_demand 7 1] \<rparr>"

definition sample_pin :: alloc_pin where
  "sample_pin = \<lparr> pin_id = ''k'', pin_kernel_build = ''b'', pin_protocol_version = ''p'',
     pin_result_schema_version = ''r'', pin_toolset_version = ''t'', pin_policy_version = ''v'',
     pin_instruction_version = ''i'' \<rparr>"

definition sample_request :: "alloc_snapshot \<Rightarrow> string \<Rightarrow> alloc_request" where
  "sample_request s h = \<lparr> rq_task_id = ''t'', rq_idempotency_key = ''k'', rq_pin = sample_pin,
     rq_snapshot_hash = h, rq_snapshot = s \<rparr>"

definition sample_response :: "alloc_snapshot \<Rightarrow> string \<Rightarrow> alloc_response" where
  "sample_response s h = \<lparr> rs_protocol_version = ''p'', rs_result_schema_version = ''r'',
     rs_task_id = ''t'', rs_idempotency_key = ''k'', rs_pin = sample_pin, rs_snapshot_hash = h,
     rs_terminal_state = ''DONE'', rs_decisions = expectedAllocation s \<rparr>"

lemma sample_created: "time_or_zero ''2024-01-02T03:04:05Z'' = 1704164645000000000"
  by code_simp

lemma sample_order: "allocation_order (as_members sample_snapshot) = as_members sample_snapshot"
  by (simp add: allocation_order_def sample_snapshot_def sample_member_def member_key_def)

lemma sample_plan: "map dn_action (expectedAllocation sample_snapshot) = [''assign'', ''wait'']"
  unfolding expectedAllocation_def sample_order by code_simp

subsection \<open>Properties\<close>

text \<open>C2. An assigned member receives a demand that is receiving, that its mapping allows and whose
  required tags it holds, and no other such demand precedes it in the priority order (preferred hits,
  priority, supply so far, last use, id), the supply and last use being those after the members
  decided before it; the decision records that order, the matched tags with their assertions, and
  the next sequence number.\<close>

theorem assigned_demand_is_best:
  assumes "i < length (as_members s)" and "assigned (expectedAllocation s ! i)"
    and "m = allocation_order (as_members s) ! i"
    and "rank = demand_rank (member_tags m) (supply_at s i) (last_sequence_at s i)"
  shows "\<exists>d \<in> set (as_demands s). placeable m (member_tags m) d \<and>
    (\<forall>e \<in> set (as_demands s). placeable m (member_tags m) e \<longrightarrow> rank d \<le> rank e) \<and>
    expectedAllocation s ! i = assign_decision m (member_tags m) (next_sequence_at s i) (rank d) d"
  using expectedAllocation_assigned [OF assms(1,2)] assms(3,4) by metis

theorem assigned_demand_is_best_witness:
  "\<exists>m rank. \<exists>d \<in> set (as_demands sample_snapshot). placeable m (member_tags m) d \<and>
    (\<forall>e \<in> set (as_demands sample_snapshot). placeable m (member_tags m) e \<longrightarrow> rank d \<le> rank e) \<and>
    expectedAllocation sample_snapshot ! 0 =
      assign_decision m (member_tags m) (next_sequence_at sample_snapshot 0) (rank d) d"
proof -
  have "assigned (expectedAllocation sample_snapshot ! 0)"
    using arg_cong [OF sample_plan, of hd] by (simp add: hd_map hd_conv_nth flip: length_greater_0_conv)
       (simp add: sample_snapshot_def hd_conv_nth hd_map flip: length_greater_0_conv)
  then show ?thesis
    using assigned_demand_is_best [of 0 sample_snapshot, OF _ _ refl refl]
    by (auto simp: sample_snapshot_def)
qed

text \<open>C3. A member waits exactly when no demand is placeable for it, a placeable demand being one that
  its mapping allows, that is receiving, whose required tags are all among the member's usable tags
  and which has at least one required or preferred tag there (\<open>len(matched) == 0\<close> in the source passes
  over a demand without any); the decision is then the waiting one, and its reason names why: no
  mapping at all, no receiving demand among the mapped ones, or tags missing for every receiving
  one.\<close>

theorem member_waits_iff_no_demand:
  assumes "i < length (as_members s)" and "m = allocation_order (as_members s) ! i"
  shows "(\<not> assigned (expectedAllocation s ! i) \<longleftrightarrow>
      (\<forall>d \<in> set (as_demands s). \<not> placeable m (member_tags m) d)) \<and>
    (\<not> assigned (expectedAllocation s ! i) \<longrightarrow>
      expectedAllocation s ! i = waiting_decision m (as_demands s))"
proof (cases "assigned (expectedAllocation s ! i)")
  case True
  from expectedAllocation_assigned [OF assms(1) True] show ?thesis using True assms(2) by metis
next
  case False
  from expectedAllocation_waiting [OF assms(1) False] show ?thesis using False assms(2) by simp
qed

theorem member_waits_iff_no_demand_witness:
  "\<exists>m. (\<not> assigned (expectedAllocation sample_snapshot ! 1) \<longleftrightarrow>
      (\<forall>d \<in> set (as_demands sample_snapshot). \<not> placeable m (member_tags m) d)) \<and>
    (\<not> assigned (expectedAllocation sample_snapshot ! 1) \<longrightarrow>
      expectedAllocation sample_snapshot ! 1 = waiting_decision m (as_demands sample_snapshot))"
  using member_waits_iff_no_demand [of 1 sample_snapshot, OF _ refl]
  by (auto simp: sample_snapshot_def)

text \<open>C1. The plan decides every member exactly once, in the order of creation time and id, and the
  sequence numbers it hands out are consecutive from the scope's next sequence, so no number is
  given twice or skipped.\<close>

theorem plan_covers_members_in_sequence:
  "map dn_member (expectedAllocation s) = map am_id (allocation_order (as_members s)) \<and>
   mset (map dn_member (expectedAllocation s)) = mset (map am_id (as_members s)) \<and>
   map dn_sequence (filter assigned (expectedAllocation s)) =
     [as_next_sequence s ..
      as_next_sequence s + int (length (filter assigned (expectedAllocation s))) - 1]"
  by (simp add: expectedAllocation_def allocate_members allocate_sequences)
     (simp add: allocation_order_def)

text \<open>C4. The order in which the database returned the rows has no influence on the plan: with distinct
  ids and tag codes, snapshots that differ in the order of their members and demands, of the tags, the
  mapped and the counted demands inside a member, and of the tag codes inside a demand give the same
  decisions. The witness permutes the members, the tags of a member and the codes of a demand.\<close>

theorem plan_independent_of_row_order:
  assumes "well_keyed s" and "same_rows s t"
  shows "expectedAllocation s = expectedAllocation t"
  using expectedAllocation_canonical [OF assms(1)] same_rows_canonical [OF assms(2,1)]
    expectedAllocation_canonical [OF same_rows_well_keyed [OF assms(2,1)]] by simp

theorem plan_independent_of_row_order_witness:
  "let m = sample_member 1 [sample_tag ''go'', sample_tag ''sql''];
       n = sample_member 2 []; d = sample_demand 5 2; e = sample_demand 7 1 in
   expectedAllocation (sample_snapshot\<lparr>as_members := [m, n],
       as_demands := [d\<lparr>ad_preferred := [''sql'', ''c'']\<rparr>, e]\<rparr>) =
   expectedAllocation (sample_snapshot\<lparr>
       as_members := [n\<lparr>am_allowed := [7, 5]\<rparr>, m\<lparr>am_tags := [sample_tag ''sql'', sample_tag ''go'']\<rparr>],
       as_demands := [e, d\<lparr>ad_preferred := [''c'', ''sql'']\<rparr>]\<rparr>)"
proof -
  define m where "m = sample_member 1 [sample_tag ''go'', sample_tag ''sql'']"
  define n where "n = sample_member 2 []"
  define d where "d = sample_demand 5 2"
  define e where "e = sample_demand 7 1"
  note defs = m_def n_def d_def e_def sample_member_def sample_demand_def sample_tag_def
  show ?thesis
    unfolding Let_def m_def [symmetric] n_def [symmetric] d_def [symmetric] e_def [symmetric]
  proof (rule plan_independent_of_row_order)
    show "well_keyed (sample_snapshot\<lparr>as_members := [m, n],
        as_demands := [d\<lparr>ad_preferred := [''sql'', ''c'']\<rparr>, e]\<rparr>)"
      by (simp add: well_keyed_def defs)
    show "same_rows
        (sample_snapshot\<lparr>as_members := [m, n],
           as_demands := [d\<lparr>ad_preferred := [''sql'', ''c'']\<rparr>, e]\<rparr>)
        (sample_snapshot\<lparr>as_members := [n\<lparr>am_allowed := [7, 5]\<rparr>,
             m\<lparr>am_tags := [sample_tag ''sql'', sample_tag ''go'']\<rparr>],
           as_demands := [e, d\<lparr>ad_preferred := [''c'', ''sql'']\<rparr>]\<rparr>)"
      unfolding same_rows_def
      by (auto intro!: permuted_rowsI [of "[m\<lparr>am_tags := [sample_tag ''sql'', sample_tag ''go'']\<rparr>,
            n\<lparr>am_allowed := [7, 5]\<rparr>]"] permuted_rowsI [of "[d\<lparr>ad_preferred := [''c'', ''sql'']\<rparr>, e]"]
          simp: same_member_def same_demand_def defs)
  qed
qed

text \<open>C5. When the hash tells two snapshots apart unless their canonical forms agree, results accepted
  for the same snapshot hash carry the same decisions, whichever copy of the snapshot they were
  checked against: a retried or replayed Kernel answer can only confirm the plan.\<close>

theorem accepted_results_agree:
  assumes "validateAllocationResult schema_ok r x = Inr ()"
    and "validateAllocationResult schema_ok' r' x' = Inr ()"
    and "well_keyed (rq_snapshot r)" and "well_keyed (rq_snapshot r')"
    and "rq_snapshot_hash r = allocationSnapshotHash sha (rq_snapshot r)"
    and "rq_snapshot_hash r' = allocationSnapshotHash sha (rq_snapshot r')"
    and "rs_snapshot_hash x = rs_snapshot_hash x'"
    and "sha (canonical_snapshot (rq_snapshot r)) = sha (canonical_snapshot (rq_snapshot r'))
      \<Longrightarrow> canonical_snapshot (rq_snapshot r) = canonical_snapshot (rq_snapshot r')"
  shows "rs_decisions x = rs_decisions x'"
proof -
  have v: "rs_decisions x = expectedAllocation (rq_snapshot r)"
      "rs_decisions x' = expectedAllocation (rq_snapshot r')"
      "rs_snapshot_hash x = rq_snapshot_hash r" "rs_snapshot_hash x' = rq_snapshot_hash r'"
    using assms(1,2) by (auto simp: validateAllocationResult_def split: if_splits)
  then have "canonical_snapshot (rq_snapshot r) = canonical_snapshot (rq_snapshot r')"
    using assms(5-8) by (simp add: allocationSnapshotHash_def)
  then show ?thesis
    using v expectedAllocation_canonical [OF assms(3)] expectedAllocation_canonical [OF assms(4)]
    by simp
qed

theorem accepted_results_agree_witness:
  "let t = sample_snapshot\<lparr>as_members := rev (as_members sample_snapshot)\<rparr>;
       sha = (\<lambda>s. if s = canonical_snapshot sample_snapshot then ''h'' else ''g'') in
   rs_decisions (sample_response sample_snapshot ''h'') = rs_decisions (sample_response t ''h'')"
proof -
  let ?t = "sample_snapshot\<lparr>as_members := rev (as_members sample_snapshot)\<rparr>"
  have w: "well_keyed sample_snapshot" "well_keyed ?t"
    by (auto simp: well_keyed_def sample_snapshot_def sample_member_def sample_demand_def
        sample_tag_def)
  have "same_rows sample_snapshot ?t"
    by (simp add: same_rows_def permuted_rows_rev)
       (auto intro!: permuted_rowsI [of "as_demands sample_snapshot"] simp: list_all2_refl)
  then have c: "canonical_snapshot ?t = canonical_snapshot sample_snapshot"
    using same_rows_canonical w(1) by simp
  show ?thesis
    unfolding Let_def
    by (rule accepted_results_agree [of "\<lambda>_. True" "sample_request sample_snapshot ''h''" _
          "\<lambda>_. True" "sample_request ?t ''h''" _
          "\<lambda>s. if s = canonical_snapshot sample_snapshot then ''h'' else ''g''"])
       (simp_all add: validateAllocationResult_def sample_request_def sample_response_def w c
         allocationSnapshotHash_def)
qed

end
