(* ===== verification/Attempts.thy ===== *)
theory Attempts
  imports Workflows
begin

text \<open>
  The state machine of an assignment attempt: the moves of its status, what every operation
  keeps of the attempt table (unique ids, one effective attempt per workflow, final rows
  untouched) and the properties of the operations of Workflows.
\<close>

subsection \<open>The life of an attempt\<close>

text \<open>The moves of an attempt's status; passed, rejected and cancelled attempts are final.\<close>

inductive moves :: "attempt_status \<Rightarrow> attempt_status \<Rightarrow> bool" where
  dispatched: "moves AttPendingDispatch AttDispatched"
| transferred: "moves AttDispatched AttDispatched"
| passed: "moves AttDispatched AttPassed"
| rejected: "moves AttDispatched AttRejected"
| cancelled: "open_status s \<Longrightarrow> moves s AttCancelled"

inductive_simps moves_simps [simp]:
  "moves AttPassed t" "moves AttRejected t" "moves AttCancelled t" "moves AttPendingDispatch t"
  "moves AttDispatched t" "moves AttPendingReview t"

inductive_cases moves_elim: "moves s t"

lemma moves_open: "moves s t \<Longrightarrow> open_status s"
  by (auto elim: moves_elim)

lemma moves_effective: "moves s t \<Longrightarrow> effective_status t \<Longrightarrow> effective_status s"
  by (auto simp: effective_iff_open dest: moves_open)

lemma final_moves: "moves\<^sup>*\<^sup>* s t \<Longrightarrow> \<not> open_status s \<Longrightarrow> t = s"
  by (induction rule: converse_rtranclp_induct) (auto dest: moves_open)

definition row_moves :: "attempt_row \<Rightarrow> attempt_row \<Rightarrow> bool" where
  "row_moves r q \<longleftrightarrow> moves (att_status r) (att_status q) \<and> att_id q = att_id r
     \<and> att_workflow q = att_workflow r \<and> att_resume q = att_resume r"

lemma row_moves_cancel: "open_status (att_status a) \<Longrightarrow> row_moves a (cancel_attempt_row now reason a)"
  by (simp add: row_moves_def cancel_attempt_row_def moves.cancelled)

lemma decide_action_moves:
  assumes "decide_action welink pof choices db p now att action body = Inr c"
  shows "row_moves att (chg_row c att)"
proof -
  consider "decide_dispatch welink db p now att body = Inr c" | "decide_transfer welink pof db p now att body = Inr c"
    | "decide_cancel db p now att body = Inr c" | "decide_feedback choices p now att body = Inr c"
    using assms by (auto simp: decide_action_def split: if_splits)
  then show ?thesis
  proof cases
    case 1
    then show ?thesis by (auto simp: decide_dispatch_def row_moves_def split: if_splits)
  next
    case 2
    then show ?thesis
      by (auto simp: decide_transfer_def decide_screener_def row_moves_def andThen_eq_Inr
          split: if_splits sum.splits)
  next
    case 3
    then show ?thesis
      by (auto simp: decide_cancel_def Let_def split: if_splits intro!: row_moves_cancel)
  next
    case 4
    then show ?thesis by (auto simp: decide_feedback_def Let_def row_moves_def split: if_splits)
  qed
qed

text \<open>
  The attempts of a database: ids are unique and below the counter, and no workflow has two
  effective attempts. An operation keeps that, keeps every row with its identity, moves its
  status along \<open>moves\<close> only and leaves final rows as they are.
\<close>

definition attempts_ok :: "db \<Rightarrow> bool" where
  "attempts_ok db \<longleftrightarrow> distinct (map att_id (db_attempts db)) \<and>
     (\<forall>a \<in> set (db_attempts db). att_id a < db_next db) \<and>
     (\<forall>w. count_where (\<lambda>a. att_workflow a = w \<and> effective_status (att_status a)) (db_attempts db) \<le> 1)"

definition attempts_kept :: "db \<Rightarrow> db \<Rightarrow> bool" where
  "attempts_kept a b \<longleftrightarrow> (\<forall>r \<in> set (db_attempts a). \<exists>q \<in> set (db_attempts b).
     att_id q = att_id r \<and> att_workflow q = att_workflow r \<and> att_resume q = att_resume r \<and>
     moves\<^sup>*\<^sup>* (att_status r) (att_status q) \<and> (\<not> open_status (att_status r) \<longrightarrow> q = r))"

definition attempts_step :: "db \<Rightarrow> db \<Rightarrow> bool" where
  "attempts_step a b \<longleftrightarrow> (attempts_ok a \<longrightarrow> attempts_ok b \<and> attempts_kept a b)"

lemma attempts_kept_trans:
  assumes "attempts_kept a b" and "attempts_kept b c"
  shows "attempts_kept a c"
  unfolding attempts_kept_def
proof
  fix r
  assume "r \<in> set (db_attempts a)"
  then obtain q where q: "q \<in> set (db_attempts b)" "att_id q = att_id r" "att_workflow q = att_workflow r"
      "att_resume q = att_resume r" "moves\<^sup>*\<^sup>* (att_status r) (att_status q)"
      "\<not> open_status (att_status r) \<longrightarrow> q = r"
    using assms(1) by (auto simp: attempts_kept_def)
  then obtain t where t: "t \<in> set (db_attempts c)" "att_id t = att_id q" "att_workflow t = att_workflow q"
      "att_resume t = att_resume q" "moves\<^sup>*\<^sup>* (att_status q) (att_status t)"
      "\<not> open_status (att_status q) \<longrightarrow> t = q"
    using bspec [OF assms(2) [unfolded attempts_kept_def] q(1)] by blast
  show "\<exists>q \<in> set (db_attempts c). att_id q = att_id r \<and> att_workflow q = att_workflow r \<and>
      att_resume q = att_resume r \<and> moves\<^sup>*\<^sup>* (att_status r) (att_status q) \<and>
      (\<not> open_status (att_status r) \<longrightarrow> q = r)"
    by (rule bexI [OF _ t(1)]) (use q t in auto)
qed

lemma attempts_step_trans: "attempts_step a b \<Longrightarrow> attempts_step b c \<Longrightarrow> attempts_step a c"
  by (auto simp: attempts_step_def intro: attempts_kept_trans)

lemma attempts_step_frame:
  "db_attempts b = db_attempts a \<Longrightarrow> db_next a \<le> db_next b \<Longrightarrow> attempts_step a b"
  by (auto simp: attempts_step_def attempts_ok_def attempts_kept_def intro: order_less_le_trans)

text \<open>One row moves.\<close>

lemma attempts_step_change:
  assumes "\<And>r. r \<in> set (db_attempts a) \<Longrightarrow> att_id r = i \<Longrightarrow> row_moves r (f r)"
    and "db_attempts b = update_where (\<lambda>r. att_id r = i) f (db_attempts a)" and "db_next b = db_next a"
  shows "attempts_step a b"
  unfolding attempts_step_def
proof (intro impI conjI)
  assume ok: "attempts_ok a"
  have key: "att_id (if att_id r = i then f r else r) = att_id r"
      "att_workflow (if att_id r = i then f r else r) = att_workflow r" if "r \<in> set (db_attempts a)" for r
    using assms(1) that by (auto simp: row_moves_def)
  have ids: "map att_id (db_attempts b) = map att_id (db_attempts a)"
    unfolding assms(2) update_where_def using key(1) by simp
  show "attempts_ok b"
    unfolding attempts_ok_def
  proof (intro conjI ballI allI)
    show "distinct (map att_id (db_attempts b))" using ok by (simp only: ids attempts_ok_def)
    show "att_id r < db_next b" if "r \<in> set (db_attempts b)" for r
    proof -
      have "att_id r \<in> set (map att_id (db_attempts b))" using that by simp
      then have "att_id r \<in> set (map att_id (db_attempts a))" by (simp only: ids)
      then show ?thesis using ok assms(3) by (auto simp: attempts_ok_def)
    qed
    show "count_where (\<lambda>a. att_workflow a = w \<and> effective_status (att_status a)) (db_attempts b) \<le> 1" for w
    proof -
      have "count_where (\<lambda>a. att_workflow a = w \<and> effective_status (att_status a)) (db_attempts b)
          \<le> count_where (\<lambda>a. att_workflow a = w \<and> effective_status (att_status a)) (db_attempts a)"
        unfolding assms(2) using assms(1)
        by (intro count_update_le) (auto simp: row_moves_def dest: moves_effective)
      then show ?thesis using ok by (auto simp: attempts_ok_def intro: order_trans)
    qed
  qed
  show "attempts_kept a b"
    unfolding attempts_kept_def
  proof
    fix r
    assume r: "r \<in> set (db_attempts a)"
    let ?q = "if att_id r = i then f r else r"
    have "?q \<in> set (db_attempts b)" unfolding assms(2) in_update_where using r by (intro bexI [of _ r]) auto
    moreover have "att_id ?q = att_id r \<and> att_workflow ?q = att_workflow r \<and> att_resume ?q = att_resume r \<and>
      moves\<^sup>*\<^sup>* (att_status r) (att_status ?q) \<and> (\<not> open_status (att_status r) \<longrightarrow> ?q = r)"
      using assms(1) [OF r] by (auto simp: row_moves_def dest: moves_open)
    ultimately show "\<exists>q \<in> set (db_attempts b). att_id q = att_id r \<and> att_workflow q = att_workflow r \<and>
      att_resume q = att_resume r \<and> moves\<^sup>*\<^sup>* (att_status r) (att_status q) \<and>
      (\<not> open_status (att_status r) \<longrightarrow> q = r)" by blast
  qed
qed

lemma attempts_step_insert:
  assumes "insert_attempt att a = Inr (x, b)"
  shows "attempts_step a b"
proof -
  let ?x = "att\<lparr>att_id := db_next a\<rparr>"
  have b: "db_attempts b = db_attempts a @ [?x]" "db_next b = db_next a + 1"
      and e: "\<not> (effective_status (att_status att) \<and> effective_attempt (att_workflow att) a)"
    using assms by (auto simp: insert_attempt_Inr)
  have z: "count_where (\<lambda>r. att_workflow r = att_workflow att \<and> effective_status (att_status r)) (db_attempts a) = 0"
    if "effective_status (att_status att)"
    using e that by (auto simp: effective_attempt_def exists_where_iff filter_empty_conv)
  have "attempts_ok b" if ok: "attempts_ok a"
    using ok z unfolding attempts_ok_def b by (auto simp: less_imp_neq)
  then show ?thesis by (auto simp: attempts_step_def attempts_kept_def b)
qed

lemma cancel_one_cases:
  assumes "cancel_one now reason sources att a = Inr b"
  obtains "a = b" | d e x where "sources = [] \<or> att_source att \<in> set sources"
    "save_attempt now (att_id att) (cancel_attempt_row now reason) a = Inr (x, d)"
    "applicationState now (att_resume att) AppCancelled reason
       [(''attempt_id'', JNum (of_int (att_id att)))] d = Inr e"
    "b = handling_event now att ''cancelled'' (Some (att_current_dept att)) None reason None None
       [(''cancel_reason'', JStr reason)] None e"
  using assms by (auto simp: cancel_one_def andThen_eq_Inr split: if_splits)

lemma cancel_one_rows:
  assumes "cancel_one now reason sources att a = Inr b"
  shows "db_next b = db_next a \<and> (db_attempts b = db_attempts a \<or>
    db_attempts b = update_where (\<lambda>r. att_id r = att_id att) (cancel_attempt_row now reason) (db_attempts a))"
  using assms
proof (cases rule: cancel_one_cases)
  case 1
  then show ?thesis by simp
next
  case (2 d e x)
  then show ?thesis
    using applicationState_frame [OF 2(3)] by (auto simp: save_attempt_Inr frame_simps)
qed

lemma cancel_loop:
  assumes "foldE (cancel_one now reason sources) atts a = Inr b" and "attempts_ok a"
    and "distinct (map att_id atts)" and "set atts \<subseteq> set (db_attempts a)"
    and "\<forall>x \<in> set atts. open_status (att_status x)"
  shows "attempts_step a b"
  using assms
proof (induction atts arbitrary: a)
  case Nil
  then show ?case by (simp add: attempts_step_frame)
next
  case (Cons x xs)
  then obtain c where c: "cancel_one now reason sources x a = Inr c"
      and rest: "foldE (cancel_one now reason sources) xs c = Inr b"
    by (auto simp: andThen_eq_Inr)
  have only: "r = x" if "r \<in> set (db_attempts a)" "att_id r = att_id x" for r
    using Cons.prems(2,4) that by (auto simp: attempts_ok_def dest: distinct_key_unique)
  have step: "attempts_step a c"
    using cancel_one_rows [OF c]
  proof (elim conjE disjE)
    assume "db_next c = db_next a" "db_attempts c = db_attempts a"
    then show ?thesis by (simp add: attempts_step_frame)
  next
    assume "db_next c = db_next a" "db_attempts c = update_where (\<lambda>r. att_id r = att_id x)
        (cancel_attempt_row now reason) (db_attempts a)"
    then show ?thesis
      by (intro attempts_step_change [of a "att_id x" "cancel_attempt_row now reason"])
        (use only Cons.prems(5) in \<open>auto intro: row_moves_cancel\<close>)
  qed
  have "set xs \<subseteq> set (db_attempts c)"
  proof
    fix r
    assume "r \<in> set xs"
    then have "r \<in> set (db_attempts a)" "att_id r \<noteq> att_id x"
      using Cons.prems(3,4) by (auto, metis imageI)
    then show "r \<in> set (db_attempts c)"
      using cancel_one_rows [OF c] by (auto simp: in_update_where intro!: bexI [of _ r])
  qed
  then have "attempts_step c b"
    using Cons.IH [OF rest] step Cons.prems by (auto simp: attempts_step_def)
  then show ?case by (rule attempts_step_trans [OF step])
qed

lemma cancelOpenAttempts_step:
  assumes "cancelOpenAttempts now w reason sources a = Inr b"
  shows "attempts_step a b"
proof (cases "attempts_ok a")
  case False
  then show ?thesis by (simp add: attempts_step_def)
next
  case True
  then have "distinct (map att_id (open_attempts (wf_id w) a))"
    by (auto simp: attempts_ok_def open_attempts_def intro: distinct_map_filter)
  then show ?thesis
    using assms True unfolding cancelOpenAttempts_def
    by (intro cancel_loop) (auto simp: open_attempts_def)
qed

subsection \<open>Operations on attempts: the interface\<close>

text \<open>
  A relation that holds for a legal move of one row, for an insertion under the unique index, for
  the cancellation of the open attempts, and for whatever leaves the attempts alone. The
  composite operations satisfy every such relation.
\<close>

locale attempt_relation =
  fixes R :: "db \<Rightarrow> db \<Rightarrow> bool"
  assumes trans: "R a b \<Longrightarrow> R b c \<Longrightarrow> R a c"
    and frame: "db_attempts b = db_attempts a \<Longrightarrow> db_next a \<le> db_next b \<Longrightarrow> R a b"
    and change: "save_attempt now i f a = Inr (x, b) \<Longrightarrow>
      (\<And>r. r \<in> set (db_attempts a) \<Longrightarrow> att_id r = i \<Longrightarrow> row_moves r (f r)) \<Longrightarrow> R a b"
    and insert: "insert_attempt att a = Inr (x, b) \<Longrightarrow> R a b"
    and cancel: "cancelOpenAttempts now w reason sources a = Inr b \<Longrightarrow> R a b"

interpretation attempts: attempt_relation attempts_step
proof
  show "attempts_step a c" if "attempts_step a b" "attempts_step b c" for a b c
    using that by (rule attempts_step_trans)
  show "attempts_step a b" if "db_attempts b = db_attempts a" "db_next a \<le> db_next b" for a b
    using that by (rule attempts_step_frame)
  show "attempts_step a b" if "save_attempt now i f a = Inr (x, b)"
      "\<And>r. r \<in> set (db_attempts a) \<Longrightarrow> att_id r = i \<Longrightarrow> row_moves r (f r)" for now i f a x b
    by (rule attempts_step_change [of a i f]) (use that in \<open>auto simp: save_attempt_Inr frame_simps\<close>)
  show "attempts_step a b" if "insert_attempt att a = Inr (x, b)" for att a x b
    using that by (rule attempts_step_insert)
  show "attempts_step a b" if "cancelOpenAttempts now w reason sources a = Inr b" for now w reason sources a b
    using that by (rule cancelOpenAttempts_step)
qed

lemma save_workflow_frame [frame_simps]:
  assumes "save_workflow i f db = Inr (w, db')"
  shows "db_attempts db' = db_attempts db" "db_next db' = db_next db" "db_members db' = db_members db"
    "db_departments db' = db_departments db" "db_applications db' = db_applications db"
    "db_work db' = db_work db" "db_tasks db' = db_tasks db" "db_scopes db' = db_scopes db"
    "db_items db' = db_items db"
  using assms by (auto simp: save_workflow_Inr)

lemma save_workflow_saved:
  assumes "save_workflow i f db = Inr (w, db')"
  shows "w \<in> set (db_workflows db') \<and> (\<exists>r \<in> set (db_workflows db). wf_id r = i \<and> w = f r)"
proof -
  obtain r where r: "r \<in> set (db_workflows db)" "wf_id r = i" "w = f r"
      "db_workflows db' = update_where (\<lambda>r. wf_id r = i) f (db_workflows db)"
    using assms by (auto simp: save_workflow_Inr dest: first_where_SomeD)
  then have "w \<in> set (db_workflows db')"
    unfolding r(4) in_update_where by (intro bexI [of _ r]) simp_all
  then show ?thesis using r by blast
qed

sublocale attempt_relation < core?: core_relation
proof
  show "R a a" for a by (rule frame) simp_all
  show "R a c" if "R a b" "R b c" for a b c using that by (rule trans)
  show "R a b" if "applicationState now r st why payload a = Inr b" for now r st why payload a b
    using that by (intro frame) (simp_all add: applicationState_frame)
  show "R a b" if "save_workflow i f a = Inr (w, b)" for i f a w b
    using that by (auto simp: save_workflow_Inr intro: frame)
  show "R a (closePoolMemberships k x why a)" for k x why a
    by (rule frame) (simp_all add: closePoolMemberships_eq)
qed

context attempt_relation
begin

lemma handling_event: "R a (handling_event now att k src dst note p batch md auto a)"
  by (rule frame) (simp_all add: frame_simps)

lemma touchWorkflow: "touchWorkflow now w resume a = Inr b \<Longrightarrow> R a b"
  by (auto simp: touchWorkflow_def andThen_eq_Inr intro: trans [OF closePoolMemberships save_workflow])

lemma archiveWorkflow: "archiveWorkflow now w reason detail a = Inr b \<Longrightarrow> R a b"
  by (auto simp: archiveWorkflow_def andThen_eq_Inr intro: trans [OF closePoolMemberships save_workflow])

lemma lockWorkflow: "lockWorkflow c a = Inr (w, b) \<Longrightarrow> R a b"
  by (rule frame) (auto dest: lockWorkflow_frame(1) lockWorkflow_Inr)

lemma createAttempt:
  assumes "createAttempt now w resume target vals p a = Inr (att, b)"
  shows "R a b"
proof -
  obtain receiver c d e x where s:
      "insert_attempt (new_attempt w resume receiver target vals p a) a = Inr (att, c)"
      "touchWorkflow now w resume (created_event now att receiver p (manual_target now att target c)) = Inr d"
      "save_workflow (wf_id w) (\<lambda>r. r\<lparr>wf_strategy := att_match_mode att\<rparr>) d = Inr (x, e)"
      "application_follows now att e = Inr b"
    using assms by (auto simp: createAttempt_def andThen_eq_Inr)
  have "R c (created_event now att receiver p (manual_target now att target c))"
    by (rule frame) (simp_all add: created_event_def manual_target_def frame_simps)
  moreover have "R e b" using s(4) by (auto simp: application_follows_def split: option.splits intro: state)
  ultimately show ?thesis
    using insert [OF s(1)] touchWorkflow [OF s(2)] save_workflow [OF s(3)] by (blast intro: trans)
qed

lemma manualAssign:
  assumes "manualAssign now resume_id target_id reason p a = Inr (att, b)"
  shows "R a b"
proof -
  obtain resume w target w' c d e where s: "lockWorkflow (res_candidate resume) a = Inr (w, c)"
      "invalidateWorkflow w c = Inr (w', d)" "cancelOpenAttempts now w' ''manual_replaced'' [] d = Inr e"
      "createAttempt now w' resume target (manual_values reason) (Some p)
        (closePoolMemberships (wf_id w') None ''manual_replaced'' e) = Inr (att, b)"
    using assms by (auto simp: manualAssign_def assign_locked_def assign_replacing_def andThen_eq_Inr split: if_splits)
  note steps = lockWorkflow [OF s(1)] invalidateWorkflow [OF s(2)] cancel [OF s(3)]
    closePoolMemberships createAttempt [OF s(4)]
  then show ?thesis by (blast intro: trans)
qed

lemma after_feedback:
  assumes "after_feedback now w att p a = Inr b"
  shows "R a b"
proof -
  obtain st payload c where s: "applicationState now (att_resume att) st
      (trim_space (att_feedback_label att @ '' '' @ att_feedback_note att)) payload a = Inr c"
      "(\<exists>f x d. save_workflow (wf_id w) f c = Inr (x, d) \<and>
          cancelOpenAttempts now w ''workflow_passed'' [] d = Inr b)
       \<or> waitAfterDepartmentRejection now w c = Inr b"
    using assms unfolding after_feedback_def Let_def by (simp add: andThen_eq_Inr split: if_splits) blast+
  have "R c b" using s(2) by (auto intro: waitAfterDepartmentRejection trans [OF save_workflow cancel])
  then show ?thesis by (rule trans [OF state [OF s(1)]])
qed

lemma finish_change:
  assumes "finish_change now w att note action p a = Inr b"
  shows "R a b"
proof -
  have other: "after_other now att note action p c = Inr d \<Longrightarrow> R c d" for c d
    by (auto simp: after_other_def Let_def split: attempt_status.splits intro: state refl)
  have cancel: "after_cancel now w att c = Inr d \<Longrightarrow> R c d" for c d
    by (auto simp: after_cancel_def split: if_splits intro: archiveWorkflow refl)
  show ?thesis
    using assms by (auto simp: finish_change_def andThen_eq_Inr split: if_splits
        intro: after_feedback other cancel trans)
qed

lemma apply_change:
  assumes "apply_change now w att c action p batch a = Inr (x, b)"
    and "\<And>r. r \<in> set (db_attempts a) \<Longrightarrow> att_id r = att_id att \<Longrightarrow> row_moves r (chg_row c r)"
  shows "R a b"
proof -
  obtain w' d e where s: "invalidateWorkflow w a = Inr (w', d)"
      "save_attempt now (att_id att) (chg_row c) d = Inr (x, e)"
      "finish_change now w' x (chg_note c) action p
       (handling_event now x (chg_event c) (chg_from c) (chg_to c) (chg_note c) (Some p) batch
         (chg_metadata c) None e) = Inr b"
    using assms(1) by (auto simp: apply_change_def andThen_eq_Inr)
  have "db_attempts d = db_attempts a" using s(1) by (simp add: invalidateWorkflow_def save_workflow_frame)
  then have "R d e" using assms(2) by (intro change [OF s(2)]) auto
  moreover have "R e b" by (rule trans [OF handling_event finish_change [OF s(3)]])
  ultimately show ?thesis using invalidateWorkflow [OF s(1)] by (blast intro: trans)
qed

lemma mutateAttempt:
  assumes "mutateAttempt welink pof choices now seen action body p batch a = Inr (att, b)"
    and "distinct (map att_id (db_attempts a))"
  shows "R a b"
proof (cases "action = ''transfer_to_manual''")
  case True
  then show ?thesis using assms by (auto simp: mutateAttempt_def split: if_splits intro: manualAssign)
next
  case False
  then obtain candidate w c x chg where s: "lockWorkflow candidate a = Inr (w, c)"
      "fetch att_id (att_id seen) (db_attempts c) = Inr x"
      "decide_action welink pof choices c p now x action body = Inr chg"
      "apply_change now w x chg action p batch c = Inr (att, b)"
    using mutateAttempt_Inr [OF assms(1)] by blast
  have "distinct (map att_id (db_attempts c))" using assms(2) lockWorkflow_frame(1) [OF s(1)] by simp
  then have "R c b"
    using fetch_Inr [OF s(2)] decide_action_moves [OF s(3)]
    by (intro apply_change [OF s(4)]) (auto dest: distinct_key_unique)
  then show ?thesis by (rule trans [OF lockWorkflow [OF s(1)]])
qed

end

subsection \<open>Cancelling the open attempts in closed form\<close>

definition cancels :: "attempt_source list \<Rightarrow> attempt_row list \<Rightarrow> attempt_row \<Rightarrow> bool" where
  "cancels sources atts r \<longleftrightarrow> (\<exists>x \<in> set atts. att_id x = att_id r \<and> (sources = [] \<or> att_source x \<in> set sources))"

lemma cancel_loop_rows:
  assumes "foldE (cancel_one now reason sources) atts a = Inr b" and "distinct (map att_id atts)"
  shows "db_attempts b = update_where (cancels sources atts) (cancel_attempt_row now reason) (db_attempts a)"
  using assms
proof (induction atts arbitrary: a)
  case Nil
  then show ?case by (simp add: cancels_def update_where_none)
next
  case (Cons x xs)
  then obtain c where c: "cancel_one now reason sources x a = Inr c"
      and rest: "foldE (cancel_one now reason sources) xs c = Inr b"
    by (auto simp: andThen_eq_Inr)
  let ?f = "cancel_attempt_row now reason"
  have IH: "db_attempts b = update_where (cancels sources xs) ?f (db_attempts c)"
    using Cons.IH [OF rest] Cons.prems(2) by simp
  have id: "att_id (?f r) = att_id r" for r by (simp add: cancel_attempt_row_def)
  have other: "\<not> cancels sources xs r" if "att_id r = att_id x" for r
    using Cons.prems(2) that by (auto simp: cancels_def image_iff)
  show ?case
    using c
  proof (cases rule: cancel_one_cases)
    case 1
    show ?thesis
    proof (cases "sources = [] \<or> att_source x \<in> set sources")
      case False
      then have "cancels sources (x # xs) = cancels sources xs" by (auto simp: cancels_def fun_eq_iff)
      then show ?thesis using IH 1 by simp
    next
      case True
      then obtain y d where "save_attempt now (att_id x) ?f a = Inr (y, d)" "db_attempts c = db_attempts d"
        using c by (auto simp: cancel_one_def andThen_eq_Inr frame_simps applicationState_frame)
      then have "db_attempts c = update_where (\<lambda>r. att_id r = att_id x) ?f (db_attempts a)"
        by (auto simp: save_attempt_Inr frame_simps)
      then show ?thesis
        unfolding IH using other True by (auto simp: update_where_def cancels_def id)
    qed
  next
    case (2 d e y)
    then have "db_attempts c = update_where (\<lambda>r. att_id r = att_id x) ?f (db_attempts a)"
      using applicationState_frame(1) [OF 2(3)] by (auto simp: save_attempt_Inr frame_simps)
    then show ?thesis
      unfolding IH using other 2(1) by (auto simp: update_where_def cancels_def id)
  qed
qed

lemma cancelOpenAttempts_none_open:
  assumes "cancelOpenAttempts now w reason [] a = Inr b" and "distinct (map att_id (db_attempts a))"
    and "r \<in> set (db_attempts b)" and "att_workflow r = wf_id w"
  shows "\<not> open_status (att_status r)"
proof -
  have d: "distinct (map att_id (open_attempts (wf_id w) a))"
    using assms(2) by (auto simp: open_attempts_def intro: distinct_map_filter)
  have "db_attempts b = update_where (cancels [] (open_attempts (wf_id w) a))
      (cancel_attempt_row now reason) (db_attempts a)"
    using cancel_loop_rows [OF assms(1) [unfolded cancelOpenAttempts_def] d] .
  then obtain q where q: "q \<in> set (db_attempts a)"
      "r = (if cancels [] (open_attempts (wf_id w) a) q then cancel_attempt_row now reason q else q)"
    using assms(3) by (auto simp: in_update_where)
  show ?thesis
  proof (cases "cancels [] (open_attempts (wf_id w) a) q")
    case True
    then show ?thesis using q by (simp add: cancel_attempt_row_def)
  next
    case False
    then show ?thesis using q assms(4) by (auto simp: cancels_def open_attempts_def)
  qed
qed

lemma cancelOpenAttempts_frame [frame_simps]:
  assumes "cancelOpenAttempts now w reason sources a = Inr b"
  shows "db_workflows b = db_workflows a \<and> db_resumes b = db_resumes a \<and> db_members b = db_members a
    \<and> db_departments b = db_departments a"
  using assms unfolding cancelOpenAttempts_def
proof (rule foldE_relation)
  fix att a b
  assume "cancel_one now reason sources att a = Inr b"
  then show "db_workflows b = db_workflows a \<and> db_resumes b = db_resumes a \<and> db_members b = db_members a
    \<and> db_departments b = db_departments a"
  proof (cases rule: cancel_one_cases)
    case 1
    then show ?thesis by simp
  next
    case (2 d e x)
    then show ?thesis
      by (auto simp: save_attempt_Inr frame_simps handling_event_def mark_dispatched_def
          applicationState_frame [OF 2(3)])
  qed
qed auto

subsection \<open>Properties\<close>

definition sample_resume :: resume_row where
  "sample_resume = \<lparr> res_id = 20, res_candidate = 10, res_apply_id = ''a'', res_file = ''f'',
     res_entity = ''e'', res_position = ''p'', res_apply_date = [], res_rank = Some 1, res_assigned_entity = ''e'',
     res_job = None, res_job_category = [], res_category_mode = [], res_category_reason = [] \<rparr>"

definition sample_workflow :: workflow_row where
  "sample_workflow = workflow_defaults\<lparr>wf_id := 30, wf_candidate := 10, wf_status := WfInProgress,
     wf_current_resume := Some 20\<rparr>"

definition sample_attempt :: attempt_row where
  "sample_attempt = attempt_defaults\<lparr>att_id := 40, att_workflow := 30, att_resume := 20, att_no := 1,
     att_current_dept := 1, att_initial_dept := 1, att_status := AttDispatched\<rparr>"

definition sample_liaison :: principal where
  "sample_liaison = \<lparr> pri_user = 1, pri_name = ''e1'', pri_superuser = False,
     pri_permissions = [''attempt.view_department'', ''attempt.feedback''], pri_roles = [],
     pri_contact = None, pri_grants = Some [\<lparr> gr_contact = sample_contact 9 ''secondary'' 1,
       gr_department = sample_department 1 None 2 \<rparr>],
     pri_global = Some [''attempt.view_department'', ''attempt.feedback''], pri_level = [] \<rparr>"

definition sample_db :: db where
  "sample_db = empty_db\<lparr>db_next := 50, db_departments := [sample_department 1 None 2],
     db_candidates := [\<lparr> cnd_id = 10, cnd_fields = [] \<rparr>], db_resumes := [sample_resume],
     db_workflows := [sample_workflow], db_attempts := [sample_attempt],
     db_applications := [\<lparr> app_resume = 20, app_candidate = 10, app_status = AppDepartmentReview,
       app_reason = [], app_updated = 0, app_completed = None \<rparr>],
     db_app_events := [\<lparr> aev_resume = 20, aev_from = None, aev_to = AppDepartmentReview,
       aev_reason = [], aev_payload = [] \<rparr>]\<rparr>"

definition sample_feedback :: object where
  "sample_feedback = [(''result'', JStr ''passed'')]"

lemma sample_db_ok: "ledger_ok sample_db" "attempts_ok sample_db"
  by (simp_all add: ledger_ok_def attempts_ok_def sample_db_def empty_db_def events_of_def
      history_of_def sample_attempt_def attempt_defaults_def)

lemma sample_feedback_accepted:
  "\<exists>att db'. mutateAttempt False (\<lambda>_. None) [] 5 sample_attempt ''feedback'' sample_feedback
     sample_liaison None sample_db = Inr (att, db') \<and> att_status att = AttPassed"
proof -
  have "(case mutateAttempt False (\<lambda>_. None) [] 5 sample_attempt ''feedback'' sample_feedback
      sample_liaison None sample_db of Inl _ \<Rightarrow> False | Inr r \<Rightarrow> att_status (fst r) = AttPassed)"
    by code_simp
  then show ?thesis by (auto split: sum.splits)
qed

text \<open>C10. The attempt API (dispatch, transfer, cancellation, feedback, manual assignment) keeps the
  attempt table well formed: ids unique, at most one effective attempt per workflow. Every row
  survives with its workflow and resume, moves only along the status machine, and is left exactly
  as it is once it has passed, been rejected or been cancelled.\<close>

theorem attempt_api_keeps_attempts:
  assumes "mutateAttempt welink pof choices now seen action body p batch db = Inr (att, db')"
    and "attempts_ok db"
  shows "attempts_ok db' \<and> attempts_kept db db'"
  using attempts.mutateAttempt [OF assms(1)] assms(2) by (simp add: attempts_step_def attempts_ok_def)

theorem attempt_api_keeps_attempts_witness:
  "\<exists>att db'. mutateAttempt False (\<lambda>_. None) [] 5 sample_attempt ''feedback'' sample_feedback
     sample_liaison None sample_db = Inr (att, db') \<and> attempts_ok db' \<and> attempts_kept sample_db db'"
  using sample_feedback_accepted attempt_api_keeps_attempts sample_db_ok(2) by blast

text \<open>C11. The attempt API keeps the application ledger: its history stays linked from the initial
  status to the current one, no application row is lost, a closed application stays exactly as
  it is, and events are only appended.\<close>

theorem attempt_api_keeps_ledger:
  assumes "mutateAttempt welink pof choices now seen action body p batch db = Inr (att, db')"
    and "ledger_ok db"
  shows "ledger_ok db' \<and> ledger_grows db db'"
  using ledger.mutateAttempt [OF assms(1)] assms(2) by (simp add: ledger_step_def)

theorem attempt_api_keeps_ledger_witness:
  "\<exists>att db'. mutateAttempt False (\<lambda>_. None) [] 5 sample_attempt ''feedback'' sample_feedback
     sample_liaison None sample_db = Inr (att, db') \<and> ledger_ok db' \<and> ledger_grows sample_db db'"
  using sample_feedback_accepted attempt_api_keeps_ledger sample_db_ok(1) by blast

lemma decide_feedback_facts:
  assumes "decide_feedback choices p now x body = Inr c"
  shows "att_status x = AttDispatched \<and> att_feedback_at x = None \<and> canFeedbackAttempt p x \<and>
    att_status (chg_row c r) = (if str (fld body ''result'') = ''passed'' then AttPassed else AttRejected) \<and>
    att_resume (chg_row c r) = att_resume r \<and> att_id (chg_row c r) = att_id r"
  using assms by (auto simp: decide_feedback_def Let_def split: if_splits)

lemma applicationState_status:
  assumes "applicationState now r st reason payload a = Inr b"
  shows "\<exists>x \<in> set (db_applications b). app_resume x = r \<and> app_status x = st"
  using assms
proof (cases rule: applicationState_cases)
  case (same prior)
  then show ?thesis by auto
next
  case (change prior)
  have "prior\<lparr>app_status := st, app_reason := reason, app_updated := now,
      app_completed := (if closed_status st then Some now else None)\<rparr> \<in> set (db_applications b)"
    unfolding change(4) in_update_where by (rule bexI [OF _ change(1)]) (simp add: change(2))
  then show ?thesis using change(2) by (intro bexI) auto
qed

lemma rejected_workflow:
  assumes "waitAfterDepartmentRejection now w a = Inr b"
  shows "\<exists>q \<in> set (db_workflows b). wf_id q = wf_id w \<and>
    wf_status q = (if remaining_application (wf_candidate w) b then WfWaitingNext else WfTalentPool)"
proof -
  have wait: "\<exists>q \<in> set (db_workflows b). wf_id q = wf_id w \<and> wf_status q = WfWaitingNext"
      "db_resumes b = db_resumes c \<and> db_applications b = db_applications c"
    if wait: "waitForNextApplication w c = Inr b" for c
  proof -
    obtain q where q: "save_workflow (wf_id w) (\<lambda>w. w\<lparr>wf_status := WfWaitingNext,
       wf_current_resume := None, wf_current_rank := None, wf_archive_reason := [],
       wf_archive_detail := [], wf_block_reason := [], wf_block_detail := [], wf_completed := None\<rparr>) c = Inr (q, b)"
      using wait by (auto simp: waitForNextApplication_def andThen_eq_Inr)
    have "q \<in> set (db_workflows b)" "wf_id q = wf_id w" "wf_status q = WfWaitingNext"
      using save_workflow_saved [OF q] by auto
    then show "\<exists>q \<in> set (db_workflows b). wf_id q = wf_id w \<and> wf_status q = WfWaitingNext" by blast
    show "db_resumes b = db_resumes c \<and> db_applications b = db_applications c"
      using q by (auto simp: save_workflow_Inr)
  qed
  let ?c = "closePoolMemberships (wf_id w) None ''department_rejected'' a"
  have rem: "remaining_application i b = remaining_application i c"
    if "db_resumes b = db_resumes c \<and> db_applications b = db_applications c" for i c
    using that by (simp add: remaining_application_def)
  show ?thesis
  proof (cases "remaining_application (wf_candidate w) ?c")
    case True
    then have "waitForNextApplication w ?c = Inr b"
      using assms by (simp add: waitAfterDepartmentRejection_def Let_def)
    from wait [OF this] rem True show ?thesis by auto
  next
    case False
    then obtain q where q: "save_workflow (wf_id w) (\<lambda>w. w\<lparr>wf_status := WfTalentPool,
             wf_archive_reason := ''all_rejected'', wf_archive_detail := ''every application was rejected'',
             wf_block_reason := [], wf_block_detail := [], wf_completed := Some now\<rparr>)
           (closePoolMemberships (wf_id w) None ''all_rejected'' ?c) = Inr (q, b)"
      using assms by (auto simp: waitAfterDepartmentRejection_def talentPool_def Let_def andThen_eq_Inr)
    have "q \<in> set (db_workflows b)" "wf_id q = wf_id w" "wf_status q = WfTalentPool"
      using save_workflow_saved [OF q] by auto
    moreover have "db_resumes b = db_resumes ?c \<and> db_applications b = db_applications ?c"
      using q by (auto simp: save_workflow_Inr closePoolMemberships_eq)
    ultimately show ?thesis using rem False by auto
  qed
qed

lemma after_feedback_facts:
  assumes "after_feedback now w att p a = Inr b" and "ledger_ok a"
  shows "(\<exists>x \<in> set (db_applications b). app_resume x = att_resume att \<and>
      app_status x = (if att_status att = AttPassed then AppPassed else AppDepartmentRejected)) \<and>
    (\<exists>q \<in> set (db_workflows b). wf_id q = wf_id w \<and> wf_status q =
      (if att_status att = AttPassed then WfPassed
       else if remaining_application (wf_candidate w) b then WfWaitingNext else WfTalentPool))"
proof -
  let ?st = "if att_status att = AttPassed then AppPassed else AppDepartmentRejected"
  obtain payload c where s: "applicationState now (att_resume att) ?st
        (trim_space (att_feedback_label att @ '' '' @ att_feedback_note att)) payload a = Inr c"
    and t: "if att_status att = AttPassed then \<exists>x d. save_workflow (wf_id w) (\<lambda>r. r\<lparr>wf_status := WfPassed,
            wf_passed_attempt := Some (att_id att), wf_block_reason := [], wf_block_detail := [],
            wf_completed := Some now\<rparr>) c = Inr (x, d) \<and> cancelOpenAttempts now w ''workflow_passed'' [] d = Inr b
       else waitAfterDepartmentRejection now w c = Inr b"
    using assms(1) by (auto simp: after_feedback_def Let_def andThen_eq_Inr split: if_splits)
  have okc: "ledger_ok c" using ledger.state [OF s] assms(2) by (simp add: ledger_step_def)
  have "ledger_step c b"
  proof (cases "att_status att = AttPassed")
    case True
    then show ?thesis using t
      by (auto intro: ledger.trans [OF ledger.save_workflow ledger.cancelOpenAttempts])
  next
    case False
    then show ?thesis using t by (simp add: ledger.waitAfterDepartmentRejection)
  qed
  then have g: "ledger_grows c b" using okc by (simp add: ledger_step_def)
  obtain x where x: "x \<in> set (db_applications c)" "app_resume x = att_resume att" "app_status x = ?st"
    using applicationState_status [OF s] by blast
  then have one: "x \<in> set (db_applications b)" using g by (auto simp: ledger_grows_def split: if_splits)
  have two: "\<exists>q \<in> set (db_workflows b). wf_id q = wf_id w \<and> wf_status q =
      (if att_status att = AttPassed then WfPassed
       else if remaining_application (wf_candidate w) b then WfWaitingNext else WfTalentPool)"
  proof (cases "att_status att = AttPassed")
    case True
    then obtain y d where y: "save_workflow (wf_id w) (\<lambda>r. r\<lparr>wf_status := WfPassed,
            wf_passed_attempt := Some (att_id att), wf_block_reason := [], wf_block_detail := [],
            wf_completed := Some now\<rparr>) c = Inr (y, d)" "cancelOpenAttempts now w ''workflow_passed'' [] d = Inr b"
      using t by auto
    then have "y \<in> set (db_workflows b)" "wf_id y = wf_id w" "wf_status y = WfPassed"
      using save_workflow_saved [OF y(1)] cancelOpenAttempts_frame [OF y(2)] by auto
    then show ?thesis using True by auto
  next
    case False
    then show ?thesis using t rejected_workflow by simp
  qed
  show ?thesis using one x two by blast
qed

definition workflows_ok :: "db \<Rightarrow> bool" where
  "workflows_ok db \<longleftrightarrow> distinct (map wf_id (db_workflows db)) \<and> distinct (map wf_candidate (db_workflows db))"

text \<open>The locked workflow is the one of the attempt.\<close>

lemma locked_workflow:
  assumes "fetch wf_id i (db_workflows db) = Inr row" and "lockWorkflow (wf_candidate row) db = Inr (w, c)"
    and "invalidateWorkflow w c = Inr (w', d)" and "workflows_ok db"
  shows "w \<in> set (db_workflows db) \<and> wf_id w = i \<and> wf_id w' = i \<and> wf_candidate w' = wf_candidate w"
proof -
  have row: "row \<in> set (db_workflows db)" "wf_id row = i" using fetch_Inr [OF assms(1)] by auto
  then have "first_where (\<lambda>w. wf_candidate w = wf_candidate row) (db_workflows db) = Some row"
    using assms(4) by (intro first_where_key) (auto simp: workflows_ok_def)
  then have w: "w = row" "c = db" using assms(2) by (auto simp: lockWorkflow_def andThen_eq_Inr)
  have "first_where (\<lambda>r. wf_id r = wf_id row) (db_workflows db) = Some row"
    using assms(4) row by (intro first_where_key) (auto simp: workflows_ok_def)
  then show ?thesis using w row assms(3) by (auto simp: invalidateWorkflow_def save_workflow_Inr)
qed

text \<open>C26. Accepted feedback comes from someone with the right to give it on a dispatched attempt
  without feedback, and closes the matter: the attempt is passed or rejected, its application is
  closed accordingly, and the workflow is passed, waits for the candidate's next open application,
  or ends in the talent pool when none is left.\<close>

theorem feedback_closes_application:
  assumes "mutateAttempt welink pof choices now seen ''feedback'' body p batch db = Inr (att, db')"
    and "ledger_ok db" and "workflows_ok db"
    and "ok = (str (fld body ''result'') = ''passed'')"
  shows "(\<exists>x \<in> set (db_attempts db). att_id x = att_id att \<and> att_status x = AttDispatched
      \<and> att_feedback_at x = None \<and> canFeedbackAttempt p x) \<and>
    att_status att = (if ok then AttPassed else AttRejected) \<and>
    (\<exists>x \<in> set (db_applications db'). app_resume x = att_resume att \<and>
      app_status x = (if ok then AppPassed else AppDepartmentRejected)) \<and>
    (\<exists>w \<in> set (db_workflows db). wf_id w = att_workflow seen \<and>
      (\<exists>q \<in> set (db_workflows db'). wf_id q = wf_id w \<and> wf_status q = (if ok then WfPassed
        else if remaining_application (wf_candidate w) db' then WfWaitingNext else WfTalentPool)))"
proof -
  obtain row w c x chg where s: "fetch wf_id (att_workflow seen) (db_workflows db) = Inr row"
      "lockWorkflow (wf_candidate row) db = Inr (w, c)"
      "fetch att_id (att_id seen) (db_attempts c) = Inr x"
      "decide_action welink pof choices c p now x ''feedback'' body = Inr chg"
      "apply_change now w x chg ''feedback'' p batch c = Inr (att, db')"
    using mutateAttempt_Inr [OF assms(1)] by auto
  obtain w' d e where t: "invalidateWorkflow w c = Inr (w', d)"
      "save_attempt now (att_id x) (chg_row chg) d = Inr (att, e)"
      "finish_change now w' att (chg_note chg) ''feedback'' p
       (handling_event now att (chg_event chg) (chg_from chg) (chg_to chg) (chg_note chg) (Some p) batch
         (chg_metadata chg) None e) = Inr db'"
    using s(5) by (auto simp: apply_change_def andThen_eq_Inr)
  let ?e = "handling_event now att (chg_event chg) (chg_from chg) (chg_to chg) (chg_note chg) (Some p) batch
         (chg_metadata chg) None e"
  have f: "decide_feedback choices p now x body = Inr chg" using s(4) by (simp add: decide_action_def)
  have x: "x \<in> set (db_attempts db)" using fetch_Inr [OF s(3)] lockWorkflow_frame(1) [OF s(2)] by simp
  obtain r where r: "first_where (\<lambda>a. att_id a = att_id x) (db_attempts d) = Some r" "att = chg_row chg r"
    using t(2) by (auto simp: save_attempt_Inr)
  have id: "att_id att = att_id x" using first_where_SomeD [OF r(1)] decide_feedback_facts [OF f] r(2) by auto
  have st: "att_status att = (if ok then AttPassed else AttRejected)"
    using decide_feedback_facts [OF f] r(2) assms(4) by auto
  have "ledger_step db ?e"
    using ledger.lockWorkflow [OF s(2)] ledger.invalidateWorkflow [OF t(1)] ledger.save_attempt [OF t(2)]
      ledger.handling_event by (blast intro: ledger.trans)
  then have ledger: "ledger_ok ?e" using assms(2) by (simp add: ledger_step_def)
  have af: "after_feedback now w' att p ?e = Inr db'"
    using t(3) by (auto simp: finish_change_def andThen_eq_Inr)
  note w = locked_workflow [OF s(1,2) t(1) assms(3)]
  have one: "\<exists>x \<in> set (db_attempts db). att_id x = att_id att \<and> att_status x = AttDispatched
      \<and> att_feedback_at x = None \<and> canFeedbackAttempt p x"
    using x id decide_feedback_facts [OF f] by auto
  have app: "\<exists>x \<in> set (db_applications db'). app_resume x = att_resume att \<and>
      app_status x = (if ok then AppPassed else AppDepartmentRejected)"
    and q: "\<exists>q \<in> set (db_workflows db'). wf_id q = wf_id w' \<and> wf_status q = (if ok then WfPassed
        else if remaining_application (wf_candidate w') db' then WfWaitingNext else WfTalentPool)"
    using after_feedback_facts [OF af ledger] st by (auto split: if_splits)
  have "\<exists>w \<in> set (db_workflows db). wf_id w = att_workflow seen \<and>
      (\<exists>q \<in> set (db_workflows db'). wf_id q = wf_id w \<and> wf_status q = (if ok then WfPassed
        else if remaining_application (wf_candidate w) db' then WfWaitingNext else WfTalentPool))"
  proof (rule bexI [of _ w], intro conjI)
    show "\<exists>q \<in> set (db_workflows db'). wf_id q = wf_id w \<and> wf_status q = (if ok then WfPassed
        else if remaining_application (wf_candidate w) db' then WfWaitingNext else WfTalentPool)"
      using q w by (elim conjE) (simp only:)
  qed (use w in simp_all)
  with one st app show ?thesis by (intro conjI)
qed

theorem feedback_closes_application_witness:
  "\<exists>att db'. mutateAttempt False (\<lambda>_. None) [] 5 sample_attempt ''feedback'' sample_feedback
      sample_liaison None sample_db = Inr (att, db') \<and> att_status att = AttPassed \<and>
    (\<exists>x \<in> set (db_applications db'). app_resume x = att_resume att \<and> app_status x = AppPassed) \<and>
    (\<exists>q \<in> set (db_workflows db'). wf_id q = 30 \<and> wf_status q = WfPassed)"
proof -
  obtain att db' where r: "mutateAttempt False (\<lambda>_. None) [] 5 sample_attempt ''feedback'' sample_feedback
     sample_liaison None sample_db = Inr (att, db')" using sample_feedback_accepted by blast
  have "workflows_ok sample_db" by (simp add: workflows_ok_def sample_db_def)
  note f = feedback_closes_application [OF r sample_db_ok(1) this refl]
  have ok: "(str (fld sample_feedback ''result'') = ''passed'') = True"
    and wid: "att_workflow sample_attempt = 30"
    by (simp_all add: sample_feedback_def sample_attempt_def)
  note g = f [unfolded ok wid if_True]
  have "\<exists>q \<in> set (db_workflows db'). wf_id q = 30 \<and> wf_status q = WfPassed"
    using g by (elim conjE bexE) metis
  then show ?thesis using r g by blast
qed

lemma applicationState_error:
  "applicationState now r st reason payload db = Inl e \<Longrightarrow> e = not_found \<or> e = ApiError 409 ''application closed''"
  by (auto simp: applicationState_def Let_def split: option.splits if_splits)

lemma save_workflow_error: "save_workflow i f db = Inl e \<Longrightarrow> e = not_found"
  by (auto simp: save_workflow_def save_row_def andThen_eq_Inl split: option.splits)

lemma cancelOpenAttempts_error:
  assumes "cancelOpenAttempts now w reason sources db = Inl e"
  shows "e = not_found \<or> e = ApiError 409 ''application closed''"
proof -
  obtain x t where "cancel_one now reason sources x t = Inl e"
    using foldE_error assms unfolding cancelOpenAttempts_def by meson
  then show ?thesis
    by (auto simp: cancel_one_def save_attempt_def save_row_def andThen_eq_Inl split: if_splits option.splits
        dest: applicationState_error)
qed

lemma cancelOpenAttempts_no_effective:
  assumes "cancelOpenAttempts now w reason [] a = Inr b" and "distinct (map att_id (db_attempts a))"
    and "\<forall>r \<in> set (db_attempts a). att_workflow r = wf_id w \<longrightarrow> att_status r \<noteq> AttPassed"
  shows "\<not> effective_attempt (wf_id w) b"
proof
  assume "effective_attempt (wf_id w) b"
  then obtain r where r: "r \<in> set (db_attempts b)" "att_workflow r = wf_id w" "effective_status (att_status r)"
    by (auto simp: effective_attempt_def exists_where_iff)
  then have p: "att_status r = AttPassed"
    using cancelOpenAttempts_none_open [OF assms(1,2)] by (auto simp: effective_iff_open)
  have d: "distinct (map att_id (open_attempts (wf_id w) a))"
    using assms(2) by (auto simp: open_attempts_def intro: distinct_map_filter)
  have "db_attempts b = update_where (cancels [] (open_attempts (wf_id w) a))
      (cancel_attempt_row now reason) (db_attempts a)"
    using cancel_loop_rows [OF assms(1) [unfolded cancelOpenAttempts_def] d] .
  then have "r \<in> set (db_attempts a)"
    using r(1) p by (auto simp: in_update_where cancel_attempt_row_def split: if_splits)
  then show False using assms(3) r(2) p by auto
qed

text \<open>What foreign keys and the feedback handler establish: an attempt has its workflow row, and that
  of a passed attempt is passed.\<close>

definition attempts_linked :: "db \<Rightarrow> bool" where
  "attempts_linked db \<longleftrightarrow> (\<forall>a \<in> set (db_attempts db). \<exists>w \<in> set (db_workflows db). wf_id w = att_workflow a
     \<and> (att_status a = AttPassed \<longrightarrow> wf_status w = WfPassed)) \<and>
     (\<forall>w \<in> set (db_workflows db). wf_id w < db_next db)"

lemma locked_not_passed:
  assumes "lockWorkflow cand db = Inr (w, c)" and "wf_status w \<noteq> WfPassed"
    and "workflows_ok db" and "attempts_linked db" and "r \<in> set (db_attempts c)" and "att_workflow r = wf_id w"
  shows "att_status r \<noteq> AttPassed"
proof
  assume p: "att_status r = AttPassed"
  have r: "r \<in> set (db_attempts db)" using assms(5) lockWorkflow_frame(1) [OF assms(1)] by simp
  obtain v where v: "v \<in> set (db_workflows db)" "wf_id v = wf_id w" "wf_status v = WfPassed"
    using assms(4,6) r p by (auto simp: attempts_linked_def)
  show False
  proof (cases "first_where (\<lambda>w. wf_candidate w = cand) (db_workflows db)")
    case None
    then have "wf_id w = db_next db" using assms(1) by (auto simp: lockWorkflow_def andThen_eq_Inr Let_def)
    then show ?thesis using v assms(4) by (auto simp: attempts_linked_def)
  next
    case (Some u)
    then have "w = u" using assms(1) by (auto simp: lockWorkflow_def andThen_eq_Inr)
    then have "w \<in> set (db_workflows db)" using first_where_SomeD [OF Some] by simp
    then have "v = w" using v assms(3) by (auto simp: workflows_ok_def dest: distinct_key_unique)
    then show ?thesis using v assms(2) by simp
  qed
qed

lemma lockWorkflow_error: "lockWorkflow cand db = Inl e \<Longrightarrow> e = not_found"
  by (auto simp: lockWorkflow_def andThen_eq_Inl fetch_def Let_def split: option.splits)

lemma invalidateWorkflow_error: "invalidateWorkflow w db = Inl e \<Longrightarrow> e = not_found"
  by (auto simp: invalidateWorkflow_def dest: save_workflow_error)

lemma receivingDepartment_error: "receivingDepartment t = Inl e \<Longrightarrow> \<exists>g. e = bad g"
  by (auto simp: receivingDepartment_def split: if_splits)

lemma requireOpenApplication_error:
  "requireOpenApplication r db = Inl e \<Longrightarrow> e = ApiError 409 ''application closed''"
  by (simp add: requireOpenApplication_def)

lemma touchWorkflow_error: "touchWorkflow now w resume db = Inl e \<Longrightarrow> e = not_found"
  by (auto simp: touchWorkflow_def andThen_eq_Inl dest: save_workflow_error)

lemma application_follows_error:
  "application_follows now att db = Inl e \<Longrightarrow>
    e = OtherError ''application status'' \<or> e = not_found \<or> e = ApiError 409 ''application closed''"
  by (auto simp: application_follows_def split: option.splits dest: applicationState_error)

lemma fetch_error: "fetch key i rs = Inl e \<Longrightarrow> e = not_found"
  by (auto simp: fetch_def split: option.splits)

lemma fetch_opt_error: "fetch_opt key i rs = Inl e \<Longrightarrow> e = not_found"
  by (auto simp: fetch_opt_def split: option.splits dest: fetch_error)

lemma not_unique_errors:
  "OtherError ''platform_one_effective_attempt'' \<noteq> not_found"
  "OtherError ''platform_one_effective_attempt'' \<noteq> bad g"
  by (simp_all add: not_found_def bad_def)

text \<open>An error of a sequence that its first step does not raise comes from the rest.\<close>

lemma andThen_blocked:
  assumes "andThen x f = Inl e" and "\<And>a. x = Inr a \<Longrightarrow> f a = Inl e \<Longrightarrow> P" and "x \<noteq> Inl e"
  shows P
  using assms by (cases x) (auto simp: andThen_def)

lemma createAttempt_error:
  assumes "createAttempt now w resume target vals p db = Inl (OtherError ''platform_one_effective_attempt'')"
  shows "effective_attempt (wf_id w) db"
proof (rule ccontr)
  assume n: "\<not> effective_attempt (wf_id w) db"
  have "insert_attempt (new_attempt w resume r target vals p db) db \<noteq> Inl e" for r e
    using n by (simp add: insert_attempt_def Let_def new_attempt_def)
  then show False
    using assms not_unique_errors unfolding createAttempt_def
    by (auto simp: andThen_eq_Inl dest!: save_workflow_error application_follows_error touchWorkflow_error
        receivingDepartment_error requireOpenApplication_error)
qed

lemma touchWorkflow_attempts: "touchWorkflow now w resume a = Inr b \<Longrightarrow> db_attempts b = db_attempts a"
  by (auto simp: touchWorkflow_def andThen_eq_Inr save_workflow_frame closePoolMemberships_eq)

lemma application_follows_attempts: "application_follows now att a = Inr b \<Longrightarrow> db_attempts b = db_attempts a"
  by (auto simp: application_follows_def applicationState_frame split: option.splits)

lemma created_event_attempts: "db_attempts (created_event now att receiver p db) = db_attempts db"
  by (simp add: created_event_def frame_simps)

lemma manual_target_attempts: "db_attempts (manual_target now att target db) = db_attempts db"
  by (simp add: manual_target_def)

lemma createAttempt_attempts:
  assumes "createAttempt now w resume target vals p a = Inr (att, b)"
  shows "\<exists>receiver. db_attempts b = db_attempts a @ [att] \<and>
    att = (new_attempt w resume receiver target vals p a)\<lparr>att_id := db_next a\<rparr>"
proof -
  obtain receiver c d e x where s:
      "insert_attempt (new_attempt w resume receiver target vals p a) a = Inr (att, c)"
      "touchWorkflow now w resume (created_event now att receiver p (manual_target now att target c)) = Inr d"
      "save_workflow (wf_id w) (\<lambda>r. r\<lparr>wf_strategy := att_match_mode att\<rparr>) d = Inr (x, e)"
      "application_follows now att e = Inr b"
    using assms by (auto simp: createAttempt_def andThen_eq_Inr)
  have "db_attempts b = db_attempts c"
    using application_follows_attempts [OF s(4)] save_workflow_frame(1) [OF s(3)] touchWorkflow_attempts [OF s(2)]
    by (simp add: created_event_attempts manual_target_attempts)
  then show ?thesis using s(1) by (auto simp: insert_attempt_Inr)
qed

lemma cancelled_then_free:
  assumes "lockWorkflow cand db = Inr (w, c)" and "wf_status w \<noteq> WfPassed"
    and "invalidateWorkflow w c = Inr (w', d)"
    and "cancelOpenAttempts now w' ''manual_replaced'' [] d = Inr e"
    and "attempts_ok db" and "workflows_ok db" and "attempts_linked db"
  shows "\<not> effective_attempt (wf_id w') (closePoolMemberships i x why e)"
proof -
  have id: "wf_id w' = wf_id w" "db_attempts d = db_attempts c"
    using assms(3) by (auto simp: invalidateWorkflow_def save_workflow_Inr dest: first_where_SomeD)
  have frame: "db_attempts c = db_attempts db" using lockWorkflow_frame(1) [OF assms(1)] .
  have "\<not> effective_attempt (wf_id w') e"
  proof (rule cancelOpenAttempts_no_effective [OF assms(4)])
    show "distinct (map att_id (db_attempts d))" using assms(5) id frame by (simp add: attempts_ok_def)
    show "\<forall>r \<in> set (db_attempts d). att_workflow r = wf_id w' \<longrightarrow> att_status r \<noteq> AttPassed"
      using locked_not_passed [OF assms(1,2,6,7)] id by simp
  qed
  then show ?thesis by (simp add: effective_attempt_def closePoolMemberships_eq)
qed

text \<open>The memberships of a workflow are closed, and stay closed while an attempt is created.\<close>

definition memberships_closed :: "int \<Rightarrow> db \<Rightarrow> bool" where
  "memberships_closed i db \<longleftrightarrow>
     (\<forall>m \<in> set (db_members db). mem_workflow m = i \<longrightarrow> \<not> active_member_status (mem_status m))"

lemma memberships_closed_frame:
  "db_members b = db_members a \<Longrightarrow> memberships_closed i b \<longleftrightarrow> memberships_closed i a"
  by (simp add: memberships_closed_def)

lemma closePoolMemberships_member:
  assumes "m \<in> set (db_members (closePoolMemberships i except why a))"
  shows "\<exists>q \<in> set (db_members a). mem_workflow m = mem_workflow q \<and>
    (if close_member i except q then mem_status m = PmClosed else m = q)"
  using assms unfolding closePoolMemberships_eq by (force simp: in_update_where)

lemma closePoolMemberships_closes: "memberships_closed i (closePoolMemberships i None why a)"
  unfolding memberships_closed_def
proof (intro ballI impI)
  fix m assume "m \<in> set (db_members (closePoolMemberships i None why a))" and w: "mem_workflow m = i"
  then obtain q where "mem_workflow m = mem_workflow q"
      "if close_member i None q then mem_status m = PmClosed else m = q"
    using closePoolMemberships_member by blast
  then show "\<not> active_member_status (mem_status m)" using w by (auto simp: close_member_def split: if_splits)
qed

lemma closePoolMemberships_keeps_closed:
  assumes "memberships_closed i a"
  shows "memberships_closed i (closePoolMemberships j except why a)"
  unfolding memberships_closed_def
proof (intro ballI impI)
  fix m assume "m \<in> set (db_members (closePoolMemberships j except why a))" and w: "mem_workflow m = i"
  then obtain q where q: "q \<in> set (db_members a)" "mem_workflow m = mem_workflow q"
      "if close_member j except q then mem_status m = PmClosed else m = q"
    using closePoolMemberships_member by blast
  then show "\<not> active_member_status (mem_status m)"
    using w assms by (cases "close_member j except q") (auto simp: memberships_closed_def)
qed

lemma touchWorkflow_memberships:
  "touchWorkflow now w resume a = Inr b \<Longrightarrow> memberships_closed i a \<Longrightarrow> memberships_closed i b"
  by (auto simp: touchWorkflow_def andThen_eq_Inr memberships_closed_frame [OF save_workflow_frame(3)]
      closePoolMemberships_keeps_closed)

lemma createAttempt_memberships:
  assumes "createAttempt now w resume target vals p a = Inr (att, b)" and "memberships_closed i a"
  shows "memberships_closed i b"
proof -
  obtain receiver c d e x where s:
      "insert_attempt (new_attempt w resume receiver target vals p a) a = Inr (att, c)"
      "touchWorkflow now w resume (created_event now att receiver p (manual_target now att target c)) = Inr d"
      "save_workflow (wf_id w) (\<lambda>r. r\<lparr>wf_strategy := att_match_mode att\<rparr>) d = Inr (x, e)"
      "application_follows now att e = Inr b"
    using assms(1) by (auto simp: createAttempt_def andThen_eq_Inr)
  have "db_members c = db_members a" using s(1) by (auto simp: insert_attempt_Inr)
  then have "db_members (created_event now att receiver p (manual_target now att target c)) = db_members a"
    by (simp add: created_event_def manual_target_def frame_simps)
  then have "memberships_closed i d" using touchWorkflow_memberships [OF s(2)] assms(2)
    by (simp add: memberships_closed_def)
  moreover have "db_members b = db_members d"
    using s(4) save_workflow_frame(3) [OF s(3)]
    by (auto simp: application_follows_def applicationState_frame split: option.splits)
  ultimately show ?thesis by (simp add: memberships_closed_def)
qed

lemma manualAssign_Inr:
  assumes "manualAssign now r target reason p db = Inr (att, db')"
  shows "\<exists>res w t w' c d e. lockWorkflow (res_candidate res) db = Inr (w, c) \<and> wf_status w \<noteq> WfPassed \<and>
      fetch_opt dep_id target (db_departments c) = Inr t \<and> invalidateWorkflow w c = Inr (w', d) \<and>
      cancelOpenAttempts now w' ''manual_replaced'' [] d = Inr e \<and>
      createAttempt now w' res t (manual_values reason) (Some p)
        (closePoolMemberships (wf_id w') None ''manual_replaced'' e) = Inr (att, db')"
  using assms
  by (simp add: manualAssign_def assign_locked_def assign_replacing_def andThen_eq_Inr split: if_splits prod.splits)
    blast

lemma manualAssign_duplicate:
  assumes "manualAssign now r target reason p db = Inl (OtherError ''platform_one_effective_attempt'')"
      (is "_ = Inl ?dup")
  shows "\<exists>cand w c w' d e. lockWorkflow cand db = Inr (w, c) \<and> wf_status w \<noteq> WfPassed \<and>
      invalidateWorkflow w c = Inr (w', d) \<and> cancelOpenAttempts now w' ''manual_replaced'' [] d = Inr e \<and>
      effective_attempt (wf_id w') (closePoolMemberships (wf_id w') None ''manual_replaced'' e)"
proof -
  note not = not_unique_errors not_unique_errors [symmetric]
  obtain res where 1: "andThen (lockWorkflow (res_candidate res) db) (\<lambda>(w, db).
      if wf_status w = WfPassed then Inl (ApiError 409 ''a passed candidate cannot be assigned'')
      else assign_locked now res w target reason p db) = Inl ?dup"
    by (rule andThen_blocked [OF assms [unfolded manualAssign_def]]) (auto dest: fetch_error simp: not)
  obtain w c where 2: "lockWorkflow (res_candidate res) db = Inr (w, c)" "wf_status w \<noteq> WfPassed"
      "assign_locked now res w target reason p c = Inl ?dup"
    by (rule andThen_blocked [OF 1]) (auto dest: lockWorkflow_error simp: not split: if_splits)
  obtain t where 3: "andThen (receivingDepartment t) (\<lambda>_. assign_replacing now res w t reason p c) = Inl ?dup"
    by (rule andThen_blocked [OF 2(3) [unfolded assign_locked_def]]) (auto dest: fetch_opt_error simp: not)
  have 4: "assign_replacing now res w t reason p c = Inl ?dup"
    by (rule andThen_blocked [OF 3]) (auto dest: receivingDepartment_error simp: not)
  obtain w' d where 5: "invalidateWorkflow w c = Inr (w', d)"
      "andThen (cancelOpenAttempts now w' ''manual_replaced'' [] d) (\<lambda>db.
        createAttempt now w' res t (manual_values reason) (Some p)
          (closePoolMemberships (wf_id w') None ''manual_replaced'' db)) = Inl ?dup"
    by (rule andThen_blocked [OF 4 [unfolded assign_replacing_def]])
      (auto dest: invalidateWorkflow_error simp: not)
  obtain e where 6: "cancelOpenAttempts now w' ''manual_replaced'' [] d = Inr e"
      "createAttempt now w' res t (manual_values reason) (Some p)
        (closePoolMemberships (wf_id w') None ''manual_replaced'' e) = Inl ?dup"
    by (rule andThen_blocked [OF 5(2)]) (auto dest: cancelOpenAttempts_error simp: not)
  show ?thesis using 2(1,2) 5(1) 6(1) createAttempt_error [OF 6(2)] by blast
qed

text \<open>C27. Manual assignment, once its guards pass, replaces whatever is open: in a well-formed
  database it never runs into the unique index on effective attempts, and afterwards the workflow
  has exactly one effective attempt, the new one, pending dispatch to the chosen department, and no
  pool membership of the workflow is active.\<close>

theorem manual_assignment_replaces:
  assumes "attempts_ok db" and "workflows_ok db" and "attempts_linked db"
  shows "manualAssign now r target reason p db \<noteq> Inl (OtherError ''platform_one_effective_attempt'') \<and>
    (\<forall>att db'. manualAssign now r target reason p db = Inr (att, db') \<longrightarrow>
      att_status att = AttPendingDispatch \<and> att_source att = FromManual \<and>
      Some (att_current_dept att) = target \<and> att \<in> set (db_attempts db') \<and>
      (\<forall>a \<in> set (db_attempts db'). att_workflow a = att_workflow att \<and> effective_status (att_status a)
        \<longrightarrow> a = att) \<and>
      (\<forall>m \<in> set (db_members db'). mem_workflow m = att_workflow att \<longrightarrow>
        \<not> active_member_status (mem_status m)))"
proof (intro conjI [of "_ \<noteq> _"] allI impI)
  show "manualAssign now r target reason p db \<noteq> Inl (OtherError ''platform_one_effective_attempt'')"
    using manualAssign_duplicate cancelled_then_free [OF _ _ _ _ assms] by blast
next
  fix att db' assume m: "manualAssign now r target reason p db = Inr (att, db')"
  obtain res w t w' c d e where s: "lockWorkflow (res_candidate res) db = Inr (w, c)" "wf_status w \<noteq> WfPassed"
      "fetch_opt dep_id target (db_departments c) = Inr t"
      "invalidateWorkflow w c = Inr (w', d)" "cancelOpenAttempts now w' ''manual_replaced'' [] d = Inr e"
      "createAttempt now w' res t (manual_values reason) (Some p)
        (closePoolMemberships (wf_id w') None ''manual_replaced'' e) = Inr (att, db')"
    using manualAssign_Inr [OF m] by (elim exE conjE)
  have n: "\<not> effective_attempt (wf_id w') (closePoolMemberships (wf_id w') None ''manual_replaced'' e)"
    using cancelled_then_free [OF s(1,2,4,5) assms] .
  have v: "att_source (manual_values reason attempt_defaults) = FromManual"
      "att_status (manual_values reason attempt_defaults) = AttPendingDispatch"
    by (simp_all add: manual_values_def attempt_defaults_def)
  have t: "Some (dep_id t) = target" using fetch_opt_Inr [OF s(3)] by auto
  have "memberships_closed (wf_id w') db'"
    using createAttempt_memberships [OF s(6)] closePoolMemberships_closes by blast
  then show "att_status att = AttPendingDispatch \<and> att_source att = FromManual \<and>
      Some (att_current_dept att) = target \<and> att \<in> set (db_attempts db') \<and>
      (\<forall>a \<in> set (db_attempts db'). att_workflow a = att_workflow att \<and> effective_status (att_status a) \<longrightarrow> a = att) \<and>
      (\<forall>m \<in> set (db_members db'). mem_workflow m = att_workflow att \<longrightarrow> \<not> active_member_status (mem_status m))"
    using createAttempt_attempts [OF s(6)] n v t
    by (auto simp: effective_attempt_def exists_where_iff new_attempt_def memberships_closed_def)
qed

text \<open>A workflow with a dispatched attempt and a membership that waits for allocation.\<close>

definition sample_waiting :: db where
  "sample_waiting = sample_db\<lparr>db_members := [\<lparr> mem_id = 45, mem_candidate = 10, mem_workflow = 30,
     mem_resume = 20, mem_decision = 1, mem_run = 1, mem_standard = ''s'', mem_pool = ''dev'',
     mem_status = PmPendingAllocation, mem_tags = [], mem_assessment = [], mem_checksum = [],
     mem_revision = 1, mem_created = 0 \<rparr>]\<rparr>"

theorem manual_assignment_replaces_witness:
  "\<exists>att db'. manualAssign 5 20 (Some 1) ''r'' sample_liaison sample_waiting = Inr (att, db') \<and>
    att_workflow att = 30 \<and> att_status att = AttPendingDispatch \<and>
    (\<forall>a \<in> set (db_attempts db'). att_workflow a = 30 \<and> effective_status (att_status a) \<longrightarrow> a = att) \<and>
    (\<forall>m \<in> set (db_members db'). mem_workflow m = 30 \<longrightarrow> \<not> active_member_status (mem_status m))"
proof -
  have "(case manualAssign 5 20 (Some 1) ''r'' sample_liaison sample_waiting of
      Inl _ \<Rightarrow> False | Inr r \<Rightarrow> att_workflow (fst r) = 30)" by code_simp
  then obtain att db' where m: "manualAssign 5 20 (Some 1) ''r'' sample_liaison sample_waiting = Inr (att, db')"
      "att_workflow att = 30"
    by (auto split: sum.splits)
  have a: "attempts_ok sample_waiting" using sample_db_ok(2) by (simp add: attempts_ok_def sample_waiting_def)
  have w: "workflows_ok sample_waiting" "attempts_linked sample_waiting"
    by (simp_all add: workflows_ok_def attempts_linked_def sample_waiting_def sample_db_def
        sample_attempt_def sample_workflow_def attempt_defaults_def)
  from manual_assignment_replaces [OF a w, of 5 20 "Some 1" "''r''" sample_liaison]
  have f: "att_status att = AttPendingDispatch"
      "\<forall>a \<in> set (db_attempts db'). att_workflow a = 30 \<and> effective_status (att_status a) \<longrightarrow> a = att"
      "\<forall>m \<in> set (db_members db'). mem_workflow m = 30 \<longrightarrow> \<not> active_member_status (mem_status m)"
    using m by auto
  show ?thesis using m f by blast
qed

end
