(* ===== verification/CommitProperties.thy ===== *)
theory CommitProperties
  imports QueueProperties AllocationReplay Attempts
begin

text \<open>
  What committing a plan does to the rest of the platform: it keeps the invariants of the attempts
  and of the application ledger, a simulation changes no business table, a committed plan is the
  plan of the state it is committed in, and every assignment gets one target in sequence.
\<close>

subsection \<open>Relations kept by the allocation worker\<close>

text \<open>
  For a relation on attempts and applications: whatever the composite operations keep, and whatever
  leaves the attempts, the applications and their events alone, is kept by the worker.
\<close>

locale placing_relation =
  fixes R :: "db \<Rightarrow> db \<Rightarrow> bool"
  assumes trans: "R a b \<Longrightarrow> R b c \<Longrightarrow> R a c"
    and other: "db_attempts b = db_attempts a \<Longrightarrow> db_applications b = db_applications a
      \<Longrightarrow> db_app_events b = db_app_events a \<Longrightarrow> db_next a \<le> db_next b \<Longrightarrow> R a b"
    and state: "applicationState now resume status reason payload a = Inr b \<Longrightarrow> R a b"
    and lockWorkflow: "lockWorkflow i a = Inr (w, b) \<Longrightarrow> R a b"
    and createAttempt: "createAttempt now w rsm target vals p a = Inr (att, b) \<Longrightarrow> R a b"
begin

lemma refl: "R a a"
  by (rule other) simp_all

lemma drop_member: "drop_member now v a = Inr b \<Longrightarrow> R a b"
proof -
  assume d: "drop_member now v a = Inr b"
  have quiet: "R c (update_work w f c)" for c w f by (rule other) (simp_all add: update_work_def)
  have again: "R a c" if "reanalyse_member now m a = Inr c" for m c
  proof -
    let ?b = "a\<lparr>db_members := update_where (\<lambda>r. mem_id r = mem_id m)
      (\<lambda>r. r\<lparr>mem_status := PmNeedsReanalysis, mem_revision := mem_revision r + 1\<rparr>) (db_members a)\<rparr>"
    have "R a ?b" by (rule other) simp_all
    then show ?thesis using that unfolding reanalyse_member_def by (blast intro: trans state)
  qed
  show "R a b"
    using d again by (auto simp: drop_member_def Let_def andThen_eq_Inr split: if_splits
        intro: quiet trans [OF _ quiet])
qed

lemma assign_member:
  assumes "assign_member now scope plan d a = Inr b"
  shows "R a b"
proof -
  obtain m w c r job dep att e q f g where s: "lockWorkflow (mem_candidate m) a = Inr (w, c)"
      "createAttempt now w r dep (allocation_values m d) None c = Inr (att, e)"
      "place_resume r job (match_reason d)
         (e\<lparr>db_targets := db_targets e @ [demand_target now scope plan m d q att job dep]\<rparr>) = Inr f"
      "place_decision (mem_decision m) job dep f = Inr g"
      "b = allocated_event m d job att plan (mark_allocated m g)"
    using assms by (auto simp: assign_member_def andThen_eq_Inr)
  have 1: "R e f" using s(3) by (intro other) (auto simp: place_resume_def andThen_eq_Inr save_row_Inr)
  have 2: "R f g" using s(4) by (intro other) (auto simp: place_decision_def andThen_eq_Inr save_row_Inr)
  have 3: "R g b" unfolding s(5)
    by (rule other) (simp_all add: allocated_event_def poolEvent_def mark_allocated_def update_work_def)
  show ?thesis
    using trans [OF trans [OF trans [OF trans [OF lockWorkflow [OF s(1)] createAttempt [OF s(2)]] 1] 2] 3] .
qed

end

sublocale placing_relation < worker?: worker_relation
proof unfold_locales
  show "R a b" if "drop_member now v a = Inr b" for now v a b using that by (rule drop_member)
  show "R a b" if "assign_member now scope plan d a = Inr b" for now scope plan d a b
    using that by (rule assign_member)
  show "R a (wait_member task d a)" for a task d by (rule other) (simp_all add: wait_member_def update_work_def)
  show "R a (recordAllocationPlan t request result status code a)" for a t request result status code
    by (rule other) (simp_all add: recordAllocationPlan_def)
  show "R a (finish_empty c t a)" for a c t
    by (rule other) (simp_all add: finish_empty_def releaseAllocationLease_def update_task_def)
  show "R a (freeze_request t request a)" for a t request
    by (rule other) (simp_all add: freeze_request_def update_task_def)
  show "R a b" if "close_commit env c t plan result a = Inr b" for env c t plan result a b
    using that by (intro other) (auto simp: close_commit_def Let_def andThen_eq_Inr releaseAllocationLease_def
      update_task_def update_plan_def update_work_def advance_scope_def update_scope_def return_simulated_work_def)
qed (rule refl, erule (1) trans)

interpretation placing_attempts: placing_relation attempts_step
proof
  show "attempts_step a c" if "attempts_step a b" "attempts_step b c" for a b c
    using that by (rule attempts_step_trans)
qed (auto intro: attempts.frame attempts.core.state attempts.lockWorkflow attempts.createAttempt)

interpretation placing_ledger: placing_relation ledger_step
proof
  show "ledger_step a c" if "ledger_step a b" "ledger_step b c" for a b c
    using that by (rule ledger.trans)
qed (auto intro: ledger.frame ledger.state ledger.handling.lockWorkflow ledger.handling.createAttempt)

text \<open>The tables of the business, everything but the queue's own.\<close>

definition business :: "db \<Rightarrow> db" where
  "business db = db\<lparr>db_tasks := [], db_scopes := [], db_work := [], db_plans := [], db_next := 0\<rparr>"

lemma snapshot_read_only:
  assumes "buildAllocationSnapshot env s t now moment False a = Inr (snap, b)"
  shows "b = a"
proof -
  obtain ms where f: "foldE (snapshot_row env s now moment False a (scope_demands env s moment a))
      (allocationMemberRows (tsk_members t) a) ([], a) = Inr (ms, b)"
    using assms by (auto simp: buildAllocationSnapshot_def Let_def andThen_eq_Inr split: if_splits)
  have "snd (ms, b) = snd ([] :: alloc_member list, a)"
    using f by (rule foldE_relation [where R = "\<lambda>x y. snd y = snd x"])
      (auto simp: snapshot_row_def andThen_eq_Inr split: if_splits option.splits)
  then show ?thesis by simp
qed

lemma commit_parts:
  assumes "commit_transaction env now s t request result a = Inr b"
  obtains c current and q :: plan_row and e where
    "lockAllocationLease now s t a = Inr c"
    "buildAllocationSnapshot env c t now (time_or_zero (as_at (rq_snapshot request))) False a = Inr (current, a)"
    "allocationSnapshotHash (env_snapshot_hash env) current = rq_snapshot_hash request"
    "foldE (apply_decision now c t (pln_id q)) (rs_decisions result) a = Inr e"
    "close_commit env c t (pln_id q) result e = Inr b"
proof -
  obtain c current d and q :: plan_row and e where s: "lockAllocationLease now s t a = Inr c"
      "buildAllocationSnapshot env c t now (time_or_zero (as_at (rq_snapshot request))) False a = Inr (current, d)"
      "allocationSnapshotHash (env_snapshot_hash env) current = rq_snapshot_hash request"
      "foldE (apply_decision now c t (pln_id q)) (rs_decisions result) d = Inr e"
      "close_commit env c t (pln_id q) result e = Inr b"
    using assms by (auto simp: commit_transaction_def andThen_eq_Inr split: if_splits)
  have "d = a" using snapshot_read_only [OF s(2)] .
  with s that show ?thesis by blast
qed

lemma close_commit_business: "close_commit env c t plan result a = Inr b \<Longrightarrow> business b = business a"
  by (auto simp: close_commit_def Let_def andThen_eq_Inr releaseAllocationLease_def update_task_def
      update_plan_def update_work_def advance_scope_def update_scope_def return_simulated_work_def business_def)

lemma simulated_decisions:
  "tsk_mode t = Simulate \<Longrightarrow> foldE (apply_decision now c t plan) ds a = Inr b \<Longrightarrow> b = a"
  by (induction ds arbitrary: a) (auto simp: apply_decision_def)

lemma canonical_well_keyed: "well_keyed (canonical_snapshot s) \<longleftrightarrow> well_keyed s"
proof -
  have tags: "distinct (map at_code (sort_key at_code ts)) \<longleftrightarrow> distinct (map at_code ts)" for ts :: "alloc_tag list"
    by (metis mset_eq_imp_distinct_iff mset_map mset_sort)
  have ids: "distinct (map f (sort_key k xs)) \<longleftrightarrow> distinct (map f xs)" for f :: "'b \<Rightarrow> int" and k :: "'b \<Rightarrow> int" and xs
    by (metis mset_eq_imp_distinct_iff mset_map mset_sort)
  show ?thesis
    by (simp add: well_keyed_def canonical_snapshot_def canonical_member_def canonical_demand_def
        comp_def ids tags)
qed

text \<open>Only assignments add a target.\<close>

lemma applicationState_targets: "applicationState now r st why payload a = Inr b \<Longrightarrow> db_targets b = db_targets a"
  by (simp add: applicationState_frame)

lemma createAttempt_targets:
  assumes "createAttempt now w r dep vals p a = Inr (att, b)" and "att_source (vals attempt_defaults) \<noteq> FromManual"
  shows "db_targets b = db_targets a"
proof -
  obtain receiver c d e x where s:
      "insert_attempt (new_attempt w r receiver dep vals p a) a = Inr (att, c)"
      "touchWorkflow now w r (created_event now att receiver p (manual_target now att dep c)) = Inr d"
      "save_workflow (wf_id w) (\<lambda>r. r\<lparr>wf_strategy := att_match_mode att\<rparr>) d = Inr (x, e)"
      "application_follows now att e = Inr b"
    using assms(1) by (auto simp: createAttempt_def andThen_eq_Inr)
  have c: "db_targets c = db_targets a" "att_source att \<noteq> FromManual"
    using s(1) assms(2) by (auto simp: insert_attempt_Inr new_attempt_def)
  have "db_targets d = db_targets c"
    using s(2) c(2) by (auto simp: touchWorkflow_def andThen_eq_Inr save_workflow_Inr closePoolMemberships_eq
        created_event_def handling_event_def manual_target_def)
  moreover have "db_targets e = db_targets d" using s(3) by (auto simp: save_workflow_Inr)
  moreover have "db_targets b = db_targets e"
    using s(4) by (auto simp: application_follows_def split: option.splits dest: applicationState_targets)
  ultimately show ?thesis using c(1) by simp
qed

definition target_for :: "int \<Rightarrow> alloc_decision \<Rightarrow> target_row \<Rightarrow> bool" where
  "target_for scope d g \<longleftrightarrow> tgt_member g = Some (dn_member d) \<and> tgt_demand g = Some (dn_demand d)
     \<and> tgt_sequence g = dn_sequence d \<and> tgt_scope g = Some scope \<and> tgt_kind g = ''demand''"

lemma assign_member_target:
  assumes "assign_member now scope plan d a = Inr b"
  shows "\<exists>g. db_targets b = db_targets a @ [g] \<and> target_for scope d g"
proof -
  obtain m w c r job dep att e q f g where s: "fetch mem_id (dn_member d) (db_members a) = Inr m"
      "lockWorkflow (mem_candidate m) a = Inr (w, c)"
      "fetch job_id (dn_demand d) (db_jobs c) = Inr job"
      "createAttempt now w r dep (allocation_values m d) None c = Inr (att, e)"
      "place_resume r job (match_reason d)
         (e\<lparr>db_targets := db_targets e @ [demand_target now scope plan m d q att job dep]\<rparr>) = Inr f"
      "place_decision (mem_decision m) job dep f = Inr g"
      "b = allocated_event m d job att plan (mark_allocated m g)"
    using assms by (auto simp: assign_member_def andThen_eq_Inr)
  have c: "db_targets c = db_targets a"
    using lockWorkflow_Inr [OF s(2)] by (metis db.select_convs db.surjective db.update_convs)
  have "db_targets e = db_targets c"
    using createAttempt_targets [OF s(4)] by (simp add: allocation_values_def)
  then have "db_targets b = db_targets a @ [demand_target now scope plan m d q att job dep]"
    using s(5,6) c unfolding s(7) by (auto simp: place_resume_def place_decision_def andThen_eq_Inr
        allocated_event_def poolEvent_def mark_allocated_def update_work_def)
  moreover have "target_for scope d (demand_target now scope plan m d q att job dep)"
    using fetch_Inr [OF s(1)] fetch_Inr [OF s(3)] by (simp add: target_for_def demand_target_def)
  ultimately show ?thesis by blast
qed

lemma decisions_targets:
  assumes "foldE (apply_decision now c t plan) ds a = Inr b" and "tsk_mode t = Execute"
  shows "\<exists>new. db_targets b = db_targets a @ new
    \<and> list_all2 (target_for (sco_id c)) (filter (\<lambda>d. dn_action d \<noteq> ''wait'') ds) new"
  using assms(1)
proof (induction ds arbitrary: a)
  case (Cons d ds)
  then obtain e where e: "apply_decision now c t plan d a = Inr e"
      "foldE (apply_decision now c t plan) ds e = Inr b" by (auto simp: andThen_eq_Inr)
  obtain new where new: "db_targets b = db_targets e @ new"
      "list_all2 (target_for (sco_id c)) (filter (\<lambda>d. dn_action d \<noteq> ''wait'') ds) new"
    using Cons.IH [OF e(2)] by blast
  show ?case
  proof (cases "dn_action d = ''wait''")
    case True
    then have "db_targets e = db_targets a"
      using e(1) assms(2) by (auto simp: apply_decision_def wait_member_def update_work_def)
    then show ?thesis using new True by auto
  next
    case False
    then have "assign_member now (sco_id c) plan d a = Inr e" using e(1) assms(2) by (simp add: apply_decision_def)
    then obtain g where "db_targets e = db_targets a @ [g]" "target_for (sco_id c) d g"
      using assign_member_target by blast
    then show ?thesis using new False by (intro exI [of _ "g # new"]) simp
  qed
qed auto

lemma allocate_actions: "r \<in> set (allocate ds counts last_seq seq ms) \<Longrightarrow> dn_action r \<noteq> ''wait'' \<longleftrightarrow> assigned r"
proof (induction ds counts last_seq seq ms rule: allocate.induct)
  case (2 ds counts last_seq seq m ms)
  then show ?case using decide_action_cases [of ds counts last_seq seq m] by (auto simp: Let_def fun_upd_def)
qed simp

lemma expected_actions:
  "filter (\<lambda>d. dn_action d \<noteq> ''wait'') (expectedAllocation x) = filter assigned (expectedAllocation x)"
  by (rule filter_cong) (auto simp: expectedAllocation_def dest: allocate_actions)

lemma foldl_max_upto: "i \<le> j \<Longrightarrow> foldl max m [i..j] = max m (j :: int)"
proof (induction "nat (j - i)" arbitrary: i m)
  case 0
  then show ?case by (simp add: upto_rec1)
next
  case (Suc k)
  then have "i < j" "k = nat (j - (i + 1))" by auto
  then show ?case using Suc.hyps(1) [of "i + 1" "max m i"] by (simp add: upto_rec1)
qed

text \<open>The scope's counter moves past the sequences that were used.\<close>

lemma close_commit_scope:
  assumes "close_commit env c t plan result a = Inr b" and c: "c \<in> set (db_scopes a)" and "distinct (map sco_id (db_scopes a))"
  shows "\<exists>c' \<in> set (db_scopes b). sco_id c' = sco_id c \<and> sco_next_sequence c' =
    (if 0 < max_sequence t (rs_decisions result)
     then max (sco_next_sequence c) (max_sequence t (rs_decisions result) + 1) else sco_next_sequence c)"
proof -
  let ?m = "max_sequence t (rs_decisions result)"
  let ?n = "if 0 < ?m then max (sco_next_sequence c) (?m + 1) else sco_next_sequence c"
  obtain d where d: "db_scopes b = db_scopes (releaseAllocationLease c t d)"
      "db_scopes d = db_scopes (advance_scope (sco_id c) ?m a)"
    using assms(1) by (auto simp: close_commit_def Let_def andThen_eq_Inr releaseAllocationLease_def update_task_def
      update_plan_def update_work_def advance_scope_def update_scope_def return_simulated_work_def)
  have "\<exists>q \<in> set (db_scopes d). sco_id q = sco_id c \<and> sco_next_sequence q = ?n"
  proof (cases "0 < ?m")
    case True
    let ?f = "\<lambda>s. s\<lparr>sco_next_sequence := max (sco_next_sequence s) (?m + 1), sco_revision := sco_revision s + 1\<rparr>"
    have "?f c \<in> set (db_scopes d)"
      unfolding d(2) using c True by (auto simp: advance_scope_def update_scope_def in_update_where)
    then show ?thesis by (rule rev_bexI) (use True in simp)
  qed (use c in \<open>auto simp: d(2) advance_scope_def\<close>)
  then obtain q where q: "q \<in> set (db_scopes d)" "sco_id q = sco_id c" "sco_next_sequence q = ?n" by blast
  let ?q = "if sco_id q = sco_id c \<and> sco_lease_token q = tsk_token t
    then q\<lparr>sco_lease_token := [], sco_lease_until := None\<rparr> else q"
  have "?q \<in> set (db_scopes b)"
    unfolding d(1) releaseAllocationLease_def using q(1) by (auto simp: in_update_where)
  moreover have "sco_id ?q = sco_id c" "sco_next_sequence ?q = ?n" using q by auto
  ultimately show ?thesis by blast
qed

lemma untouched_decisions: "foldE (apply_decision now c t plan) ds a = Inr b \<Longrightarrow> untouched a b"
  by (rule calm.loop) (auto intro: calm.apply_decision)

subsection \<open>A sample commit\<close>

text \<open>One member with the tag \<open>go\<close> waits in the pool of the sample policy for job 7, under a running task.\<close>

definition demo_assessment :: object where
  "demo_assessment = [(''pool'', JObj [(''entity'', JStr ''acme''), (''code'', JStr ''dev'')]), (''score'', JNum 90)]"

definition demo_member :: member_row where
  "demo_member = \<lparr> mem_id = 5, mem_candidate = 10, mem_workflow = 30, mem_resume = 20, mem_decision = 60,
     mem_run = 70, mem_standard = ''std'', mem_pool = ''dev'', mem_status = PmPendingAllocation,
     mem_tags = [JObj [(''code'', JStr ''go''), (''status'', JStr ''supported''), (''confidence'', JNum (9/10))]],
     mem_assessment = demo_assessment, mem_checksum = ''c'', mem_revision = 1, mem_created = 0 \<rparr>"

definition demo_qualification :: qualification_row where
  "demo_qualification = \<lparr> qua_id = 80, qua_member = 5, qua_revision = 1, qua_decision = 60,
     qua_source_revision = 1, qua_checksum = ''c'', qua_standard_hash = JStr ''h'', qua_tags_hash = ''h'',
     qua_tags = [sample_tag ''go''] \<rparr>"

definition demo_task :: "task_mode \<Rightarrow> task_row" where
  "demo_task mode = sample_task\<lparr>tsk_mode := mode, tsk_status := TaRunning, tsk_token := ''f2'',
     tsk_lease_until := Some (90 * second), tsk_members := [5]\<rparr>"

definition demo_scope :: scope_row where
  "demo_scope = sample_scope\<lparr>sco_lease_token := ''f2'', sco_lease_until := Some (90 * second)\<rparr>"

definition demo_db :: "task_mode \<Rightarrow> db" where
  "demo_db mode = empty_db\<lparr>db_next := 100, db_scopes := [demo_scope], db_tasks := [demo_task mode],
     db_work := [\<lparr> wrk_id = 90, wrk_member = 5, wrk_qualification = 80, wrk_task = Some 2, wrk_status = WiLeased,
        wrk_reason = [], wrk_observed = 0 \<rparr>],
     db_members := [demo_member], db_qualifications := [demo_qualification],
     db_candidates := [\<lparr> cnd_id = 10, cnd_fields = [] \<rparr>],
     db_resumes := [sample_resume\<lparr>res_entity := ''acme'', res_position := ''Engineer''\<rparr>],
     db_workflows := [sample_workflow],
     db_sources := [\<lparr> src_resume = 20, src_revision = 1, src_path = [], src_checksum = ''c'', src_verified = True,
        src_checked = None \<rparr>],
     db_jobs := [\<lparr> job_id = 7, job_entity = ''acme'', job_department = Some 1, job_category = [],
        job_position = ''Engineer'', job_active = True \<rparr>],
     db_demands := [\<lparr> dem_id = 7, dem_state = ''receiving'', dem_revision = 1, dem_updated_by = None,
        dem_reason = JStr [] \<rparr>],
     db_departments := [sample_department 1 None 2],
     db_decisions := [\<lparr> dcn_id = 60, dcn_workflow = 30, dcn_resume = 20, dcn_run = 70, dcn_recommendation = [],
        dcn_job = None, dcn_department = None, dcn_error = [], dcn_values = [] \<rparr>],
     db_policy := sample_policy (JStr ''acme'') (JStr ''acme'')\<rparr>"

definition demo_snapshot :: alloc_snapshot where
  "demo_snapshot = (case buildAllocationSnapshot sample_env demo_scope (demo_task Execute) 0 0 False (demo_db Execute) of
     Inr (x, _) \<Rightarrow> x | Inl _ \<Rightarrow> sample_snapshot)"

definition demo_env :: platform_env where
  "demo_env = sample_env\<lparr>env_snapshot_hash :=
     (\<lambda>x. if x = canonical_snapshot demo_snapshot then ''h'' else ''g'')\<rparr>"

definition demo_request :: "task_mode \<Rightarrow> alloc_request" where
  "demo_request mode = allocation_request demo_env (demo_task mode) sample_pin demo_snapshot"

definition demo_result :: "task_mode \<Rightarrow> alloc_response" where
  "demo_result mode = \<lparr> rs_protocol_version = ''p'', rs_result_schema_version = ''r'',
     rs_task_id = rq_task_id (demo_request mode), rs_idempotency_key = rq_idempotency_key (demo_request mode),
     rs_pin = sample_pin, rs_snapshot_hash = rq_snapshot_hash (demo_request mode), rs_terminal_state = ''DONE'',
     rs_decisions = expectedAllocation demo_snapshot \<rparr>"

definition demo_commit :: "task_mode \<Rightarrow> (go_error + unit) \<times> db" where
  "demo_commit mode = commitAllocation demo_env second demo_scope (demo_task mode) (demo_request mode) (demo_result mode)
     (demo_db mode)"

subsection \<open>Properties\<close>

text \<open>C7. The allocation worker keeps the invariants of the rest of the platform: preparing a request and
  receiving the Kernel's answer, accepted or not, keep one effective attempt per workflow, lose no
  attempt and move none backwards, and only extend the application ledger, whose closed entries
  stay as they are.\<close>

theorem worker_keeps_platform:
  assumes "prepareAllocation env caps now s t a = Inr (req, b) \<or> receiveAllocation env now s t request answer a = (res, b)"
    and "attempts_ok a" and "ledger_ok a"
  shows "attempts_ok b \<and> attempts_kept a b \<and> ledger_ok b \<and> ledger_grows a b"
proof -
  have "attempts_step a b" "ledger_step a b"
    using assms(1) by (auto intro: placing_attempts.worker.prepareAllocation placing_attempts.worker.receiveAllocation
        placing_ledger.worker.prepareAllocation placing_ledger.worker.receiveAllocation)
  then show ?thesis using assms(2,3) by (simp add: attempts_step_def ledger_step_def)
qed

lemma demo_platform_ok: "attempts_ok (demo_db Execute)" "ledger_ok (demo_db Execute)"
  by (simp_all add: attempts_ok_def ledger_ok_def demo_db_def empty_db_def)

theorem worker_keeps_platform_witness:
  "length (db_attempts (snd (receiveAllocation demo_env second demo_scope (demo_task Execute) (demo_request Execute)
      (Inr (demo_result Execute)) (demo_db Execute)))) = 1
   \<and> attempts_ok (snd (receiveAllocation demo_env second demo_scope (demo_task Execute) (demo_request Execute)
      (Inr (demo_result Execute)) (demo_db Execute)))"
proof -
  let ?r = "receiveAllocation demo_env second demo_scope (demo_task Execute) (demo_request Execute)
      (Inr (demo_result Execute)) (demo_db Execute)"
  have "length (db_attempts (snd ?r)) = 1" by code_simp
  then show ?thesis using worker_keeps_platform [OF disjI2 [OF prod.collapse [symmetric]] demo_platform_ok] by blast
qed

text \<open>C21. A simulation has no effect on the business: preparing it and committing its plan leave every
  table but the queue's own (tasks, scopes, work items, plans) as it was.\<close>

theorem simulation_changes_no_business:
  assumes "tsk_mode t = Simulate"
    and "prepareAllocation env caps now s t a = Inr (req, b) \<or> receiveAllocation env now s t request answer a = (res, b)"
  shows "business b = business a"
  using assms(2)
proof
  assume p: "prepareAllocation env caps now s t a = Inr (req, b)"
  then obtain pin c snap d where s: "buildAllocationSnapshot env c t now (truncate_micros now) False a = Inr (snap, d)"
      "b = finish_empty c t d \<or> b = freeze_request t (allocation_request env t pin snap) d"
    using assms(1) by (auto simp: prepareAllocation_def andThen_eq_Inr Let_def split: if_splits)
  show ?thesis using s(2) snapshot_read_only [OF s(1)]
    by (auto simp: business_def finish_empty_def freeze_request_def releaseAllocationLease_def update_task_def)
next
  assume r: "receiveAllocation env now s t request answer a = (res, b)"
  have plan: "business (recordAllocationPlan t request result st code a) = business a" for result st code
    by (simp add: business_def recordAllocationPlan_def)
  have "business c = business d" if c: "commit_transaction env now s t request result d = Inr c" for result c d
  proof -
    obtain q e and p :: plan_row where e: "foldE (apply_decision now q t (pln_id p)) (rs_decisions result) d = Inr e"
        "close_commit env q t (pln_id p) result e = Inr c"
      using c by (rule commit_parts)
    show ?thesis using simulated_decisions [OF assms(1) e(1)] close_commit_business [OF e(2)] by simp
  qed
  then show ?thesis using r plan unfolding receiveAllocation_def commitAllocation_def Let_def
    by (auto split: sum.splits if_splits)
qed

theorem simulation_changes_no_business_witness:
  "map pln_status (db_plans (snd (demo_commit Simulate))) = [PlSimulated]
   \<and> business (snd (receiveAllocation demo_env second demo_scope (demo_task Simulate) (demo_request Simulate)
      (Inr (demo_result Simulate)) (demo_db Simulate))) = business (demo_db Simulate)"
proof -
  have "map pln_status (db_plans (snd (demo_commit Simulate))) = [PlSimulated]" by code_simp
  moreover have "tsk_mode (demo_task Simulate) = Simulate" by (simp add: demo_task_def)
  ultimately show ?thesis
    using simulation_changes_no_business [OF _ disjI2 [OF prod.collapse [symmetric]], of "demo_task Simulate"] by blast
qed

text \<open>C6. A committed plan is the plan of the state it is committed in. When the snapshot hash has no
  collision with the frozen snapshot, the decisions that are applied are those that the allocation
  policy computes from the snapshot rebuilt inside the transaction; each assignment gets exactly one
  demand target, in order, their sequences continue the scope's counter without a gap, and the
  counter then stands behind the last of them.\<close>

theorem commit_places_the_plan:
  assumes commit: "commitAllocation env now s t request result a = (Inr (), b)" and mode: "tsk_mode t = Execute"
    and hash: "rq_snapshot_hash request = allocationSnapshotHash (env_snapshot_hash env) (rq_snapshot request)"
    and keyed: "well_keyed (rq_snapshot request)"
    and collision_free: "\<And>x. env_snapshot_hash env (canonical_snapshot x) =
        env_snapshot_hash env (canonical_snapshot (rq_snapshot request))
      \<Longrightarrow> canonical_snapshot x = canonical_snapshot (rq_snapshot request)"
    and scopes: "queue_ok a" "\<forall>c \<in> set (db_scopes a). 1 \<le> sco_next_sequence c"
  shows "\<exists>c current new. c \<in> set (db_scopes a) \<and> sco_id c = sco_id s
    \<and> buildAllocationSnapshot env c t now (time_or_zero (as_at (rq_snapshot request))) False
        (recordAllocationPlan t request result PlProposed [] a) = Inr (current, recordAllocationPlan t request result PlProposed [] a)
    \<and> rs_decisions result = expectedAllocation current
    \<and> db_targets b = db_targets a @ new
    \<and> list_all2 (target_for (sco_id c)) (filter assigned (expectedAllocation current)) new
    \<and> map tgt_sequence new = [sco_next_sequence c .. sco_next_sequence c + int (length new) - 1]
    \<and> (\<exists>c' \<in> set (db_scopes b). sco_id c' = sco_id c \<and> sco_next_sequence c' = sco_next_sequence c + int (length new))"
proof -
  let ?a = "recordAllocationPlan t request result PlProposed [] a"
  have valid: "rs_decisions result = expectedAllocation (rq_snapshot request)"
    using commit by (auto simp: commitAllocation_def validateAllocationResult_def split: if_splits)
  have "commit_transaction env now s t request result ?a = Inr b"
    using commit by (auto simp: commitAllocation_def Let_def split: sum.splits)
  then obtain c current e and q :: plan_row where s: "lockAllocationLease now s t ?a = Inr c"
      "buildAllocationSnapshot env c t now (time_or_zero (as_at (rq_snapshot request))) False ?a = Inr (current, ?a)"
      "allocationSnapshotHash (env_snapshot_hash env) current = rq_snapshot_hash request"
      "foldE (apply_decision now c t (pln_id q)) (rs_decisions result) ?a = Inr e"
      "close_commit env c t (pln_id q) result e = Inr b"
    by (rule commit_parts)
  have same: "canonical_snapshot current = canonical_snapshot (rq_snapshot request)"
    using s(3) hash by (intro collision_free) (simp add: allocationSnapshotHash_def)
  then have "well_keyed current" using keyed canonical_well_keyed by metis
  then have decisions: "rs_decisions result = expectedAllocation current"
    using valid same expectedAllocation_canonical keyed by metis
  have first: "as_next_sequence current = sco_next_sequence c"
    using s(2) by (auto simp: buildAllocationSnapshot_def Let_def andThen_eq_Inr empty_snapshot_def split: if_splits)
  have "db_scopes ?a = db_scopes a" by (simp add: recordAllocationPlan_def)
  then have c: "c \<in> set (db_scopes a)" "sco_id c = sco_id s"
    using lockAllocationLease_Inr [OF s(1)] by (auto simp: leases_def)
  have e: "db_scopes e = db_scopes a"
    using untouched_decisions [OF s(4)] \<open>db_scopes ?a = db_scopes a\<close> by (simp add: untouched_def)
  obtain new where new: "db_targets e = db_targets ?a @ new"
      "list_all2 (target_for (sco_id c)) (filter assigned (expectedAllocation current)) new"
    using decisions_targets [OF s(4) mode] expected_actions [of current] unfolding decisions by metis
  let ?k = "int (length new)"
  have k: "length (filter assigned (expectedAllocation current)) = length new"
    using new(2) by (rule list_all2_lengthD)
  have seqs: "map dn_sequence (filter assigned (expectedAllocation current))
      = [sco_next_sequence c .. sco_next_sequence c + ?k - 1]"
    using allocate_sequences [of "as_demands current" _ _ "as_next_sequence current"] k
    unfolding expectedAllocation_def first by simp
  have "map tgt_sequence new = map dn_sequence (filter assigned (expectedAllocation current))"
    using new(2) by (auto simp: list_all2_conv_all_nth target_for_def intro!: nth_equalityI)
  then have placed: "map tgt_sequence new = [sco_next_sequence c .. sco_next_sequence c + ?k - 1]" using seqs by simp
  have b: "db_targets b = db_targets e"
    using close_commit_business [OF s(5)] by (simp add: business_def) (metis db.select_convs db.surjective db.update_convs)
  have top: "max_sequence t (rs_decisions result) = (if new = [] then 0 else sco_next_sequence c + ?k - 1)"
  proof (cases "new = []")
    case True
    then have "filter assigned (expectedAllocation current) = []" using k by simp
    then show ?thesis
      unfolding max_sequence_def decisions expected_actions mode using True by simp
  next
    case False
    then have "sco_next_sequence c \<le> sco_next_sequence c + ?k - 1" by (cases new) auto
    moreover have "1 \<le> sco_next_sequence c" using c scopes(2) by blast
    ultimately show ?thesis
      unfolding max_sequence_def decisions expected_actions mode seqs using False by (simp add: foldl_max_upto)
  qed
  have "1 \<le> sco_next_sequence c" using c scopes(2) by blast
  then have counter: "\<exists>c' \<in> set (db_scopes b). sco_id c' = sco_id c \<and> sco_next_sequence c' = sco_next_sequence c + ?k"
    using close_commit_scope [OF s(5)] c(1) queue_okD(2) [OF scopes(1)] unfolding e top
    by (cases new) (auto simp: max_def)
  have "db_targets ?a = db_targets a" by (simp add: recordAllocationPlan_def)
  then have "db_targets b = db_targets a @ new" using new(1) b by simp
  then show ?thesis using c s(2) decisions new(2) placed counter by blast
qed


lemma demo_commit_accepted:
  "commitAllocation demo_env second demo_scope (demo_task Execute) (demo_request Execute) (demo_result Execute)
     (demo_db Execute) = (Inr (), snd (demo_commit Execute))"
proof -
  have "fst (demo_commit Execute) = Inr ()" by code_simp
  then show ?thesis by (cases "demo_commit Execute") (simp add: demo_commit_def)
qed

lemma demo_keyed: "well_keyed demo_snapshot"
  by code_simp

lemma demo_scopes: "queue_ok (demo_db Execute)" "\<forall>c \<in> set (db_scopes (demo_db Execute)). 1 \<le> sco_next_sequence c"
  by code_simp+

theorem commit_places_the_plan_witness:
  "\<exists>new. db_targets (snd (demo_commit Execute)) = db_targets (demo_db Execute) @ new
     \<and> map tgt_sequence new = [1 .. int (length new)] \<and> length new = 1"
proof -
  have request: "rq_snapshot (demo_request Execute) = demo_snapshot"
      "rq_snapshot_hash (demo_request Execute) = allocationSnapshotHash (env_snapshot_hash demo_env) demo_snapshot"
    by (simp_all add: demo_request_def allocation_request_def)
  have mode: "tsk_mode (demo_task Execute) = Execute" by (simp add: demo_task_def)
  have sha: "env_snapshot_hash demo_env (canonical_snapshot x) = env_snapshot_hash demo_env (canonical_snapshot demo_snapshot)
      \<Longrightarrow> canonical_snapshot x = canonical_snapshot demo_snapshot" for x
    by (simp add: demo_env_def split: if_split_asm)
  obtain c new where new: "c \<in> set (db_scopes (demo_db Execute))"
      "db_targets (snd (demo_commit Execute)) = db_targets (demo_db Execute) @ new"
      "map tgt_sequence new = [sco_next_sequence c .. sco_next_sequence c + int (length new) - 1]"
    using commit_places_the_plan [OF demo_commit_accepted mode, unfolded request, OF refl demo_keyed sha demo_scopes]
    by blast
  have "sco_next_sequence c = 1" using new(1) by (simp add: demo_db_def demo_scope_def sample_scope_def)
  moreover have "length (db_targets (snd (demo_commit Execute))) = 1" by code_simp
  then have "length new = 1" using new(2) by (simp add: demo_db_def empty_db_def)
  ultimately show ?thesis using new(2,3) by auto
qed

end
