(* ===== verification/References.thy ===== *)
theory References
  imports AllocationCommit
begin

text \<open>
  Ids as the code prints them. Rows and bodies are decoded into \<open>float64\<close>, and \<open>fmt.Sprint\<close> writes a
  float from one million on in exponent form. An id below that survives the trip through a
  reference and back; one from there on does not.
\<close>

lemma parse_int_syntax_digits:
  assumes "CHR ''e'' \<in> set s"
  shows "parse_int_syntax s = None"
proof -
  have e: "\<not> digit CHR ''e''" by (simp add: digit_def byte_def)
  show ?thesis
  proof (cases s)
    case (Cons c t)
    then show ?thesis using assms e by (auto simp: parse_int_syntax_def Let_def list_all_iff split: prod.splits if_splits)
  qed (use assms in simp)
qed

lemma parse_int_syntax_show: "parse_int_syntax (show_int i) = Some i"
proof -
  obtain c t where ct: "digits_of (nat \<bar>i\<bar>) = c # t" by (cases "digits_of (nat \<bar>i\<bar>)") auto
  have c: "c \<noteq> CHR ''-''" "c \<noteq> CHR ''+''" using digits_of_sign [of "nat \<bar>i\<bar>"] ct by auto
  have v: "digits_value (c # t) = \<bar>i\<bar>" "list_all digit (c # t)"
    using digits_value_digits_of [of "nat \<bar>i\<bar>"] digits_of_digit [of "nat \<bar>i\<bar>"] ct by auto
  show ?thesis
    using v c ct by (cases "i < 0") (auto simp: show_int_def parse_int_syntax_def)
qed

lemma trim_qualification: "trim_prefix (allocationRef ''qualification'' x) ''qualification-'' = x"
  by (simp add: allocationRef_def trim_prefix_def)

text \<open>C36. The reference of a qualification, printed into the snapshot and read back when the plan is
  committed, gives its id exactly for ids below one million; a larger id is printed in exponent
  form, which the database refuses as an integer, and the commit fails.\<close>

theorem qualification_reference_roundtrip:
  assumes "0 \<le> i"
  shows "qualification_number (allocationRef ''qualification'' (show_id i)) =
    (if i < 1000000 then Inr i else Inl (OtherError ''22P02''))"
  using assms show_id_small [of i] parse_int_syntax_digits [OF show_id_large [of i]]
  by (simp add: qualification_number_def trim_qualification parse_int_syntax_show)

theorem qualification_reference_roundtrip_witness:
  "qualification_number (allocationRef ''qualification'' (show_id 80)) = Inr 80 \<and>
   qualification_number (allocationRef ''qualification'' (show_id 2000000)) = Inl (OtherError ''22P02'')"
  using qualification_reference_roundtrip [of 80] qualification_reference_roundtrip [of 2000000] by simp

text \<open>The pool policy cannot name a job whose id is one million or more, although the job exists: the
  check compares the id printed as an integer with the id printed as a float.\<close>

theorem large_job_ids_refused:
  assumes "1000000 \<le> i" and "i \<le> int64_max" and "fld item ''job_id'' = JNum (of_int i)"
  shows "\<exists>e. check_rule find_job policy pool item = Inl e"
proof -
  have n: "num (fld item ''job_id'') = i" using assms by (simp add: clamp64_def truncate_rat_def int64_min_def)
  have digits: "\<forall>c \<in> set (show_int i). digit c"
    using assms(1) digits_of_digit [of "nat i"] by (simp add: show_int_def list_all_iff)
  have "show_int i \<noteq> str (fld item ''job_id'')"
  proof
    assume "show_int i = str (fld item ''job_id'')"
    then have "show_int i = show_id i" using assms(3) by (simp add: show_id_def)
    then have "digit CHR ''e''" using digits show_id_large [OF assms(1)] by metis
    then show False by (simp add: digit_def byte_def)
  qed
  then show ?thesis using n by (simp add: check_rule_def Let_def)
qed

theorem large_job_ids_refused_witness:
  "\<exists>e. check_rule (\<lambda>_. Some [(''entity'', JStr ''acme'')]) [] [(''entity'', JStr ''acme'')]
     [(''job_id'', JNum 1000000), (''priority'', JNum 1)] = Inl e"
  by (rule large_job_ids_refused [of 1000000]) (simp_all add: fld_def int64_max_def)

end
