(* ===== verification/Preflight.thy ===== *)
theory Preflight
  imports Screening
begin

text \<open>
  The preparation of a candidate (internal/platform/policy.go and preparation.go): the volunteer
  order and the current volunteer, the admission rules, the assessment standard, and the frozen case
  a processing run analyses. Rows of the catalogue (schools, school tags, jobs, rules) are the JSON
  objects that \<open>row_to_json\<close> gives. Chinese words are given by their UTF-8
  bytes. The keyed hash behind the references, the content hash and
  the random tokens are parameters. Text columns are ordered bytewise (collation C).
\<close>

subsection \<open>The preferred entity\<close>

definition northern_provinces :: "string list" where
  "northern_provinces =
    [[CHR 0xE5, CHR 0x8C, CHR 0x97, CHR 0xE4, CHR 0xBA, CHR 0xAC],
     [CHR 0xE5, CHR 0xA4, CHR 0xA9, CHR 0xE6, CHR 0xB4, CHR 0xA5],
     [CHR 0xE6, CHR 0xB2, CHR 0xB3, CHR 0xE5, CHR 0x8C, CHR 0x97],
     [CHR 0xE5, CHR 0xB1, CHR 0xB1, CHR 0xE8, CHR 0xA5, CHR 0xBF],
     [CHR 0xE5, CHR 0x86, CHR 0x85, CHR 0xE8, CHR 0x92, CHR 0x99, CHR 0xE5, CHR 0x8F, CHR 0xA4],
     [CHR 0xE8, CHR 0xBE, CHR 0xBD, CHR 0xE5, CHR 0xAE, CHR 0x81],
     [CHR 0xE5, CHR 0x90, CHR 0x89, CHR 0xE6, CHR 0x9E, CHR 0x97],
     [CHR 0xE9, CHR 0xBB, CHR 0x91, CHR 0xE9, CHR 0xBE, CHR 0x99, CHR 0xE6, CHR 0xB1, CHR 0x9F],
     [CHR 0xE5, CHR 0xB1, CHR 0xB1, CHR 0xE4, CHR 0xB8, CHR 0x9C],
     [CHR 0xE6, CHR 0xB2, CHR 0xB3, CHR 0xE5, CHR 0x8D, CHR 0x97],
     [CHR 0xE9, CHR 0x99, CHR 0x95, CHR 0xE8, CHR 0xA5, CHR 0xBF],
     [CHR 0xE7, CHR 0x94, CHR 0x98, CHR 0xE8, CHR 0x82, CHR 0x83],
     [CHR 0xE5, CHR 0xAE, CHR 0x81, CHR 0xE5, CHR 0xA4, CHR 0x8F],
     [CHR 0xE6, CHR 0x96, CHR 0xB0, CHR 0xE7, CHR 0x96, CHR 0x86],
     [CHR 0xE9, CHR 0x9D, CHR 0x92, CHR 0xE6, CHR 0xB5, CHR 0xB7]]"

definition southern_provinces :: "string list" where
  "southern_provinces =
    [[CHR 0xE4, CHR 0xB8, CHR 0x8A, CHR 0xE6, CHR 0xB5, CHR 0xB7],
     [CHR 0xE6, CHR 0xB1, CHR 0x9F, CHR 0xE8, CHR 0x8B, CHR 0x8F],
     [CHR 0xE6, CHR 0xB5, CHR 0x99, CHR 0xE6, CHR 0xB1, CHR 0x9F],
     [CHR 0xE5, CHR 0xAE, CHR 0x89, CHR 0xE5, CHR 0xBE, CHR 0xBD],
     [CHR 0xE7, CHR 0xA6, CHR 0x8F, CHR 0xE5, CHR 0xBB, CHR 0xBA],
     [CHR 0xE6, CHR 0xB1, CHR 0x9F, CHR 0xE8, CHR 0xA5, CHR 0xBF],
     [CHR 0xE6, CHR 0xB9, CHR 0x96, CHR 0xE5, CHR 0x8C, CHR 0x97],
     [CHR 0xE6, CHR 0xB9, CHR 0x96, CHR 0xE5, CHR 0x8D, CHR 0x97],
     [CHR 0xE5, CHR 0xB9, CHR 0xBF, CHR 0xE4, CHR 0xB8, CHR 0x9C],
     [CHR 0xE5, CHR 0xB9, CHR 0xBF, CHR 0xE8, CHR 0xA5, CHR 0xBF],
     [CHR 0xE6, CHR 0xB5, CHR 0xB7, CHR 0xE5, CHR 0x8D, CHR 0x97],
     [CHR 0xE9, CHR 0x87, CHR 0x8D, CHR 0xE5, CHR 0xBA, CHR 0x86],
     [CHR 0xE5, CHR 0x9B, CHR 0x9B, CHR 0xE5, CHR 0xB7, CHR 0x9D],
     [CHR 0xE8, CHR 0xB4, CHR 0xB5, CHR 0xE5, CHR 0xB7, CHR 0x9E],
     [CHR 0xE4, CHR 0xBA, CHR 0x91, CHR 0xE5, CHR 0x8D, CHR 0x97],
     [CHR 0xE8, CHR 0xA5, CHR 0xBF, CHR 0xE8, CHR 0x97, CHR 0x8F]]"

primrec entity_of_places :: "string list \<Rightarrow> string" where
  "entity_of_places [] = []"
| "entity_of_places (v # vs) =
     (if list_ex (contains_str v) northern_provinces then ''GW''
      else if list_ex (contains_str v) southern_provinces then ''YLS''
      else entity_of_places vs)"

definition preferredEntity :: "object \<Rightarrow> string" where
  "preferredEntity c = entity_of_places (map (\<lambda>key. str (fld c key))
     [''household_province'', ''highest_degree_province'', ''first_degree_province''])"

subsection \<open>The preflight decision\<close>

definition volunteer_date :: "object \<Rightarrow> string" where
  "volunteer_date v = (if str (fld v ''apply_date'') = [] then ''9999-12-31'' else str (fld v ''apply_date''))"

text \<open>\<open>less\<close> of the stable sort: volunteers of the preferred entity first, then by date.\<close>

definition volunteer_key :: "string \<Rightarrow> object \<Rightarrow> bool \<times> string" where
  "volunteer_key preferred v =
     (\<not> (preferred \<noteq> [] \<and> fld v ''entity'' = JStr preferred), volunteer_date v)"

definition volunteer_order :: "object \<Rightarrow> object list" where
  "volunteer_order s = sort_key (volunteer_key (preferredEntity (obj (fld s ''candidate''))))
     (map obj (list_of (fld s ''volunteers'')))"

definition may_be_current :: "string \<Rightarrow> object \<Rightarrow> bool" where
  "may_be_current retry v \<longleftrightarrow>
     \<not> truth (fld v ''rejected'') \<and> (retry = [] \<or> fld v ''ref'' = JStr retry)"

fun current_volunteer :: "string \<Rightarrow> nat \<Rightarrow> object list \<Rightarrow> (nat \<times> object) option" where
  "current_volunteer retry i [] = None"
| "current_volunteer retry i (v # vs) =
     (if may_be_current retry v then Some (i + 1, v) else current_volunteer retry (i + 1) vs)"

definition admission_rules :: "object \<Rightarrow> object list" where
  "admission_rules s = sort_key (\<lambda>r. num (fld r ''priority'')) (map obj (list_of (fld s ''admission_rules'')))"

definition rule_tags_match :: "string \<Rightarrow> string \<Rightarrow> object \<Rightarrow> bool" where
  "rule_tags_match first highest rule \<longleftrightarrow>
     contains (string_values (fld rule ''first_tag_refs'')) first \<and>
     contains (string_values (fld rule ''highest_tag_refs'')) highest"

definition rule_educations_match :: "string \<Rightarrow> object \<Rightarrow> bool" where
  "rule_educations_match education rule \<longleftrightarrow>
     (let educations = string_values (fld rule ''educations'')
      in educations = [] \<or> contains educations education)"

text \<open>The loop over the rules: whether a rule had the tags, and the rule that admitted.\<close>

fun scan_rules :: "string \<Rightarrow> string \<Rightarrow> string \<Rightarrow> object list \<Rightarrow> bool \<Rightarrow> bool \<times> object option" where
  "scan_rules first highest education [] tag_match = (tag_match, None)"
| "scan_rules first highest education (rule # rules) tag_match =
     (if rule_tags_match first highest rule
      then if rule_educations_match education rule then (True, Some rule)
           else scan_rules first highest education rules True
      else scan_rules first highest education rules tag_match)"

definition initial_preflight :: "object \<Rightarrow> object" where
  "initial_preflight c =
     [(''first_degree_tag_ref'', JStr (str (fld c ''first_degree_tag_ref''))),
      (''highest_degree_tag_ref'', JStr (str (fld c ''highest_degree_tag_ref''))),
      (''volunteer_order'', JArr []), (''current_volunteer_ref'', JStr []), (''current_rank'', JNum 0),
      (''admission_passed'', JBool False), (''admission_rule_ref'', JStr []), (''job_refs'', JArr []),
      (''status'', JStr ''no_effective_volunteer'')]"

text \<open>The admission of a current volunteer: the preflight after the loop over the rules.\<close>

definition admit :: "object \<Rightarrow> object \<Rightarrow> object list \<Rightarrow> object" where
  "admit c d rules =
     (let passed = put ''admission_passed'' (JBool (rules = [])) d in
      case scan_rules (str (fld d ''first_degree_tag_ref'')) (str (fld d ''highest_degree_tag_ref''))
          (str (fld c ''highest_education'')) rules False of
        (_, Some rule) \<Rightarrow> put ''admission_rule_ref'' (fld rule ''ref'')
            (put ''admission_passed'' (JBool True) passed)
      | (tag_match, None) \<Rightarrow>
          if rules = [] then passed
          else put ''status'' (JStr (if tag_match then ''education_not_eligible'' else ''school_not_eligible'')) passed)"

definition prepareSnapshot :: "object \<Rightarrow> go_error + object" where
  "prepareSnapshot s =
     (let c = obj (fld s ''candidate''); volunteers = volunteer_order s;
          retry = str (fld (obj (fld s ''workflow'')) ''retry_volunteer_ref'');
          d = put ''volunteer_order'' (JArr (map (\<lambda>v. fld v ''ref'') volunteers)) (initial_preflight c)
      in case current_volunteer retry 0 volunteers of
           None \<Rightarrow> Inr (put ''admission_passed'' (JBool True) d)
         | Some (rank, current) \<Rightarrow>
             let d = admit c (put ''current_volunteer_ref'' (fld current ''ref'')
                       (put ''current_rank'' (JNum (of_nat rank)) d)) (admission_rules s)
             in if \<not> truth (fld d ''admission_passed'') then Inr d
                else resolveApplicationStandard s current d)"

subsection \<open>The catalogue\<close>

text \<open>The parameters of the processing workers: those of the platform (with the content hash
  \<open>fingerprint\<close>), the keyed hash of \<open>ref\<close>, the rows of \<open>core_config\<close> and the rollout lane.\<close>

record processing_env =
  pe_platform :: platform_env
  pe_mac :: "string \<Rightarrow> string"
  pe_config :: "string \<Rightarrow> json option"
  pe_lane :: string

abbreviation pe_fingerprint :: "processing_env \<Rightarrow> json \<Rightarrow> string" where
  "pe_fingerprint env \<equiv> env_fingerprint (pe_platform env)"

definition ref_of :: "processing_env \<Rightarrow> string \<Rightarrow> json \<Rightarrow> string" where
  "ref_of env kind i = pe_mac env (kind @ '':'' @ str i)"

definition configValue :: "(string \<Rightarrow> json option) \<Rightarrow> string \<Rightarrow> json \<Rightarrow> json" where
  "configValue config key fallback = (case config key of
       None \<Rightarrow> fallback
     | Some (JObj m) \<Rightarrow> if has_key m ''value'' then fld m ''value'' else JObj m
     | Some v \<Rightarrow> v)"

text \<open>\<open>preparationData\<close>; a Go map from names or printed ids is a function to options.\<close>

record preparationData =
  pd_schools :: "string \<Rightarrow> object option"
  pd_tags :: "string \<Rightarrow> object option"
  pd_fallback :: object
  pd_non_target :: object
  pd_jobs :: "json list"
  pd_rules :: "json list"
  pd_job_ids :: object
  pd_rule_ids :: object
  pd_tag_ids :: object
  pd_thresholds :: object
  pd_policy :: object
  pd_lane :: string

definition non_target_name :: string where
  "non_target_name = [CHR 0xE9, CHR 0x9D, CHR 0x9E, CHR 0xE7, CHR 0x9B, CHR 0xAE, CHR 0xE6, CHR 0xA0, CHR 0x87, CHR 0xE9, CHR 0x99, CHR 0xA2, CHR 0xE6, CHR 0xA0, CHR 0xA1]"

definition is_non_target :: "object \<Rightarrow> bool" where
  "is_non_target tag \<longleftrightarrow> truth (fld tag ''is_active'') \<and>
     (fld tag ''code'' = JStr ''NON_TARGET'' \<or> normalized (str (fld tag ''name'')) = non_target_name)"

definition is_fallback :: "object \<Rightarrow> bool" where
  "is_fallback tag \<longleftrightarrow> truth (fld tag ''is_active'') \<and> truth (fld tag ''is_default'')"

text \<open>The tag of schools outside the lists: the last active one, or a new row. The code is unique.\<close>

definition ensure_non_target :: "db \<Rightarrow> go_error + object \<times> db" where
  "ensure_non_target db =
     (let tags = cat_tags (db_catalog db) in
      case last_where is_non_target tags of
        Some tag \<Rightarrow> Inr (tag, db)
      | None \<Rightarrow>
          if exists_where (\<lambda>t. fld t ''code'' = JStr ''NON_TARGET'') tags then Inl (OtherError ''23505'')
          else let tag = [(''id'', JNum (of_int (db_next db))), (''code'', JStr ''NON_TARGET''),
                     (''name'', JStr non_target_name), (''is_default'', JBool False), (''is_active'', JBool True)]
               in Inr (tag, db\<lparr>db_catalog := (db_catalog db)\<lparr>cat_tags := tags @ [tag]\<rparr>,
                                db_next := db_next db + 1\<rparr>))"

definition index_by :: "(object \<Rightarrow> string) \<Rightarrow> object list \<Rightarrow> string \<Rightarrow> object option" where
  "index_by key rs = fold (\<lambda>r m. m(key r := Some r)) rs (\<lambda>_. None)"

definition ref_ids :: "processing_env \<Rightarrow> string \<Rightarrow> object list \<Rightarrow> object" where
  "ref_ids env kind rs = fold (\<lambda>r. put (ref_of env kind (fld r ''id'')) (fld r ''id'')) rs []"

definition jobContentFromRelations :: "object \<Rightarrow> string \<Rightarrow> int \<Rightarrow> object list \<Rightarrow> object" where
  "jobContentFromRelations j dep_title dep_depth majors =
     brief j [''entity'', ''public_name'', ''position_name'', ''category'', ''job_family'', ''location'',
       ''education'', ''responsibilities'', ''is_active''] @
     [(''department_name'', JStr dep_title), (''department_level'', JNum (of_int dep_depth)),
      (''department_identity'', fld j ''department_id''),
      (''required_majors'', JArr (map (\<lambda>m. fld m ''major'') majors))]"

definition drop_keys :: "string list \<Rightarrow> object \<Rightarrow> object" where
  "drop_keys keys m = filter (\<lambda>(k, _). \<not> contains keys k) m"

definition job_majors :: "catalog \<Rightarrow> object \<Rightarrow> object list" where
  "job_majors cat j = sort_key (\<lambda>m. str (fld m ''major''))
     (filter (\<lambda>m. str (fld m ''job_id'') = str (fld j ''id'')) (cat_majors cat))"

definition catalogue_job :: "processing_env \<Rightarrow> db \<Rightarrow> object \<Rightarrow> object" where
  "catalogue_job env db j =
     (let dep = first_where (\<lambda>d. str (JNum (of_int (dep_id d))) = str (fld j ''department_id'')) (db_departments db);
          content = jobContentFromRelations j (case dep of None \<Rightarrow> [] | Some d \<Rightarrow> dep_name d)
            (case dep of None \<Rightarrow> 0 | Some d \<Rightarrow> dep_level d) (job_majors (db_catalog db) j)
      in drop_keys [''department_identity'', ''is_active''] content @
         [(''ref'', JStr (ref_of env ''job'' (fld j ''id''))),
          (''content_hash'', JStr (pe_fingerprint env (JObj content))),
          (''department_ref'', JStr (if fld j ''department_id'' = JNull then []
             else ref_of env ''department'' (fld j ''department_id'')))])"

definition rule_tag_refs :: "processing_env \<Rightarrow> catalog \<Rightarrow> object \<Rightarrow> string \<Rightarrow> json" where
  "rule_tag_refs env cat rule degree =
     JArr (map (\<lambda>l. JStr (ref_of env ''tag'' (fld l ''school_tag_id'')))
       (filter (\<lambda>l. str (fld l ''rule_id'') = str (fld rule ''id'') \<and> str (fld l ''degree_type'') = degree)
         (cat_rule_tags cat)))"

definition catalogue_rule :: "processing_env \<Rightarrow> catalog \<Rightarrow> object \<Rightarrow> object" where
  "catalogue_rule env cat rule =
     [(''ref'', JStr (ref_of env ''rule'' (fld rule ''id''))), (''priority'', fld rule ''priority''),
      (''educations'', JArr (map (\<lambda>l. fld l ''education'')
         (filter (\<lambda>l. str (fld l ''rule_id'') = str (fld rule ''id'')) (cat_rule_educations cat)))),
      (''first_tag_refs'', rule_tag_refs env cat rule ''first''),
      (''highest_tag_refs'', rule_tag_refs env cat rule ''highest'')]"

definition active_rules :: "catalog \<Rightarrow> object list" where
  "active_rules cat = sort_key (\<lambda>r. num (fld r ''priority''))
     (filter (\<lambda>r. truth (fld r ''is_active'')) (cat_rules cat))"

definition loadPreparationData :: "processing_env \<Rightarrow> db \<Rightarrow> go_error + preparationData \<times> db" where
  "loadPreparationData env db =
     (if \<not> contains [''review_only'', ''enforced''] (pe_lane env)
      then Inl (TaskError ''agent_snapshot_unavailable'')
      else andThen (ensure_non_target db) (\<lambda>(non_target, db).
        let cat = db_catalog db; tags = cat_tags cat;
            jobs = filter (\<lambda>j. truth (fld j ''is_active'')) (cat_jobs cat)
        in Inr (\<lparr> pd_schools = index_by (\<lambda>s. normalized (str (fld s ''name''))) (cat_schools cat),
             pd_tags = index_by (\<lambda>t. str (fld t ''id'')) tags,
             pd_fallback = (case first_where is_fallback tags of Some t \<Rightarrow> t | None \<Rightarrow> non_target),
             pd_non_target = non_target,
             pd_jobs = map (\<lambda>j. JObj (catalogue_job env db j)) jobs,
             pd_rules = map (\<lambda>r. JObj (catalogue_rule env cat r)) (active_rules cat),
             pd_job_ids = ref_ids env ''job'' jobs,
             pd_rule_ids = ref_ids env ''rule'' (active_rules cat),
             pd_tag_ids = ref_ids env ''tag'' tags,
             pd_thresholds = [(''dispatch'', configValue (pe_config env) ''ai_dispatch_threshold'' (JNum (3 / 4)))],
             pd_policy = db_policy db, pd_lane = pe_lane env \<rparr>, db)))"

subsection \<open>The frozen case of a candidate\<close>

definition nil_map :: "object option \<Rightarrow> object" where
  "nil_map m = (case m of None \<Rightarrow> [] | Some x \<Rightarrow> x)"

text \<open>The school tag of a degree: the school's own, the fallback without one, and the tag of schools
  outside the lists for an unknown school.\<close>

definition degree_tag :: "preparationData \<Rightarrow> object option \<Rightarrow> object" where
  "degree_tag data school = (case school of
       None \<Rightarrow> pd_non_target data
     | Some s \<Rightarrow> if fld s ''school_tag_id'' = JNull then pd_fallback data
                 else nil_map (pd_tags data (str (fld s ''school_tag_id''))))"

definition degree_facts :: "processing_env \<Rightarrow> preparationData \<Rightarrow> object \<Rightarrow> string \<Rightarrow> object" where
  "degree_facts env data candidate degree =
     (let school = pd_schools data (normalized (str (fld candidate (degree @ ''_degree_school''))))
      in [(degree @ ''_degree_tag_ref'', JStr (ref_of env ''tag'' (fld (degree_tag data school) ''id''))),
          (degree @ ''_degree_province'', JStr (str (fld (nil_map school) ''province'')))])"

definition frozen_candidate :: "processing_env \<Rightarrow> preparationData \<Rightarrow> string \<Rightarrow> object \<Rightarrow> object" where
  "frozen_candidate env data tok candidate =
     brief candidate [''highest_major'', ''highest_education'', ''household_province'',
       ''first_degree_school'', ''highest_degree_school''] @
     (''ref'', JStr tok) # degree_facts env data candidate ''first'' @ degree_facts env data candidate ''highest''"

text \<open>The applications that are closed count as rejected, once the candidate has a workflow.\<close>

definition rejected_resumes :: "int \<Rightarrow> workflow_row option \<Rightarrow> db \<Rightarrow> int list" where
  "rejected_resumes candidate w db = (case w of
       None \<Rightarrow> []
     | Some _ \<Rightarrow> map app_resume (filter (\<lambda>a. app_candidate a = candidate \<and> closed_status (app_status a))
         (db_applications db)))"

definition frozen_volunteer :: "processing_env \<Rightarrow> int list \<Rightarrow> resume_row \<Rightarrow> object" where
  "frozen_volunteer env rejected r =
     [(''ref'', JStr (ref_of env ''volunteer'' (JNum (of_int (res_id r))))), (''entity'', JStr (res_entity r)),
      (''position_name'', JStr (res_position r)), (''apply_date'', JStr (res_apply_date r)),
      (''rejected'', JBool (res_id r \<in> set rejected)), (''artifact'', JObj [(''path'', JStr (res_file r))])]"

definition frozen_workflow :: "processing_env \<Rightarrow> object \<Rightarrow> workflow_row option \<Rightarrow> object" where
  "frozen_workflow env scope w =
     (let retry = fld scope ''retry_resume_id'' in
      [(''revision'', JNum (of_int (case w of None \<Rightarrow> 0 | Some r \<Rightarrow> wf_revision r))),
       (''current_rank'', JNum (of_int (case w of None \<Rightarrow> 0 | Some r \<Rightarrow> (case wf_current_rank r of None \<Rightarrow> 0 | Some n \<Rightarrow> n)))),
       (''retry_volunteer_ref'', JStr (if 0 < num retry then ref_of env ''volunteer'' retry else []))])"

definition requirement_snapshot :: "(json \<Rightarrow> string) \<Rightarrow> object \<Rightarrow> object \<Rightarrow> object" where
  "requirement_snapshot fingerprint d snapshot =
     (let policy = obj (fld snapshot ''pool_policy'') in
      if fld d ''status'' \<noteq> JStr ''ready''
      then put ''tag_catalog'' (JArr []) (put ''jobs'' (JArr []) snapshot)
      else let standard = nil_map (policyItem policy ''standards'' (str (fld d ''standard_code'')));
               tags = filter activePolicyItem
                 (map (policyItem policy ''tags'') (string_values (fld standard ''tag_codes'')))
           in put ''tag_catalog'' (JArr (map (\<lambda>t. JObj (brief (nil_map t)
                  [''code'', ''name'', ''category'', ''description''])) tags))
                (put ''jobs'' (JArr [JObj (standardJob fingerprint policy standard)]) snapshot))"

definition configureAssessmentSnapshot :: "(json \<Rightarrow> string) \<Rightarrow> object \<Rightarrow> object" where
  "configureAssessmentSnapshot fingerprint frozen =
     put ''job_ids'' (JObj [])
       (case fld frozen ''snapshot'' of
          JObj snapshot \<Rightarrow> put ''snapshot''
            (JObj (requirement_snapshot fingerprint (obj (fld frozen ''preflight'')) snapshot)) frozen
        | _ \<Rightarrow> frozen)"

definition candidate_snapshot ::
  "processing_env \<Rightarrow> object \<Rightarrow> preparationData \<Rightarrow> string \<Rightarrow> candidate_row \<Rightarrow> db \<Rightarrow> object" where
  "candidate_snapshot env scope data case_ref c db =
     (let w = first_where (\<lambda>w. wf_candidate w = cnd_id c) (db_workflows db);
          resumes = filter (\<lambda>r. res_candidate r = cnd_id c) (db_resumes db)
      in [(''candidate'', JObj (frozen_candidate env data case_ref (cnd_fields c))),
          (''workflow'', JObj (frozen_workflow env scope w)),
          (''volunteers'', JArr (map (\<lambda>r. JObj (frozen_volunteer env (rejected_resumes (cnd_id c) w db) r)) resumes)),
          (''jobs'', JArr (pd_jobs data)), (''admission_rules'', JArr (pd_rules data)),
          (''pool_policy'', JObj (pd_policy data))])"

definition volunteer_ids :: "processing_env \<Rightarrow> int \<Rightarrow> db \<Rightarrow> object" where
  "volunteer_ids env candidate db =
     fold (\<lambda>r. put (ref_of env ''volunteer'' (JNum (of_int (res_id r)))) (JNum (of_int (res_id r))))
       (filter (\<lambda>r. res_candidate r = candidate) (db_resumes db)) []"

definition freezeCase ::
  "processing_env \<Rightarrow> object \<Rightarrow> object \<Rightarrow> preparationData \<Rightarrow> string \<Rightarrow> string \<Rightarrow> candidate_row \<Rightarrow> db
    \<Rightarrow> go_error + object" where
  "freezeCase env scope pin data case_ref task c db =
     (let snapshot = candidate_snapshot env scope data case_ref c db;
          frozen = [(''snapshot'', JObj snapshot), (''volunteer_ids'', JObj (volunteer_ids env (cnd_id c) db)),
            (''job_ids'', JObj (pd_job_ids data)), (''rule_ids'', JObj (pd_rule_ids data)),
            (''tag_ids'', JObj (pd_tag_ids data)), (''task_id'', JStr task), (''pin'', JObj pin),
            (''lane'', JStr (pd_lane data)), (''thresholds'', JObj (pd_thresholds data))]
      in andThen (prepareSnapshot snapshot) (\<lambda>d.
         Inr (configureAssessmentSnapshot (pe_fingerprint env) (put ''preflight'' (JObj d) frozen))))"

subsection \<open>Preparing the items of a run\<close>

definition terminalItem :: "item_status \<Rightarrow> bool" where
  "terminalItem s \<longleftrightarrow> s \<in> {ItSuccess, ItNeedsAttention, ItFailed, ItSkipped, ItCancelled}"

lemma terminalItem_simps [simp]:
  "terminalItem ItSuccess" "terminalItem ItNeedsAttention" "terminalItem ItFailed" "terminalItem ItSkipped"
  "terminalItem ItCancelled" "\<not> terminalItem ItPending" "\<not> terminalItem ItProcessing"
  "\<not> terminalItem ItWaitingConflict"
  by (simp_all add: terminalItem_def)

text \<open>An integer column given a JSON value: NULL for nil, else \<open>num\<close> (\<open>save\<close> in app.go).\<close>

definition id_column :: "json \<Rightarrow> int option" where
  "id_column v = (if v = JNull then None else Some (num v))"

definition unprepared :: "item_row \<Rightarrow> bool" where
  "unprepared i \<longleftrightarrow> \<not> terminalItem (itm_status i) \<and> itm_snapshot i = []"

definition run_items :: "int \<Rightarrow> db \<Rightarrow> item_row list" where
  "run_items run db = sort_key itm_candidate (filter (\<lambda>i. itm_run i = run) (db_items db))"

definition preparationProgress :: "run_row \<Rightarrow> nat \<Rightarrow> db \<Rightarrow> db" where
  "preparationProgress run processed db =
     (if run_step run = ''step1'' then db
      else db\<lparr>db_stages := update_where
        (\<lambda>s. stg_run s = run_id run \<and> stg_step s = ''preparing'' \<and> stg_status s = SgRunning)
        (\<lambda>s. s\<lparr>stg_counts := (stg_counts s)\<lparr>cnt_processed := int processed, cnt_success := int processed\<rparr>,
               stg_message := ''candidates prepared''\<rparr>) (db_stages db)\<rparr>)"

definition snapshot_values :: "object \<Rightarrow> item_row \<Rightarrow> item_row" where
  "snapshot_values frozen i =
     (let d = obj (fld frozen ''preflight'') in
      i\<lparr>itm_snapshot := frozen,
        itm_prepare_revision := id_column (fld (obj (fld (obj (fld frozen ''snapshot'')) ''workflow'')) ''revision''),
        itm_resume := id_column (fld (obj (fld frozen ''volunteer_ids'')) (str (fld d ''current_volunteer_ref''))),
        itm_rule := id_column (fld (obj (fld frozen ''rule_ids'')) (str (fld d ''admission_rule_ref'')))\<rparr>)"

definition prepare_snapshot ::
  "processing_env \<Rightarrow> (int \<Rightarrow> string \<times> string) \<Rightarrow> run_row \<Rightarrow> object \<Rightarrow> preparationData \<Rightarrow> item_row \<Rightarrow> db
    \<Rightarrow> go_error + db" where
  "prepare_snapshot env fresh run pin data i db =
     andThen (fetch cnd_id (itm_candidate i) (db_candidates db)) (\<lambda>c.
     andThen (freezeCase env (run_scope run) pin data (fst (fresh (itm_id i))) (snd (fresh (itm_id i))) c db) (\<lambda>frozen.
     andThen (save_row itm_id (itm_id i) (snapshot_values frozen) (db_items db)) (\<lambda>(_, items).
       Inr (db\<lparr>db_items := items\<rparr>))))"

text \<open>The loop: the context is checked before every item, the catalogue is loaded with the first item
  that needs it, and every item is saved by itself, so an error leaves the earlier ones prepared.\<close>

fun prepare_loop ::
  "processing_env \<Rightarrow> (int \<Rightarrow> go_error option) \<Rightarrow> (int \<Rightarrow> string \<times> string) \<Rightarrow> run_row \<Rightarrow> object \<Rightarrow> item_row list
    \<Rightarrow> preparationData option \<Rightarrow> nat \<Rightarrow> db \<Rightarrow> (go_error + unit) \<times> db" where
  "prepare_loop env stopped fresh run pin [] data processed db = (Inr (), db)"
| "prepare_loop env stopped fresh run pin (i # items) data processed db =
     (case stopped (itm_id i) of Some e \<Rightarrow> (Inl e, db)
      | None \<Rightarrow>
          if \<not> unprepared i then prepare_loop env stopped fresh run pin items data processed db
          else case (case data of Some d \<Rightarrow> Inr (d, db) | None \<Rightarrow> loadPreparationData env db) of
            Inl e \<Rightarrow> (Inl e, db)
          | Inr (d, db) \<Rightarrow>
              (case prepare_snapshot env fresh run pin d i db of
                 Inl e \<Rightarrow> (Inl e, db)
               | Inr db \<Rightarrow> prepare_loop env stopped fresh run pin items (Some d) (processed + 1)
                   (preparationProgress run (processed + 1) db)))"

definition prepareRunSnapshots ::
  "processing_env \<Rightarrow> (int \<Rightarrow> go_error option) \<Rightarrow> (int \<Rightarrow> string \<times> string) \<Rightarrow> run_row \<Rightarrow> object \<Rightarrow> db
    \<Rightarrow> (go_error + unit) \<times> db" where
  "prepareRunSnapshots env stopped fresh run pin db =
     (let items = run_items (run_id run) db; processed = length (filter (\<lambda>i. \<not> unprepared i) items)
      in prepare_loop env stopped fresh run pin items None processed (preparationProgress run processed db))"

end
