(* ===== verification/Runs.thy ===== *)
theory Runs
  imports Workflows Preflight AllocationQueue
begin

text \<open>
  Processing runs (internal/platform/runs.go): the request that creates a run, the run with its
  items and stages, the durable job queue with its leases, the stages, stopping, summarising and
  cancelling a run. Display texts are short English gists; a failure's message is named by its code.
  The candidate filter of resolveRunCandidates (\<open>filtered\<close>, a SQL query) is a parameter.
\<close>

subsection \<open>Names of the steps and statuses\<close>

definition activeRun :: "run_status \<Rightarrow> bool" where
  "activeRun s \<longleftrightarrow> s \<in> {RuPending, RuRunning, RuWaitingConflict, RuCancelling}"

lemma activeRun_simps [simp]:
  "activeRun RuPending" "activeRun RuRunning" "activeRun RuWaitingConflict" "activeRun RuCancelling"
  "\<not> activeRun RuSuccess" "\<not> activeRun RuPartialFailed" "\<not> activeRun RuNeedsAttention"
  "\<not> activeRun RuFailed" "\<not> activeRun RuCancelled"
  by (simp_all add: activeRun_def)

definition stageSteps :: "string \<Rightarrow> string list" where
  "stageSteps step =
     (if step = ''all'' \<or> step = ''resume_process'' then [''step1'', ''step2'', ''step3'', ''step4'']
      else if step = ''step2'' then [''step2'', ''step3'', ''step4'']
      else if step = ''step3'' then [''step3'', ''step4'']
      else [step])"

definition system_status_names :: "string list" where
  "system_status_names = [''raw'', ''talent_pool'', ''pending_allocation'', ''archived'', ''pending_reallocation'',
     ''pending_dispatch'', ''pending_screening'', ''screening_passed'', ''screening_rejected'']"

definition known_status :: "string \<Rightarrow> bool" where
  "known_status s \<longleftrightarrow> contains system_status_names s \<or> s = ''pending_review''"

subsection \<open>The request for a run\<close>

text \<open>\<open>positiveIDs\<close>: a number is an id when it is a positive integer an \<open>int64\<close> can hold. For a number from
  2^63 on, the language leaves the conversion \<open>int64(n)\<close> to the platform; on amd64 it gives the smallest
  \<open>int64\<close>, which differs from the number, so the code refuses it as the definition does.\<close>

definition positive_id :: "json \<Rightarrow> int option" where
  "positive_id v = (case v of
       JNum n \<Rightarrow> if n < 1 \<or> n \<noteq> of_int (truncate_rat n) \<or> int64_max < truncate_rat n then None
                 else Some (truncate_rat n)
     | _ \<Rightarrow> None)"

definition add_id :: "json \<Rightarrow> int list \<Rightarrow> go_error + int list" where
  "add_id v ids = (case positive_id v of
       None \<Rightarrow> Inl (bad ''an id must be a positive integer'')
     | Some i \<Rightarrow> Inr (if i \<in> set ids then ids else ids @ [i]))"

definition positiveIDs :: "json \<Rightarrow> go_error + int list" where
  "positiveIDs value =
     (if list_of value = [] then Inl (bad ''a list of ids is required'') else foldE add_id (list_of value) [])"

definition reserved_scope_keys :: "string list" where
  "reserved_scope_keys = [''source'', ''retry_decision_id'', ''retry_resume_id'', ''expected_workflow_revision'',
     ''trigger'', ''schedule_id'', ''scheduled_for'', ''task_name'']"

definition requested_scope :: "object \<Rightarrow> go_error + object" where
  "requested_scope body =
     (if fld body ''scope'' = JNull then Inr []
      else case fld body ''scope'' of JObj m \<Rightarrow> Inr m | _ \<Rightarrow> Inl (bad ''scope must be an object''))"

definition requested_step :: "object \<Rightarrow> string" where
  "requested_step body = (if str (fld body ''step'') = [] then ''all'' else str (fld body ''step''))"

definition check_force :: "string \<Rightarrow> object \<Rightarrow> go_error + unit" where
  "check_force step scope =
     (if \<not> has_key scope ''force_reprocess'' then Inr ()
      else if \<not> truth (fld scope ''force_reprocess'') \<or> step \<noteq> ''step2''
        \<or> fld scope ''system_statuses'' \<noteq> JNull \<or> fld scope ''candidate_filters'' \<noteq> JNull
      then Inl (bad ''force_reprocess needs step2 and candidate_ids'')
      else andThen (positiveIDs (fld scope ''candidate_ids'')) (\<lambda>_. Inr ()))"

definition name_scope :: "object \<Rightarrow> object \<Rightarrow> go_error + object" where
  "name_scope body scope =
     (if \<not> has_key body ''name'' then Inr scope
      else case fld body ''name'' of
          JStr v \<Rightarrow> if 100 < rune_count v then Inl (bad ''task name too long'')
                    else Inr (if trim_space v = [] then scope else put ''task_name'' (JStr (trim_space v)) scope)
        | _ \<Rightarrow> Inl (bad ''task name too long''))"

text \<open>The checks of \<open>submitRun\<close> on the body: the step and the scope of the run.\<close>

definition submitted_request :: "object \<Rightarrow> go_error + string \<times> object" where
  "submitted_request body =
     (if has_key body ''mode'' \<or> has_key body ''modes'' then Inl (bad ''mode is fixed'')
      else andThen (requested_scope body) (\<lambda>scope.
        if list_ex (has_key scope) reserved_scope_keys then Inl (bad ''reserved scope key'')
        else let step = requested_step body in
          if \<not> contains [''all'', ''resume_process'', ''step1'', ''step2'', ''step3'', ''step4''] step
          then Inl (bad ''unknown step'')
          else andThen (check_force step scope) (\<lambda>_.
               andThen (name_scope body scope) (\<lambda>scope. Inr (step, scope)))))"

text \<open>\<open>resolveRunCandidates\<close>. A query is the list of its keys and values.\<close>

definition query_value :: "json \<Rightarrow> string" where
  "query_value v = (case v of JArr vs \<Rightarrow> join_with '','' (map str vs) | _ \<Rightarrow> str v)"

definition filter_query :: "object \<Rightarrow> go_error + (string \<times> string) list" where
  "filter_query scope =
     (if \<not> has_key scope ''candidate_filters'' then Inr []
      else case fld scope ''candidate_filters'' of
          JObj m \<Rightarrow> Inr (map (\<lambda>(k, v). (k, query_value v)) m)
        | _ \<Rightarrow> Inl (bad ''candidate_filters must be an object''))"

definition status_query :: "object \<Rightarrow> (string \<times> string) list \<Rightarrow> go_error + (string \<times> string) list" where
  "status_query scope query =
     (if \<not> has_key scope ''system_statuses'' then Inr query
      else case fld scope ''system_statuses'' of
          JArr vs \<Rightarrow> if vs = [] then Inl (bad ''system_statuses is empty'')
            else if \<not> list_all known_status (map str vs) then Inl (bad ''unknown system status'')
            else Inr (filter (\<lambda>(k, _). k \<noteq> ''system_statuses'') query
                      @ [(''system_statuses'', join_with '','' (map str vs))])
        | _ \<Rightarrow> Inl (bad ''system_statuses is empty''))"

definition resolveRunCandidates ::
  "((string \<times> string) list \<Rightarrow> principal \<Rightarrow> go_error + int list) \<Rightarrow> principal \<Rightarrow> object \<Rightarrow> db \<Rightarrow> go_error + int list" where
  "resolveRunCandidates filtered p scope db =
     (if has_key scope ''candidate_ids'' then positiveIDs (fld scope ''candidate_ids'')
      else andThen (filter_query scope) (\<lambda>query.
           andThen (status_query scope query) (\<lambda>query.
             if query = [] \<and> has p ''resume.view'' then Inr (map cnd_id (sort_key cnd_id (db_candidates db)))
             else filtered query p)))"

subsection \<open>Creating a run\<close>

definition opt_number :: "int option \<Rightarrow> int" where
  "opt_number i = (case i of None \<Rightarrow> 0 | Some n \<Rightarrow> n)"

text \<open>The checks before a retry of the AI assessment.\<close>

definition check_retry :: "object \<Rightarrow> int list \<Rightarrow> db \<Rightarrow> go_error + db" where
  "check_retry scope ids db =
     (if fld scope ''source'' \<noteq> JStr ''ai_retry'' then Inr db
      else case ids of
        [candidate] \<Rightarrow> andThen (lockWorkflow candidate db) (\<lambda>(w, db).
          if wf_status w \<in> {WfPassed, WfTalentPool}
             \<or> opt_number (wf_current_resume w) \<noteq> num (fld scope ''retry_resume_id'')
          then Inl (ApiError 409 ''decision no longer current'')
          else andThen (requireOpenApplication (num (fld scope ''retry_resume_id'')) db) (\<lambda>_.
            if effective_attempt (wf_id w) db then Inl (ApiError 409 ''already assigned'') else Inr db))
      | _ \<Rightarrow> Inl (bad ''a retry names one candidate''))"

text \<open>\<open>->>\<close> on a scalar of a jsonb object; the ids and revisions compared here are scalars.\<close>

definition jsonb_text :: "json \<Rightarrow> string option" where
  "jsonb_text v = (case v of
       JStr s \<Rightarrow> Some s
     | JNum r \<Rightarrow> Some (if r = of_int \<lfloor>r\<rfloor> then show_int \<lfloor>r\<rfloor> else show_num r)
     | JBool b \<Rightarrow> Some (if b then ''true'' else ''false'')
     | _ \<Rightarrow> None)"

definition continues :: "int \<Rightarrow> object \<Rightarrow> db \<Rightarrow> run_row \<Rightarrow> bool" where
  "continues candidate scope db r \<longleftrightarrow>
     exists_where (\<lambda>i. itm_run i = run_id r \<and> itm_candidate i = candidate) (db_items db) \<and>
     jsonb_text (fld (run_scope r) ''trigger'') = Some ''feedback_rejected'' \<and>
     jsonb_text (fld (run_scope r) ''retry_resume_id'') = Some (str (fld scope ''retry_resume_id'')) \<and>
     jsonb_text (fld (run_scope r) ''expected_workflow_revision'') = Some (str (fld scope ''expected_workflow_revision''))"

text \<open>A continuation of a candidate finds the run that already continues it.\<close>

definition existing_run :: "object \<Rightarrow> int list \<Rightarrow> db \<Rightarrow> go_error + run_row option" where
  "existing_run scope ids db =
     (if \<not> has_key scope ''expected_workflow_revision'' then Inr None
      else case ids of
        [candidate] \<Rightarrow> (case first_where (\<lambda>w. wf_candidate w = candidate) (db_workflows db) of
            None \<Rightarrow> Inl not_found
          | Some w \<Rightarrow> if wf_revision w \<noteq> num (fld scope ''expected_workflow_revision'')
              then Inl (ApiError 409 ''workflow changed'')
              else Inr (first_where (continues candidate scope db) (db_runs db)))
      | _ \<Rightarrow> Inl (bad ''a continuation names one candidate''))"

definition scope_summary :: "object \<Rightarrow> nat \<Rightarrow> object" where
  "scope_summary scope n =
     (''candidate_count'', JNum (of_nat n)) #
     brief scope (filter (has_key scope) [''system_statuses'', ''source'', ''task_name'', ''schedule_id''])"

definition new_run :: "int \<Rightarrow> string \<Rightarrow> object \<Rightarrow> nat \<Rightarrow> principal option \<Rightarrow> run_row" where
  "new_run i step scope n p =
     (let scope = drop_keys [''candidate_ids''] scope in
      \<lparr> run_id = i, run_scope = scope, run_summary = scope_summary scope n, run_step = step,
        run_status = RuPending, run_stage = ''queued'',
        run_params = [(''runtime_initialization'', JStr ''pending''), (''snapshot_preparation'', JStr ''pending'')],
        run_pin = [(''protocol_version'', JStr ''resume-analysis/v5'')],
        run_message = ''submitted'', run_error = [], run_total = int n, run_counts = no_counts,
        run_limit = None, run_heartbeat = None, run_started = None, run_finished = None,
        run_cancel_requested = None, run_cancelled = None, run_cancelled_by = None,
        run_created_by = map_option pri_user p,
        run_created_by_name = (case p of None \<Rightarrow> [] | Some q \<Rightarrow> pri_name q) \<rparr>)"

definition new_item :: "int \<Rightarrow> db \<Rightarrow> int \<Rightarrow> candidate_row \<Rightarrow> item_row" where
  "new_item run db i c =
     \<lparr> itm_id = i, itm_run = run, itm_candidate = cnd_id c,
       itm_submit_revision = map_option wf_revision
         (first_where (\<lambda>w. wf_candidate w = cnd_id c) (db_workflows db)),
       itm_prepare_revision = None, itm_status = ItPending, itm_node = ''pending'', itm_result_type = [],
       itm_reason = [], itm_message = [], itm_error_code = [], itm_error_message = [], itm_resume = None,
       itm_rule = None, itm_extraction = None, itm_snapshot = [], itm_result = [], itm_token = None,
       itm_attempts = 0, itm_started = None, itm_finished = None \<rparr>"

definition run_stages :: "string \<Rightarrow> string list" where
  "run_stages step = [''queued'', ''initialize''] @ (if step = ''step1'' then [] else [''preparing'']) @
     stageSteps step @ [''finalize'']"

definition new_stage :: "instant \<Rightarrow> int \<Rightarrow> int \<Rightarrow> int \<Rightarrow> nat \<times> string \<Rightarrow> stage_row" where
  "new_stage now run i n = (\<lambda>(position, step).
     \<lparr> stg_id = i + int position, stg_run = run, stg_sequence = int position + 1, stg_step = step,
       stg_status = (if step = ''queued'' then SgRunning else SgPending), stg_message = [], stg_error = [],
       stg_total = (if contains [''queued'', ''initialize'', ''finalize''] step then 1 else n),
       stg_counts = no_counts, stg_started = (if step = ''queued'' then Some now else None),
       stg_finished = None \<rparr>)"

text \<open>The rows of a run over the candidates of \<open>ids\<close>, with the fresh ids in the order of the inserts.\<close>

definition insert_run :: "instant \<Rightarrow> string \<Rightarrow> object \<Rightarrow> int list \<Rightarrow> principal option \<Rightarrow> db \<Rightarrow> go_error + run_row \<times> db" where
  "insert_run now step scope ids p db =
     (let i = db_next db; r = new_run i step scope (length ids) p;
          chosen = sort_key cnd_id (filter (\<lambda>c. cnd_id c \<in> set ids) (db_candidates db));
          items = map (\<lambda>(k, c). new_item i db (i + 1 + int k) c) (enumerate 0 chosen);
          first_stage = i + 1 + int (length chosen);
          stages = map (new_stage now i first_stage (int (length ids))) (enumerate 0 (run_stages step));
          job = first_stage + int (length stages)
      in if length chosen \<noteq> length ids then Inl (bad ''a candidate no longer exists'')
         else Inr (r, db\<lparr>db_runs := db_runs db @ [r], db_items := db_items db @ items,
           db_stages := db_stages db @ stages,
           db_queue := db_queue db @ [\<lparr> que_id = job, que_run = i, que_status = ''pending'',
             que_lease_until = None, que_token = [], que_attempts = 0 \<rparr>],
           db_next := job + 1\<rparr>))"

definition createRun :: "instant \<Rightarrow> string \<Rightarrow> object \<Rightarrow> int list \<Rightarrow> principal option \<Rightarrow> db \<Rightarrow> go_error + run_row \<times> db" where
  "createRun now step scope ids p db =
     andThen (check_retry scope ids db) (\<lambda>db.
     andThen (existing_run scope ids db) (\<lambda>existing.
       case existing of Some r \<Rightarrow> Inr (r, db) | None \<Rightarrow> insert_run now step scope ids p db))"

definition submitRun ::
  "((string \<times> string) list \<Rightarrow> principal \<Rightarrow> go_error + int list) \<Rightarrow> instant \<Rightarrow> principal \<Rightarrow> object \<Rightarrow> db
    \<Rightarrow> go_error + run_row \<times> db" where
  "submitRun filtered now p body db =
     andThen (submitted_request body) (\<lambda>(step, scope).
     andThen (resolveRunCandidates filtered p scope db) (\<lambda>ids.
       createRun now step scope ids (Some p) db))"

end
