(* ===== verification/RunStages.thy ===== *)
theory RunStages
  imports Runs
begin

text \<open>
  The life of a run (internal/platform/runs.go): the claim of its job by a worker and the heartbeat
  of the lease, the stages, the summary of the counters, stopping a run after a failure, cancelling
  it and completing its job. Every definition is one transaction, or one statement on the pool, with
  two exceptions. \<open>beginStage\<close> is two statements on the pool (the run, then its stage), and one tick of the
  heartbeat is up to three (the lease, the look at the cancellation, the time of the run); each is one
  step here. A connection that is lost between the statements is an error of the database, which the
  model of the processing pipeline does not have.
\<close>

subsection \<open>The job queue\<close>

definition job_lease :: int where
  "job_lease = 20 * second"

definition job_free :: "instant \<Rightarrow> (int \<Rightarrow> bool) \<Rightarrow> queue_row \<Rightarrow> bool" where
  "job_free now locked q \<longleftrightarrow> \<not> locked (que_id q) \<and>
     (que_status q = ''pending'' \<or>
      (que_status q = ''running'' \<and> (case que_lease_until q of None \<Rightarrow> False | Some t \<Rightarrow> t < now)))"

definition claim_row :: "instant \<Rightarrow> string \<Rightarrow> queue_row \<Rightarrow> queue_row" where
  "claim_row now tok q = q\<lparr>que_status := ''running'', que_token := tok,
     que_lease_until := Some (now + job_lease), que_attempts := que_attempts q + 1\<rparr>"

definition claimJob :: "instant \<Rightarrow> (int \<Rightarrow> bool) \<Rightarrow> string \<Rightarrow> db \<Rightarrow> (queue_row \<times> db) option" where
  "claimJob now locked tok db = map_option
     (\<lambda>q. (claim_row now tok q, db\<lparr>db_queue := update_where (\<lambda>r. que_id r = que_id q) (claim_row now tok) (db_queue db)\<rparr>))
     (first_where (job_free now locked) (db_queue db))"

text \<open>One tick of the heartbeat: whether the worker goes on. The renewal is kept even when it does not.\<close>

definition heartbeat :: "instant \<Rightarrow> queue_row \<Rightarrow> string \<Rightarrow> db \<Rightarrow> bool \<times> db" where
  "heartbeat now job tok db =
     (let own = (\<lambda>q. que_id q = que_id job \<and> que_token q = tok \<and> que_status q = ''running'') in
      if \<not> exists_where own (db_queue db) then (False, db)
      else let db = db\<lparr>db_queue := update_where own (\<lambda>q. q\<lparr>que_lease_until := Some (now + job_lease)\<rparr>) (db_queue db)\<rparr>
        in case first_where (\<lambda>r. run_id r = que_run job) (db_runs db) of
          None \<Rightarrow> (False, db)
        | Some r \<Rightarrow> if run_cancel_requested r \<noteq> None then (False, db)
            else (True, db\<lparr>db_runs := update_where (\<lambda>r. run_id r = que_run job)
              (\<lambda>r. r\<lparr>run_heartbeat := Some now\<rparr>) (db_runs db)\<rparr>))"

subsection \<open>Stages\<close>

definition or_now :: "instant \<Rightarrow> instant option \<Rightarrow> instant option" where
  "or_now now t = (case t of None \<Rightarrow> Some now | Some u \<Rightarrow> Some u)"

definition begin_stage_row :: "instant \<Rightarrow> string \<Rightarrow> stage_row \<Rightarrow> stage_row" where
  "begin_stage_row now step s = s\<lparr>stg_status := SgRunning, stg_started := or_now now (stg_started s),
     stg_message := step, stg_error := []\<rparr>"

definition beginStage :: "instant \<Rightarrow> int \<Rightarrow> string \<Rightarrow> db \<Rightarrow> go_error + db" where
  "beginStage now run step db =
     (let live = (\<lambda>r. run_id r = run \<and> run_cancel_requested r = None) in
      if \<not> exists_where live (db_runs db) then Inl (TaskError ''agent_cancelled'')
      else Inr (db\<lparr>db_runs := update_where live
          (\<lambda>r. r\<lparr>run_status := RuRunning, run_stage := step, run_message := step,
             run_heartbeat := Some now, run_started := or_now now (run_started r)\<rparr>) (db_runs db),
        db_stages := update_where
          (\<lambda>s. stg_run s = run \<and> stg_step s = step \<and> stg_status s \<noteq> SgSuccess)
          (begin_stage_row now step) (db_stages db)\<rparr>))"

definition finish_stage_row :: "instant \<Rightarrow> stage_row \<Rightarrow> stage_row" where
  "finish_stage_row now s =
     (let analysis = (stg_step s = ''step4'') in
      s\<lparr>stg_status := (if analysis \<and> 0 < cnt_failed (stg_counts s) then SgPartialFailed
          else if analysis \<and> 0 < cnt_attention (stg_counts s) then SgNeedsAttention else SgSuccess),
        stg_started := or_now now (stg_started s), stg_finished := Some now,
        stg_counts := (if analysis then stg_counts s
          else (stg_counts s)\<lparr>cnt_processed := stg_total s, cnt_success := stg_total s\<rparr>)\<rparr>)"

definition finishStage :: "instant \<Rightarrow> int \<Rightarrow> string \<Rightarrow> db \<Rightarrow> db" where
  "finishStage now run step db = db\<lparr>db_stages := update_where
     (\<lambda>s. stg_run s = run \<and> stg_step s = step) (finish_stage_row now) (db_stages db)\<rparr>"

subsection \<open>The summary of a run\<close>

definition recommended :: "int \<Rightarrow> string \<Rightarrow> db \<Rightarrow> int" where
  "recommended run rec db =
     int (count_where (\<lambda>d. dcn_run d = run \<and> dcn_recommendation d = rec) (db_decisions db))"

definition count_items :: "int \<Rightarrow> (item_row \<Rightarrow> bool) \<Rightarrow> db \<Rightarrow> int" where
  "count_items run p db = int (count_where (\<lambda>i. itm_run i = run \<and> p i) (db_items db))"

definition run_summary_counts :: "int \<Rightarrow> db \<Rightarrow> counts_row" where
  "run_summary_counts run db =
     \<lparr> cnt_processed = count_items run (\<lambda>i. itm_finished i \<noteq> None) db,
       cnt_completed = count_items run (\<lambda>i. itm_result_type i = ''completed'') db,
       cnt_success = count_items run (\<lambda>i. itm_status i = ItSuccess) db,
       cnt_attention = count_items run (\<lambda>i. itm_result_type i = ''needs_attention'') db,
       cnt_failed = count_items run (\<lambda>i. itm_result_type i = ''failed'') db,
       cnt_skipped = count_items run (\<lambda>i. itm_status i = ItSkipped) db,
       cnt_cancelled = count_items run (\<lambda>i. itm_status i = ItCancelled) db,
       cnt_review = recommended run ''review'' db,
       cnt_dispatch = recommended run ''dispatch'' db,
       cnt_archive = recommended run ''archive'' db \<rparr>"

definition final_status :: "counts_row \<Rightarrow> run_status" where
  "final_status c = (if 0 < cnt_failed c then RuPartialFailed
     else if 0 < cnt_attention c then RuNeedsAttention else RuSuccess)"

definition summary_values :: "instant \<Rightarrow> bool \<Rightarrow> counts_row \<Rightarrow> run_row \<Rightarrow> run_row" where
  "summary_values now finish c r =
     (if finish then r\<lparr>run_counts := c, run_status := final_status c, run_stage := [],
        run_heartbeat := Some now, run_finished := Some now, run_message := ''finished''\<rparr>
      else r\<lparr>run_counts := c\<rparr>)"

definition summarizeRun :: "instant \<Rightarrow> int \<Rightarrow> bool \<Rightarrow> db \<Rightarrow> go_error + db" where
  "summarizeRun now run finish db =
     andThen (fetch run_id run (db_runs db)) (\<lambda>r.
       if finish \<and> run_cancel_requested r \<noteq> None then Inl (TaskError ''agent_cancelled'')
       else let c = run_summary_counts run db in
         andThen (save_row run_id run (summary_values now finish c) (db_runs db)) (\<lambda>(_, runs).
           let db = db\<lparr>db_runs := runs\<rparr> in
           case first_where (\<lambda>s. stg_run s = run \<and> stg_step s = ''step4'') (db_stages db) of
             None \<Rightarrow> Inr db
           | Some s \<Rightarrow> andThen (save_row stg_id (stg_id s) (\<lambda>s. s\<lparr>stg_counts := c\<rparr>) (db_stages db))
               (\<lambda>(_, stages). Inr (db\<lparr>db_stages := stages\<rparr>))))"

subsection \<open>Stopping and cancelling\<close>

definition stop_run_row :: "instant \<Rightarrow> string \<Rightarrow> run_row \<Rightarrow> run_row" where
  "stop_run_row now code r =
     (if code = ''agent_cancelled''
      then r\<lparr>run_status := RuCancelled, run_finished := Some now, run_message := code, run_error := [],
             run_cancelled := Some now\<rparr>
      else r\<lparr>run_status := RuFailed, run_finished := Some now, run_message := code, run_error := code\<rparr>)"

definition stop_stage_row :: "instant \<Rightarrow> string \<Rightarrow> stage_row \<Rightarrow> stage_row" where
  "stop_stage_row now code s =
     (if code = ''agent_cancelled''
      then s\<lparr>stg_status := SgCancelled, stg_message := code, stg_error := [], stg_finished := Some now\<rparr>
      else s\<lparr>stg_status := SgFailed, stg_message := code, stg_error := code, stg_finished := Some now\<rparr>)"

definition stop_item_row :: "instant \<Rightarrow> string \<Rightarrow> item_row \<Rightarrow> item_row" where
  "stop_item_row now code i =
     (let status = (if code = ''agent_cancelled'' then ''cancelled'' else ''failed'') in
      i\<lparr>itm_status := (if code = ''agent_cancelled'' then ItCancelled else ItFailed),
        itm_result_type := status, itm_node := status, itm_error_code := code, itm_error_message := code,
        itm_message := code, itm_reason := code, itm_finished := Some now\<rparr>)"

definition stop_rows :: "instant \<Rightarrow> int \<Rightarrow> string \<Rightarrow> db \<Rightarrow> db" where
  "stop_rows now run code db =
     (let stages = update_where (\<lambda>s. stg_run s = run \<and> stg_status s \<in> {SgRunning, SgWaitingConflict})
            (stop_stage_row now code) (db_stages db);
          stages = update_where (\<lambda>s. stg_run s = run \<and> stg_status s = SgPending)
            (\<lambda>s. s\<lparr>stg_status := SgSkipped, stg_message := ''stopped'', stg_finished := Some now\<rparr>) stages
      in db\<lparr>db_stages := stages,
        db_items := update_where
          (\<lambda>i. itm_run i = run \<and> itm_status i \<in> {ItPending, ItProcessing, ItWaitingConflict})
          (stop_item_row now code) (db_items db)\<rparr>)"

text \<open>The resumes under assessment by an item of the run, in the order of their workflows.\<close>

definition item_of_run :: "int \<Rightarrow> int option \<Rightarrow> db \<Rightarrow> item_row option" where
  "item_of_run run i db = first_where (\<lambda>r. itm_run r = run \<and> Some (itm_id r) = i) (db_items db)"

definition claimed_resume :: "int \<Rightarrow> db \<Rightarrow> workflow_row \<Rightarrow> int option" where
  "claimed_resume run db w = (case item_of_run run (wf_item w) db of
       None \<Rightarrow> None
     | Some i \<Rightarrow> (case itm_resume i of
           None \<Rightarrow> None
         | Some resume \<Rightarrow> if exists_where (\<lambda>a. app_resume a = resume \<and> app_status a = AppAssessing) (db_applications db)
             then Some resume else None))"

definition block_resume :: "instant \<Rightarrow> int \<Rightarrow> string \<Rightarrow> int \<Rightarrow> db \<Rightarrow> go_error + db" where
  "block_resume now run code resume db = applicationState now resume AppBlocked code
     [(''run_id'', JNum (of_int run)), (''error_code'', JStr code)] db"

definition release_workflows :: "int \<Rightarrow> db \<Rightarrow> db" where
  "release_workflows run db = db\<lparr>db_workflows := update_where
     (\<lambda>w. item_of_run run (wf_item w) db \<noteq> None)
     (\<lambda>w. w\<lparr>wf_item := None, wf_token := None, wf_expires := None\<rparr>) (db_workflows db)\<rparr>"

definition stop_transaction :: "instant \<Rightarrow> int \<Rightarrow> string \<Rightarrow> db \<Rightarrow> go_error + db" where
  "stop_transaction now run code db =
     andThen (save_row run_id run (stop_run_row now code) (db_runs db)) (\<lambda>(_, runs).
       let db = stop_rows now run code (db\<lparr>db_runs := runs\<rparr>) in
       andThen (foldE (block_resume now run code) (List.map_filter (claimed_resume run db) (db_workflows db)) db)
         (\<lambda>db. Inr (release_workflows run db)))"

definition stopRun :: "instant \<Rightarrow> int \<Rightarrow> go_error \<Rightarrow> db \<Rightarrow> (go_error + unit) \<times> db" where
  "stopRun now run cause db = (case stop_transaction now run (failure_code cause) db of
       Inl e \<Rightarrow> (Inl e, db)
     | Inr db \<Rightarrow> (case summarizeRun now run False db of Inl e \<Rightarrow> (Inl e, db) | Inr db \<Rightarrow> (Inr (), db)))"

definition cancel_values :: "instant \<Rightarrow> principal \<Rightarrow> run_row \<Rightarrow> run_row" where
  "cancel_values now p r = r\<lparr>run_status := RuCancelling, run_cancel_requested := Some now,
     run_cancelled_by := Some (pri_user p), run_message := ''cancelling''\<rparr>"

definition cancelRun :: "instant \<Rightarrow> int \<Rightarrow> principal \<Rightarrow> db \<Rightarrow> go_error + run_row \<times> db" where
  "cancelRun now run p db =
     andThen (fetch run_id run (db_runs db)) (\<lambda>r.
       if \<not> activeRun (run_status r) then Inl (ApiError 409 ''run has ended'')
       else if run_cancel_requested r \<noteq> None then Inr (r, db)
       else andThen (save_row run_id run (cancel_values now p) (db_runs db)) (\<lambda>(r, runs).
         Inr (r, db\<lparr>db_runs := runs\<rparr>)))"

subsection \<open>Completing the job\<close>

definition job_done :: "queue_row \<Rightarrow> string \<Rightarrow> db \<Rightarrow> db" where
  "job_done job tok db = db\<lparr>db_queue := update_where (\<lambda>q. que_id q = que_id job \<and> que_token q = tok)
     (\<lambda>q. q\<lparr>que_status := ''done'', que_lease_until := None\<rparr>) (db_queue db)\<rparr>"

definition owns_job :: "instant \<Rightarrow> queue_row \<Rightarrow> string \<Rightarrow> db \<Rightarrow> bool" where
  "owns_job now job tok db = exists_where (\<lambda>q. que_id q = que_id job \<and> que_token q = tok
     \<and> (case que_lease_until q of None \<Rightarrow> False | Some t \<Rightarrow> now < t)) (db_queue db)"

text \<open>The end of \<open>executeJob\<close>: \<open>result\<close> is the error of \<open>executeRun\<close>, if any. A worker that lost its
  lease, or whose run was interrupted without a cancellation, leaves everything to the next claim.\<close>

definition finishJob :: "instant \<Rightarrow> queue_row \<Rightarrow> string \<Rightarrow> go_error option \<Rightarrow> db \<Rightarrow> db" where
  "finishJob now job tok result db =
     (if \<not> owns_job now job tok db then db
      else case first_where (\<lambda>r. run_id r = que_run job) (db_runs db) of
        None \<Rightarrow> db
      | Some r \<Rightarrow>
          if run_cancel_requested r = None \<and> result = Some Canceled then db
          else case (if run_cancel_requested r \<noteq> None then Some (TaskError ''agent_cancelled'') else result) of
              None \<Rightarrow> job_done job tok db
            | Some e \<Rightarrow> (case stopRun now (run_id r) e db of
                  (Inl _, db) \<Rightarrow> db
                | (Inr _, db) \<Rightarrow> job_done job tok db))"

end
