(* ===== verification/Processing.thy ===== *)
theory Processing
  imports RunStages
begin

text \<open>
  The items of a run (internal/platform/processing.go, savePoolAssessment of pools.go and
  continueAfterAIRejection of applications.go): preparing an item in the steps before the analysis,
  claiming it, the work between the two transactions, and storing the outcome. The text extraction
  and the Kernel's analysis are parameters; lease tokens are given. Every definition on a database
  is one transaction: an error rolls it back.
\<close>

subsection \<open>Outcomes\<close>

definition item_status_name :: "item_status \<Rightarrow> string" where
  "item_status_name s = (case s of ItPending \<Rightarrow> ''pending'' | ItProcessing \<Rightarrow> ''processing''
     | ItWaitingConflict \<Rightarrow> ''waiting_conflict'' | ItSuccess \<Rightarrow> ''success'' | ItNeedsAttention \<Rightarrow> ''needs_attention''
     | ItFailed \<Rightarrow> ''failed'' | ItSkipped \<Rightarrow> ''skipped_manual_change'' | ItCancelled \<Rightarrow> ''cancelled'')"

definition outcome_row :: "instant \<Rightarrow> item_status \<Rightarrow> string \<Rightarrow> item_row \<Rightarrow> item_row" where
  "outcome_row now status code i =
     (let i = i\<lparr>itm_status := status,
            itm_node := (if status \<in> {ItSuccess, ItSkipped} then ''done'' else item_status_name status),
            itm_result_type := (if status = ItSuccess then ''completed'' else if status = ItSkipped then []
              else item_status_name status),
            itm_reason := code, itm_message := code, itm_finished := Some now\<rparr>
      in if status \<in> {ItFailed, ItNeedsAttention}
         then i\<lparr>itm_error_code := code, itm_error_message := code\<rparr> else i)"

definition save_item :: "int \<Rightarrow> (item_row \<Rightarrow> item_row) \<Rightarrow> db \<Rightarrow> go_error + item_row \<times> db" where
  "save_item i f db = andThen (save_row itm_id i f (db_items db)) (\<lambda>(r, items). Inr (r, db\<lparr>db_items := items\<rparr>))"

definition itemOutcome :: "instant \<Rightarrow> item_row \<Rightarrow> item_status \<Rightarrow> string \<Rightarrow> db \<Rightarrow> go_error + db" where
  "itemOutcome now i status code db =
     andThen (save_item (itm_id i) (outcome_row now status code) db) (\<lambda>(_, db). Inr db)"

definition revisionChanged :: "item_row \<Rightarrow> workflow_row \<Rightarrow> bool" where
  "revisionChanged i w =
     (let continued = fld (itm_snapshot i) ''continuation_revision'' in
      if continued \<noteq> JNull then num continued \<noteq> wf_revision w
      else (case itm_submit_revision i of None \<Rightarrow> wf_revision w \<noteq> 0 | Some n \<Rightarrow> n \<noteq> wf_revision w))"

text \<open>What both transactions of an item start with: a live run, the item and the locked workflow.\<close>

definition live_run :: "int \<Rightarrow> db \<Rightarrow> go_error + run_row" where
  "live_run run db = andThen (fetch run_id run (db_runs db)) (\<lambda>r.
     if run_cancel_requested r \<noteq> None then Inl (TaskError ''agent_cancelled'') else Inr r)"

definition claimed_now :: "instant \<Rightarrow> workflow_row \<Rightarrow> bool" where
  "claimed_now now w = (case wf_expires w of None \<Rightarrow> False | Some t \<Rightarrow> now < t)"

definition current_resume :: "object \<Rightarrow> db \<Rightarrow> resume_row option" where
  "current_resume frozen db =
     (case fetch_opt res_id (id_column (fld (obj (fld frozen ''volunteer_ids''))
         (str (fld (obj (fld frozen ''preflight'')) ''current_volunteer_ref'')))) (db_resumes db) of
        Inl _ \<Rightarrow> None | Inr r \<Rightarrow> Some r)"

subsection \<open>Preparing an item\<close>

definition ordered_ids :: "object \<Rightarrow> int list" where
  "ordered_ids frozen =
     map (\<lambda>ref. num (fld (obj (fld frozen ''volunteer_ids'')) (str ref)))
       (list_of (fld (obj (fld frozen ''preflight'')) ''volunteer_order''))"

definition rank_resumes :: "int list \<Rightarrow> db \<Rightarrow> db" where
  "rank_resumes ids db = db\<lparr>db_resumes := fold
     (\<lambda>(rank, i). update_where (\<lambda>r. res_id r = i)
        (\<lambda>r. r\<lparr>res_rank := Some (int rank), res_assigned_entity := res_entity r\<rparr>))
     (enumerate 1 ids) (db_resumes db)\<rparr>"

definition save_candidate :: "int \<Rightarrow> object \<Rightarrow> db \<Rightarrow> go_error + db" where
  "save_candidate c columns db =
     andThen (save_row cnd_id c (\<lambda>r. r\<lparr>cnd_fields := put_all columns (cnd_fields r)\<rparr>) (db_candidates db))
       (\<lambda>(_, cs). Inr (db\<lparr>db_candidates := cs\<rparr>))"

definition order_volunteers :: "item_row \<Rightarrow> db \<Rightarrow> go_error + db" where
  "order_volunteers i db =
     (let frozen = itm_snapshot i in
      save_candidate (itm_candidate i)
        [(''preferred_entity'', JStr (preferredEntity (obj (fld (obj (fld frozen ''snapshot'')) ''candidate''))))]
        (rank_resumes (ordered_ids frozen) db))"

text \<open>\<open>force\<close>: the automatic attempts are cancelled and the workflow opens again.\<close>

definition reopen_workflow :: "instant \<Rightarrow> workflow_row \<Rightarrow> db \<Rightarrow> go_error + db" where
  "reopen_workflow now w db =
     andThen (cancelOpenAttempts now w ''rerun'' [FromAi, FromRule] db) (\<lambda>db.
     andThen (save_workflow (wf_id w) (\<lambda>r. r\<lparr>wf_status := WfInProgress, wf_passed_attempt := None,
        wf_archive_reason := [], wf_archive_detail := [], wf_block_reason := [], wf_block_detail := [],
        wf_completed := None\<rparr>) db) (\<lambda>(_, db). Inr db))"

definition degree_values :: "object \<Rightarrow> string \<Rightarrow> db \<Rightarrow> go_error + object \<times> int option" where
  "degree_values frozen degree db =
     (let i = id_column (fld (obj (fld frozen ''tag_ids''))
            (str (fld (obj (fld frozen ''preflight'')) (degree @ ''_degree_tag_ref'')))) in
      case first_where (\<lambda>t. Some (num (fld t ''id'')) = i) (cat_tags (db_catalog db)) of
        None \<Rightarrow> Inl not_found
      | Some tag \<Rightarrow> Inr ([(degree @ ''_degree_tag_id'', (case i of None \<Rightarrow> JNull | Some n \<Rightarrow> JNum (of_int n))),
           (degree @ ''_degree_platform'', fld tag ''name'')], i))"

definition link_tag :: "int \<Rightarrow> int option \<Rightarrow> db \<Rightarrow> db" where
  "link_tag c i db = (case i of None \<Rightarrow> db
     | Some n \<Rightarrow> if (c, n) \<in> set (db_candidate_tags db) then db
                 else db\<lparr>db_candidate_tags := db_candidate_tags db @ [(c, n)]\<rparr>)"

definition record_degrees :: "item_row \<Rightarrow> db \<Rightarrow> go_error + db" where
  "record_degrees i db =
     andThen (degree_values (itm_snapshot i) ''first'' db) (\<lambda>(first, a).
     andThen (degree_values (itm_snapshot i) ''highest'' db) (\<lambda>(highest, b).
     andThen (save_candidate (itm_candidate i) (first @ highest) db) (\<lambda>db.
       let c = itm_candidate i;
           db = db\<lparr>db_candidate_tags := filter (\<lambda>(k, _). k \<noteq> c) (db_candidate_tags db)\<rparr>
       in Inr (link_tag c b (link_tag c a db)))))"

definition refuse_admission :: "instant \<Rightarrow> item_row \<Rightarrow> workflow_row \<Rightarrow> resume_row \<Rightarrow> string \<Rightarrow> db \<Rightarrow> go_error + db" where
  "refuse_admission now i w resume status db =
     andThen (cancelOpenAttempts now w ''rerun'' [] db) (\<lambda>db.
     andThen (touchWorkflow now w resume db) (\<lambda>db.
     andThen (archiveWorkflow now w ''school_rule_not_matched'' ''admission refused'' db) (\<lambda>db.
       itemOutcome now i ItSuccess status db)))"

definition archive_reason :: "string \<Rightarrow> string" where
  "archive_reason status =
     (if status = ''job_not_found'' then ''job_not_matched''
      else if status = ''job_pool_empty'' then ''department_not_found''
      else if status = ''job_mapping_ambiguous'' then ''job_mapping_ambiguous''
      else if status = ''internal_position_name_missing'' then ''internal_position_name_missing''
      else ''agent_no_recommendation'')"

definition blocking_statuses :: "string list" where
  "blocking_statuses = [''assessment_standard_missing'', ''source_job_missing'', ''source_job_conflict'',
     ''job_mapping_ambiguous'', ''job_responsibility_missing'']"

definition block_workflow :: "workflow_row \<Rightarrow> string \<Rightarrow> db \<Rightarrow> go_error + db" where
  "block_workflow w code db = andThen (save_workflow (wf_id w)
     (\<lambda>r. r\<lparr>wf_block_reason := code, wf_block_detail := code\<rparr>) db) (\<lambda>(_, db). Inr db)"

definition refuse_standard :: "instant \<Rightarrow> run_row \<Rightarrow> item_row \<Rightarrow> workflow_row \<Rightarrow> resume_row \<Rightarrow> string \<Rightarrow> db \<Rightarrow> go_error + db" where
  "refuse_standard now run i w resume status db =
     andThen (cancelOpenAttempts now w ''rerun'' [] db) (\<lambda>db.
     andThen (touchWorkflow now w resume db) (\<lambda>db.
       if contains blocking_statuses status
       then andThen (block_workflow w status (closePoolMemberships (wf_id w) None ''assessment_unavailable'' db)) (\<lambda>db.
            andThen (block_resume now (run_id run) status (res_id resume) db) (\<lambda>db.
              itemOutcome now i ItNeedsAttention status db))
       else andThen (archiveWorkflow now w (archive_reason status) status db) (\<lambda>db.
              itemOutcome now i ItNeedsAttention status db)))"

text \<open>The steps of an item without an open volunteer.\<close>

definition no_volunteer :: "instant \<Rightarrow> item_row \<Rightarrow> workflow_row \<Rightarrow> db \<Rightarrow> go_error + db" where
  "no_volunteer now i w db =
     (if list_of (fld (obj (fld (itm_snapshot i) ''snapshot'')) ''volunteers'') = []
      then itemOutcome now i ItNeedsAttention ''no_resume_available'' db
      else andThen (talentPool now w db) (\<lambda>db. itemOutcome now i ItSuccess ''talent_pool'' db))"

definition admission_step :: "instant \<Rightarrow> run_row \<Rightarrow> item_row \<Rightarrow> workflow_row \<Rightarrow> resume_row \<Rightarrow> db \<Rightarrow> go_error + db" where
  "admission_step now run i w resume db =
     (let d = obj (fld (itm_snapshot i) ''preflight'') in
      andThen (if forceReprocess (run_scope run) then reopen_workflow now w db else Inr db) (\<lambda>db.
      andThen (record_degrees i db) (\<lambda>db.
        if truth (fld d ''admission_passed'') then Inr db
        else refuse_admission now i w resume (str (fld d ''status'')) db)))"

definition prepare_resume :: "instant \<Rightarrow> run_row \<Rightarrow> string \<Rightarrow> item_row \<Rightarrow> workflow_row \<Rightarrow> resume_row option \<Rightarrow> db \<Rightarrow> go_error + db" where
  "prepare_resume now run step i w resume db =
     (let status = str (fld (obj (fld (itm_snapshot i) ''preflight'')) ''status'') in
      case resume of
        None \<Rightarrow> no_volunteer now i w db
      | Some r \<Rightarrow>
          if step = ''step2'' then admission_step now run i w r db
          else if step = ''step3'' \<and> status \<noteq> ''ready'' then refuse_standard now run i w r status db
          else Inr db)"

definition prepare_open_item :: "instant \<Rightarrow> run_row \<Rightarrow> string \<Rightarrow> item_row \<Rightarrow> workflow_row \<Rightarrow> db \<Rightarrow> go_error + db" where
  "prepare_open_item now run step i w db =
     (let resume = current_resume (itm_snapshot i) db in
      if step = ''step1'' \<or> (step = ''step2'' \<and> \<not> contains (stageSteps (run_step run)) ''step1'')
      then andThen (order_volunteers i db) (\<lambda>db.
        if step = ''step1'' \<and> run_step run = ''step1'' then itemOutcome now i ItSuccess ''dedup_completed'' db
        else if step = ''step1'' then Inr db
        else prepare_resume now run step i w resume db)
      else prepare_resume now run step i w resume db)"

text \<open>The result tells whether another run holds the workflow, in which case the caller tries again.\<close>

definition prepareItem :: "instant \<Rightarrow> run_row \<Rightarrow> int \<Rightarrow> string \<Rightarrow> db \<Rightarrow> go_error + bool \<times> db" where
  "prepareItem now run i step db =
     andThen (live_run (run_id run) db) (\<lambda>_.
     andThen (fetch itm_id i (db_items db)) (\<lambda>item.
       if terminalItem (itm_status item) then Inr (False, db)
       else andThen (lockWorkflow (itm_candidate item) db) (\<lambda>(w, locked).
         if revisionChanged item w
         then andThen (itemOutcome now item ItSkipped ''workflow_changed_after_submit'' locked) (\<lambda>db. Inr (False, db))
         else if claimed_now now w \<and> opt_number (wf_item w) \<noteq> i then Inr (True, db)
         else andThen (retainApplicationWork (run_scope run) w locked) (\<lambda>(keep, locked).
           andThen (case keep of
               Some code \<Rightarrow> itemOutcome now item ItSuccess code locked
             | None \<Rightarrow> prepare_open_item now run step item w locked) (\<lambda>db. Inr (False, db))))))"

end
