(* ===== verification/Assessment.thy ===== *)
theory Assessment
  imports Processing
begin

text \<open>
  The assessment of an item (processItem of internal/platform/processing.go and what it calls): the
  claim of the candidate's workflow, the work outside the database, and the transaction that stores
  its outcome, with savePoolAssessment (pools.go), persistProfile, validateLiveJobs, saveFailure and
  continueAfterAIRejection (applications.go). A task error is its code: the message the source shows is
  named by the code, also where \<open>saveFailure\<close> stores it among the risks, and the manifest and the trace that
  a failure of the Kernel may carry (\<open>safe_trace\<close> and \<open>kernel_result\<close> of the decision) are not kept. No
  modelled operation reads these columns of a decision.
\<close>

subsection \<open>The stored decision and profile\<close>

definition auditValues :: "run_row \<Rightarrow> object" where
  "auditValues run = (let v = (\<lambda>k. JStr (str (fld (run_pin run) k))) in
     [(''model_name'', v ''model_name''), (''prompt_version'', v ''prompt_version''),
      (''decision_version'', v ''decision_version''), (''kernel_pin_id'', v ''pin_id''),
      (''kernel_build'', v ''kernel_build''), (''protocol_version'', v ''protocol_version''),
      (''toolset_version'', v ''toolset_version'')])"

definition recommendation :: "object \<Rightarrow> object \<Rightarrow> string" where
  "recommendation match frozen =
     (if float_value (fld (obj (fld frozen ''thresholds'')) ''dispatch'') \<le> float_value (fld match ''score'')
      then ''dispatch'' else ''archive'')"

definition truncate_text :: "string \<Rightarrow> nat \<Rightarrow> string" where
  "truncate_text s n = (if n < rune_count s then concat (map encode_rune (take n (runes s))) else s)"

text \<open>The profile of a resume, from the claims of an analysis.\<close>

definition append_to :: "string \<Rightarrow> json \<Rightarrow> object \<Rightarrow> object" where
  "append_to key v values = put key (JArr (list_of (fld values key) @ [v])) values"

definition claim_evidence :: "object \<Rightarrow> string" where
  "claim_evidence c = (case list_of (fld c ''evidence'') of [] \<Rightarrow> [] | e # _ \<Rightarrow> str (fld (obj e) ''quote''))"

definition profile_claim :: "json \<Rightarrow> object \<Rightarrow> object" where
  "profile_claim v acc =
     (let c = obj v; summary = str (fld c ''summary''); details = obj (fld c ''details''); kind = str (fld c ''kind'')
      in if kind = ''skill'' then append_to ''skills'' (JStr summary) acc
         else if kind = ''certificate'' then append_to ''certificates'' (JStr summary) acc
         else if kind = ''education''
         then append_to ''education_experiences''
           (JObj (brief details [''school_name'', ''degree'', ''major'', ''period'']
             @ [(''evidence'', JStr (claim_evidence c))])) acc
         else if kind = ''project'' \<or> kind = ''internship''
         then (let e = brief details [''name'', ''role'', ''period''];
                   e = (if str (fld e ''name'') = [] then put ''name'' (JStr (truncate_text summary 128)) e else e)
               in append_to (kind @ ''_experiences'')
                    (JObj (e @ [(''description'', JStr summary), (''evidence'', JStr (claim_evidence c))])) acc)
         else acc)"

definition wide_semicolon :: string where
  "wide_semicolon = [CHR 0xEF, CHR 0xBC, CHR 0x9B]"

definition profile_values :: "object \<Rightarrow> object" where
  "profile_values result =
     (let profile = obj (fld result ''profile''); claims = list_of (fld profile ''claims'');
          summary = (\<lambda>v. str (fld (obj v) ''summary''));
          start = [(''file_checksum'', fld (obj (fld result ''manifest'')) ''resume_checksum''),
            (''raw_text'', fld profile ''source_text''), (''parse_model'', fld (obj (fld result ''pin'')) ''kernel_build''),
            (''profile_version'', JStr ''resume-analysis/v5''), (''education_experiences'', JArr []),
            (''project_experiences'', JArr []), (''internship_experiences'', JArr []), (''skills'', JArr []),
            (''certificates'', JArr []), (''profile_risk_flags'', fld profile ''risks''),
            (''parse_status'', JStr ''parsed''), (''parse_error'', JStr [])]
      in fold profile_claim claims start @
         [(''summary'', JStr (join_with wide_semicolon (map summary claims))),
          (''major_direction'', JStr (truncate_text (join_with wide_semicolon
             (map summary (filter (\<lambda>v. str (fld (obj v) ''kind'') = ''major_direction'') claims))) 128))])"

definition persistProfile :: "resume_row \<Rightarrow> object \<Rightarrow> db \<Rightarrow> int \<times> db" where
  "persistProfile resume result db =
     (case first_where (\<lambda>p. prf_resume p = res_id resume) (db_profiles db) of
        Some p \<Rightarrow> (prf_id p, db\<lparr>db_profiles := update_where (\<lambda>r. prf_id r = prf_id p)
          (\<lambda>r. r\<lparr>prf_values := put_all (profile_values result) (prf_values r)\<rparr>) (db_profiles db)\<rparr>)
      | None \<Rightarrow> (db_next db, db\<lparr>db_profiles := db_profiles db @
          [\<lparr> prf_id = db_next db, prf_resume = res_id resume, prf_values = profile_values result \<rparr>],
          db_next := db_next db + 1\<rparr>))"

subsection \<open>A passed or refused assessment\<close>

definition decision_values :: "run_row \<Rightarrow> object \<Rightarrow> object \<Rightarrow> int \<Rightarrow> object" where
  "decision_values run result match profile =
     put_all [(''kernel_pin_id'', fld (obj (fld result ''pin'')) ''pin_id''),
       (''kernel_build'', fld (obj (fld result ''pin'')) ''kernel_build''), (''profile_id'', JNum (of_int profile)),
       (''confidence_score'', fld match ''score''), (''score_breakdown'', fld match ''dimensions''),
       (''summary'', fld match ''reason''), (''reason'', fld match ''reason''), (''evidence'', fld match ''evidence''),
       (''risks'', fld match ''risks''), (''risk_flags'', fld (obj (fld result ''profile'')) ''risks''),
       (''kernel_result'', JObj result), (''safe_trace'', fld result ''safe_trace'')] (auditValues run)"

definition insert_decision ::
  "run_row \<Rightarrow> workflow_row \<Rightarrow> resume_row \<Rightarrow> string \<Rightarrow> string \<Rightarrow> object \<Rightarrow> db \<Rightarrow> int \<times> db" where
  "insert_decision run w resume rec code columns db =
     (db_next db, db\<lparr>db_decisions := db_decisions db @
        [\<lparr> dcn_id = db_next db, dcn_workflow = wf_id w, dcn_resume = res_id resume, dcn_run = run_id run,
           dcn_recommendation = rec, dcn_job = None, dcn_department = None, dcn_error = code,
           dcn_values = columns \<rparr>], db_next := db_next db + 1\<rparr>)"

definition matches_application :: "object \<Rightarrow> object \<Rightarrow> resume_row \<Rightarrow> object option" where
  "matches_application frozen result resume =
     (let d = obj (fld frozen ''preflight'') in
      case (string_values (fld d ''job_refs''), list_of (fld result ''matches'')) of
        ([ref], [match]) \<Rightarrow>
          if str (fld (obj match) ''job_ref'') = ref
            \<and> num (fld (obj (fld frozen ''volunteer_ids'')) (str (fld d ''current_volunteer_ref''))) = res_id resume
          then Some (obj match) else None
      | _ \<Rightarrow> None)"

definition clear_category :: "resume_row \<Rightarrow> db \<Rightarrow> go_error + db" where
  "clear_category resume db = andThen (save_row res_id (res_id resume)
     (\<lambda>r. r\<lparr>res_job := None, res_job_category := [], res_category_mode := [], res_category_reason := []\<rparr>)
     (db_resumes db)) (\<lambda>(_, rs). Inr (db\<lparr>db_resumes := rs\<rparr>))"

definition member_assessment :: "processing_env \<Rightarrow> object \<Rightarrow> object \<Rightarrow> object \<Rightarrow> object" where
  "member_assessment env frozen result match =
     (let d = obj (fld frozen ''preflight''); snapshot = obj (fld frozen ''snapshot'');
          policy = obj (fld snapshot ''pool_policy'');
          standard = policyItem policy ''standards'' (str (fld d ''standard_code''));
          pool = policyItem policy ''pools'' (str (fld d ''pool_code''));
          value = (\<lambda>m. case m of None \<Rightarrow> JNull | Some x \<Rightarrow> JObj x)
      in [(''admission_threshold'', fld (obj (fld frozen ''thresholds'')) ''dispatch''), (''standard'', value standard),
          (''pool'', value pool), (''requirement'', JObj (standardJob (pe_fingerprint env) policy (nil_map standard))),
          (''tag_catalog'', fld snapshot ''tag_catalog''),
          (''candidate'', JObj (candidateAssessmentInputs (obj (fld snapshot ''candidate'')))),
          (''score'', fld match ''score''), (''reason'', fld match ''reason''), (''evidence'', fld match ''evidence''),
          (''pin'', JObj (obj (fld result ''pin'')))])"

text \<open>The insertion of a member, under the unique index \<open>platform_pool_active_candidate\<close>.\<close>

definition insert_member :: "member_row \<Rightarrow> db \<Rightarrow> go_error + member_row \<times> db" where
  "insert_member m db =
     (let m = m\<lparr>mem_id := db_next db\<rparr> in
      if exists_where (\<lambda>q. mem_candidate q = mem_candidate m \<and> active_member_status (mem_status q)) (db_members db)
      then Inl (OtherError ''platform_pool_active_candidate'')
      else Inr (m, db\<lparr>db_members := db_members db @ [m], db_next := db_next db + 1\<rparr>))"

definition new_member ::
  "processing_env \<Rightarrow> instant \<Rightarrow> run_row \<Rightarrow> workflow_row \<Rightarrow> resume_row \<Rightarrow> item_row \<Rightarrow> object \<Rightarrow> object \<Rightarrow> object \<Rightarrow> int
    \<Rightarrow> member_row" where
  "new_member env now run w resume i frozen result match decision =
     (let d = obj (fld frozen ''preflight'') in
      \<lparr> mem_id = 0, mem_candidate = itm_candidate i, mem_workflow = wf_id w, mem_resume = res_id resume,
        mem_decision = decision, mem_run = run_id run, mem_standard = str (fld d ''standard_code''),
        mem_pool = str (fld d ''pool_code''), mem_status = PmPendingAllocation,
        mem_tags = list_of (fld (obj (fld result ''profile'')) ''tags''),
        mem_assessment = member_assessment env frozen result match,
        mem_checksum = str (fld (obj (fld result ''manifest'')) ''resume_checksum''), mem_revision = 1, mem_created = now \<rparr>)"

definition decision_payload :: "run_row \<Rightarrow> int \<Rightarrow> object" where
  "decision_payload run decision =
     [(''run_id'', JNum (of_int (run_id run))), (''decision_id'', JNum (of_int decision))]"

definition enter_pool ::
  "processing_env \<Rightarrow> instant \<Rightarrow> run_row \<Rightarrow> workflow_row \<Rightarrow> resume_row \<Rightarrow> item_row \<Rightarrow> object \<Rightarrow> object \<Rightarrow> object \<Rightarrow> int \<Rightarrow> db
    \<Rightarrow> go_error + db" where
  "enter_pool env now run w resume i frozen result match decision db =
     andThen (applicationState now (res_id resume) AppPendingAllocation (str (fld match ''reason''))
       (decision_payload run decision) db) (\<lambda>db.
     andThen (insert_member (new_member env now run w resume i frozen result match decision) db) (\<lambda>(m, db).
       let db = poolEvent (mem_id m) ''assessment_saved'' [(''status'', JStr ''pending_allocation''),
            (''tags'', JArr (mem_tags m)), (''decision_id'', JNum (of_int decision))] None db in
       andThen (fetch wf_id (wf_id w) (db_workflows db)) (\<lambda>_.
       andThen (saveScreeningQualification (pe_platform env) m True db) (\<lambda>(_, db). Inr db))))"

definition savePoolAssessment ::
  "processing_env \<Rightarrow> instant \<Rightarrow> run_row \<Rightarrow> workflow_row \<Rightarrow> resume_row \<Rightarrow> item_row \<Rightarrow> object \<Rightarrow> object \<Rightarrow> db
    \<Rightarrow> go_error + string \<times> db" where
  "savePoolAssessment env now run w resume i frozen result db =
     (case matches_application frozen result resume of
        None \<Rightarrow> Inl (TaskError ''agent_invalid_output'')
      | Some match \<Rightarrow>
          andThen (clear_category resume db) (\<lambda>db.
          let rec = recommendation match frozen;
              profile = persistProfile resume result db;
              decision = insert_decision run w resume rec [] (decision_values run result match (fst profile)) (snd profile);
              db = closePoolMemberships (wf_id w) None ''reassessed'' (snd decision)
          in if rec = ''archive''
             then andThen (applicationState now (res_id resume) AppAiRejected (str (fld match ''reason''))
                    (decision_payload run (fst decision)) db) (\<lambda>db. Inr (''ai_rejected'', db))
             else andThen (enter_pool env now run w resume i frozen result match (fst decision) db)
                    (\<lambda>db. Inr (''allocation_queued'', db))))"

subsection \<open>Failures, live configuration and the next volunteer\<close>

definition saveFailure :: "run_row \<Rightarrow> workflow_row \<Rightarrow> resume_row \<Rightarrow> string \<Rightarrow> db \<Rightarrow> db" where
  "saveFailure run w resume code db = snd (insert_decision run w resume [] code
     (put_all [(''error_message'', JStr code), (''summary'', JStr ''no recommendation''),
        (''risks'', JArr [JStr code]), (''risk_flags'', JArr [JStr code])] (auditValues run)) db)"

definition if_differs :: "json \<Rightarrow> json \<Rightarrow> go_error \<Rightarrow> (go_error + 'a) \<Rightarrow> go_error + 'a" where
  "if_differs a b e k = compare_values a b (\<lambda>same. if same then k else Inl e)"

definition validateLiveJobs :: "processing_env \<Rightarrow> object \<Rightarrow> db \<Rightarrow> go_error + unit" where
  "validateLiveJobs env frozen db =
     (let snapshot = obj (fld frozen ''snapshot''); policy = db_policy db; prior = obj (fld frozen ''preflight'');
          stale = TaskError ''ai_reference_invalidated'' in
      andThen (prepareSnapshot (put ''pool_policy'' (JObj policy) snapshot)) (\<lambda>current.
        if fld current ''status'' \<noteq> JStr ''ready'' then Inl stale
        else if_differs (fld current ''standard_code'') (fld prior ''standard_code'') stale (
             if_differs (fld current ''pool_code'') (fld prior ''pool_code'') stale (
             let standard = nil_map (policyItem policy ''standards'' (str (fld current ''standard_code'')))
             in case list_of (fld snapshot ''jobs'') of
                  [job] \<Rightarrow> if_differs (fld (standardJob (pe_fingerprint env) policy standard) ''content_hash'')
                      (fld (obj job) ''content_hash'') stale (Inr ())
                | _ \<Rightarrow> Inl stale))))"

definition reject_current :: "json \<Rightarrow> json \<Rightarrow> json" where
  "reject_current ref v = (case v of
       JObj m \<Rightarrow> if fld m ''ref'' = ref then JObj (put ''rejected'' (JBool True) m) else v
     | _ \<Rightarrow> v)"

text \<open>The frozen case of the next volunteer, before its preflight.\<close>

definition next_snapshot :: "object \<Rightarrow> int \<Rightarrow> object" where
  "next_snapshot frozen revision =
     (let snapshot = obj (fld frozen ''snapshot'');
          ref = fld (obj (fld frozen ''preflight'')) ''current_volunteer_ref'';
          w = put ''retry_volunteer_ref'' (JStr []) (put ''revision'' (JNum (of_int revision)) (obj (fld snapshot ''workflow'')))
      in put ''workflow'' (JObj w)
           (put ''volunteers'' (JArr (map (reject_current ref) (list_of (fld snapshot ''volunteers'')))) snapshot))"

definition next_case :: "processing_env \<Rightarrow> string \<Rightarrow> object \<Rightarrow> int \<Rightarrow> object \<Rightarrow> object" where
  "next_case env task frozen revision d =
     put ''task_id'' (JStr task) (configureAssessmentSnapshot (pe_fingerprint env)
       (put ''preflight'' (JObj d) (put ''continuation_revision'' (JNum (of_int revision))
         (put ''snapshot'' (JObj (next_snapshot frozen revision)) frozen))))"

definition next_item :: "object \<Rightarrow> int option \<Rightarrow> int \<Rightarrow> item_row \<Rightarrow> item_row" where
  "next_item frozen resume revision i = i\<lparr>itm_snapshot := frozen, itm_result := [], itm_resume := resume,
     itm_extraction := None, itm_prepare_revision := Some revision, itm_status := ItPending,
     itm_node := ''pending'', itm_reason := ''ai_next_volunteer'', itm_message := ''ai_next_volunteer''\<rparr>"

definition finish_volunteers :: "instant \<Rightarrow> workflow_row \<Rightarrow> item_row \<Rightarrow> db \<Rightarrow> go_error + db" where
  "finish_volunteers now w i db =
     andThen (talentPool now w db) (\<lambda>db.
     andThen (fetch wf_id (wf_id w) (db_workflows db)) (\<lambda>current.
       itemOutcome now i ItSuccess (if wf_status current = WfWaitingNext then ''waiting_next'' else ''talent_pool'') db))"

definition continueAfterAIRejection ::
  "processing_env \<Rightarrow> instant \<Rightarrow> string \<Rightarrow> workflow_row \<Rightarrow> item_row \<Rightarrow> object \<Rightarrow> db \<Rightarrow> go_error + db" where
  "continueAfterAIRejection env now task w i frozen db =
     (let revision = wf_revision w + 1 in
      andThen (prepareSnapshot (next_snapshot frozen revision)) (\<lambda>d.
        if str (fld d ''current_volunteer_ref'') = [] then finish_volunteers now w i db
        else let frozen = next_case env task frozen revision d;
                 resume = id_column (fld (obj (fld frozen ''volunteer_ids'')) (str (fld d ''current_volunteer_ref'')))
             in andThen (fetch_opt res_id resume (db_resumes db)) (\<lambda>r.
                andThen (touchWorkflow now w r db) (\<lambda>db.
                andThen (save_item (itm_id i) (next_item frozen resume revision) db) (\<lambda>(_, db). Inr db)))))"

end
