(* ===== verification/Pipeline.thy ===== *)
theory Pipeline
  imports Assessment
begin

text \<open>
  The pipeline of a run: processItem with its two transactions and the work between them
  (internal/platform/processing.go), the rounds of prepareItems and analyzeItems, and executeRun
  (runs.go). The clock is a function of the number of operations executed so far, which every function
  hands on; the source analyses up to 20 items at once, the rounds here take them one after another
  (the interleavings are the steps of RunSafety).
\<close>

subsection \<open>Claiming an item\<close>

definition item_lease :: int where
  "item_lease = 20 * second"

definition column_state :: "instant \<Rightarrow> int option \<Rightarrow> application_status \<Rightarrow> string \<Rightarrow> object \<Rightarrow> db \<Rightarrow> go_error + db" where
  "column_state now resume status reason payload db =
     (case resume of None \<Rightarrow> Inl not_found | Some r \<Rightarrow> applicationState now r status reason payload db)"

definition claim_workflow :: "instant \<Rightarrow> int \<Rightarrow> string \<Rightarrow> workflow_row \<Rightarrow> workflow_row" where
  "claim_workflow now i tok w = w\<lparr>wf_item := Some i, wf_token := Some tok, wf_expires := Some (now + item_lease)\<rparr>"

definition claim_item_row :: "instant \<Rightarrow> string \<Rightarrow> item_row \<Rightarrow> item_row" where
  "claim_item_row now tok i = i\<lparr>itm_status := ItProcessing, itm_node := ''extracting'', itm_token := Some tok,
     itm_attempts := itm_attempts i + 1, itm_started := Some now, itm_error_code := [], itm_error_message := []\<rparr>"

definition claim_open_item ::
  "instant \<Rightarrow> string \<Rightarrow> int \<Rightarrow> item_row \<Rightarrow> workflow_row \<Rightarrow> db \<Rightarrow> go_error + (item_row \<times> workflow_row) option \<times> db" where
  "claim_open_item now tok run i w db =
     andThen (column_state now (itm_resume i) AppAssessing ''assessing''
       [(''run_id'', JNum (of_int run)), (''scope_item_id'', JNum (of_int (itm_id i)))] db) (\<lambda>db.
     andThen (save_workflow (wf_id w) (claim_workflow now (itm_id i) tok) db) (\<lambda>(_, db).
     andThen (save_item (itm_id i) (claim_item_row now tok) db) (\<lambda>(r, db). Inr (Some (r, w), db))))"

text \<open>The first transaction of \<open>processItem\<close>: the claimed item and its workflow, or no more work.\<close>

definition claimItem ::
  "instant \<Rightarrow> string \<Rightarrow> run_row \<Rightarrow> int \<Rightarrow> db \<Rightarrow> go_error + (item_row \<times> workflow_row) option \<times> db" where
  "claimItem now tok run i db =
     andThen (live_run (run_id run) db) (\<lambda>_.
     andThen (fetch itm_id i (db_items db)) (\<lambda>item.
       if terminalItem (itm_status item) then Inr (None, db)
       else andThen (lockWorkflow (itm_candidate item) db) (\<lambda>(w, db).
         if revisionChanged item w
         then andThen (itemOutcome now item ItSkipped ''workflow_changed_after_submit'' db) (\<lambda>db. Inr (None, db))
         else andThen (retainApplicationWork (run_scope run) w db) (\<lambda>(keep, db).
           case keep of
             Some code \<Rightarrow> andThen (itemOutcome now item ItSuccess code db) (\<lambda>db. Inr (None, db))
           | None \<Rightarrow>
               if claimed_now now w
               then andThen (save_item i (\<lambda>r. r\<lparr>itm_status := ItWaitingConflict\<rparr>) db) (\<lambda>(_, db). Inr (None, db))
               else claim_open_item now tok (run_id run) item w db))))"

text \<open>The renewal of a claim, every two seconds; false cancels the work.\<close>

definition renewClaim :: "instant \<Rightarrow> int \<Rightarrow> string \<Rightarrow> workflow_row \<Rightarrow> db \<Rightarrow> bool \<times> db" where
  "renewClaim now i tok w db =
     (let held = (\<lambda>r. wf_id r = wf_id w \<and> wf_item r = Some i \<and> wf_token r = Some tok \<and> wf_revision r = wf_revision w)
      in (exists_where held (db_workflows db),
          db\<lparr>db_workflows := update_where held (\<lambda>r. r\<lparr>wf_expires := Some (now + item_lease)\<rparr>) (db_workflows db)\<rparr>))"

subsection \<open>The work between the transactions\<close>

text \<open>What the extraction gives: the artifact with its checksum, the stored text and its status.\<close>

record material =
  mat_artifact :: object
  mat_extraction :: int
  mat_ready :: bool

type_synonym extractor = "item_row \<Rightarrow> object \<Rightarrow> go_error + material"
type_synonym analyser = "item_row \<Rightarrow> object \<Rightarrow> material \<Rightarrow> go_error + object"

definition is_current :: "object \<Rightarrow> json \<Rightarrow> bool" where
  "is_current d v \<longleftrightarrow> fld (obj v) ''ref'' = fld d ''current_volunteer_ref''"

text \<open>The loop keeps the last volunteer with the current reference, whose artifact is then replaced.\<close>

definition case_volunteer :: "object \<Rightarrow> object" where
  "case_volunteer frozen = nil_map (map_option obj (last_where (is_current (obj (fld frozen ''preflight'')))
     (list_of (fld (obj (fld frozen ''snapshot'')) ''volunteers''))))"

definition with_artifact :: "object \<Rightarrow> object \<Rightarrow> object" where
  "with_artifact artifact frozen =
     (let snapshot = obj (fld frozen ''snapshot''); d = obj (fld frozen ''preflight'') in
      put ''snapshot'' (JObj (put ''volunteers'' (JArr (rev (update_first (is_current d)
        (\<lambda>v. JObj (put ''artifact'' (JObj artifact) (obj v))) (rev (list_of (fld snapshot ''volunteers''))))))
        snapshot)) frozen)"

text \<open>The statements of the work on the item: an error of the pool is the error of the work.\<close>

definition set_item :: "int \<Rightarrow> (item_row \<Rightarrow> item_row) \<Rightarrow> db \<Rightarrow> db" where
  "set_item i f db = db\<lparr>db_items := update_where (\<lambda>r. itm_id r = i) f (db_items db)\<rparr>"

definition assess_item :: "extractor \<Rightarrow> analyser \<Rightarrow> item_row \<Rightarrow> db \<Rightarrow> (go_error + object) \<times> object \<times> db" where
  "assess_item extract analyse i db =
     (let frozen = itm_snapshot i in
      if str (fld (obj (fld frozen ''preflight'')) ''status'') \<noteq> ''ready''
      then (Inl (TaskError ''agent_snapshot_unavailable''), frozen, db)
      else case extract i (case_volunteer frozen) of
        Inl e \<Rightarrow> (Inl e, frozen, db)
      | Inr m \<Rightarrow>
          let db = set_item (itm_id i) (\<lambda>r. r\<lparr>itm_extraction := Some (mat_extraction m), itm_node := ''validating_text''\<rparr>) db;
              frozen = with_artifact (mat_artifact m) frozen;
              db = set_item (itm_id i) (\<lambda>r. r\<lparr>itm_snapshot := frozen\<rparr>) db
          in if \<not> mat_ready m then (Inl (TaskError ''resume_text_needs_attention''), frozen, db)
             else (analyse i frozen m, frozen, set_item (itm_id i) (\<lambda>r. r\<lparr>itm_node := ''analyzing''\<rparr>) db))"

subsection \<open>Storing the outcome\<close>

definition holds_claim :: "int \<Rightarrow> string \<Rightarrow> workflow_row \<Rightarrow> workflow_row \<Rightarrow> bool" where
  "holds_claim i tok w current \<longleftrightarrow>
     wf_token current = Some tok \<and> wf_item current = Some i \<and> wf_revision current = wf_revision w"

definition release_claim :: "workflow_row \<Rightarrow> workflow_row" where
  "release_claim w = w\<lparr>wf_item := None, wf_token := None, wf_expires := None\<rparr>"

definition store_failure ::
  "instant \<Rightarrow> run_row \<Rightarrow> workflow_row \<Rightarrow> resume_row option \<Rightarrow> item_row \<Rightarrow> go_error \<Rightarrow> db \<Rightarrow> go_error + db" where
  "store_failure now run w resume i cause db =
     (let code = failure_code cause in
      andThen (case resume of None \<Rightarrow> Inr db
          | Some r \<Rightarrow> block_resume now (run_id run) code (res_id r) (saveFailure run w r code db)) (\<lambda>db.
      andThen (save_workflow (wf_id w) (\<lambda>r. r\<lparr>wf_block_reason := code, wf_block_detail := code,
          wf_revision := wf_revision w + 1\<rparr>) db) (\<lambda>(_, db).
        itemOutcome now i (if code = ''llm_timeout'' \<or> code = ''processing_error'' then ItFailed else ItNeedsAttention)
          code db)))"

definition store_analysis ::
  "processing_env \<Rightarrow> instant \<Rightarrow> string \<Rightarrow> run_row \<Rightarrow> workflow_row \<Rightarrow> resume_row \<Rightarrow> item_row \<Rightarrow> object \<Rightarrow> object \<Rightarrow> db
    \<Rightarrow> go_error + db" where
  "store_analysis env now task run w resume i frozen result db =
     andThen (savePoolAssessment env now run w resume i frozen result db) (\<lambda>(code, db).
     andThen (save_item (itm_id i) (\<lambda>r. r\<lparr>itm_result := result\<rparr>) db) (\<lambda>(_, db).
     andThen (save_workflow (wf_id w) (\<lambda>r. r\<lparr>wf_revision := wf_revision w + 1\<rparr>) db) (\<lambda>(_, db).
       if code = ''ai_rejected'' then continueAfterAIRejection env now task w i frozen db
       else itemOutcome now i ItSuccess code db)))"

definition cancel_item :: "instant \<Rightarrow> int \<Rightarrow> item_row \<Rightarrow> db \<Rightarrow> go_error + db" where
  "cancel_item now run i db =
     andThen (itemOutcome now i ItCancelled ''cancelled'' db) (\<lambda>db.
       column_state now (itm_resume i) AppBlocked ''cancelled'' [(''run_id'', JNum (of_int run))] db)"

text \<open>The outcome of an item whose claim still holds: the resume may be gone, the configuration may
  have changed, and both turn the result of the work into a failure.\<close>

definition store_outcome ::
  "processing_env \<Rightarrow> instant \<Rightarrow> string \<Rightarrow> run_row \<Rightarrow> workflow_row \<Rightarrow> item_row \<Rightarrow> object \<Rightarrow> go_error + object \<Rightarrow> db
    \<Rightarrow> go_error + db" where
  "store_outcome env now task run w i frozen work db =
     andThen (save_item (itm_id i) (\<lambda>r. r\<lparr>itm_node := ''saving''\<rparr>) db) (\<lambda>(_, db).
     let resume = (case fetch_opt res_id (itm_resume i) (db_resumes db) of Inl _ \<Rightarrow> None | Inr r \<Rightarrow> Some r);
         work = (if resume = None then Inl (TaskError ''pdf_missing'') else work);
         work = andThen work (\<lambda>result. andThen (validateLiveJobs env frozen db) (\<lambda>_. Inr result))
     in andThen (case resume of None \<Rightarrow> Inr db
          | Some r \<Rightarrow> andThen (cancelOpenAttempts now w ''rerun'' [FromAi, FromRule] db) (touchWorkflow now w r)) (\<lambda>db.
        case (work, resume) of
          (Inr result, Some r) \<Rightarrow> store_analysis env now task run w r i frozen result db
        | (Inl e, _) \<Rightarrow> store_failure now run w resume i e db
        | _ \<Rightarrow> store_failure now run w resume i (TaskError ''pdf_missing'') db))"

definition finishItem ::
  "processing_env \<Rightarrow> instant \<Rightarrow> string \<Rightarrow> string \<Rightarrow> run_row \<Rightarrow> item_row \<Rightarrow> workflow_row \<Rightarrow> object \<Rightarrow> go_error + object \<Rightarrow> db
    \<Rightarrow> go_error + db" where
  "finishItem env now tok task run i w frozen work db =
     andThen (fetch run_id (run_id run) (db_runs db)) (\<lambda>live.
     andThen (fetch itm_id (itm_id i) (db_items db)) (\<lambda>item.
     andThen (lockWorkflow (itm_candidate item) db) (\<lambda>(current, locked).
       if terminalItem (itm_status item) then Inr db
       else if \<not> holds_claim (itm_id i) tok w current
       then itemOutcome now item ItSkipped ''workflow_changed_during_ai'' locked
       else andThen (save_workflow (wf_id w) release_claim locked) (\<lambda>(_, db).
         if run_cancel_requested live \<noteq> None then cancel_item now (run_id run) item db
         else if work = Inl Canceled then Inl Canceled
         else store_outcome env now task live current item frozen work db))))"

subsection \<open>Rounds over the items\<close>

text \<open>The world outside: the clock, the tokens and the answers for the \<open>n\<close>-th operation.\<close>

record world =
  wo_clock :: "nat \<Rightarrow> instant"
  wo_token :: "nat \<Rightarrow> string"
  wo_extract :: extractor
  wo_analyse :: analyser
  wo_stopped :: "nat \<Rightarrow> go_error option"
  wo_runtime :: "go_error + object \<times> object"
  wo_fresh :: "int \<Rightarrow> string \<times> string"

definition processItem ::
  "processing_env \<Rightarrow> world \<Rightarrow> nat \<Rightarrow> run_row \<Rightarrow> int \<Rightarrow> db \<Rightarrow> (go_error + unit) \<times> db" where
  "processItem env wo n run i db =
     (case claimItem (wo_clock wo n) (wo_token wo n) run i db of
        Inl e \<Rightarrow> (Inl e, db)
      | Inr (None, db) \<Rightarrow> (Inr (), db)
      | Inr (Some (item, w), db) \<Rightarrow>
          (let (work, frozen, db) = assess_item (wo_extract wo) (wo_analyse wo) item db in
           case wo_stopped wo (n + 1) of Some e \<Rightarrow> (Inl e, db)
           | None \<Rightarrow> (case finishItem env (wo_clock wo (n + 1)) (wo_token wo n) (wo_token wo n @ ''-next'') run item w frozen work db of
                Inl e \<Rightarrow> (Inl e, db)
              | Inr db \<Rightarrow> (Inr (), db))))"

definition open_items :: "int \<Rightarrow> db \<Rightarrow> item_row list" where
  "open_items run db = filter (\<lambda>i. itm_status i \<in> {ItPending, ItProcessing, ItWaitingConflict}) (run_items run db)"

text \<open>A round processes every item, with two operations each; the first error is returned after the
  round.\<close>

fun process_round ::
  "processing_env \<Rightarrow> world \<Rightarrow> nat \<Rightarrow> run_row \<Rightarrow> item_row list \<Rightarrow> (go_error + unit) \<times> db \<Rightarrow> (go_error + unit) \<times> db" where
  "process_round env wo n run [] (r, db) = (r, db)"
| "process_round env wo n run (i # items) (r, db) =
     (let (s, db) = processItem env wo n run (itm_id i) db
      in process_round env wo (n + 2) run items (case r of Inl e \<Rightarrow> Inl e | Inr _ \<Rightarrow> s, db))"

text \<open>A part of \<open>executeRun\<close>: what it stored so far stays when it fails, and the number of operations
  executed is handed on; \<open>None\<close> means out of fuel.\<close>

type_synonym outcome = "((go_error + unit) \<times> nat \<times> db) option"

definition followed_by :: "outcome \<Rightarrow> (nat \<Rightarrow> db \<Rightarrow> outcome) \<Rightarrow> outcome" where
  "followed_by r k = (case r of None \<Rightarrow> None | Some (Inl e, s) \<Rightarrow> Some (Inl e, s) | Some (Inr _, n, db) \<Rightarrow> k n db)"

definition stored :: "world \<Rightarrow> (instant \<Rightarrow> db \<Rightarrow> go_error + db) \<Rightarrow> nat \<Rightarrow> db \<Rightarrow> outcome" where
  "stored wo f n db = (case f (wo_clock wo n) db of Inl e \<Rightarrow> Some (Inl e, n + 1, db) | Inr db \<Rightarrow> Some (Inr (), n + 1, db))"

fun analyzeItems :: "nat \<Rightarrow> processing_env \<Rightarrow> world \<Rightarrow> nat \<Rightarrow> run_row \<Rightarrow> db \<Rightarrow> outcome" where
  "analyzeItems 0 env wo n run db = None"
| "analyzeItems (Suc fuel) env wo n run db =
     (case wo_stopped wo n of Some e \<Rightarrow> Some (Inl e, n, db)
      | None \<Rightarrow> let items = open_items (run_id run) db; m = n + 1 + 2 * length items in
          if items = [] then Some (Inr (), n, db)
          else (case process_round env wo (n + 1) run items (Inr (), db) of
              (Inl e, db) \<Rightarrow> Some (Inl e, m, db)
            | (Inr _, db) \<Rightarrow> followed_by (stored wo (\<lambda>now. summarizeRun now (run_id run) False) m db)
                (\<lambda>n db. analyzeItems fuel env wo n run db)))"

fun prepare_until :: "nat \<Rightarrow> world \<Rightarrow> nat \<Rightarrow> run_row \<Rightarrow> int \<Rightarrow> string \<Rightarrow> db \<Rightarrow> outcome" where
  "prepare_until 0 wo n run i step db = None"
| "prepare_until (Suc fuel) wo n run i step db =
     (case wo_stopped wo n of Some e \<Rightarrow> Some (Inl e, n, db)
      | None \<Rightarrow> (case prepareItem (wo_clock wo n) run i step db of
            Inl e \<Rightarrow> Some (Inl e, n + 1, db)
          | Inr (True, db) \<Rightarrow> prepare_until fuel wo (n + 1) run i step db
          | Inr (False, db) \<Rightarrow> Some (Inr (), n + 1, db)))"

fun prepare_rounds :: "nat \<Rightarrow> world \<Rightarrow> run_row \<Rightarrow> string \<Rightarrow> item_row list \<Rightarrow> nat \<Rightarrow> db \<Rightarrow> outcome" where
  "prepare_rounds fuel wo run step [] n db = Some (Inr (), n, db)"
| "prepare_rounds fuel wo run step (i # items) n db =
     followed_by (prepare_until fuel wo n run (itm_id i) step db) (prepare_rounds fuel wo run step items)"

definition prepareItems :: "nat \<Rightarrow> world \<Rightarrow> nat \<Rightarrow> run_row \<Rightarrow> string \<Rightarrow> db \<Rightarrow> outcome" where
  "prepareItems fuel wo n run step db =
     followed_by (prepare_rounds fuel wo run step (run_items (run_id run) db) n db)
       (stored wo (\<lambda>now. summarizeRun now (run_id run) False))"

subsection \<open>A run from its job to the summary\<close>

definition run_pin_of :: "run_row \<Rightarrow> object" where
  "run_pin_of r =
     (let v = run_pin r in
      brief v [''kernel_build'', ''protocol_version'', ''toolset_version'', ''result_schema_version'',
        ''policy_version''] @ [(''instruction_version'', fld v ''prompt_version'')] @
      brief v [''model_config_revision'', ''pin_id''])"

definition concurrency_limit :: "processing_env \<Rightarrow> int" where
  "concurrency_limit env = max 1 (min 20 (num (configValue (pe_config env) ''ai_concurrency_limit'' (JNum 8))))"

definition initialized_run :: "processing_env \<Rightarrow> object \<Rightarrow> object \<Rightarrow> object \<Rightarrow> run_row \<Rightarrow> run_row" where
  "initialized_run env params pin model r = r\<lparr>run_params := params,
     run_pin := put_all (filter (\<lambda>(_, v). v \<noteq> JNull) (brief pin [''kernel_build'', ''protocol_version'',
         ''toolset_version'', ''result_schema_version'', ''policy_version'', ''model_config_revision'', ''pin_id''])
       @ [(''model_name'', JStr (str (fld model ''model_name''))),
          (''prompt_version'', JStr (str (fld pin ''instruction_version''))),
          (''decision_version'', JStr ''application-pool-policy/v1'')]) (run_pin r),
     run_limit := Some (concurrency_limit env)\<rparr>"

definition save_run :: "int \<Rightarrow> (run_row \<Rightarrow> run_row) \<Rightarrow> db \<Rightarrow> go_error + db" where
  "save_run run f db = andThen (save_row run_id run f (db_runs db)) (\<lambda>(_, runs). Inr (db\<lparr>db_runs := runs\<rparr>))"

definition initialize_run ::
  "processing_env \<Rightarrow> world \<Rightarrow> nat \<Rightarrow> run_row \<Rightarrow> db \<Rightarrow> ((go_error + object) \<times> nat \<times> db)" where
  "initialize_run env wo n run db =
     (let params = put ''runtime_initialization'' (JStr ''ready'') (run_params run) in
      if fld (run_params run) ''runtime_initialization'' \<noteq> JStr ''pending'' then (Inr (run_pin_of run), n, db)
      else case beginStage (wo_clock wo n) (run_id run) ''initialize'' db of
        Inl e \<Rightarrow> (Inl e, n + 1, db)
      | Inr db \<Rightarrow>
          (case (if contains (stageSteps (run_step run)) ''step4'' then wo_runtime wo else Inr (run_pin_of run, [])) of
             Inl e \<Rightarrow> (Inl e, n + 1, db)
           | Inr (pin, model) \<Rightarrow>
               (case save_run (run_id run) (initialized_run env params pin model) db of
                  Inl e \<Rightarrow> (Inl e, n + 2, db) | Inr db \<Rightarrow> (Inr pin, n + 2, db))))"

definition ready_params :: "object \<Rightarrow> run_row \<Rightarrow> run_row" where
  "ready_params params r = r\<lparr>run_params := put ''snapshot_preparation'' (JStr ''ready'') params\<rparr>"

definition finish_at :: "world \<Rightarrow> int \<Rightarrow> string \<Rightarrow> nat \<Rightarrow> db \<Rightarrow> outcome" where
  "finish_at wo run step = stored wo (\<lambda>now db. Inr (finishStage now run step db))"

definition prepare_stage ::
  "processing_env \<Rightarrow> world \<Rightarrow> run_row \<Rightarrow> object \<Rightarrow> nat \<Rightarrow> db \<Rightarrow> outcome" where
  "prepare_stage env wo run pin n db =
     (if fld (run_params run) ''snapshot_preparation'' = JStr ''ready'' then Some (Inr (), n, db)
      else followed_by (if run_step run = ''step1'' then Some (Inr (), n, db)
             else stored wo (\<lambda>now. beginStage now (run_id run) ''preparing'') n db) (\<lambda>n db.
           followed_by (let (r, db) = prepareRunSnapshots env (\<lambda>i. wo_stopped wo n) (wo_fresh wo) run pin db
             in Some (r, n + 1, db)) (\<lambda>n db.
           followed_by (stored wo (\<lambda>now. save_run (run_id run) (ready_params (run_params run))) n db) (\<lambda>n db.
             if run_step run = ''step1'' then Some (Inr (), n, db)
             else finish_at wo (run_id run) ''preparing'' n db))))"

definition stage_of :: "int \<Rightarrow> string \<Rightarrow> db \<Rightarrow> stage_row option" where
  "stage_of run step db = first_where (\<lambda>s. stg_run s = run \<and> stg_step s = step) (db_stages db)"

definition run_stage_step ::
  "nat \<Rightarrow> processing_env \<Rightarrow> world \<Rightarrow> run_row \<Rightarrow> string \<Rightarrow> nat \<Rightarrow> db \<Rightarrow> outcome" where
  "run_stage_step fuel env wo run step n db =
     (case stage_of (run_id run) step db of
        None \<Rightarrow> Some (Inl not_found, n, db)
      | Some s \<Rightarrow>
          if stg_status s = SgSuccess then Some (Inr (), n, db)
          else followed_by (stored wo (\<lambda>now. beginStage now (run_id run) step) n db) (\<lambda>n db.
               followed_by (if step = ''step4'' then analyzeItems fuel env wo n run db
                   else prepareItems fuel wo n run step db)
                 (finish_at wo (run_id run) step)))"

fun run_steps ::
  "nat \<Rightarrow> processing_env \<Rightarrow> world \<Rightarrow> run_row \<Rightarrow> string list \<Rightarrow> nat \<Rightarrow> db \<Rightarrow> outcome" where
  "run_steps fuel env wo run [] n db = Some (Inr (), n, db)"
| "run_steps fuel env wo run (step # steps) n db =
     followed_by (run_stage_step fuel env wo run step n db) (run_steps fuel env wo run steps)"

definition finalize_run :: "world \<Rightarrow> int \<Rightarrow> nat \<Rightarrow> db \<Rightarrow> outcome" where
  "finalize_run wo run n db =
     followed_by (stored wo (\<lambda>now. beginStage now run ''finalize'') n db) (\<lambda>n db.
     followed_by (stored wo (\<lambda>now. summarizeRun now run True) n db) (finish_at wo run ''finalize''))"

text \<open>\<open>executeRun\<close> on a run that is active and not cancelled.\<close>

definition execute_live :: "nat \<Rightarrow> processing_env \<Rightarrow> world \<Rightarrow> int \<Rightarrow> run_row \<Rightarrow> db \<Rightarrow> outcome" where
  "execute_live fuel env wo i run db =
     followed_by (finish_at wo i ''queued'' 0 db) (\<lambda>n db.
       case initialize_run env wo n run db of
         (Inl e, s) \<Rightarrow> Some (Inl e, s)
       | (Inr pin, n, db) \<Rightarrow>
           (case fetch run_id i (db_runs db) of
              Inl e \<Rightarrow> Some (Inl e, n, db)
            | Inr run \<Rightarrow>
                followed_by (finish_at wo i ''initialize'' n db) (\<lambda>n db.
                followed_by (prepare_stage env wo run pin n db) (\<lambda>n db.
                followed_by (run_steps fuel env wo run (stageSteps (run_step run)) n db) (finalize_run wo i)))))"

definition executeRun :: "nat \<Rightarrow> processing_env \<Rightarrow> world \<Rightarrow> int \<Rightarrow> db \<Rightarrow> ((go_error + unit) \<times> db) option" where
  "executeRun fuel env wo i db =
     (case fetch run_id i (db_runs db) of
        Inl e \<Rightarrow> Some (Inl e, db)
      | Inr run \<Rightarrow>
          if \<not> activeRun (run_status run) then Some (Inr (), db)
          else if run_cancel_requested run \<noteq> None then Some (Inl (TaskError ''agent_cancelled''), db)
          else map_option (\<lambda>(r, n, db). (r, db)) (execute_live fuel env wo i run db))"

end
