(* ===== verification/Filters.thy ===== *)
theory Filters
  imports Runs
begin

text \<open>
  Reading list requests: the query values of http.go, the validation of candidate filters
  (filters.go), and the pages of pagination.go. A query (\<open>url.Values\<close>) is a list of keys with their
  values; encoding it and parsing it again changes nothing but the order of the keys.
\<close>

subsection \<open>Queries\<close>

type_synonym query = "(string \<times> string list) list"

definition q_all :: "query \<Rightarrow> string \<Rightarrow> string list" where
  "q_all q key = (case map_of q key of None \<Rightarrow> [] | Some vs \<Rightarrow> vs)"

definition q_get :: "query \<Rightarrow> string \<Rightarrow> string" where
  "q_get q key = (case q_all q key of [] \<Rightarrow> [] | v # _ \<Rightarrow> v)"

definition q_set :: "string \<Rightarrow> string \<Rightarrow> query \<Rightarrow> query" where
  "q_set key v q = (key, [v]) # filter (\<lambda>(k, _). k \<noteq> key) q"

definition comma_values :: "string \<Rightarrow> string list" where
  "comma_values v = filter (\<lambda>s. s \<noteq> []) (map trim_space (split_at (CHR '','') v))"

definition queryValues :: "query \<Rightarrow> string \<Rightarrow> string list" where
  "queryValues q key = concat (map comma_values (q_all q key))"

lemma q_all_set [simp]: "q_all (q_set key v q) k = (if k = key then [v] else q_all q k)"
proof -
  have "map_of (filter (\<lambda>(k, _). k \<noteq> key) q) k = (if k = key then None else map_of q k)"
    by (induction q) auto
  then show ?thesis by (simp add: q_all_def q_set_def)
qed

subsection \<open>Bulk filters\<close>

definition bulkCandidateFilters :: "string list" where
  "bulkCandidateFilters = [''system_status'', ''system_statuses'', ''pool_status'', ''current_entity_in'',
     ''current_position_name_in'', ''job_department_name_in'', ''current_job_category_in'', ''school_tag_in'',
     ''allocation_source'', ''reason_code'']"

definition is_text :: "json \<Rightarrow> bool" where
  "is_text v = (case v of JStr _ \<Rightarrow> True | _ \<Rightarrow> False)"

definition bulk_filter :: "string \<times> json \<Rightarrow> bool \<Rightarrow> go_error + bool" where
  "bulk_filter entry nonempty =
     (if \<not> contains bulkCandidateFilters (fst entry) then Inl (bad ''unsupported bulk filter'')
      else case snd entry of
          JNull \<Rightarrow> Inr nonempty
        | JStr v \<Rightarrow> Inr (nonempty \<or> \<not> blank v)
        | JArr vs \<Rightarrow> if list_all is_text vs then Inr (nonempty \<or> list_ex (\<lambda>v. \<not> blank (str v)) vs)
                     else Inl (bad ''a list of texts is required'')
        | _ \<Rightarrow> Inl (bad ''a text or a list of texts is required''))"

definition validateBulkFilters :: "object \<Rightarrow> go_error + unit" where
  "validateBulkFilters filters =
     andThen (foldE bulk_filter filters False) (\<lambda>nonempty.
       ensure nonempty (bad ''at least one filter is required''))"

subsection \<open>Candidate filters\<close>

definition department_only_filters :: "query \<Rightarrow> principal \<Rightarrow> bool" where
  "department_only_filters q p \<longleftrightarrow> has p ''resume.view'' \<or>
     \<not> list_ex (\<lambda>(key, _). contains [''processing_run_id'', ''processing_result'', ''workflow_status'',
        ''reason_code'', ''pool_status''] key \<or> has_prefix key ''analytics_'') q"

text \<open>The old status of pending review stands for two of today's.\<close>

definition expand_status :: "string \<Rightarrow> string list" where
  "expand_status s = (if s = ''pending_review'' then [''raw'', ''pending_allocation''] else [s])"

definition expand_statuses :: "string \<Rightarrow> query \<Rightarrow> go_error + query" where
  "expand_statuses key q =
     (let vs = concat (map expand_status (queryValues q key)) in
      if \<not> list_all (contains system_status_names) vs then Inl (bad ''unsupported status'')
      else Inr (if vs = [] then q else q_set key (join_with '','' vs) q))"

definition positive_texts :: "query \<Rightarrow> string \<Rightarrow> unit \<Rightarrow> go_error + unit" where
  "positive_texts q key u = ensure (list_all (\<lambda>v. case parse_int_syntax v of
       None \<Rightarrow> False | Some n \<Rightarrow> 0 < n \<and> n \<le> int64_max) (queryValues q key)) (bad ''a positive integer is required'')"

definition date_text :: "query \<Rightarrow> string \<Rightarrow> unit \<Rightarrow> go_error + unit" where
  "date_text q key u = ensure (q_get q key = [] \<or> parse_date (q_get q key) \<noteq> None) (bad ''a date is required'')"

definition processing_results :: "string list" where
  "processing_results = [''success'', ''completed'', ''needs_attention'', ''failed'', ''review'', ''dispatch'',
     ''archive'', ''skipped'', ''cancelled'']"

definition date_keys :: "string list" where
  "date_keys = [''current_apply_date_from'', ''current_apply_date_to'', ''imported_after'', ''imported_before'']"

definition dates_ordered :: "query \<Rightarrow> bool" where
  "dates_ordered q \<longleftrightarrow> q_get q ''current_apply_date_from'' = [] \<or> q_get q ''current_apply_date_to'' = []
     \<or> q_get q ''current_apply_date_from'' \<le> q_get q ''current_apply_date_to''"

text \<open>The result is the query that the request goes on with, the statuses expanded.\<close>

definition validateCandidateFilters :: "query \<Rightarrow> principal \<Rightarrow> go_error + query" where
  "validateCandidateFilters q p =
     (if \<not> department_only_filters q p then Inl (bad ''filter not available to departments'')
      else if \<not> list_all (contains [''admitted'', ''none'', ''pending_allocation'', ''allocated'', ''needs_reanalysis''])
             (queryValues q ''pool_status'')
      then Inl (bad ''unsupported pool status'')
      else andThen (andThen (expand_statuses ''system_status'' q) (expand_statuses ''system_statuses'')) (\<lambda>q.
           andThen (foldE (positive_texts q) [''current_department_id'', ''current_primary_department_id''] ()) (\<lambda>_.
           if q_get q ''processing_run_id'' \<noteq> [] \<and> q_get q ''processing_result'' \<noteq> []
             \<and> \<not> contains processing_results (q_get q ''processing_result'')
           then Inl (bad ''unsupported processing result'')
           else andThen (foldE (date_text q) date_keys ()) (\<lambda>_.
             if dates_ordered q then Inr q else Inl (bad ''dates out of order'')))))"

text \<open>\<open>validateSavedCandidateFilters\<close> (schedules.go): the filters of a schedule, as a query.\<close>

definition saved_filter_keys :: "string list" where
  "saved_filter_keys = [''name'', ''search'', ''phone'', ''highest_major'', ''highest_major_in'', ''highest_degree'',
     ''current_apply_id'', ''current_entity_in'', ''current_position_name_in'', ''job_department_name_in'',
     ''current_primary_department_id'', ''current_department_id'', ''current_job_category_in'', ''school_tag_in'',
     ''school_tag'', ''current_apply_date_from'', ''current_apply_date_to'', ''imported_after'', ''imported_before'',
     ''allocation_source'', ''reason_code'', ''reason_type'', ''feedback_reason_code'', ''workflow_status'',
     ''processing_run_id'', ''processing_result'', ''ordering'']"

definition saved_filter :: "string \<times> json \<Rightarrow> query \<Rightarrow> go_error + query" where
  "saved_filter entry q =
     (let (key, value) = entry in
      if blank (str value) then Inr q
      else if \<not> contains saved_filter_keys key \<and> \<not> has_prefix key ''analytics_''
      then Inl (bad ''unsupported saved filter'')
      else case value of
          JStr v \<Rightarrow> Inr (q_set key v q)
        | JNum n \<Rightarrow> Inr (q_set key (str value) q)
        | JArr vs \<Rightarrow> if list_all is_text vs then Inr (q_set key (join_with '','' (map str vs)) q)
                     else Inl (bad ''a list of texts is required'')
        | _ \<Rightarrow> Inl (bad ''unsupported filter type''))"

definition saved_viewer :: principal where
  "saved_viewer = \<lparr> pri_user = 0, pri_name = [], pri_superuser = False, pri_permissions = [''resume.view''],
     pri_roles = [], pri_contact = None, pri_grants = None, pri_global = None, pri_level = [] \<rparr>"

definition validateSavedCandidateFilters :: "object \<Rightarrow> go_error + unit" where
  "validateSavedCandidateFilters filters =
     andThen (foldE saved_filter filters []) (\<lambda>q.
     andThen (validateCandidateFilters q saved_viewer) (\<lambda>_. Inr ()))"

subsection \<open>Pages\<close>

text \<open>\<open>strconv.Atoi\<close> on 64 bits.\<close>

definition atoi :: "string \<Rightarrow> int option" where
  "atoi s = (case parse_int_syntax s of None \<Rightarrow> None
     | Some n \<Rightarrow> if int64_min \<le> n \<and> n \<le> int64_max then Some n else None)"

definition page_count :: "int \<Rightarrow> int \<Rightarrow> int" where
  "page_count amount per = (amount + per - 1) div per"

definition page_size_of :: "query \<Rightarrow> int" where
  "page_size_of q = (let per = parse_int (q_get q ''page_size'') in min (if per \<le> 0 then 20 else per) 500)"

definition pageBounds :: "query \<Rightarrow> nat \<Rightarrow> go_error + int \<times> int" where
  "pageBounds q amount =
     (let per = page_size_of q; pages = page_count (int amount) per; raw = q_get q ''page'';
          page = (if raw = [] then Some 1 else if raw = ''last'' then Some (max 1 pages) else atoi raw)
      in case page of
           None \<Rightarrow> Inl (ApiError 404 ''invalid page'')
         | Some n \<Rightarrow> if n < 1 \<or> (1 < n \<and> pages < n) then Inl (ApiError 404 ''invalid page'') else Inr (n, per))"

record 'a page =
  pg_count :: nat
  pg_next :: "int option"
  pg_previous :: "int option"
  pg_results :: "'a list"

definition pageResponse :: "'a list \<Rightarrow> nat \<Rightarrow> int \<Rightarrow> int \<Rightarrow> 'a page" where
  "pageResponse results amount page per =
     \<lparr> pg_count = amount, pg_next = (if page * per < int amount then Some (page + 1) else None),
       pg_previous = (if 1 < page then Some (page - 1) else None), pg_results = results \<rparr>"

definition page_slice :: "int \<Rightarrow> int \<Rightarrow> 'a list \<Rightarrow> 'a list" where
  "page_slice page per rows =
     (let start = min ((page - 1) * per) (int (length rows));
          finish = min (start + per) (int (length rows))
      in take (nat (finish - start)) (drop (nat start) rows))"

definition paginate :: "query \<Rightarrow> 'a list \<Rightarrow> go_error + 'a page" where
  "paginate q rows = andThen (pageBounds q (length rows)) (\<lambda>(page, per).
     Inr (pageResponse (page_slice page per rows) (length rows) page per))"

end
