(* ===== verification/Schedules.thy ===== *)
theory Schedules
  imports Filters Access
begin

text \<open>
  Scheduled runs (internal/platform/schedules.go): the validation of a schedule, the next time after
  a trigger, the operations of the API (create, pause, resume, cancel) and the trigger itself, which
  creates the run and advances the schedule in one transaction. The principal of the creator is
  reconstructed at every trigger (a parameter over the account tables).
\<close>

subsection \<open>Validation\<close>

definition schedule_repeat :: "string \<Rightarrow> repeat_kind option" where
  "schedule_repeat s = (if s = ''once'' then Some Once else if s = ''daily'' then Some Daily
     else if s = ''weekly'' then Some Weekly else None)"

text \<open>A time with a zone has a four-digit year, so the check of the year never refuses one.\<close>

definition schedule_time :: "instant \<Rightarrow> string \<Rightarrow> go_error + instant" where
  "schedule_time now s = (case parse_rfc3339 s of
       Some t \<Rightarrow> if now < t then Inr t else Inl (bad ''a future time is required'')
     | None \<Rightarrow> Inl (bad ''a future time is required''))"

definition schedule_scope_keys :: "string list" where
  "schedule_scope_keys = [''candidate_ids'', ''system_statuses'', ''candidate_filters'', ''force_reprocess'']"

definition check_saved_filters :: "object \<Rightarrow> go_error + unit" where
  "check_saved_filters scope =
     (if \<not> has_key scope ''candidate_filters'' then Inr ()
      else case fld scope ''candidate_filters'' of
          JObj filters \<Rightarrow> validateSavedCandidateFilters filters
        | _ \<Rightarrow> Inl (bad ''candidate_filters must be an object''))"

definition select_candidates :: "object \<Rightarrow> go_error + object" where
  "select_candidates scope = andThen (positiveIDs (fld scope ''candidate_ids'')) (\<lambda>ids.
     Inr (put ''candidate_ids'' (JArr (map (\<lambda>i. JNum (of_int i)) ids)) scope))"

definition select_statuses :: "object \<Rightarrow> go_error + object" where
  "select_statuses scope =
     (let vs = list_of (fld scope ''system_statuses'') in
      if vs = [] then Inl (bad ''a status is required'')
      else if \<not> list_all known_status (map str vs) then Inl (bad ''unknown system status'') else Inr scope)"

definition check_selection :: "object \<Rightarrow> go_error + object" where
  "check_selection scope =
     (let selected = has_key scope ''candidate_ids'' in
      if selected = has_key scope ''system_statuses'' \<or> (selected \<and> fld scope ''candidate_filters'' \<noteq> JNull)
      then Inl (bad ''candidates or statuses, not both'')
      else andThen (if selected then select_candidates scope else select_statuses scope) (\<lambda>scope.
        if has_key scope ''force_reprocess'' \<and> (\<not> selected \<or> \<not> truth (fld scope ''force_reprocess''))
        then Inl (bad ''force_reprocess needs candidate_ids'') else Inr scope))"

definition validateSchedule :: "object \<Rightarrow> instant \<Rightarrow> go_error + object \<times> instant" where
  "validateSchedule body now =
     (if \<not> list_all (\<lambda>(k, _). contains [''name'', ''scope'', ''repeat'', ''run_at''] k) body
      then Inl (bad ''unsupported field'')
      else if \<not> is_text (fld body ''name'') \<or> blank (str (fld body ''name'')) \<or> 100 < rune_count (str (fld body ''name''))
      then Inl (bad ''a name is required'')
      else andThen (schedule_time now (str (fld body ''run_at''))) (\<lambda>t.
        if schedule_repeat (str (fld body ''repeat'')) = None then Inl (bad ''unknown repetition'')
        else case fld body ''scope'' of
            JObj scope \<Rightarrow>
              if \<not> list_all (\<lambda>(k, _). contains schedule_scope_keys k) scope then Inl (bad ''unsupported scope field'')
              else andThen (check_saved_filters scope) (\<lambda>_. andThen (check_selection scope) (\<lambda>scope. Inr (scope, t)))
          | _ \<Rightarrow> Inl (bad ''a scope is required'')))"

subsection \<open>The next time\<close>

definition day_instant :: instant where
  "day_instant = 86400 * second"

definition repeat_days :: "repeat_kind \<Rightarrow> int" where
  "repeat_days r = (if r = Weekly then 7 else 1)"

text \<open>
  \<open>nextScheduleTime\<close>: adding days in a zone of fixed offset adds 24 hours each; the division of the
  seconds truncates towards zero.
\<close>

definition nextScheduleTime :: "instant \<Rightarrow> repeat_kind \<Rightarrow> instant \<Rightarrow> instant option" where
  "nextScheduleTime previous r now =
     (if r = Once then None
      else let days = repeat_days r;
               intervals = max 0 (go_div (unix now - unix previous) (days * 86400))
           in Some (previous + (intervals + 1) * days * day_instant))"

subsection \<open>The operations of the API\<close>

definition new_schedule :: "int \<Rightarrow> object \<Rightarrow> object \<Rightarrow> instant \<Rightarrow> repeat_kind \<Rightarrow> principal \<Rightarrow> schedule_row" where
  "new_schedule i body scope t r p =
     \<lparr> sch_id = i, sch_name = trim_space (str (fld body ''name'')), sch_scope = scope, sch_repeat = r,
       sch_run_at = t, sch_next = Some t, sch_status = ScActive, sch_created_by = Some (pri_user p),
       sch_created_by_name = pri_name p, sch_last_run = None, sch_last_triggered = None, sch_message = [],
       sch_count = 0 \<rparr>"

definition selected_exist :: "object \<Rightarrow> db \<Rightarrow> bool" where
  "selected_exist scope db \<longleftrightarrow> \<not> has_key scope ''candidate_ids'' \<or>
     (case positiveIDs (fld scope ''candidate_ids'') of Inl _ \<Rightarrow> True
      | Inr ids \<Rightarrow> count_where (\<lambda>c. cnd_id c \<in> set ids) (db_candidates db) = length ids)"

definition createSchedule :: "instant \<Rightarrow> principal \<Rightarrow> object \<Rightarrow> db \<Rightarrow> go_error + schedule_row \<times> db" where
  "createSchedule now p body db =
     (if \<not> has p ''pipeline.run'' then Inl (ApiError 403 ''no permission to process'')
      else if \<not> has p ''resume.view'' then Inl (ApiError 403 ''no permission to view resumes'')
      else andThen (validateSchedule body now) (\<lambda>(scope, t).
        if \<not> selected_exist scope db then Inl (bad ''a candidate no longer exists'')
        else case schedule_repeat (str (fld body ''repeat'')) of
            None \<Rightarrow> Inl (bad ''unknown repetition'')
          | Some r \<Rightarrow> let s = new_schedule (db_next db) body scope t r p
                      in Inr (s, db\<lparr>db_schedules := db_schedules db @ [s], db_next := db_next db + 1\<rparr>)))"

definition save_schedule :: "int \<Rightarrow> (schedule_row \<Rightarrow> schedule_row) \<Rightarrow> db \<Rightarrow> go_error + schedule_row \<times> db" where
  "save_schedule i f db =
     andThen (save_row sch_id i f (db_schedules db)) (\<lambda>(s, rs). Inr (s, db\<lparr>db_schedules := rs\<rparr>))"

text \<open>A paused schedule resumes at its time, or, when that has passed, at the next one.\<close>

definition resume_time :: "instant \<Rightarrow> schedule_row \<Rightarrow> instant option" where
  "resume_time now s = (case sch_next s of None \<Rightarrow> None
     | Some t \<Rightarrow> if now < t then Some t
         else if sch_repeat s = Once then Some now else nextScheduleTime t (sch_repeat s) now)"

definition schedule_action :: "instant \<Rightarrow> principal \<Rightarrow> string \<Rightarrow> schedule_row \<Rightarrow> go_error + (schedule_row \<Rightarrow> schedule_row)" where
  "schedule_action now p action s =
     (if action = ''cancel''
      then if sch_status s \<in> {ScActive, ScPaused, ScCancelled}
           then Inr (\<lambda>r. r\<lparr>sch_status := ScCancelled, sch_next := None\<rparr>)
           else Inl (ApiError 409 ''schedule has ended'')
      else if action = ''pause''
      then if sch_status s \<in> {ScActive, ScPaused} then Inr (\<lambda>r. r\<lparr>sch_status := ScPaused\<rparr>)
           else Inl (ApiError 409 ''only an active schedule can be paused'')
      else if action = ''resume''
      then if sch_status s \<noteq> ScPaused then Inl (ApiError 409 ''only a paused schedule can be resumed'')
           else if \<not> has p ''resume.view'' then Inl (ApiError 403 ''no permission to view resumes'')
           else case resume_time now s of
               None \<Rightarrow> Inl (OtherError ''cannot parse time'')
             | Some t \<Rightarrow> Inr (\<lambda>r. r\<lparr>sch_status := ScActive, sch_next := Some t\<rparr>)
      else Inl (ApiError 404 ''not found''))"

definition changeSchedule :: "instant \<Rightarrow> principal \<Rightarrow> string \<Rightarrow> int \<Rightarrow> db \<Rightarrow> go_error + schedule_row \<times> db" where
  "changeSchedule now p action i db =
     (if \<not> has p ''pipeline.run'' then Inl (ApiError 403 ''no permission to process'')
      else if i < 1 then Inl (bad ''invalid id'')
      else andThen (fetch sch_id i (db_schedules db)) (\<lambda>s.
        if \<not> isAdministrator p \<and> opt_number (sch_created_by s) \<noteq> pri_user p
        then Inl (ApiError 403 ''not the creator'')
        else andThen (schedule_action now p action s) (\<lambda>f. save_schedule i f db)))"

subsection \<open>Triggering\<close>

text \<open>\<open>ORDER BY next_run_at, id FOR UPDATE SKIP LOCKED LIMIT 1\<close> over the due schedules.\<close>

definition due :: "instant \<Rightarrow> (int \<Rightarrow> bool) \<Rightarrow> schedule_row \<Rightarrow> bool" where
  "due now locked s \<longleftrightarrow> sch_status s = ScActive \<and> \<not> locked (sch_id s) \<and>
     (case sch_next s of None \<Rightarrow> False | Some t \<Rightarrow> t \<le> now)"

definition next_instant :: "schedule_row \<Rightarrow> instant" where
  "next_instant s = (case sch_next s of None \<Rightarrow> 0 | Some t \<Rightarrow> t)"

definition due_schedule :: "instant \<Rightarrow> (int \<Rightarrow> bool) \<Rightarrow> db \<Rightarrow> schedule_row option" where
  "due_schedule now locked db = (case sort_key next_instant (filter (due now locked) (db_schedules db)) of
     [] \<Rightarrow> None | s # _ \<Rightarrow> Some s)"

text \<open>How a trigger ends: the new status, the next time, the last run and a message.\<close>

record trigger =
  trg_status :: schedule_status
  trg_next :: "instant option"
  trg_run :: "int option"
  trg_message :: string

definition trigger_row :: "instant \<Rightarrow> trigger \<Rightarrow> schedule_row \<Rightarrow> schedule_row" where
  "trigger_row now t s = s\<lparr>sch_status := trg_status t, sch_next := trg_next t, sch_last_run := trg_run t,
     sch_last_triggered := Some now, sch_message := trg_message t, sch_count := sch_count s + 1\<rparr>"

definition still_running :: "schedule_row \<Rightarrow> db \<Rightarrow> go_error + bool" where
  "still_running s db = (case sch_last_run s of
       None \<Rightarrow> Inr False
     | Some r \<Rightarrow> andThen (fetch run_id r (db_runs db)) (\<lambda>r. Inr (activeRun (run_status r))))"

definition scheduled_scope :: "(instant \<Rightarrow> string) \<Rightarrow> schedule_row \<Rightarrow> object" where
  "scheduled_scope show_time s =
     put ''scheduled_for'' (JStr (show_time (next_instant s)))
       (put ''schedule_id'' (JNum (of_int (sch_id s)))
         (put ''source'' (JStr ''schedule'') (put ''task_name'' (JStr (sch_name s)) (sch_scope s))))"

definition start_scheduled ::
  "(instant \<Rightarrow> string) \<Rightarrow> instant \<Rightarrow> principal \<Rightarrow> int list \<Rightarrow> schedule_row \<Rightarrow> trigger \<Rightarrow> db \<Rightarrow> go_error + trigger \<times> db" where
  "start_scheduled show_time now p ids s t db =
     (if ids = [] then Inr (t\<lparr>trg_message := ''no candidates''\<rparr>, db)
      else if count_where (\<lambda>c. cnd_id c \<in> set ids) (db_candidates db) \<noteq> length ids
      then Inr (t\<lparr>trg_status := ScFailed, trg_next := None, trg_message := ''a candidate was deleted''\<rparr>, db)
      else andThen (createRun now ''step2'' (scheduled_scope show_time s) ids (Some p) db) (\<lambda>(r, db).
        Inr (t\<lparr>trg_run := Some (run_id r), trg_message := ''submitted''\<rparr>, db)))"

definition planned :: "instant \<Rightarrow> schedule_row \<Rightarrow> trigger" where
  "planned now s =
     (let next = nextScheduleTime (next_instant s) (sch_repeat s) now in
      \<lparr> trg_status = (if next = None then ScCompleted else ScActive), trg_next = next,
        trg_run = sch_last_run s, trg_message = [] \<rparr>)"

definition may_run :: "principal option \<Rightarrow> bool" where
  "may_run creator = (case creator of None \<Rightarrow> False
     | Some p \<Rightarrow> has p ''pipeline.run'' \<and> has p ''resume.view'')"

definition fire ::
  "(instant \<Rightarrow> string) \<Rightarrow> ((string \<times> string) list \<Rightarrow> principal \<Rightarrow> go_error + int list) \<Rightarrow> instant \<Rightarrow> principal option
    \<Rightarrow> schedule_row \<Rightarrow> db \<Rightarrow> go_error + trigger \<times> db" where
  "fire show_time filtered now creator s db =
     (case creator of
        Some p \<Rightarrow>
          if \<not> may_run creator
          then Inr ((planned now s)\<lparr>trg_status := ScFailed, trg_next := None, trg_message := ''creator lost permission''\<rparr>, db)
          else andThen (still_running s db) (\<lambda>running.
            if running then Inr ((planned now s)\<lparr>trg_message := ''previous round still running''\<rparr>, db)
            else andThen (resolveRunCandidates filtered p (sch_scope s) db) (\<lambda>ids.
              start_scheduled show_time now p ids s (planned now s) db))
      | None \<Rightarrow>
          Inr ((planned now s)\<lparr>trg_status := ScFailed, trg_next := None, trg_message := ''creator lost permission''\<rparr>, db))"

definition triggerSchedule ::
  "(instant \<Rightarrow> string) \<Rightarrow> ((string \<times> string) list \<Rightarrow> principal \<Rightarrow> go_error + int list)
    \<Rightarrow> (int option \<Rightarrow> go_error + principal option) \<Rightarrow> (int \<Rightarrow> bool) \<Rightarrow> instant \<Rightarrow> db \<Rightarrow> go_error + bool \<times> db" where
  "triggerSchedule show_time filtered account locked now db =
     (case due_schedule now locked db of
        None \<Rightarrow> Inr (False, db)
      | Some s \<Rightarrow>
          andThen (account (sch_created_by s)) (\<lambda>creator.
          andThen (fire show_time filtered now creator s db) (\<lambda>(t, db).
          Inr (True, db\<lparr>db_schedules := update_where (\<lambda>r. sch_id r = sch_id s) (trigger_row now t) (db_schedules db)\<rparr>))))"

text \<open>
  One round of \<open>scheduler\<close>: up to \<open>n\<close> triggers (the code takes 20), ended early by an error or when no
  schedule is due. A trigger that fails is rolled back. The clock gives the time of each trigger.
\<close>

primrec scheduler_round ::
  "(nat \<Rightarrow> instant \<Rightarrow> db \<Rightarrow> go_error + bool \<times> db) \<Rightarrow> (nat \<Rightarrow> instant) \<Rightarrow> nat \<Rightarrow> db \<Rightarrow> db" where
  "scheduler_round trigger clock 0 db = db"
| "scheduler_round trigger clock (Suc n) db =
     (case trigger n (clock n) db of
        Inl _ \<Rightarrow> db
      | Inr (claimed, b) \<Rightarrow> if claimed then scheduler_round trigger clock n b else b)"

end
