(* ===== verification/RunSafety.thy ===== *)
theory RunSafety
  imports Pipeline Schedules Attempts AllocationSafety
begin

text \<open>
  The processing side as a transition system: the inductive relation \<open>pipe_step\<close> has one rule for
  every transaction or statement of the pipeline, with any parameters, so that its closure contains
  every interleaving of workers, heartbeats and requests. The locale \<open>pipeline_relation\<close> states what
  a relation between states must satisfy to hold along all of them; executeRun is a trace of steps.
\<close>

subsection \<open>Steps\<close>

definition same_item :: "item_row \<Rightarrow> item_row \<Rightarrow> bool" where
  "same_item i j \<longleftrightarrow> itm_id j = itm_id i \<and> itm_run j = itm_run i \<and> itm_candidate j = itm_candidate i
     \<and> itm_status j = itm_status i \<and> itm_attempts j = itm_attempts i"

inductive pipe_step :: "processing_env \<Rightarrow> db \<Rightarrow> db \<Rightarrow> bool" for env :: processing_env where
  create: "createRun now step scope ids p a = Inr (r, b) \<Longrightarrow> pipe_step env a b"
| claim_job: "claimJob now locked tok a = Some (q, b) \<Longrightarrow> pipe_step env a b"
| beat: "heartbeat now job tok a = (c, b) \<Longrightarrow> pipe_step env a b"
| begin_stage: "beginStage now i step a = Inr b \<Longrightarrow> pipe_step env a b"
| finish_stage: "finishStage now i step a = b \<Longrightarrow> pipe_step env a b"
| initialize: "save_run i (initialized_run env params pin model) a = Inr b \<Longrightarrow> pipe_step env a b"
| ready: "save_run i (ready_params params) a = Inr b \<Longrightarrow> pipe_step env a b"
| catalogue: "loadPreparationData env a = Inr (d, b) \<Longrightarrow> pipe_step env a b"
| freeze: "prepare_snapshot env fresh run pin d i a = Inr b \<Longrightarrow> pipe_step env a b"
| progress: "preparationProgress run n a = b \<Longrightarrow> pipe_step env a b"
| prepare: "prepareItem now run i step a = Inr (c, b) \<Longrightarrow> pipe_step env a b"
| claim: "claimItem now tok run i a = Inr (c, b) \<Longrightarrow> pipe_step env a b"
| work: "(\<And>r. same_item r (f r)) \<Longrightarrow> set_item i f a = b \<Longrightarrow> pipe_step env a b"
| renew: "renewClaim now i tok w a = (c, b) \<Longrightarrow> pipe_step env a b"
| finish: "finishItem env now tok task run i w frozen answer a = Inr b \<Longrightarrow> pipe_step env a b"
| summarize: "summarizeRun now i ends a = Inr b \<Longrightarrow> pipe_step env a b"
| stop: "stop_transaction now i code a = Inr b \<Longrightarrow> pipe_step env a b"
| cancel: "cancelRun now i p a = Inr (r, b) \<Longrightarrow> pipe_step env a b"
| complete: "job_done job tok a = b \<Longrightarrow> pipe_step env a b"

abbreviation pipe_trace :: "processing_env \<Rightarrow> db \<Rightarrow> db \<Rightarrow> bool" where
  "pipe_trace env \<equiv> (pipe_step env)\<^sup>*\<^sup>*"

subsection \<open>Relations along the pipeline\<close>

text \<open>Tables that the pipeline's own bookkeeping leaves alone.\<close>

definition same_platform :: "db \<Rightarrow> db \<Rightarrow> bool" where
  "same_platform a b \<longleftrightarrow> db_attempts b = db_attempts a \<and> db_applications b = db_applications a
     \<and> db_app_events b = db_app_events a \<and> db_members b = db_members a \<and> db_work b = db_work a
     \<and> db_tasks b = db_tasks a \<and> db_scopes b = db_scopes a \<and> db_next a \<le> db_next b"

text \<open>A change of a run that neither withdraws a cancellation nor ends the run well.\<close>

definition succeeded :: "run_status \<Rightarrow> bool" where
  "succeeded s \<longleftrightarrow> s \<in> {RuSuccess, RuPartialFailed, RuNeedsAttention}"

definition calm_run :: "run_row \<Rightarrow> run_row \<Rightarrow> bool" where
  "calm_run r s \<longleftrightarrow> run_id s = run_id r \<and>
     (run_cancel_requested r \<noteq> None \<longrightarrow> run_cancel_requested s = run_cancel_requested r
        \<and> (succeeded (run_status s) \<longrightarrow> succeeded (run_status r)))"

definition same_runs :: "db \<Rightarrow> db \<Rightarrow> bool" where
  "same_runs a b \<longleftrightarrow> db_runs b = db_runs a"

text \<open>
  A relation for the transactions on items: they leave the runs and the stages alone, and touch the
  rest of the platform through the operations that the locale assumes only.
\<close>

locale item_relation = core_relation +
  assumes item_rows: "same_platform a b \<Longrightarrow> same_runs a b \<Longrightarrow> db_stages b = db_stages a \<Longrightarrow> R a b"
    and cancelOpenAttempts: "cancelOpenAttempts now w reason sources a = Inr b \<Longrightarrow> R a b"
    and insert_member: "insert_member m a = Inr (x, b) \<Longrightarrow> R a b"
    and saveScreeningQualification: "saveScreeningQualification env m screened a = Inr (q, b) \<Longrightarrow> R a b"

text \<open>A relation for the whole pipeline: the bookkeeping of runs and stages is added.\<close>

locale pipeline_relation = item_relation +
  assumes rows: "same_platform a b \<Longrightarrow> same_runs a b \<Longrightarrow> R a b"
    and runs: "(\<And>r. r \<in> set (db_runs a) \<Longrightarrow> c r \<Longrightarrow> calm_run r (f r)) \<Longrightarrow>
      R a (a\<lparr>db_runs := update_where c f (db_runs a)\<rparr>)"
    and new_run: "R a (a\<lparr>db_runs := db_runs a @ [r]\<rparr>)"
    and cancelRun: "cancelRun now i p a = Inr (r, b) \<Longrightarrow> R a b"
    and summarize: "summarizeRun now i ends a = Inr b \<Longrightarrow> R a b"

context item_relation
begin

lemma other: "same_platform a b \<Longrightarrow> db_runs b = db_runs a \<Longrightarrow> db_stages b = db_stages a \<Longrightarrow> R a b"
  by (rule item_rows) (simp_all add: same_runs_def)

lemma lockWorkflow: "lockWorkflow i a = Inr (w, b) \<Longrightarrow> R a b"
  by (rule other) (auto simp: lockWorkflow_def andThen_eq_Inr Let_def same_platform_def split: option.splits)

lemma save_item: "save_item i f a = Inr (r, b) \<Longrightarrow> R a b"
  by (rule other) (auto simp: save_item_def andThen_eq_Inr same_platform_def)

lemma itemOutcome: "itemOutcome now i status code a = Inr b \<Longrightarrow> R a b"
  by (auto simp: itemOutcome_def andThen_eq_Inr intro: save_item)

lemma save_candidate: "save_candidate c columns a = Inr b \<Longrightarrow> R a b"
  by (rule other) (auto simp: save_candidate_def andThen_eq_Inr same_platform_def)

lemma order_volunteers: "order_volunteers i a = Inr b \<Longrightarrow> R a b"
  unfolding order_volunteers_def Let_def
  by (rule trans [OF _ save_candidate]) (auto intro: other simp: rank_resumes_def same_platform_def)

lemma poolEvent: "R a (poolEvent m kind payload p a)"
  by (rule other) (simp_all add: poolEvent_def same_platform_def)

lemma touchWorkflow: "touchWorkflow now w resume a = Inr b \<Longrightarrow> R a b"
  by (auto simp: touchWorkflow_def andThen_eq_Inr intro: trans [OF closePoolMemberships save_workflow])

lemma archiveWorkflow: "archiveWorkflow now w reason detail a = Inr b \<Longrightarrow> R a b"
  by (auto simp: archiveWorkflow_def andThen_eq_Inr intro: trans [OF closePoolMemberships save_workflow])

lemma reopen_workflow: "reopen_workflow now w a = Inr b \<Longrightarrow> R a b"
  by (auto simp: reopen_workflow_def andThen_eq_Inr intro: trans [OF cancelOpenAttempts save_workflow])

lemma link_tag: "R a (link_tag c i a)"
  by (rule other) (auto simp: link_tag_def same_platform_def split: option.splits)

lemma record_degrees:
  assumes "record_degrees i a = Inr b"
  shows "R a b"
proof -
  obtain columns c m n where c: "save_candidate (itm_candidate i) columns a = Inr c"
    and b: "b = link_tag (itm_candidate i) n (link_tag (itm_candidate i) m
        (c\<lparr>db_candidate_tags := filter (\<lambda>(k, _). k \<noteq> itm_candidate i) (db_candidate_tags c)\<rparr>))"
    using assms by (auto simp: record_degrees_def andThen_eq_Inr Let_def)
  have "R c (c\<lparr>db_candidate_tags := filter (\<lambda>(k, _). k \<noteq> itm_candidate i) (db_candidate_tags c)\<rparr>)"
    by (rule other) (simp_all add: same_platform_def)
  then show ?thesis unfolding b using save_candidate [OF c] by (blast intro: trans link_tag)
qed

lemma block_resume: "block_resume now run code resume a = Inr b \<Longrightarrow> R a b"
  unfolding block_resume_def by (rule state)

lemma block_workflow: "block_workflow w code a = Inr b \<Longrightarrow> R a b"
  by (auto simp: block_workflow_def andThen_eq_Inr intro: save_workflow)

lemma refuse_admission:
  assumes "refuse_admission now i w resume status a = Inr b"
  shows "R a b"
proof -
  obtain c d e where "cancelOpenAttempts now w ''rerun'' [] a = Inr c" "touchWorkflow now w resume c = Inr d"
      "archiveWorkflow now w ''school_rule_not_matched'' ''admission refused'' d = Inr e"
      "itemOutcome now i ItSuccess status e = Inr b"
    using assms by (auto simp: refuse_admission_def andThen_eq_Inr)
  then show ?thesis by (blast intro: trans cancelOpenAttempts touchWorkflow archiveWorkflow itemOutcome)
qed

lemma refuse_standard:
  assumes "refuse_standard now run i w resume status a = Inr b"
  shows "R a b"
proof -
  obtain c d where c: "cancelOpenAttempts now w ''rerun'' [] a = Inr c" "touchWorkflow now w resume c = Inr d"
    and d: "\<exists>e g. block_workflow w status (closePoolMemberships (wf_id w) None ''assessment_unavailable'' d) = Inr e
          \<and> block_resume now (run_id run) status (res_id resume) e = Inr g
          \<and> itemOutcome now i ItNeedsAttention status g = Inr b
        \<or> archiveWorkflow now w (archive_reason status) status d = Inr e
          \<and> itemOutcome now i ItNeedsAttention status e = Inr b"
    using assms by (auto simp: refuse_standard_def andThen_eq_Inr split: if_split_asm)
  have "R d b"
    using d by (blast intro: trans [OF closePoolMemberships] trans block_workflow block_resume archiveWorkflow itemOutcome)
  moreover have "R a d" using c by (blast intro: trans cancelOpenAttempts touchWorkflow)
  ultimately show ?thesis by (blast intro: trans)
qed

lemma no_volunteer: "no_volunteer now i w a = Inr b \<Longrightarrow> R a b"
  by (auto simp: no_volunteer_def andThen_eq_Inr split: if_splits intro: itemOutcome trans [OF talentPool])

lemma admission_step:
  assumes "admission_step now run i w resume a = Inr b"
  shows "R a b"
proof -
  obtain c d where "reopen_workflow now w a = Inr c \<or> c = a" and "record_degrees i c = Inr d"
    and "d = b \<or> (\<exists>s. refuse_admission now i w resume s d = Inr b)"
    using assms by (auto simp: admission_step_def andThen_eq_Inr Let_def split: if_split_asm)
  then show ?thesis by (blast intro: refl trans reopen_workflow record_degrees refuse_admission)
qed

lemma prepare_resume: "prepare_resume now run step i w resume a = Inr b \<Longrightarrow> R a b"
  by (auto simp: prepare_resume_def Let_def split: option.splits if_splits
      intro: refl no_volunteer admission_step refuse_standard)

lemma prepare_open_item: "prepare_open_item now run step i w a = Inr b \<Longrightarrow> R a b"
  by (auto simp: prepare_open_item_def Let_def andThen_eq_Inr split: if_splits
      intro: prepare_resume order_volunteers trans [OF order_volunteers itemOutcome]
        trans [OF order_volunteers prepare_resume])

lemma prepareItem:
  assumes "prepareItem now run i step a = Inr (c, b)"
  shows "R a b"
proof -
  obtain item where item: "(if terminalItem (itm_status item) then Inr (False, a)
      else andThen (lockWorkflow (itm_candidate item) a) (\<lambda>(w, locked).
         if revisionChanged item w
         then andThen (itemOutcome now item ItSkipped ''workflow_changed_after_submit'' locked) (\<lambda>db. Inr (False, db))
         else if claimed_now now w \<and> opt_number (wf_item w) \<noteq> i then Inr (True, a)
         else andThen (retainApplicationWork (run_scope run) w locked) (\<lambda>(keep, locked).
           andThen (case keep of
               Some code \<Rightarrow> itemOutcome now item ItSuccess code locked
             | None \<Rightarrow> prepare_open_item now run step item w locked) (\<lambda>db. Inr (False, db))))) = Inr (c, b)"
    using assms by (auto simp: prepareItem_def andThen_eq_Inr)
  show ?thesis
  proof (cases "b = a")
    case False
    then obtain w d where d: "lockWorkflow (itm_candidate item) a = Inr (w, d)"
      and rest: "itemOutcome now item ItSkipped ''workflow_changed_after_submit'' d = Inr b \<or>
        (\<exists>keep e. retainApplicationWork (run_scope run) w d = Inr (keep, e) \<and>
          (itemOutcome now item ItSuccess (the keep) e = Inr b \<or> prepare_open_item now run step item w e = Inr b))"
      using item by (fastforce simp: andThen_eq_Inr split: if_split_asm option.split_asm)
    have "R d b" using rest by (blast intro: trans itemOutcome retainApplicationWork prepare_open_item)
    with lockWorkflow [OF d] show ?thesis by (rule trans)
  qed (simp add: refl)
qed

lemma column_state: "column_state now resume status reason payload a = Inr b \<Longrightarrow> R a b"
  by (auto simp: column_state_def split: option.splits intro: state)

lemma claim_open_item:
  assumes "claim_open_item now tok run i w a = Inr (x, b)"
  shows "R a b"
proof -
  obtain c d v r where "column_state now (itm_resume i) AppAssessing ''assessing''
       [(''run_id'', JNum (of_int run)), (''scope_item_id'', JNum (of_int (itm_id i)))] a = Inr c"
      "save_workflow (wf_id w) (claim_workflow now (itm_id i) tok) c = Inr (v, d)"
      "save_item (itm_id i) (claim_item_row now tok) d = Inr (r, b)"
    using assms by (auto simp: claim_open_item_def andThen_eq_Inr)
  then show ?thesis by (blast intro: trans column_state save_workflow save_item)
qed

lemma claimItem:
  assumes "claimItem now tok run i a = Inr (x, b)"
  shows "R a b"
proof -
  obtain item where item: "(if terminalItem (itm_status item) then Inr (None, a)
      else andThen (lockWorkflow (itm_candidate item) a) (\<lambda>(w, db).
         if revisionChanged item w
         then andThen (itemOutcome now item ItSkipped ''workflow_changed_after_submit'' db) (\<lambda>db. Inr (None, db))
         else andThen (retainApplicationWork (run_scope run) w db) (\<lambda>(keep, db).
           case keep of
             Some code \<Rightarrow> andThen (itemOutcome now item ItSuccess code db) (\<lambda>db. Inr (None, db))
           | None \<Rightarrow>
               if claimed_now now w
               then andThen (save_item i (\<lambda>r. r\<lparr>itm_status := ItWaitingConflict\<rparr>) db) (\<lambda>(_, db). Inr (None, db))
               else claim_open_item now tok (run_id run) item w db))) = Inr (x, b)"
    using assms by (auto simp: claimItem_def andThen_eq_Inr)
  show ?thesis
  proof (cases "b = a")
    case False
    then obtain w d where d: "lockWorkflow (itm_candidate item) a = Inr (w, d)"
      and rest: "itemOutcome now item ItSkipped ''workflow_changed_after_submit'' d = Inr b \<or>
        (\<exists>keep e. retainApplicationWork (run_scope run) w d = Inr (keep, e) \<and>
          (itemOutcome now item ItSuccess (the keep) e = Inr b
           \<or> (\<exists>r. save_item i (\<lambda>r. r\<lparr>itm_status := ItWaitingConflict\<rparr>) e = Inr (r, b))
           \<or> claim_open_item now tok (run_id run) item w e = Inr (x, b)))"
      using item by (fastforce simp: andThen_eq_Inr split: if_split_asm option.split_asm)
    have "R d b" using rest by (blast intro: trans itemOutcome retainApplicationWork save_item claim_open_item)
    with lockWorkflow [OF d] show ?thesis by (rule trans)
  qed (simp add: refl)
qed

lemma insert_decision: "R a (snd (insert_decision run w resume rec code columns a))"
  by (rule other) (simp_all add: insert_decision_def same_platform_def)

lemma saveFailure: "R a (saveFailure run w resume code a)"
  unfolding saveFailure_def by (rule insert_decision)

lemma persistProfile: "R a (snd (persistProfile resume result a))"
  by (rule other) (auto simp: persistProfile_def same_platform_def split: option.splits)

lemma clear_category: "clear_category resume a = Inr b \<Longrightarrow> R a b"
  by (rule other) (auto simp: clear_category_def andThen_eq_Inr same_platform_def)

lemma enter_pool:
  assumes "enter_pool env now run w resume i frozen result match decision a = Inr b"
  shows "R a b"
proof -
  obtain c m d q where c: "applicationState now (res_id resume) AppPendingAllocation (str (fld match ''reason''))
       (decision_payload run decision) a = Inr c"
      and d: "insert_member (new_member env now run w resume i frozen result match decision) c = Inr (m, d)"
      and q: "saveScreeningQualification (pe_platform env) m True (poolEvent (mem_id m) ''assessment_saved''
        [(''status'', JStr ''pending_allocation''), (''tags'', JArr (mem_tags m)),
         (''decision_id'', JNum (of_int decision))] None d) = Inr (q, b)"
    using assms by (auto simp: enter_pool_def andThen_eq_Inr Let_def)
  from state [OF c] insert_member [OF d] poolEvent saveScreeningQualification [OF q] show ?thesis
    by (blast intro: trans)
qed

lemma savePoolAssessment:
  assumes "savePoolAssessment env now run w resume i frozen result a = Inr (code, b)"
  shows "R a b"
proof -
  obtain match c where c: "clear_category resume a = Inr c"
    and rest: "let rec = recommendation match frozen;
              profile = persistProfile resume result c;
              decision = insert_decision run w resume rec [] (decision_values run result match (fst profile)) (snd profile);
              d = closePoolMemberships (wf_id w) None ''reassessed'' (snd decision)
          in (if rec = ''archive''
             then andThen (applicationState now (res_id resume) AppAiRejected (str (fld match ''reason''))
                    (decision_payload run (fst decision)) d) (\<lambda>db. Inr (''ai_rejected'', db))
             else andThen (enter_pool env now run w resume i frozen result match (fst decision) d)
                    (\<lambda>db. Inr (''allocation_queued'', db))) = Inr (code, b)"
    using assms unfolding savePoolAssessment_def
    by (cases "matches_application frozen result resume"; cases "clear_category resume a") (simp_all add: Let_def)
  define d where "d = closePoolMemberships (wf_id w) None ''reassessed'' (snd (insert_decision run w resume
    (recommendation match frozen) [] (decision_values run result match (fst (persistProfile resume result c)))
    (snd (persistProfile resume result c))))"
  have "R a d" unfolding d_def
    using trans [OF clear_category [OF c] trans [OF persistProfile trans [OF insert_decision closePoolMemberships]]] .
  moreover have "R d b"
    using rest unfolding Let_def d_def [symmetric]
    by (auto simp: andThen_eq_Inr split: if_split_asm intro: state enter_pool)
  ultimately show ?thesis by (rule trans)
qed

lemma finish_volunteers:
  assumes "finish_volunteers now w i a = Inr b"
  shows "R a b"
proof -
  obtain c code where "talentPool now w a = Inr c" "itemOutcome now i ItSuccess code c = Inr b"
    using assms by (auto simp: finish_volunteers_def andThen_eq_Inr)
  then show ?thesis by (blast intro: trans talentPool itemOutcome)
qed

lemma continueAfterAIRejection:
  assumes "continueAfterAIRejection env now task w i frozen a = Inr b"
  shows "R a b"
proof -
  have "finish_volunteers now w i a = Inr b \<or> (\<exists>r c f q. touchWorkflow now w r a = Inr c \<and> save_item (itm_id i) f c = Inr (q, b))"
    using assms by (auto simp: continueAfterAIRejection_def andThen_eq_Inr Let_def split: if_split_asm)
  then show ?thesis by (blast intro: trans finish_volunteers touchWorkflow save_item)
qed

lemma store_analysis:
  assumes "store_analysis env now task run w resume i frozen result a = Inr b"
  shows "R a b"
proof -
  obtain code c r d v e where c: "savePoolAssessment env now run w resume i frozen result a = Inr (code, c)"
      "save_item (itm_id i) (\<lambda>r. r\<lparr>itm_result := result\<rparr>) c = Inr (r, d)"
      "save_workflow (wf_id w) (\<lambda>r. r\<lparr>wf_revision := wf_revision w + 1\<rparr>) d = Inr (v, e)"
    and e: "continueAfterAIRejection env now task w i frozen e = Inr b \<or> itemOutcome now i ItSuccess code e = Inr b"
    using assms by (auto simp: store_analysis_def andThen_eq_Inr split: if_split_asm)
  have "R a e" using c by (blast intro: trans savePoolAssessment save_item save_workflow)
  then show ?thesis using e by (blast intro: trans continueAfterAIRejection itemOutcome)
qed

lemma store_failure:
  assumes "store_failure now run w resume i cause a = Inr b"
  shows "R a b"
proof -
  obtain c v d status where c: "(case resume of None \<Rightarrow> Inr a
      | Some r \<Rightarrow> block_resume now (run_id run) (failure_code cause) (res_id r)
          (saveFailure run w r (failure_code cause) a)) = Inr c"
    and d: "save_workflow (wf_id w) (\<lambda>r. r\<lparr>wf_block_reason := failure_code cause, wf_block_detail := failure_code cause,
          wf_revision := wf_revision w + 1\<rparr>) c = Inr (v, d)"
      "itemOutcome now i status (failure_code cause) d = Inr b"
    using assms by (auto simp: store_failure_def andThen_eq_Inr Let_def)
  have "R a c" using c by (auto split: option.splits intro: refl trans [OF saveFailure block_resume])
  then show ?thesis using d by (blast intro: trans save_workflow itemOutcome)
qed

lemma store_outcome:
  assumes "store_outcome env now task run w i frozen answer a = Inr b"
  shows "R a b"
proof -
  obtain p where p: "save_item (itm_id i) (\<lambda>r. r\<lparr>itm_node := ''saving''\<rparr>) a = Inr p"
    using assms by (cases "save_item (itm_id i) (\<lambda>r. r\<lparr>itm_node := ''saving''\<rparr>) a") (simp_all add: store_outcome_def)
  obtain r c where rc: "p = (r, c)" by (cases p)
  have c: "save_item (itm_id i) (\<lambda>r. r\<lparr>itm_node := ''saving''\<rparr>) a = Inr (r, c)"
    using p rc by simp
  obtain d where d: "R c d" and b: "(\<exists>result r. store_analysis env now task run w r i frozen result d = Inr b)
      \<or> (\<exists>e resume. store_failure now run w resume i e d = Inr b)"
  proof (cases "fetch_opt res_id (itm_resume i) (db_resumes c)")
    case (Inl e)
    then show ?thesis using assms c that [OF refl] by (auto simp: store_outcome_def)
  next
    case (Inr r)
    then have "andThen (andThen (cancelOpenAttempts now w ''rerun'' [FromAi, FromRule] c) (touchWorkflow now w r)) (\<lambda>db.
      case (andThen answer (\<lambda>result. andThen (validateLiveJobs env frozen c) (\<lambda>_. Inr result)), Some r) of
          (Inr result, Some r) \<Rightarrow> store_analysis env now task run w r i frozen result db
        | (Inl e, _) \<Rightarrow> store_failure now run w (Some r) i e db
        | _ \<Rightarrow> store_failure now run w (Some r) i (TaskError ''pdf_missing'') db) = Inr b"
      using assms unfolding store_outcome_def Let_def c andThen_Inr prod.case Inr sum.case by simp
    then obtain e d where d: "cancelOpenAttempts now w ''rerun'' [FromAi, FromRule] c = Inr e" "touchWorkflow now w r e = Inr d"
      and b: "(case (andThen answer (\<lambda>result. andThen (validateLiveJobs env frozen c) (\<lambda>_. Inr result)), Some r) of
          (Inr result, Some r) \<Rightarrow> store_analysis env now task run w r i frozen result d
        | (Inl e, _) \<Rightarrow> store_failure now run w (Some r) i e d
        | _ \<Rightarrow> store_failure now run w (Some r) i (TaskError ''pdf_missing'') d) = Inr b"
      unfolding andThen_eq_Inr by blast
    have "R c d" using d by (blast intro: trans cancelOpenAttempts touchWorkflow)
    then show ?thesis by (rule that) (use b in \<open>auto split: sum.split_asm\<close>)
  qed
  show ?thesis using trans [OF save_item [OF c] d] b by (blast intro: trans store_analysis store_failure)
qed

lemma cancel_item: "cancel_item now run i a = Inr b \<Longrightarrow> R a b"
  by (auto simp: cancel_item_def andThen_eq_Inr intro: trans [OF itemOutcome column_state])

lemma finishItem:
  assumes "finishItem env now tok task run i w frozen answer a = Inr b"
  shows "R a b"
proof -
  obtain live item where item: "andThen (lockWorkflow (itm_candidate item) a) (\<lambda>(current, locked).
       if terminalItem (itm_status item) then Inr a
       else if \<not> holds_claim (itm_id i) tok w current
       then itemOutcome now item ItSkipped ''workflow_changed_during_ai'' locked
       else andThen (save_workflow (wf_id w) release_claim locked) (\<lambda>(_, db).
         if run_cancel_requested live \<noteq> None then cancel_item now (run_id run) item db
         else if answer = Inl Canceled then Inl Canceled
         else store_outcome env now task live current item frozen answer db)) = Inr b"
    using assms by (auto simp: finishItem_def andThen_eq_Inr)
  show ?thesis
  proof (cases "b = a")
    case False
    then obtain current d where d: "lockWorkflow (itm_candidate item) a = Inr (current, d)"
      and rest: "itemOutcome now item ItSkipped ''workflow_changed_during_ai'' d = Inr b \<or>
        (\<exists>v e. save_workflow (wf_id w) release_claim d = Inr (v, e) \<and>
          (cancel_item now (run_id run) item e = Inr b
           \<or> store_outcome env now task live current item frozen answer e = Inr b))"
      using item by (fastforce simp: andThen_eq_Inr split: if_split_asm)
    have "R d b" using rest by (blast intro: trans itemOutcome save_workflow cancel_item store_outcome)
    with lockWorkflow [OF d] show ?thesis by (rule trans)
  qed (simp add: refl)
qed

lemma loadPreparationData: "loadPreparationData env a = Inr (d, b) \<Longrightarrow> R a b"
  by (rule other) (auto simp: loadPreparationData_def ensure_non_target_def andThen_eq_Inr Let_def same_platform_def
      split: if_split_asm option.split_asm)

lemma prepare_snapshot: "prepare_snapshot env fresh run pin d i a = Inr b \<Longrightarrow> R a b"
  by (rule other) (auto simp: prepare_snapshot_def andThen_eq_Inr same_platform_def)

lemma set_item: "R a (set_item i f a)"
  by (rule other) (simp_all add: set_item_def same_platform_def)

lemma renewClaim: "renewClaim now i tok w a = (c, b) \<Longrightarrow> R a b"
  by (rule other) (auto simp: renewClaim_def Let_def same_platform_def)

end

text \<open>Runs, stages and jobs.\<close>

context pipeline_relation
begin

lemma bookkeeping: "same_platform a b \<Longrightarrow> db_runs b = db_runs a \<Longrightarrow> R a b"
  by (rule rows) (simp_all add: same_runs_def)

lemma createRun:
  assumes "createRun now step scope ids p a = Inr (r, b)"
  shows "R a b"
proof -
  obtain c where c: "check_retry scope ids a = Inr c" and "b = c \<or> insert_run now step scope ids p c = Inr (r, b)"
    using assms by (auto simp: createRun_def andThen_eq_Inr split: option.split_asm)
  moreover have "R c b" if "insert_run now step scope ids p c = Inr (r, b)"
  proof -
    have "R (c\<lparr>db_runs := db_runs c @ [r]\<rparr>) b"
      by (rule bookkeeping) (use that in \<open>auto simp: insert_run_def Let_def same_platform_def split: if_split_asm\<close>)
    then show ?thesis by (rule trans [OF new_run])
  qed
  moreover have "R a c" using c
    by (auto simp: check_retry_def andThen_eq_Inr split: if_split_asm list.split_asm intro: refl lockWorkflow)
  ultimately show ?thesis by (blast intro: trans)
qed

lemma claimJob: "claimJob now locked tok a = Some (q, b) \<Longrightarrow> R a b"
  by (rule bookkeeping) (auto simp: claimJob_def same_platform_def)

lemma job_done: "R a (job_done job tok a)"
  by (rule bookkeeping) (simp_all add: job_done_def same_platform_def)

lemma calm_runs:
  assumes "R a c" and "\<And>r. calm_run r (f r)"
  shows "R a (c\<lparr>db_runs := update_where p f (db_runs c)\<rparr>)"
  by (rule trans [OF assms(1) runs]) (rule assms(2))

lemma heartbeat:
  assumes "heartbeat now job tok a = (c, b)"
  shows "R a b"
proof -
  let ?c = "a\<lparr>db_queue := update_where (\<lambda>q. que_id q = que_id job \<and> que_token q = tok \<and> que_status q = ''running'')
    (\<lambda>q. q\<lparr>que_lease_until := Some (now + job_lease)\<rparr>) (db_queue a)\<rparr>"
  have c: "R a ?c" by (rule bookkeeping) (simp_all add: same_platform_def)
  have "R a (?c\<lparr>db_runs := update_where (\<lambda>r. run_id r = que_run job) (\<lambda>r. r\<lparr>run_heartbeat := Some now\<rparr>) (db_runs ?c)\<rparr>)"
    using c by (rule calm_runs) (simp add: calm_run_def)
  then show ?thesis
    using assms c refl by (auto simp: heartbeat_def Let_def split: if_split_asm option.split_asm)
qed

lemma beginStage:
  assumes "beginStage now i step a = Inr b"
  shows "R a b"
proof -
  let ?c = "a\<lparr>db_stages := update_where (\<lambda>s. stg_run s = i \<and> stg_step s = step \<and> stg_status s \<noteq> SgSuccess)
          (begin_stage_row now step) (db_stages a)\<rparr>"
  have "R a ?c" by (rule bookkeeping) (simp_all add: same_platform_def)
  moreover have "b = ?c\<lparr>db_runs := update_where (\<lambda>r. run_id r = i \<and> run_cancel_requested r = None)
      (\<lambda>r. r\<lparr>run_status := RuRunning, run_stage := step, run_message := step,
             run_heartbeat := Some now, run_started := or_now now (run_started r)\<rparr>) (db_runs ?c)\<rparr>"
    using assms by (auto simp: beginStage_def Let_def split: if_split_asm)
  ultimately show ?thesis by (simp only:) (rule calm_runs, simp_all add: calm_run_def succeeded_def)
qed

lemma finishStage: "R a (finishStage now i step a)"
  by (rule bookkeeping) (simp_all add: finishStage_def same_platform_def)

lemma save_run:
  assumes "save_run i f a = Inr b" and "\<And>r. calm_run r (f r)"
  shows "R a b"
proof -
  have "b = a\<lparr>db_runs := update_where (\<lambda>r. run_id r = i) f (db_runs a)\<rparr>"
    using assms(1) by (auto simp: save_run_def andThen_eq_Inr save_row_Inr)
  with calm_runs [OF refl assms(2)] show ?thesis by simp
qed

lemma stop_transaction:
  assumes "stop_transaction now i code a = Inr b"
  shows "R a b"
proof -
  define d where "d = stop_rows now i code (a\<lparr>db_runs := update_where (\<lambda>r. run_id r = i) (stop_run_row now code) (db_runs a)\<rparr>)"
  obtain c where c: "foldE (block_resume now i code) (List.map_filter (claimed_resume i d) (db_workflows d)) d = Inr c"
      "b = release_workflows i c"
    using assms by (auto simp: stop_transaction_def andThen_eq_Inr save_row_Inr Let_def d_def)
  have "R a (a\<lparr>db_runs := update_where (\<lambda>r. run_id r = i) (stop_run_row now code) (db_runs a)\<rparr>)"
    by (rule calm_runs [OF refl]) (simp add: calm_run_def stop_run_row_def succeeded_def)
  moreover have "R (a\<lparr>db_runs := update_where (\<lambda>r. run_id r = i) (stop_run_row now code) (db_runs a)\<rparr>) d"
    unfolding d_def by (rule bookkeeping) (simp_all add: stop_rows_def same_platform_def Let_def)
  moreover have "R d c" using c(1) by (rule loop) (rule block_resume)
  moreover have "R c b" unfolding c(2) by (rule bookkeeping) (simp_all add: release_workflows_def same_platform_def)
  ultimately show ?thesis by (blast intro: trans)
qed

lemma preparationProgress: "R a (preparationProgress run n a)"
  by (rule bookkeeping) (simp_all add: preparationProgress_def same_platform_def)

theorem step: "pipe_step env a b \<Longrightarrow> R a b"
proof (induction rule: pipe_step.induct)
  case (initialize i params pin model a b)
  then show ?case by (rule save_run) (simp add: calm_run_def initialized_run_def)
next
  case (ready i params a b)
  then show ?case by (rule save_run) (simp add: calm_run_def ready_params_def)
qed (auto intro: createRun claimJob heartbeat beginStage finishStage loadPreparationData prepare_snapshot
    preparationProgress prepareItem claimItem set_item renewClaim finishItem summarize stop_transaction
    cancelRun job_done)

theorem trace: "pipe_trace env a b \<Longrightarrow> R a b"
  by (induction rule: rtranclp_induct) (blast intro: refl trans step)+

end

end
