(* ===== verification/RunProperties.thy ===== *)
theory RunProperties
  imports RunSafety
begin

text \<open>
  What holds along every interleaving of the processing pipeline: the invariants of attempts, of the
  application ledger and of the allocation work, and the finality of a cancellation.
\<close>

subsection \<open>The relations that hold along the pipeline\<close>

lemma same_platform_frame:
  assumes "same_platform a b"
  shows "db_attempts b = db_attempts a" "db_applications b = db_applications a" "db_app_events b = db_app_events a"
    "db_work b = db_work a" "db_tasks b = db_tasks a" "db_scopes b = db_scopes a" "db_next a \<le> db_next b"
  using assms by (simp_all add: same_platform_def)

lemma insert_member_frame:
  assumes "insert_member m a = Inr (x, b)"
  shows "db_attempts b = db_attempts a" "db_applications b = db_applications a" "db_app_events b = db_app_events a"
    "db_work b = db_work a" "db_tasks b = db_tasks a" "db_scopes b = db_scopes a" "db_next a \<le> db_next b"
    "db_runs b = db_runs a"
  using assms by (auto simp: insert_member_def Let_def split: if_split_asm)

lemma qualification_frame:
  assumes "saveScreeningQualification env m screened a = Inr (q, b)"
  shows "db_attempts b = db_attempts a" "db_applications b = db_applications a" "db_app_events b = db_app_events a"
    "db_next a \<le> db_next b" "db_runs b = db_runs a"
  using assms by (auto simp: saveScreeningQualification_def Let_def andThen_eq_Inr screened_source_def
      insert_qualification_def requalify_work_def update_work_def insert_work_def split: if_split_asm option.split_asm)

lemma summarizeRun_frame:
  assumes "summarizeRun now i ends a = Inr b"
  shows "same_platform a b"
  using assms by (auto simp: summarizeRun_def andThen_eq_Inr Let_def same_platform_def
      split: if_split_asm option.split_asm)

lemma cancelRun_frame:
  assumes "cancelRun now i p a = Inr (r, b)"
  shows "same_platform a b"
  using assms by (auto simp: cancelRun_def andThen_eq_Inr same_platform_def split: if_split_asm)

interpretation run_attempts: pipeline_relation attempts_step
proof
  show "attempts_step a b" if "same_platform a b" "same_runs a b" "db_stages b = db_stages a" for a b
    using that(1) by (intro attempts.frame) (simp_all add: same_platform_frame)
  show "attempts_step a b" if "same_platform a b" "same_runs a b" for a b
    using that(1) by (intro attempts.frame) (simp_all add: same_platform_frame)
  show "attempts_step a b" if "cancelRun now i p a = Inr (r, b)" for now i p a r b
    using cancelRun_frame [OF that] by (intro attempts.frame) (simp_all add: same_platform_frame)
  show "attempts_step a b" if "summarizeRun now i ends a = Inr b" for now i ends a b
    using summarizeRun_frame [OF that] by (intro attempts.frame) (simp_all add: same_platform_frame)
  show "attempts_step a b" if "cancelOpenAttempts now w reason sources a = Inr b" for now w reason sources a b
    using that by (rule attempts.cancel)
  show "attempts_step a b" if "insert_member m a = Inr (x, b)" for m a x b
    using insert_member_frame [OF that] by (intro attempts.frame)
  show "attempts_step a b" if "saveScreeningQualification env m screened a = Inr (q, b)" for env m screened a q b
    using qualification_frame [OF that] by (intro attempts.frame)
qed (rule attempts.frame; simp)+

interpretation run_ledger: pipeline_relation ledger_step
proof
  show "ledger_step a b" if "same_platform a b" "same_runs a b" "db_stages b = db_stages a" for a b
    using that(1) by (intro ledger.frame) (simp_all add: same_platform_frame)
  show "ledger_step a b" if "same_platform a b" "same_runs a b" for a b
    using that(1) by (intro ledger.frame) (simp_all add: same_platform_frame)
  show "ledger_step a b" if "cancelRun now i p a = Inr (r, b)" for now i p a r b
    using cancelRun_frame [OF that] by (intro ledger.frame) (simp_all add: same_platform_frame)
  show "ledger_step a b" if "summarizeRun now i ends a = Inr b" for now i ends a b
    using summarizeRun_frame [OF that] by (intro ledger.frame) (simp_all add: same_platform_frame)
  show "ledger_step a b" if "cancelOpenAttempts now w reason sources a = Inr b" for now w reason sources a b
    using that by (rule ledger.handling.cancelOpenAttempts)
  show "ledger_step a b" if "insert_member m a = Inr (x, b)" for m a x b
    using insert_member_frame [OF that] by (intro ledger.frame)
  show "ledger_step a b" if "saveScreeningQualification env m screened a = Inr (q, b)" for env m screened a q b
    using qualification_frame [OF that] by (intro ledger.frame)
qed (rule ledger.frame; simp)+

interpretation run_work: pipeline_relation work_step
proof
  show "work_step a b" if "same_platform a b" "same_runs a b" "db_stages b = db_stages a" for a b
    using that(1) by (intro work.frame) (simp_all add: same_platform_frame)
  show "work_step a b" if "same_platform a b" "same_runs a b" for a b
    using that(1) by (intro work.frame) (simp_all add: same_platform_frame)
  show "work_step a b" if "cancelRun now i p a = Inr (r, b)" for now i p a r b
    using cancelRun_frame [OF that] by (intro work.frame) (simp_all add: same_platform_frame)
  show "work_step a b" if "summarizeRun now i ends a = Inr b" for now i ends a b
    using summarizeRun_frame [OF that] by (intro work.frame) (simp_all add: same_platform_frame)
  show "work_step a b" if "cancelOpenAttempts now w reason sources a = Inr b" for now w reason sources a b
    using that by (rule work.handling.cancelOpenAttempts)
  show "work_step a b" if "insert_member m a = Inr (x, b)" for m a x b
    using insert_member_frame [OF that] by (intro work.frame)
  show "work_step a b" if "saveScreeningQualification env m screened a = Inr (q, b)" for env m screened a q b
    using that by (rule work.saveScreeningQualification)
qed (rule work.frame; simp)+

subsection \<open>A cancellation is final\<close>

definition find_run :: "int \<Rightarrow> db \<Rightarrow> run_row option" where
  "find_run i db = first_where (\<lambda>r. run_id r = i) (db_runs db)"

definition cancelled_stay :: "db \<Rightarrow> db \<Rightarrow> bool" where
  "cancelled_stay a b \<longleftrightarrow> (\<forall>i r. find_run i a = Some r \<and> run_cancel_requested r \<noteq> None \<longrightarrow>
     (\<exists>s. find_run i b = Some s \<and> run_cancel_requested s = run_cancel_requested r
        \<and> (succeeded (run_status s) \<longrightarrow> succeeded (run_status r))))"

lemma cancelled_stay_frame: "db_runs b = db_runs a \<Longrightarrow> cancelled_stay a b"
  by (auto simp: cancelled_stay_def find_run_def)

lemma first_where_update:
  assumes "\<And>r. r \<in> set rs \<Longrightarrow> c r \<Longrightarrow> k (f r) = k r"
  shows "first_where (\<lambda>r. k r = i) (update_where c f rs) =
    map_option (\<lambda>r. if c r then f r else r) (first_where (\<lambda>r. k r = i) rs)"
  using assms by (induction rs) (auto simp: first_where_def)

lemma first_where_later: "first_where p rs = Some r \<Longrightarrow> first_where p (rs @ qs) = Some r"
  by (induction rs) (auto simp: first_where_def split: if_split_asm)

lemma cancelled_stay_update:
  assumes "\<And>r. r \<in> set (db_runs a) \<Longrightarrow> c r \<Longrightarrow> run_id (f r) = run_id r"
    and "\<And>i r. find_run i a = Some r \<Longrightarrow> c r \<Longrightarrow> calm_run r (f r)"
    and "db_runs b = update_where c f (db_runs a)"
  shows "cancelled_stay a b"
  unfolding cancelled_stay_def
proof (intro allI impI)
  fix i r
  assume r: "find_run i a = Some r \<and> run_cancel_requested r \<noteq> None"
  then have "find_run i b = Some (if c r then f r else r)"
    using first_where_update [of "db_runs a" c run_id f i] assms(1,3) by (simp add: find_run_def)
  then show "\<exists>s. find_run i b = Some s \<and> run_cancel_requested s = run_cancel_requested r
      \<and> (succeeded (run_status s) \<longrightarrow> succeeded (run_status r))"
    using assms(2) [of i r] r by (auto simp: calm_run_def)
qed

lemma cancelled_stay_summarize:
  assumes "summarizeRun now i ends a = Inr b"
  shows "cancelled_stay a b"
proof -
  obtain r counts where r: "find_run i a = Some r" "\<not> (ends \<and> run_cancel_requested r \<noteq> None)"
      "db_runs b = update_where (\<lambda>r. run_id r = i) (summary_values now ends counts) (db_runs a)"
    using assms by (auto simp: summarizeRun_def andThen_eq_Inr Let_def fetch_def save_row_Inr find_run_def
        split: if_split_asm option.split_asm)
  show ?thesis
  proof (rule cancelled_stay_update [OF _ _ r(3)])
    show "run_id (summary_values now ends counts q) = run_id q" for q by (simp add: summary_values_def)
    show "calm_run q (summary_values now ends counts q)" if "find_run j a = Some q" "run_id q = i" for j q
    proof -
      have "j = i" using that by (auto simp: find_run_def dest: first_where_SomeD)
      then have "q = r" using that r(1) by simp
      then show ?thesis using r(2) by (auto simp: calm_run_def summary_values_def)
    qed
  qed
qed

lemma cancelled_stay_cancel:
  assumes "cancelRun now i p a = Inr (x, b)"
  shows "cancelled_stay a b"
proof -
  obtain r where r: "find_run i a = Some r" and b: "b = a \<or> (run_cancel_requested r = None \<and>
      db_runs b = update_where (\<lambda>r. run_id r = i) (cancel_values now p) (db_runs a))"
    using assms by (auto simp: cancelRun_def andThen_eq_Inr fetch_def save_row_Inr find_run_def
        split: if_split_asm option.split_asm)
  show ?thesis
  proof (cases "b = a")
    case False
    then have u: "run_cancel_requested r = None"
        "db_runs b = update_where (\<lambda>r. run_id r = i) (cancel_values now p) (db_runs a)"
      using b by auto
    show ?thesis
    proof (rule cancelled_stay_update [OF _ _ u(2)])
      show "run_id (cancel_values now p q) = run_id q" for q by (simp add: cancel_values_def)
      show "calm_run q (cancel_values now p q)" if "find_run j a = Some q" "run_id q = i" for j q
      proof -
        have "j = i" using that by (auto simp: find_run_def dest: first_where_SomeD)
        then show ?thesis using that r u(1) by (simp add: calm_run_def cancel_values_def)
      qed
    qed
  qed (simp add: cancelled_stay_frame)
qed

lemma cancel_one_runs:
  assumes "cancel_one now reason sources x a = Inr b"
  shows "db_runs b = db_runs a"
proof (cases "sources \<noteq> [] \<and> att_source x \<notin> set sources")
  case False
  then obtain r c d where c: "save_attempt now (att_id x) (cancel_attempt_row now reason) a = Inr (r, c)"
    and d: "applicationState now (att_resume x) AppCancelled reason [(''attempt_id'', JNum (of_int (att_id x)))] c = Inr d"
    and b: "b = handling_event now x ''cancelled'' (Some (att_current_dept x)) None reason None None
          [(''cancel_reason'', JStr reason)] None d"
    using assms unfolding cancel_one_def by (auto simp: andThen_eq_Inr)
  have "db_runs (mark_dispatched now q e) = db_runs e" for q e by (simp add: mark_dispatched_def)
  then have "db_runs c = db_runs a" using c by (auto simp: save_attempt_Inr)
  moreover have "db_runs b = db_runs d" unfolding b by (simp add: handling_event_def)
  ultimately show ?thesis using applicationState_frame(14) [OF d] by simp
qed (use assms in \<open>auto simp: cancel_one_def\<close>)

lemma cancelOpenAttempts_runs:
  "cancelOpenAttempts now w reason sources a = Inr b \<Longrightarrow> db_runs b = db_runs a"
  unfolding cancelOpenAttempts_def by (erule foldE_relation) (simp_all add: cancel_one_runs)

interpretation withdrawal: pipeline_relation cancelled_stay
proof
  show "cancelled_stay a a" for a by (rule cancelled_stay_frame) simp
  show "cancelled_stay a c" if "cancelled_stay a b" "cancelled_stay b c" for a b c
    using that unfolding cancelled_stay_def by metis
  show "cancelled_stay a b" if "applicationState now r st why payload a = Inr b" for now r st why payload a b
    using that by (intro cancelled_stay_frame) (simp add: applicationState_frame)
  show "cancelled_stay a b" if "save_workflow i f a = Inr (w, b)" for i f a w b
    using that by (intro cancelled_stay_frame) (auto simp: save_workflow_Inr)
  show "cancelled_stay a (closePoolMemberships k x why a)" for k x why a
    by (rule cancelled_stay_frame) (simp add: closePoolMemberships_eq)
  show "cancelled_stay a b" if "same_platform a b" "same_runs a b" "db_stages b = db_stages a" for a b
    using that by (intro cancelled_stay_frame) (simp add: same_runs_def)
  show "cancelled_stay a b" if "same_platform a b" "same_runs a b" for a b
    using that by (intro cancelled_stay_frame) (simp add: same_runs_def)
  show "cancelled_stay a (a\<lparr>db_runs := update_where c f (db_runs a)\<rparr>)"
    if "\<And>r. r \<in> set (db_runs a) \<Longrightarrow> c r \<Longrightarrow> calm_run r (f r)" for a c f
  proof (rule cancelled_stay_update [where c = c and f = f])
    show "calm_run r (f r)" if "find_run i a = Some r" "c r" for i r
      using that \<open>\<And>r. r \<in> set (db_runs a) \<Longrightarrow> c r \<Longrightarrow> calm_run r (f r)\<close>
      by (auto simp: find_run_def dest: first_where_SomeD)
  qed (use that in \<open>simp_all add: calm_run_def\<close>)
  show "cancelled_stay a (a\<lparr>db_runs := db_runs a @ [r]\<rparr>)" for a r
    by (auto simp: cancelled_stay_def find_run_def first_where_later)
  show "cancelled_stay a b" if "cancelRun now i p a = Inr (r, b)" for now i p a r b
    using that by (rule cancelled_stay_cancel)
  show "cancelled_stay a b" if "summarizeRun now i ends a = Inr b" for now i ends a b
    using that by (rule cancelled_stay_summarize)
  show "cancelled_stay a b" if "cancelOpenAttempts now w reason sources a = Inr b" for now w reason sources a b
    using that by (intro cancelled_stay_frame cancelOpenAttempts_runs)
  show "cancelled_stay a b" if "insert_member m a = Inr (x, b)" for m a x b
    using insert_member_frame [OF that] by (intro cancelled_stay_frame)
  show "cancelled_stay a b" if "saveScreeningQualification env m screened a = Inr (q, b)" for env m screened a q b
    using qualification_frame [OF that] by (intro cancelled_stay_frame)
qed

end
