(* ===== verification/RunProtocol.thy ===== *)
theory RunProtocol
  imports RunProperties
begin

text \<open>
  What one call of executeRun does to its run, as a protocol: the inductive relation \<open>protocol\<close> allows
  a stage to begin or finish only after the stages before it have ended, the last stage of the analysis
  to finish only when no item of the run is open, and the final summary only after every stage. The
  parts of executeRun are put together by a total-correctness rule for their sequence: they return
  whenever the context of the worker ends at some point, they follow the protocol, and on success
  they establish what the next part needs.
\<close>

subsection \<open>Stages that have ended\<close>

definition ended :: "int \<Rightarrow> string \<Rightarrow> db \<Rightarrow> bool" where
  "ended i step db \<longleftrightarrow> (case stage_of i step db of None \<Rightarrow> True
     | Some s \<Rightarrow> stg_status s \<in> {SgSuccess, SgPartialFailed, SgNeedsAttention})"

definition all_ended :: "int \<Rightarrow> string list \<Rightarrow> db \<Rightarrow> bool" where
  "all_ended i steps db \<longleftrightarrow> (\<forall>s \<in> set steps. ended i s db)"

text \<open>The stages of a run in the order they are gone through; preparing is not one of them, because a
  worker that died after storing the prepared snapshots leaves it running.\<close>

definition schedule_of :: "run_row \<Rightarrow> string list" where
  "schedule_of run = [''queued'', ''initialize''] @ stageSteps (run_step run) @ [''finalize'']"

definition known_step :: "string \<Rightarrow> bool" where
  "known_step step \<longleftrightarrow> step \<in> {''all'', ''resume_process'', ''step1'', ''step2'', ''step3'', ''step4''}"

lemma schedule_distinct:
  assumes "known_step (run_step run)"
  shows "distinct (schedule_of run)" "''preparing'' \<notin> set (schedule_of run)"
  using assms by (auto simp: known_step_def schedule_of_def stageSteps_def)

text \<open>The state of runs and stages that the transactions on items leave alone.\<close>

definition stage_marks :: "db \<Rightarrow> (int \<times> string \<times> stage_status) list" where
  "stage_marks db = map (\<lambda>s. (stg_run s, stg_step s, stg_status s)) (db_stages db)"

definition run_marks :: "db \<Rightarrow> (int \<times> string \<times> run_status \<times> instant option) list" where
  "run_marks db = map (\<lambda>r. (run_id r, run_step r, run_status r, run_cancel_requested r)) (db_runs db)"

lemma find_map: "find p (map f xs) = map_option f (find (\<lambda>x. p (f x)) xs)"
  by (induction xs) simp_all

lemma ended_marks: "stage_marks b = stage_marks a \<Longrightarrow> ended i step b = ended i step a"
proof -
  have "ended i step db = (case find (\<lambda>m. fst m = i \<and> fst (snd m) = step) (stage_marks db) of None \<Rightarrow> True
      | Some m \<Rightarrow> snd (snd m) \<in> {SgSuccess, SgPartialFailed, SgNeedsAttention})" for db
    unfolding ended_def stage_of_def first_where_def stage_marks_def find_map
    by (cases "find (\<lambda>s. stg_run s = i \<and> stg_step s = step) (db_stages db)") simp_all
  then show "stage_marks b = stage_marks a \<Longrightarrow> ended i step b = ended i step a" by simp
qed

lemma all_ended_marks: "stage_marks b = stage_marks a \<Longrightarrow> all_ended i steps b = all_ended i steps a"
  unfolding all_ended_def by (simp only: ended_marks [of b a])

lemma all_ended_keep: "all_ended i steps a \<Longrightarrow> stage_marks b = stage_marks a \<Longrightarrow> all_ended i steps b"
  using all_ended_marks by blast

lemma stage_of_update:
  assumes "\<And>s. stg_run (f s) = stg_run s" "\<And>s. stg_step (f s) = stg_step s"
    and "db_stages b = update_where c f (db_stages a)"
  shows "stage_of i step b = map_option (\<lambda>s. if c s then f s else s) (stage_of i step a)"
  using first_where_update [of "db_stages a" c "\<lambda>s. (stg_run s, stg_step s)" f "(i, step)"] assms
  by (simp add: stage_of_def)

lemma begin_ended_other:
  assumes "beginStage now i step a = Inr b" and "s \<noteq> step"
  shows "ended i s b = ended i s a"
proof -
  have "db_stages b = update_where (\<lambda>s. stg_run s = i \<and> stg_step s = step \<and> stg_status s \<noteq> SgSuccess)
      (begin_stage_row now step) (db_stages a)"
    using assms(1) by (auto simp: beginStage_def Let_def split: if_split_asm)
  note u = stage_of_update [OF _ _ this, of i s]
  have "stage_of i s b = stage_of i s a"
  proof (cases "stage_of i s a")
    case None
    then show ?thesis using u by (simp add: begin_stage_row_def)
  next
    case (Some r)
    then have "stg_step r = s" by (simp add: stage_of_def) (drule first_where_SomeD, simp)
    then show ?thesis using u Some assms(2) by (simp add: begin_stage_row_def)
  qed
  then show ?thesis by (simp add: ended_def)
qed

lemma finish_ended:
  "ended i step (finishStage now i step a)" "ended i s a \<Longrightarrow> ended i s (finishStage now i step a)"
proof -
  have u: "stage_of i s (finishStage now i step a) =
      map_option (\<lambda>r. if stg_run r = i \<and> stg_step r = step then finish_stage_row now r else r) (stage_of i s a)" for s
  proof (rule stage_of_update)
    show "db_stages (finishStage now i step a) =
        update_where (\<lambda>r. stg_run r = i \<and> stg_step r = step) (finish_stage_row now) (db_stages a)"
      by (simp add: finishStage_def)
  qed (simp_all add: finish_stage_row_def Let_def)
  have f: "stg_status (finish_stage_row now r) \<in> {SgSuccess, SgPartialFailed, SgNeedsAttention}" for r
    by (simp add: finish_stage_row_def Let_def)
  show "ended i step (finishStage now i step a)"
  proof (cases "stage_of i step a")
    case None
    then show ?thesis using u [of step] by (simp add: ended_def)
  next
    case (Some r)
    then have "stg_run r = i \<and> stg_step r = step" by (simp add: stage_of_def) (drule first_where_SomeD, simp)
    then show ?thesis using u [of step] Some f [of r] by (simp add: ended_def)
  qed
  show "ended i s (finishStage now i step a)" if "ended i s a"
    using that f u [of s] by (cases "stage_of i s a") (simp_all add: ended_def)
qed

lemma all_ended_finish:
  "all_ended i steps a \<Longrightarrow> all_ended i (steps @ [step]) (finishStage now i step a)"
  by (auto simp: all_ended_def finish_ended)

lemma all_ended_begin:
  assumes "beginStage now i step a = Inr b" and "step \<notin> set steps"
  shows "all_ended i steps b = all_ended i steps a"
proof -
  have "ended i s b = ended i s a" if "s \<in> set steps" for s
    by (rule begin_ended_other [OF assms(1)]) (use that assms(2) in blast)
  then show ?thesis by (simp add: all_ended_def)
qed

subsection \<open>The protocol\<close>

inductive protocol :: "processing_env \<Rightarrow> int \<Rightarrow> string list \<Rightarrow> db \<Rightarrow> db \<Rightarrow> bool"
  for env :: processing_env and i :: int and steps :: "string list" where
  begins: "beginStage now i step a = Inr b \<Longrightarrow> steps = before @ step # after \<Longrightarrow> all_ended i before a \<Longrightarrow>
    protocol env i steps a b"
| finishes: "steps = before @ step # after \<Longrightarrow> all_ended i before a \<Longrightarrow>
    step = ''step4'' \<longrightarrow> open_items i a = [] \<Longrightarrow> protocol env i steps a (finishStage now i step a)"
| prepares: "beginStage now i ''preparing'' a = Inr b \<Longrightarrow> all_ended i [''queued'', ''initialize''] a \<Longrightarrow>
    protocol env i steps a b"
| prepared: "all_ended i [''queued'', ''initialize''] a \<Longrightarrow>
    protocol env i steps a (finishStage now i ''preparing'' a)"
| concludes: "summarizeRun now i True a = Inr b \<Longrightarrow> all_ended i (butlast steps) a \<Longrightarrow> protocol env i steps a b"
| works: "pipe_step env a b \<Longrightarrow> stage_marks b = stage_marks a \<Longrightarrow> run_marks b = run_marks a \<Longrightarrow>
    protocol env i steps a b"

lemma protocol_pipe_step: "protocol env i steps a b \<Longrightarrow> pipe_step env a b"
  by (induction rule: protocol.induct) (auto intro: pipe_step.intros)

lemma protocol_pipe_trace: "(protocol env i steps)\<^sup>*\<^sup>* a b \<Longrightarrow> pipe_trace env a b"
  by (induction rule: rtranclp_induct) (auto intro: rtranclp.rtrancl_into_rtrancl protocol_pipe_step)

text \<open>A run that has come to its end: the counts, the status and the end of the run are those of its
  items.\<close>

definition completed :: "int \<Rightarrow> string list \<Rightarrow> db \<Rightarrow> bool" where
  "completed i steps db \<longleftrightarrow> all_ended i steps db \<and> (\<exists>r. find_run i db = Some r \<and>
     run_cancel_requested r = None \<and> run_counts r = run_summary_counts i db \<and>
     run_status r = final_status (run_counts r) \<and> run_finished r \<noteq> None)"

subsection \<open>Transactions on items\<close>

definition keeps_runs :: "db \<Rightarrow> db \<Rightarrow> bool" where
  "keeps_runs a b \<longleftrightarrow> db_stages b = db_stages a \<and> db_runs b = db_runs a"

lemma cancel_one_stages:
  assumes "cancel_one now reason sources x a = Inr b"
  shows "db_stages b = db_stages a"
proof (cases "sources \<noteq> [] \<and> att_source x \<notin> set sources")
  case False
  then obtain r c d where c: "save_attempt now (att_id x) (cancel_attempt_row now reason) a = Inr (r, c)"
    and d: "applicationState now (att_resume x) AppCancelled reason [(''attempt_id'', JNum (of_int (att_id x)))] c = Inr d"
    and b: "b = handling_event now x ''cancelled'' (Some (att_current_dept x)) None reason None None
          [(''cancel_reason'', JStr reason)] None d"
    using assms unfolding cancel_one_def by (auto simp: andThen_eq_Inr)
  have "db_stages (mark_dispatched now q e) = db_stages e" for q e by (simp add: mark_dispatched_def)
  then have "db_stages c = db_stages a" using c by (auto simp: save_attempt_Inr)
  moreover have "db_stages b = db_stages d" unfolding b by (simp add: handling_event_def)
  ultimately show ?thesis using applicationState_frame [OF d] by simp
qed (use assms in \<open>auto simp: cancel_one_def\<close>)

lemma qualification_stages:
  assumes "saveScreeningQualification env m screened a = Inr (q, b)"
  shows "db_stages b = db_stages a"
proof -
  have "db_stages (snd (insert_qualification r c)) = db_stages c" for r c
    by (simp add: insert_qualification_def split: option.split)
  then show ?thesis
    using assms by (auto simp: saveScreeningQualification_def Let_def andThen_eq_Inr screened_source_def
        requalify_work_def update_work_def insert_work_def split: if_split_asm)
qed

interpretation bystander: item_relation keeps_runs
proof
  show "keeps_runs a a" for a by (simp add: keeps_runs_def)
  show "keeps_runs a c" if "keeps_runs a b" "keeps_runs b c" for a b c
    using that by (simp add: keeps_runs_def)
  show "keeps_runs a b" if "applicationState now r st why payload a = Inr b" for now r st why payload a b
    using that by (simp add: keeps_runs_def applicationState_frame)
  show "keeps_runs a b" if "save_workflow i f a = Inr (w, b)" for i f a w b
    using that by (auto simp: keeps_runs_def save_workflow_Inr)
  show "keeps_runs a (closePoolMemberships k x why a)" for k x why a
    by (simp add: keeps_runs_def closePoolMemberships_eq)
  show "keeps_runs a b" if "same_platform a b" "same_runs a b" "db_stages b = db_stages a" for a b
    using that by (simp add: keeps_runs_def same_runs_def)
  show "keeps_runs a b" if "cancelOpenAttempts now w reason sources a = Inr b" for now w reason sources a b
  proof -
    have "db_stages b = db_stages a"
      using that unfolding cancelOpenAttempts_def by (rule foldE_relation) (simp_all add: cancel_one_stages)
    then show ?thesis using cancelOpenAttempts_runs [OF that] by (simp add: keeps_runs_def)
  qed
  show "keeps_runs a b" if "insert_member m a = Inr (x, b)" for m a x b
    using that by (auto simp: keeps_runs_def insert_member_def Let_def split: if_split_asm)
  show "keeps_runs a b" if "saveScreeningQualification env m screened a = Inr (q, b)" for env m screened a q b
    using qualification_stages [OF that] qualification_frame(5) [OF that] by (simp add: keeps_runs_def)
qed

subsection \<open>Quiet steps\<close>

text \<open>Steps that leave the marks of runs and stages alone.\<close>

definition quiet_step :: "processing_env \<Rightarrow> db \<Rightarrow> db \<Rightarrow> bool" where
  "quiet_step env a b \<longleftrightarrow> pipe_step env a b \<and> stage_marks b = stage_marks a \<and> run_marks b = run_marks a"

abbreviation quiet_trace :: "processing_env \<Rightarrow> db \<Rightarrow> db \<Rightarrow> bool" where
  "quiet_trace env \<equiv> (quiet_step env)\<^sup>*\<^sup>*"

lemma quiet_traces:
  "quiet_step env a b \<Longrightarrow> quiet_trace env a b" "quiet_trace env a b \<Longrightarrow> quiet_trace env b c \<Longrightarrow> quiet_trace env a c"
  by auto

lemma quiet_trace_protocol: "quiet_trace env a b \<Longrightarrow> (protocol env i steps)\<^sup>*\<^sup>* a b"
  by (induction rule: rtranclp_induct) (auto simp: quiet_step_def intro: rtranclp.rtrancl_into_rtrancl protocol.works)

lemma quiet_trace_marks:
  "quiet_trace env a b \<Longrightarrow> stage_marks b = stage_marks a \<and> run_marks b = run_marks a"
  by (induction rule: rtranclp_induct) (auto simp: quiet_step_def)

lemma quiet_item: "pipe_step env a b \<Longrightarrow> keeps_runs a b \<Longrightarrow> quiet_trace env a b"
  by (rule quiet_traces(1)) (simp add: quiet_step_def keeps_runs_def stage_marks_def run_marks_def)

lemma update_where_marks: "(\<And>r. k (f r) = k r) \<Longrightarrow> map k (update_where c f rs) = map k rs"
  by (rule map_update_where_key)

lemma summarizeRun_marks:
  assumes "summarizeRun now i False a = Inr b"
  shows "stage_marks b = stage_marks a" "run_marks b = run_marks a"
  using assms
  by (auto simp: summarizeRun_def andThen_eq_Inr Let_def save_row_Inr stage_marks_def run_marks_def
      summary_values_def map_update_where_key split: option.split_asm)

lemma save_run_rows: "save_run i f a = Inr b \<Longrightarrow> b = a\<lparr>db_runs := update_where (\<lambda>r. run_id r = i) f (db_runs a)\<rparr>"
  by (auto simp: save_run_def andThen_eq_Inr save_row_Inr)

lemma quiet_save_run:
  assumes "save_run i f a = Inr b" and "pipe_step env a b"
    and "\<And>r. (run_id (f r), run_step (f r), run_status (f r), run_cancel_requested (f r)) =
      (run_id r, run_step r, run_status r, run_cancel_requested r)"
  shows "quiet_trace env a b"
proof -
  have "run_marks b = run_marks a"
    unfolding save_run_rows [OF assms(1)] run_marks_def by (simp add: map_update_where_key assms(3) del: prod.inject)
  then show ?thesis
    using assms(2) by (intro quiet_traces(1)) (simp add: quiet_step_def save_run_rows [OF assms(1)] stage_marks_def)
qed

lemma quiet_progress: "quiet_trace env a (preparationProgress run n a)"
proof (rule quiet_traces(1))
  have "stage_marks (preparationProgress run n a) = stage_marks a"
    by (simp add: preparationProgress_def stage_marks_def map_update_where_key)
  then show "quiet_step env a (preparationProgress run n a)"
    by (simp add: quiet_step_def pipe_step.progress) (simp add: preparationProgress_def run_marks_def)
qed

lemma quiet_statements:
  "loadPreparationData env a = Inr (d, b) \<Longrightarrow> quiet_trace env a b"
  "prepare_snapshot env fresh run pin d i a = Inr b \<Longrightarrow> quiet_trace env a b"
  "prepareItem now run j step a = Inr (c, b) \<Longrightarrow> quiet_trace env a b"
  "claimItem now tok run j a = Inr (x, b) \<Longrightarrow> quiet_trace env a b"
  "finishItem env now tok task run i w frozen answer a = Inr b \<Longrightarrow> quiet_trace env a b"
  "(\<And>r. same_item r (f r)) \<Longrightarrow> quiet_trace env a (set_item j f a)"
  "summarizeRun now k False a = Inr b \<Longrightarrow> quiet_trace env a b"
proof -
  show "loadPreparationData env a = Inr (d, b) \<Longrightarrow> quiet_trace env a b"
    by (rule quiet_item [OF pipe_step.catalogue bystander.loadPreparationData])
  show "prepare_snapshot env fresh run pin d i a = Inr b \<Longrightarrow> quiet_trace env a b"
    by (rule quiet_item [OF pipe_step.freeze bystander.prepare_snapshot])
  show "prepareItem now run j step a = Inr (c, b) \<Longrightarrow> quiet_trace env a b"
    by (rule quiet_item [OF pipe_step.prepare bystander.prepareItem])
  show "claimItem now tok run j a = Inr (x, b) \<Longrightarrow> quiet_trace env a b"
    by (rule quiet_item [OF pipe_step.claim bystander.claimItem])
  show "finishItem env now tok task run i w frozen answer a = Inr b \<Longrightarrow> quiet_trace env a b"
    by (rule quiet_item [OF pipe_step.finish bystander.finishItem])
  show "(\<And>r. same_item r (f r)) \<Longrightarrow> quiet_trace env a (set_item j f a)"
    by (rule quiet_item [OF pipe_step.work bystander.set_item]) (simp_all only:)
  show "summarizeRun now k False a = Inr b \<Longrightarrow> quiet_trace env a b"
    by (rule quiet_traces(1)) (simp add: quiet_step_def summarizeRun_marks pipe_step.summarize)
qed

lemma prepare_loop_quiet:
  "prepare_loop env stopped fresh run pin items data n a = (r, b) \<Longrightarrow> quiet_trace env a b"
proof (induction items arbitrary: data n a)
  case (Cons i items)
  show ?case
  proof (cases "stopped (itm_id i) = None \<and> unprepared i")
    case True
    show ?thesis
    proof (cases "case data of Some d \<Rightarrow> Inr (d, a) | None \<Rightarrow> loadPreparationData env a")
      case (Inr x)
      obtain d c where x: "x = (d, c)" by (cases x)
      have c: "quiet_trace env a c"
        using Inr x by (auto split: option.split_asm intro: quiet_statements(1))
      show ?thesis
      proof (cases "prepare_snapshot env fresh run pin d i c")
        case (Inr e)
        have "quiet_trace env c (preparationProgress run (n + 1) e)"
          using quiet_traces(2) [OF quiet_statements(2) [OF Inr] quiet_progress] .
        moreover have "quiet_trace env (preparationProgress run (n + 1) e) b"
          using Cons.prems True Inr x \<open>(case data of Some d \<Rightarrow> Inr (d, a) | None \<Rightarrow> loadPreparationData env a) = Inr x\<close>
          by (intro Cons.IH [of "Some d" "n + 1"]) simp
        ultimately show ?thesis using c by (blast intro: quiet_traces(2))
      qed (use Cons.prems True Inr x c in simp)
    qed (use Cons.prems True in simp)
  next
    case False
    then show ?thesis using Cons.prems Cons.IH [of data n a] by (auto split: option.split_asm if_split_asm)
  qed
qed simp

lemma prepareRunSnapshots_quiet:
  "prepareRunSnapshots env stopped fresh run pin a = (r, b) \<Longrightarrow> quiet_trace env a b"
  unfolding prepareRunSnapshots_def Let_def
  by (rule quiet_traces(2) [OF quiet_progress]) (erule prepare_loop_quiet)

lemma assess_item_quiet:
  assumes "assess_item extract analyse i a = (work, frozen, b)"
  shows "quiet_trace env a b"
proof -
  have keep: "\<And>x frozen. same_item x (x\<lparr>itm_snapshot := frozen\<rparr>)" "\<And>x v. same_item x (x\<lparr>itm_node := v\<rparr>)"
      "\<And>x m v. same_item x (x\<lparr>itm_extraction := m, itm_node := v\<rparr>)"
    by (simp_all add: same_item_def)
  have three: "quiet_trace env a (set_item k (\<lambda>r. r\<lparr>itm_snapshot := z\<rparr>)
      (set_item k (\<lambda>r. r\<lparr>itm_extraction := m, itm_node := v\<rparr>) a))" for k z m v
    by (rule quiet_traces(2); rule quiet_statements(6); simp add: keep)
  then have "quiet_trace env a (set_item k (\<lambda>r. r\<lparr>itm_node := u\<rparr>) (set_item k (\<lambda>r. r\<lparr>itm_snapshot := z\<rparr>)
      (set_item k (\<lambda>r. r\<lparr>itm_extraction := m, itm_node := v\<rparr>) a)))" for k z m v u
    by (rule quiet_traces(2)) (rule quiet_statements(6), simp add: keep)
  with three show ?thesis
    using assms by (auto simp: assess_item_def Let_def split: if_split_asm sum.split_asm)
qed

lemma processItem_quiet:
  assumes "processItem env wo n run i a = (r, b)"
  shows "quiet_trace env a b"
proof (cases "claimItem (wo_clock wo n) (wo_token wo n) run i a")
  case (Inr x)
  obtain y c where x: "x = (y, c)" by (cases x)
  have c: "quiet_trace env a c" using quiet_statements(4) Inr x by blast
  show ?thesis
  proof (cases y)
    case (Some z)
    obtain item w where z: "z = (item, w)" by (cases z)
    obtain work frozen d where d: "assess_item (wo_extract wo) (wo_analyse wo) item c = (work, frozen, d)"
      by (cases "assess_item (wo_extract wo) (wo_analyse wo) item c")
    have "quiet_trace env d b"
      using assms Inr x Some z d
      by (auto simp: processItem_def split: option.split_asm sum.split_asm intro: quiet_statements(5))
    then show ?thesis using c assess_item_quiet [OF d] by (blast intro: quiet_traces(2))
  qed (use assms Inr x c in \<open>simp add: processItem_def\<close>)
qed (use assms in \<open>simp add: processItem_def\<close>)

lemma process_round_quiet:
  "process_round env wo n run items (r, a) = (s, b) \<Longrightarrow> quiet_trace env a b"
proof (induction items arbitrary: n r a)
  case (Cons i items)
  obtain t c where c: "processItem env wo n run (itm_id i) a = (t, c)"
    by (cases "processItem env wo n run (itm_id i) a")
  then show ?case
    using Cons.prems Cons.IH [of "n + 2" _ c] processItem_quiet [OF c] by (auto intro: quiet_traces(2))
qed simp

subsection \<open>Loops that return\<close>

text \<open>The context of the worker ends with the \<open>N\<close>-th operation at the latest.\<close>

definition ends_by :: "nat \<Rightarrow> world \<Rightarrow> bool" where
  "ends_by N wo \<longleftrightarrow> (\<forall>n \<ge> N. wo_stopped wo n \<noteq> None)"

text \<open>A part of executeRun that returns, having done quiet steps only.\<close>

definition quietly :: "processing_env \<Rightarrow> (db \<Rightarrow> bool) \<Rightarrow> outcome \<Rightarrow> db \<Rightarrow> bool" where
  "quietly env Q res a \<longleftrightarrow> (\<exists>r m b. res = Some (r, m, b) \<and> quiet_trace env a b \<and> (r = Inr () \<longrightarrow> Q b))"

lemma quietly_Some:
  "quiet_trace env a b \<Longrightarrow> (r = Inr () \<Longrightarrow> Q b) \<Longrightarrow> quietly env Q (Some (r, m, b)) a"
  by (auto simp: quietly_def)

lemma quietly_before: "quiet_trace env a c \<Longrightarrow> quietly env Q res c \<Longrightarrow> quietly env Q res a"
  unfolding quietly_def by (blast intro: quiet_traces(2))

lemma quietly_followed:
  assumes "quietly env P res a" and "\<And>n b. P b \<Longrightarrow> quietly env Q (k n b) b"
  shows "quietly env Q (followed_by res k) a"
proof -
  obtain r m b where r: "res = Some (r, m, b)" "quiet_trace env a b" "r = Inr () \<Longrightarrow> P b"
    using assms(1) by (auto simp: quietly_def)
  show ?thesis
  proof (cases r)
    case (Inl e)
    then show ?thesis using r by (auto simp: followed_by_def quietly_def)
  next
    case (Inr u)
    then show ?thesis using r assms(2) [of b m] quietly_before [OF r(2)] by (simp add: followed_by_def)
  qed
qed

lemma quietly_stored:
  assumes "\<And>b. f (wo_clock wo n) a = Inr b \<Longrightarrow> quiet_trace env a b \<and> Q b"
  shows "quietly env Q (stored wo f n a) a"
  using assms by (auto simp: stored_def quietly_def split: sum.split)

lemma prepare_until_quietly:
  "ends_by N wo \<Longrightarrow> N - n < fuel \<Longrightarrow> quietly env (\<lambda>_. True) (prepare_until fuel wo n run i step a) a"
proof (induction fuel arbitrary: n a)
  case (Suc fuel)
  show ?case
  proof (cases "wo_stopped wo n")
    case None
    then have n: "n < N" using Suc.prems(1) by (metis ends_by_def not_le)
    show ?thesis
    proof (cases "prepareItem (wo_clock wo n) run i step a")
      case (Inr x)
      obtain c b where x: "x = (c, b)" by (cases x)
      have b: "quiet_trace env a b" using quiet_statements(3) Inr x by blast
      have "quietly env (\<lambda>_. True) (prepare_until fuel wo (n + 1) run i step b) b"
        using Suc.IH [of "n + 1" b] Suc.prems n by simp
      then show ?thesis using None Inr x b quietly_before [OF b]
        by (cases c) (simp_all add: quietly_Some)
    qed (use None in \<open>simp add: quietly_Some\<close>)
  qed (simp add: quietly_Some)
qed simp

lemma prepare_rounds_quietly:
  assumes "ends_by N wo" and "N < fuel"
  shows "quietly env (\<lambda>_. True) (prepare_rounds fuel wo run step items n a) a"
proof (induction items arbitrary: n a)
  case (Cons i items)
  have "quietly env (\<lambda>_. True) (prepare_until fuel wo n run (itm_id i) step a) a"
    by (rule prepare_until_quietly [OF assms(1)]) (use assms(2) in simp)
  then show ?case using Cons.IH by (simp add: quietly_followed)
qed (simp add: quietly_Some)

lemma prepareItems_quietly:
  assumes "ends_by N wo" and "N < fuel"
  shows "quietly env (\<lambda>_. True) (prepareItems fuel wo n run step a) a"
  unfolding prepareItems_def
  by (rule quietly_followed [OF prepare_rounds_quietly [OF assms]], rule quietly_stored)
     (simp add: quiet_statements(7))

lemma analyzeItems_quietly:
  "ends_by N wo \<Longrightarrow> N - n < fuel \<Longrightarrow>
    quietly env (\<lambda>b. open_items (run_id run) b = []) (analyzeItems fuel env wo n run a) a"
proof (induction fuel arbitrary: n a)
  case (Suc fuel)
  let ?items = "open_items (run_id run) a" and ?Q = "\<lambda>b. open_items (run_id run) b = []"
  let ?m = "n + 1 + 2 * length ?items"
  show ?case
  proof (cases "wo_stopped wo n = None \<and> ?items \<noteq> []")
    case True
    then have n: "n < N" using Suc.prems(1) by (metis ends_by_def not_le)
    obtain s c where c: "process_round env wo (n + 1) run ?items (Inr (), a) = (s, c)"
      by (cases "process_round env wo (n + 1) run ?items (Inr (), a)")
    have q: "quiet_trace env a c" by (rule process_round_quiet [OF c])
    have rest: "quietly env ?Q (followed_by (stored wo (\<lambda>now. summarizeRun now (run_id run) False) ?m c)
        (\<lambda>n db. analyzeItems fuel env wo n run db)) c"
    proof (cases "summarizeRun (wo_clock wo ?m) (run_id run) False c")
      case (Inl e)
      then show ?thesis by (simp add: stored_def followed_by_def) (rule quietly_Some, simp_all)
    next
      case (Inr d)
      have "quietly env ?Q (analyzeItems fuel env wo (?m + 1) run d) d"
        by (rule Suc.IH [OF Suc.prems(1)]) (use Suc.prems(2) n in simp)
      then show ?thesis
        using quietly_before [OF quiet_statements(7) [OF Inr]] Inr by (simp add: stored_def followed_by_def)
    qed
    show ?thesis
    proof (cases s)
      case (Inl e)
      then show ?thesis using True c by (simp add: Let_def) (rule quietly_Some [OF q], simp)
    next
      case (Inr u)
      then show ?thesis using True c quietly_before [OF q rest] by (simp add: Let_def)
    qed
  next
    case False
    then show ?thesis by (cases "wo_stopped wo n") (auto simp: quietly_def Let_def)
  qed
qed simp

subsection \<open>Parts of a run\<close>

text \<open>Total correctness of a part of executeRun: it returns, follows the protocol, and establishes \<open>Q\<close>
  unless it fails.\<close>

definition carries_on :: "processing_env \<Rightarrow> int \<Rightarrow> string list \<Rightarrow> (db \<Rightarrow> bool) \<Rightarrow> (nat \<Rightarrow> db \<Rightarrow> outcome)
    \<Rightarrow> (db \<Rightarrow> bool) \<Rightarrow> bool" where
  "carries_on env i steps P f Q \<longleftrightarrow> (\<forall>n a. P a \<longrightarrow>
     (\<exists>r m b. f n a = Some (r, m, b) \<and> (protocol env i steps)\<^sup>*\<^sup>* a b \<and> (r = Inr () \<longrightarrow> Q b)))"

lemma carries_on_followed:
  assumes "carries_on env i steps P f Q" and "carries_on env i steps Q g S"
  shows "carries_on env i steps P (\<lambda>n a. followed_by (f n a) g) S"
  unfolding carries_on_def
proof (intro allI impI)
  fix n a assume "P a"
  then obtain r m b where f: "f n a = Some (r, m, b)" "(protocol env i steps)\<^sup>*\<^sup>* a b" "r = Inr () \<longrightarrow> Q b"
    using assms(1) unfolding carries_on_def by blast
  show "\<exists>r m b. followed_by (f n a) g = Some (r, m, b) \<and> (protocol env i steps)\<^sup>*\<^sup>* a b \<and> (r = Inr () \<longrightarrow> S b)"
  proof (cases r)
    case (Inl e)
    then show ?thesis using f by (simp add: followed_by_def)
  next
    case (Inr u)
    then have "Q b" using f(3) by simp
    then obtain r' m' c where "g m b = Some (r', m', c)" "(protocol env i steps)\<^sup>*\<^sup>* b c" "r' = Inr () \<longrightarrow> S c"
      using assms(2) unfolding carries_on_def by blast
    then show ?thesis using f(1,2) Inr by (auto simp: followed_by_def)
  qed
qed

lemma carries_on_followed':
  "carries_on env i steps P f Q \<Longrightarrow> carries_on env i steps Q (\<lambda>n a. g n a) S \<Longrightarrow>
    carries_on env i steps P (\<lambda>n a. followed_by (f n a) (\<lambda>n a. g n a)) S"
  by (rule carries_on_followed)

lemma carries_on_skip: "(\<And>a. P a \<Longrightarrow> Q a) \<Longrightarrow> carries_on env i steps P (\<lambda>n a. Some (Inr (), n, a)) Q"
  by (simp add: carries_on_def)

lemma carries_on_stored:
  assumes "\<And>now a b. P a \<Longrightarrow> f now a = Inr b \<Longrightarrow> (protocol env i steps)\<^sup>*\<^sup>* a b \<and> Q b"
  shows "carries_on env i steps P (stored wo f) Q"
  unfolding carries_on_def
proof (intro allI impI)
  fix n a assume "P a"
  then show "\<exists>r m b. stored wo f n a = Some (r, m, b) \<and> (protocol env i steps)\<^sup>*\<^sup>* a b \<and> (r = Inr () \<longrightarrow> Q b)"
    using assms [of a "wo_clock wo n"] by (cases "f (wo_clock wo n) a") (simp_all add: stored_def)
qed

lemma carries_on_quietly:
  assumes "\<And>n a. P a \<Longrightarrow> quietly env Q (f n a) a"
    and "\<And>a b. P a \<Longrightarrow> stage_marks b = stage_marks a \<Longrightarrow> run_marks b = run_marks a \<Longrightarrow> Q b \<Longrightarrow> S b"
  shows "carries_on env i steps P f S"
  unfolding carries_on_def
proof (intro allI impI)
  fix n a assume P: "P a"
  then obtain r m b where r: "f n a = Some (r, m, b)" "quiet_trace env a b" "r = Inr () \<longrightarrow> Q b"
    using assms(1) unfolding quietly_def by blast
  then show "\<exists>r m b. f n a = Some (r, m, b) \<and> (protocol env i steps)\<^sup>*\<^sup>* a b \<and> (r = Inr () \<longrightarrow> S b)"
    using assms(2) [OF P] quiet_trace_marks [OF r(2)] quiet_trace_protocol [OF r(2)] by auto
qed

lemma carries_on_if:
  "(c \<Longrightarrow> carries_on env i steps P f Q) \<Longrightarrow> (\<not> c \<Longrightarrow> carries_on env i steps P g Q) \<Longrightarrow>
    carries_on env i steps P (\<lambda>n a. if c then f n a else g n a) Q"
  by (cases c) simp_all

lemma begin_part:
  assumes "steps = before @ step # after" and "distinct steps"
  shows "carries_on env i steps (all_ended i before) (stored wo (\<lambda>now. beginStage now i step)) (all_ended i before)"
proof (rule carries_on_stored)
  fix now a b assume "all_ended i before a" and b: "beginStage now i step a = Inr b"
  then show "(protocol env i steps)\<^sup>*\<^sup>* a b \<and> all_ended i before b"
    using protocol.begins [OF b assms(1)] all_ended_begin [OF b] assms by auto
qed

lemma finish_part:
  assumes "steps = before @ step # after"
    and "\<And>a. P a \<Longrightarrow> all_ended i before a \<and> (step = ''step4'' \<longrightarrow> open_items i a = [])"
  shows "carries_on env i steps P (finish_at wo i step) (all_ended i (before @ [step]))"
  unfolding finish_at_def
proof (rule carries_on_stored)
  fix now a b assume P: "P a" and b: "Inr (finishStage now i step a) = Inr b"
  then show "(protocol env i steps)\<^sup>*\<^sup>* a b \<and> all_ended i (before @ [step]) b"
    using protocol.finishes [OF assms(1)] assms(2) [OF P] all_ended_finish by auto
qed

lemma prepare_part:
  assumes "run_id run = i"
  shows "carries_on env i steps (all_ended i [''queued'', ''initialize'']) (prepare_stage env wo run pin)
    (all_ended i [''queued'', ''initialize''])" (is "carries_on _ _ _ ?P _ _")
proof -
  have begins: "carries_on env i steps ?P (stored wo (\<lambda>now. beginStage now i ''preparing'')) ?P"
  proof (rule carries_on_stored)
    fix now a b assume "?P a" and b: "beginStage now i ''preparing'' a = Inr b"
    then show "(protocol env i steps)\<^sup>*\<^sup>* a b \<and> ?P b"
      using protocol.prepares [OF b] all_ended_begin [OF b] by auto
  qed
  have finishes: "carries_on env i steps ?P (finish_at wo i ''preparing'') ?P"
    unfolding finish_at_def
  proof (rule carries_on_stored)
    fix now a b assume "?P a" and b: "Inr (finishStage now i ''preparing'' a) = Inr b"
    then show "(protocol env i steps)\<^sup>*\<^sup>* a b \<and> ?P b"
      using protocol.prepared [of i a] finish_ended(2) by (auto simp: all_ended_def)
  qed
  have snapshots: "carries_on env i steps ?P (\<lambda>n a. let (r, db) = prepareRunSnapshots env (\<lambda>i. wo_stopped wo n)
      (wo_fresh wo) run pin a in Some (r, n + 1, db)) ?P"
  proof (rule carries_on_quietly [where Q = "\<lambda>_. True"])
    fix n a
    show "quietly env (\<lambda>_. True) (let (r, db) = prepareRunSnapshots env (\<lambda>i. wo_stopped wo n)
      (wo_fresh wo) run pin a in Some (r, n + 1, db)) a"
      by (cases "prepareRunSnapshots env (\<lambda>i. wo_stopped wo n) (wo_fresh wo) run pin a")
         (auto simp: quietly_def dest: prepareRunSnapshots_quiet)
  qed (erule all_ended_keep)
  have ready: "carries_on env i steps ?P (stored wo (\<lambda>now. save_run i (ready_params (run_params run)))) ?P"
  proof (rule carries_on_quietly [where Q = "\<lambda>_. True"], rule quietly_stored)
    fix n a b assume b: "save_run i (ready_params (run_params run)) a = Inr b"
    show "quiet_trace env a b \<and> True"
      using quiet_save_run [OF b pipe_step.ready [OF b]] by (simp add: ready_params_def)
  qed (erule all_ended_keep)
  show ?thesis
    unfolding prepare_stage_def assms
  proof (rule carries_on_if, rule carries_on_skip, assumption, rule carries_on_followed')
    show "carries_on env i steps ?P (\<lambda>n a. if run_step run = ''step1'' then Some (Inr (), n, a)
        else stored wo (\<lambda>now. beginStage now i ''preparing'') n a) ?P"
      by (rule carries_on_if, rule carries_on_skip, assumption, rule begins)
    show "carries_on env i steps ?P (\<lambda>n db. followed_by (let (r, db) = prepareRunSnapshots env (\<lambda>i. wo_stopped wo n)
          (wo_fresh wo) run pin db in Some (r, n + 1, db)) (\<lambda>n db.
        followed_by (stored wo (\<lambda>now. save_run i (ready_params (run_params run))) n db) (\<lambda>n db.
          if run_step run = ''step1'' then Some (Inr (), n, db) else finish_at wo i ''preparing'' n db))) ?P"
      by (rule carries_on_followed' [OF snapshots], rule carries_on_followed' [OF ready],
          rule carries_on_if, rule carries_on_skip, assumption, rule finishes)
  qed
qed

lemma stage_part:
  assumes "steps = before @ step # after" and "distinct steps" and "run_id run = i" and "ends_by N wo" and "N < fuel"
  shows "carries_on env i steps (all_ended i before) (run_stage_step fuel env wo run step)
    (all_ended i (before @ [step]))"
proof -
  let ?body = "\<lambda>n db. followed_by (stored wo (\<lambda>now. beginStage now i step) n db) (\<lambda>n db.
     followed_by (if step = ''step4'' then analyzeItems fuel env wo n run db else prepareItems fuel wo n run step db)
       (finish_at wo i step))"
  let ?P = "\<lambda>db. all_ended i before db \<and> (step = ''step4'' \<longrightarrow> open_items i db = [])"
  have loops: "carries_on env i steps (all_ended i before) (\<lambda>n db. if step = ''step4''
      then analyzeItems fuel env wo n run db else prepareItems fuel wo n run step db) ?P"
  proof (rule carries_on_quietly [where Q = "\<lambda>db. step = ''step4'' \<longrightarrow> open_items i db = []"])
    fix n a
    show "quietly env (\<lambda>db. step = ''step4'' \<longrightarrow> open_items i db = []) (if step = ''step4''
        then analyzeItems fuel env wo n run a else prepareItems fuel wo n run step a) a"
      using analyzeItems_quietly [OF assms(4), where n = n and fuel = fuel and env = env and run = run and a = a]
        prepareItems_quietly [OF assms(4,5), where env = env and run = run and step = step and n = n and a = a]
        assms(3,5) by simp
  qed (auto elim: all_ended_keep)
  have body: "carries_on env i steps (all_ended i before) ?body (all_ended i (before @ [step]))"
    by (rule carries_on_followed [OF begin_part [OF assms(1,2)]], rule carries_on_followed [OF loops])
       (rule finish_part [OF assms(1)])
  show ?thesis
    unfolding carries_on_def
  proof (intro allI impI)
    fix n a assume P: "all_ended i before a"
    show "\<exists>r m b. run_stage_step fuel env wo run step n a = Some (r, m, b) \<and> (protocol env i steps)\<^sup>*\<^sup>* a b
        \<and> (r = Inr () \<longrightarrow> all_ended i (before @ [step]) b)"
    proof (cases "stage_of i step a")
      case None
      then show ?thesis by (simp add: run_stage_step_def assms(3))
    next
      case (Some s)
      then show ?thesis
        using P body unfolding carries_on_def
        by (cases "stg_status s = SgSuccess") (auto simp: run_stage_step_def assms(3) all_ended_def ended_def)
    qed
  qed
qed

lemma steps_part:
  assumes "steps = before @ rest @ after" and "distinct steps" and "run_id run = i" and "ends_by N wo" and "N < fuel"
  shows "carries_on env i steps (all_ended i before) (run_steps fuel env wo run rest) (all_ended i (before @ rest))"
  using assms(1)
proof (induction rest arbitrary: before)
  case Nil
  then show ?case by (simp add: carries_on_skip)
next
  case (Cons step rest)
  have "carries_on env i steps (all_ended i (before @ [step])) (run_steps fuel env wo run rest)
      (all_ended i ((before @ [step]) @ rest))"
    by (rule Cons.IH) (simp add: Cons.prems)
  moreover have "carries_on env i steps (all_ended i before) (run_stage_step fuel env wo run step)
      (all_ended i (before @ [step]))"
    by (rule stage_part [OF _ assms(2-5)]) (simp add: Cons.prems)
  ultimately show ?case by (simp add: carries_on_followed)
qed

text \<open>The final summary, and that closing the last stage keeps it.\<close>

lemma summarizeRun_concludes:
  assumes "summarizeRun now i True a = Inr b"
  shows "stage_marks b = stage_marks a" and "\<exists>r. find_run i b = Some r \<and> run_cancel_requested r = None \<and>
    run_counts r = run_summary_counts i b \<and> run_status r = final_status (run_counts r) \<and> run_finished r \<noteq> None"
proof -
  show "stage_marks b = stage_marks a"
    using assms by (auto simp: summarizeRun_def andThen_eq_Inr Let_def save_row_Inr stage_marks_def
        map_update_where_key split: option.split_asm if_split_asm)
  obtain r where r: "find_run i a = Some r" "run_cancel_requested r = None"
      "db_runs b = update_where (\<lambda>r. run_id r = i) (summary_values now True (run_summary_counts i a)) (db_runs a)"
      "db_items b = db_items a" "db_decisions b = db_decisions a"
    using assms by (auto simp: summarizeRun_def andThen_eq_Inr Let_def fetch_def save_row_Inr find_run_def
        split: if_split_asm option.split_asm)
  have "find_run i b = Some (summary_values now True (run_summary_counts i a) r)"
    using r(1) first_where_SomeD [OF r(1) [unfolded find_run_def]] unfolding find_run_def r(3)
    by (subst first_where_update) (simp_all add: summary_values_def)
  moreover have "run_summary_counts i b = run_summary_counts i a"
    using r(4,5) by (simp add: run_summary_counts_def count_items_def recommended_def)
  ultimately show "\<exists>r. find_run i b = Some r \<and> run_cancel_requested r = None \<and>
      run_counts r = run_summary_counts i b \<and> run_status r = final_status (run_counts r) \<and> run_finished r \<noteq> None"
    using r(2) by (simp add: summary_values_def)
qed

lemma finalize_part:
  assumes "steps = before @ [''finalize'']" and "distinct steps"
  shows "carries_on env i steps (all_ended i before) (finalize_run wo i) (completed i steps)"
proof -
  let ?summarized = "\<lambda>db. \<exists>r. find_run i db = Some r \<and> run_cancel_requested r = None \<and>
    run_counts r = run_summary_counts i db \<and> run_status r = final_status (run_counts r) \<and> run_finished r \<noteq> None"
  let ?P = "\<lambda>db. all_ended i before db \<and> ?summarized db"
  have summary: "carries_on env i steps (all_ended i before) (stored wo (\<lambda>now. summarizeRun now i True)) ?P"
  proof (rule carries_on_stored)
    fix now a b assume P: "all_ended i before a" and b: "summarizeRun now i True a = Inr b"
    have "protocol env i steps a b" by (rule protocol.concludes [OF b]) (simp add: assms(1) P)
    moreover have "all_ended i before b"
      using P by (simp only: all_ended_marks [OF summarizeRun_concludes(1) [OF b]])
    ultimately show "(protocol env i steps)\<^sup>*\<^sup>* a b \<and> ?P b"
      using summarizeRun_concludes(2) [OF b] by blast
  qed
  have finish: "carries_on env i steps ?P (finish_at wo i ''finalize'') (completed i steps)"
    unfolding finish_at_def
  proof (rule carries_on_stored)
    fix now a b assume P: "?P a" and "Inr (finishStage now i ''finalize'' a) = Inr b"
    then have b: "b = finishStage now i ''finalize'' a" by simp
    have "protocol env i steps a b"
      unfolding b by (rule protocol.finishes [of _ before _ "[]"]) (use assms(1) P in simp_all)
    moreover have "all_ended i steps b"
      unfolding b assms(1) by (rule all_ended_finish) (use P in simp)
    moreover have "find_run i b = find_run i a" "run_summary_counts i b = run_summary_counts i a"
      by (simp_all add: b finishStage_def find_run_def run_summary_counts_def count_items_def recommended_def)
    ultimately show "(protocol env i steps)\<^sup>*\<^sup>* a b \<and> completed i steps b"
      using P unfolding completed_def by auto
  qed
  show ?thesis
    unfolding finalize_run_def
    by (rule carries_on_followed [OF begin_part [OF _ assms(2)]], rule assms(1),
        rule carries_on_followed [OF summary finish])
qed

lemma find_run_step:
  assumes "map (\<lambda>r. (run_id r, run_step r)) (db_runs b) = map (\<lambda>r. (run_id r, run_step r)) (db_runs a)"
  shows "map_option run_step (find_run i b) = map_option run_step (find_run i a)"
proof -
  have "map_option run_step (find_run i db) = map_option snd (find (\<lambda>p. fst p = i) (map (\<lambda>r. (run_id r, run_step r)) (db_runs db)))" for db
    by (simp add: find_run_def first_where_def find_map option.map_comp comp_def)
  then show ?thesis using assms by simp
qed

lemma beginStage_steps:
  assumes "beginStage now i step a = Inr b"
  shows "map (\<lambda>r. (run_id r, run_step r)) (db_runs b) = map (\<lambda>r. (run_id r, run_step r)) (db_runs a)"
  using assms by (auto simp: beginStage_def Let_def map_update_where_key split: if_split_asm)

text \<open>The pin of the runtime is stored after the stage \<open>initialize\<close> has begun.\<close>

lemma initialize_part:
  assumes "steps = ''queued'' # ''initialize'' # after" and "distinct steps" and "run_id run = i"
    and "all_ended i [''queued''] a" and "initialize_run env wo n run a = (r, m, b)"
  shows "(protocol env i steps)\<^sup>*\<^sup>* a b" and "all_ended i [''queued''] b"
    and "map_option run_step (find_run i b) = map_option run_step (find_run i a)"
proof -
  have "(protocol env i steps)\<^sup>*\<^sup>* a b \<and> all_ended i [''queued''] b \<and>
      map_option run_step (find_run i b) = map_option run_step (find_run i a)"
  proof (cases "b = a")
    case False
    then obtain c where c: "beginStage (wo_clock wo n) i ''initialize'' a = Inr c"
        and b: "b = c \<or> (\<exists>params pin model. save_run i (initialized_run env params pin model) c = Inr b)"
      using assms(3,5) by (auto simp: initialize_run_def Let_def split: if_split_asm sum.split_asm prod.split_asm)
    have "protocol env i steps a c"
      by (rule protocol.begins [OF c, of _ "[''queued'']"]) (use assms(1,4) in simp_all)
    moreover have q: "all_ended i [''queued''] c"
      using all_ended_begin [OF c, of "[''queued'']"] assms(4) by simp
    moreover have s: "map_option run_step (find_run i c) = map_option run_step (find_run i a)"
      by (rule find_run_step) (rule beginStage_steps [OF c])
    ultimately show ?thesis
    proof (cases "b = c")
      case False
      then obtain params pin model where d: "save_run i (initialized_run env params pin model) c = Inr b" using b by blast
      have "quiet_trace env c b"
        by (rule quiet_save_run [OF d pipe_step.initialize [OF d]]) (simp add: initialized_run_def)
      then have "(protocol env i steps)\<^sup>*\<^sup>* c b" "stage_marks b = stage_marks c"
        using quiet_trace_protocol quiet_trace_marks by blast+
      moreover have "map_option run_step (find_run i b) = map_option run_step (find_run i c)"
        by (rule find_run_step) (simp add: save_run_rows [OF d] map_update_where_key initialized_run_def)
      moreover have "all_ended i [''queued''] b"
        using q by (simp only: all_ended_marks [OF \<open>stage_marks b = stage_marks c\<close>])
      ultimately show ?thesis
        using \<open>protocol env i steps a c\<close> s by (auto intro: converse_rtranclp_into_rtranclp)
    qed auto
  qed (use assms(4) in simp)
  then show "(protocol env i steps)\<^sup>*\<^sup>* a b" and "all_ended i [''queued''] b"
    and "map_option run_step (find_run i b) = map_option run_step (find_run i a)" by blast+
qed

subsection \<open>A whole run\<close>

lemma fetch_find_run: "fetch run_id i (db_runs db) = (case find_run i db of None \<Rightarrow> Inl not_found | Some r \<Rightarrow> Inr r)"
  by (simp add: fetch_def find_run_def)

lemma execute_live_protocol:
  assumes "find_run i a = Some run" and "known_step (run_step run)" and "ends_by N wo" and "N < fuel"
  shows "\<exists>r m b. execute_live fuel env wo i run a = Some (r, m, b) \<and>
    (protocol env i (schedule_of run))\<^sup>*\<^sup>* a b \<and> (r = Inr () \<longrightarrow> completed i (schedule_of run) b)"
proof -
  let ?steps = "schedule_of run" and ?c = "finishStage (wo_clock wo 0) i ''queued'' a"
  note dist = schedule_distinct(1) [OF assms(2)]
  have id: "run_id run = i" using first_where_SomeD [OF assms(1) [unfolded find_run_def]] by simp
  have c: "(protocol env i ?steps)\<^sup>*\<^sup>* a ?c"
    by (rule r_into_rtranclp, rule protocol.finishes [of _ "[]"]) (simp_all add: schedule_of_def all_ended_def)
  have q: "all_ended i [''queued''] ?c" by (simp add: all_ended_def finish_ended)
  have fc: "find_run i ?c = Some run" using assms(1) by (simp add: find_run_def finishStage_def)
  obtain p n d where d: "initialize_run env wo 1 run ?c = (p, n, d)" by (cases "initialize_run env wo 1 run ?c")
  have s: "?steps = ''queued'' # ''initialize'' # (stageSteps (run_step run) @ [''finalize''])"
    by (simp add: schedule_of_def)
  note init = initialize_part [OF s dist id q d]
  have ad: "(protocol env i ?steps)\<^sup>*\<^sup>* a d" using c init(1) by simp
  have step: "execute_live fuel env wo i run a = (case p of Inl e \<Rightarrow> Some (Inl e, n, d) | Inr pin \<Rightarrow>
      (case fetch run_id i (db_runs d) of Inl e \<Rightarrow> Some (Inl e, n, d) | Inr run' \<Rightarrow>
        followed_by (finish_at wo i ''initialize'' n d) (\<lambda>n db.
        followed_by (prepare_stage env wo run' pin n db) (\<lambda>n db.
        followed_by (run_steps fuel env wo run' (stageSteps (run_step run')) n db) (finalize_run wo i)))))"
  proof -
    have first: "finish_at wo i ''queued'' 0 a = Some (Inr (), 1, ?c)" by (simp add: finish_at_def stored_def)
    have go: "followed_by (Some (Inr (), k, x)) f = f k x" for k x f by (simp add: followed_by_def)
    show ?thesis unfolding execute_live_def first go d prod.case by (cases p) simp_all
  qed
  show ?thesis
  proof (cases "(\<exists>e. p = Inl e) \<or> find_run i d = None")
    case True
    then show ?thesis using ad step by (cases p) (auto simp: fetch_find_run)
  next
    case False
    then obtain pin run' where p: "p = Inr pin" and r: "find_run i d = Some run'" by (cases p) auto
    have id': "run_id run' = i" using first_where_SomeD [OF r [unfolded find_run_def]] by simp
    have same: "run_step run' = run_step run" using init(3) fc r by simp
    have parts: "carries_on env i ?steps (all_ended i [''queued'']) (\<lambda>n db.
        followed_by (finish_at wo i ''initialize'' n db) (\<lambda>n db.
        followed_by (prepare_stage env wo run' pin n db) (\<lambda>n db.
        followed_by (run_steps fuel env wo run' (stageSteps (run_step run')) n db) (finalize_run wo i))))
        (completed i ?steps)"
    proof (rule carries_on_followed)
      show "carries_on env i ?steps (all_ended i [''queued'']) (finish_at wo i ''initialize'')
          (all_ended i ([''queued''] @ [''initialize'']))"
        by (rule finish_part) (auto simp: schedule_of_def)
    next
      show "carries_on env i ?steps (all_ended i ([''queued''] @ [''initialize''])) (\<lambda>n db.
          followed_by (prepare_stage env wo run' pin n db) (\<lambda>n db.
          followed_by (run_steps fuel env wo run' (stageSteps (run_step run')) n db) (finalize_run wo i)))
          (completed i ?steps)"
      proof (rule carries_on_followed)
        show "carries_on env i ?steps (all_ended i ([''queued''] @ [''initialize''])) (prepare_stage env wo run' pin)
            (all_ended i [''queued'', ''initialize''])"
          using prepare_part [OF id'] by simp
        show "carries_on env i ?steps (all_ended i [''queued'', ''initialize'']) (\<lambda>n db.
            followed_by (run_steps fuel env wo run' (stageSteps (run_step run')) n db) (finalize_run wo i))
            (completed i ?steps)"
        proof (rule carries_on_followed)
          show "carries_on env i ?steps (all_ended i [''queued'', ''initialize''])
              (run_steps fuel env wo run' (stageSteps (run_step run')))
              (all_ended i ([''queued'', ''initialize''] @ stageSteps (run_step run')))"
            by (rule steps_part [OF _ dist id' assms(3,4)]) (simp add: schedule_of_def same)
          show "carries_on env i ?steps (all_ended i ([''queued'', ''initialize''] @ stageSteps (run_step run')))
              (finalize_run wo i) (completed i ?steps)"
            by (rule finalize_part [OF _ dist]) (simp add: schedule_of_def same)
        qed
      qed
    qed
    obtain t m b where "followed_by (finish_at wo i ''initialize'' n d) (\<lambda>n db.
        followed_by (prepare_stage env wo run' pin n db) (\<lambda>n db.
        followed_by (run_steps fuel env wo run' (stageSteps (run_step run')) n db) (finalize_run wo i))) = Some (t, m, b)"
        "(protocol env i ?steps)\<^sup>*\<^sup>* d b" "t = Inr () \<longrightarrow> completed i ?steps b"
      using parts init(2) unfolding carries_on_def by blast
    then show ?thesis using ad step p r by (auto simp: fetch_find_run)
  qed
qed

end
