(* ===== verification/RunDemo.thy ===== *)
theory RunDemo
  imports RunProtocol
begin

text \<open>
  A small platform on which the processing runs from its creation to its summary: one candidate with
  two applications, the first of which the analysis refuses. It is the concrete state of the
  witnesses of the processing properties.
\<close>

definition run_env :: processing_env where
  "run_env = \<lparr> pe_platform = \<lparr> env_fingerprint = (\<lambda>v. ''h''), env_tag_hash = (\<lambda>_. ''h''), env_snapshot_hash = (\<lambda>_. ''h''),
       env_lower_trim = id, env_changes = (\<lambda>_ _. 0), env_request_ok = (\<lambda>_. True), env_response_ok = (\<lambda>_. True),
       env_users = (\<lambda>_. None) \<rparr>,
     pe_mac = id, pe_config = (\<lambda>_. None), pe_lane = ''enforced'' \<rparr>"

definition run_resume :: "int \<Rightarrow> string \<Rightarrow> resume_row" where
  "run_resume i date = \<lparr> res_id = i, res_candidate = 10, res_apply_id = ''a'', res_file = ''f'', res_entity = ''acme'',
     res_position = ''Engineer'', res_apply_date = date, res_rank = None, res_assigned_entity = [], res_job = None,
     res_job_category = [], res_category_mode = [], res_category_reason = [] \<rparr>"

definition run_source :: "int \<Rightarrow> source_row" where
  "run_source i = \<lparr> src_resume = i, src_revision = 1, src_path = [], src_checksum = [], src_verified = False, src_checked = None \<rparr>"

definition run_candidate :: candidate_row where
  "run_candidate = \<lparr> cnd_id = 10, cnd_fields = [(''first_degree_school'', JStr ''U''), (''highest_degree_school'', JStr ''U'')] \<rparr>"

definition run_platform :: db where
  "run_platform = empty_db\<lparr>db_next := 100, db_candidates := [run_candidate],
     db_resumes := [run_resume 20 ''2024-02-01'', run_resume 21 ''2024-03-01''],
     db_sources := [run_source 20, run_source 21],
     db_policy := sample_policy (JStr ''acme'') (JStr ''acme'')\<rparr>"

definition run_match :: "rat \<Rightarrow> object" where
  "run_match score = [(''matches'', JArr [JObj [(''job_ref'', JStr ''std''), (''score'', JNum score), (''reason'', JStr ''r'')]]),
     (''profile'', JObj [(''tags'', JArr []), (''claims'', JArr [])]), (''manifest'', JObj [(''resume_checksum'', JStr ''c'')]),
     (''pin'', JObj [])]"

text \<open>The analysis passes the second application only; the worker is told to stop at its fortieth operation.\<close>

definition run_world :: world where
  "run_world = \<lparr> wo_clock = (\<lambda>n. int n * second), wo_token = (\<lambda>n. digits_of n),
     wo_extract = (\<lambda>i v. Inr \<lparr> mat_artifact = [(''checksum'', JStr ''c'')], mat_extraction = 7, mat_ready = True \<rparr>),
     wo_analyse = (\<lambda>i frozen m. Inr (run_match (if itm_resume i = Some 21 then 9/10 else 1/10))),
     wo_stopped = (\<lambda>n. if n < 40 then None else Some Canceled), wo_runtime = Inr ([(''pin_id'', JStr ''p'')], []), wo_fresh = (\<lambda>_. (''c'', ''t'')) \<rparr>"

definition created_run :: "string \<Rightarrow> db" where
  "created_run step = (case createRun 0 step [] [10] None run_platform of Inr (_, db) \<Rightarrow> db | Inl _ \<Rightarrow> run_platform)"

definition executed_run :: "string \<Rightarrow> ((go_error + unit) \<times> db) option" where
  "executed_run step = executeRun 41 run_env run_world 100 (created_run step)"

text \<open>A run of the first step prepares the candidate and ends.\<close>

lemma executed_run_value: "map_option fst (executed_run ''step1'') = Some (Inr ())"
  by code_simp

lemma created_run_value:
  "db_attempts (created_run ''step1'') = []" "db_applications (created_run ''step1'') = []"
  "db_app_events (created_run ''step1'') = []" "db_work (created_run ''step1'') = []"
  by code_simp+

lemma created_run_row:
  "map_option (\<lambda>r. (run_step r, activeRun (run_status r), run_cancel_requested r)) (find_run 100 (created_run ''step1''))
    = Some (''step1'', True, None)"
  by code_simp

lemma ends_run_world: "ends_by 40 run_world"
  by (simp add: ends_by_def run_world_def)

lemma created_run_ok:
  "attempts_ok (created_run ''step1'')" "ledger_ok (created_run ''step1'')" "work_ok (created_run ''step1'')"
  by (simp_all add: attempts_ok_def ledger_ok_def work_ok_def active_unique_def created_run_value)

text \<open>A candidate without an application: a run of all steps goes through every stage.\<close>

definition idle_run :: db where
  "idle_run = (case createRun 0 ''all'' [] [10] None (run_platform\<lparr>db_resumes := []\<rparr>) of
     Inr (_, db) \<Rightarrow> db | Inl _ \<Rightarrow> run_platform)"

lemma idle_run_found: "map_option (\<lambda>r. (run_step r, activeRun (run_status r), run_cancel_requested r)) (find_run 100 idle_run)
  = Some (''all'', True, None)" by code_simp

lemma idle_run_value: "map_option fst (executeRun 41 run_env run_world 100 idle_run) = Some (Inr ())"
  by code_simp

text \<open>The same run after a worker that stored its prepared snapshots, and the run as prepared, and died
  before it closed the stage preparing.\<close>

definition interrupted_run :: db where
  "interrupted_run = (case find_run 100 idle_run of None \<Rightarrow> idle_run | Some run \<Rightarrow>
     (case initialize_run run_env run_world 1 run (finishStage 0 100 ''queued'' idle_run) of
        (Inl _, _, _) \<Rightarrow> idle_run
      | (Inr pin, n, db) \<Rightarrow> (case find_run 100 db of None \<Rightarrow> idle_run | Some run \<Rightarrow>
          (case beginStage 4 100 ''preparing'' (finishStage 3 100 ''initialize'' db) of Inl _ \<Rightarrow> idle_run | Inr db \<Rightarrow>
            (case save_run 100 (ready_params (run_params run))
                (snd (prepareRunSnapshots run_env (\<lambda>_. None) (wo_fresh run_world) run pin db)) of
               Inl _ \<Rightarrow> idle_run | Inr db \<Rightarrow> db)))))"

text \<open>The worker that takes the run over passes the stage by: the run ends (in need of attention, for
  want of an application) and the stage is left running.\<close>

theorem preparing_stays_running:
  "map_option (\<lambda>(r, b). (r, map_option stg_status (stage_of 100 ''preparing'' b), map_option run_status (find_run 100 b)))
    (executeRun 41 run_env run_world 100 interrupted_run) = Some (Inr (), Some SgRunning, Some RuNeedsAttention)"
  by code_simp

end
