(* ===== verification/RunFacts.thy ===== *)
theory RunFacts
  imports RunDemo
begin

text \<open>
  The properties of processing runs: what every interleaving of the pipeline keeps, the finality of a
  cancellation, the rows a new run consists of, and what is left of a run that is stopped.
\<close>

subsection \<open>Every interleaving\<close>

lemma executed_run_trace:
  obtains b where "executed_run ''step1'' = Some (Inr (), b)" "pipe_trace run_env (created_run ''step1'') b"
proof -
  obtain run where run: "find_run 100 (created_run ''step1'') = Some run" "run_step run = ''step1''"
      "activeRun (run_status run)" "run_cancel_requested run = None"
    using created_run_row by auto
  have "known_step (run_step run)" using run by (simp add: known_step_def)
  then obtain r b where b: "executeRun 41 run_env run_world 100 (created_run ''step1'') = Some (r, b)"
      "(protocol run_env 100 (schedule_of run))\<^sup>*\<^sup>* (created_run ''step1'') b"
    using execute_live_protocol [OF run(1) _ ends_run_world, of 41 run_env] run
    by (auto simp: executeRun_def fetch_find_run)
  then have "executed_run ''step1'' = Some (Inr (), b)"
    using executed_run_value by (auto simp: executed_run_def)
  then show thesis using that protocol_pipe_trace [OF b(2)] by blast
qed

text \<open>C14. Whatever the order in which the transactions of the workers, the job queue and the requests to
  stop or cancel a run interleave, the processing pipeline keeps the consistency of the assignment
  attempts, of the ledger of applications and of the open allocation work: no attempt disappears or
  moves backwards, no closed application changes, events are only appended, and one qualification
  never has two open work items.\<close>

theorem pipeline_keeps_records:
  assumes "pipe_trace env a b" and "attempts_ok a" and "ledger_ok a" and "work_ok a"
  shows "attempts_ok b \<and> attempts_kept a b \<and> ledger_ok b \<and> ledger_grows a b \<and> work_ok b"
  using run_attempts.trace [OF assms(1)] run_ledger.trace [OF assms(1)] run_work.trace [OF assms(1)] assms(2-4)
  by (simp add: attempts_step_def ledger_step_def work_step_def)

theorem pipeline_keeps_records_witness:
  "\<exists>b. executed_run ''step1'' = Some (Inr (), b) \<and> attempts_ok b \<and> attempts_kept (created_run ''step1'') b
     \<and> ledger_ok b \<and> ledger_grows (created_run ''step1'') b \<and> work_ok b"
  using pipeline_keeps_records created_run_ok by (metis executed_run_trace)

text \<open>C15. \<open>executeRun\<close> returns whenever the context of its worker ends at some point, and follows the
  protocol of a run. A run that does not exist, is not active, or whose cancellation was requested is
  left as it is, with the error that belongs to it. Otherwise what it does to the database is a sequence
  of protocol steps: a stage begins, and finishes, only after all stages before it in the schedule have
  ended, the analysis finishes only when no item of the run is open, the final summary comes only after
  all stages but the last, and everything else leaves the states of stages and runs alone. When it
  returns without an error, every stage of the schedule has ended, no cancellation was requested, and
  the counts, the final status and the end of the run are those of its items.\<close>

theorem executeRun_follows_protocol:
  assumes "ends_by N wo" and "N < fuel" and "\<forall>run. find_run i a = Some run \<longrightarrow> known_step (run_step run)"
  shows "\<exists>r b. executeRun fuel env wo i a = Some (r, b) \<and> (case find_run i a of
     None \<Rightarrow> r = Inl not_found \<and> b = a
   | Some run \<Rightarrow>
       if \<not> activeRun (run_status run) then r = Inr () \<and> b = a
       else if run_cancel_requested run \<noteq> None then r = Inl (TaskError ''agent_cancelled'') \<and> b = a
       else (protocol env i (schedule_of run))\<^sup>*\<^sup>* a b \<and> (r = Inr () \<longrightarrow> completed i (schedule_of run) b))"
proof (cases "find_run i a")
  case None
  then show ?thesis by (simp add: executeRun_def fetch_find_run)
next
  case (Some run)
  show ?thesis
  proof (cases "activeRun (run_status run) \<and> run_cancel_requested run = None")
    case True
    then show ?thesis
      using execute_live_protocol [OF Some _ assms(1,2), of env] assms(3) Some
      by (auto simp: executeRun_def fetch_find_run)
  qed (use Some in \<open>auto simp: executeRun_def fetch_find_run\<close>)
qed

theorem executeRun_follows_protocol_witness:
  "\<exists>run b. find_run 100 idle_run = Some run \<and> executeRun 41 run_env run_world 100 idle_run = Some (Inr (), b) \<and>
    (protocol run_env 100 (schedule_of run))\<^sup>*\<^sup>* idle_run b \<and> completed 100 (schedule_of run) b"
proof -
  obtain run where run: "find_run 100 idle_run = Some run" "run_step run = ''all''"
      "activeRun (run_status run)" "run_cancel_requested run = None"
    using idle_run_found by auto
  show ?thesis
    using executeRun_follows_protocol [OF ends_run_world, of 41 100 idle_run run_env] run idle_run_value
    by (auto simp: known_step_def)
qed

text \<open>C16. Once a cancellation is requested, the request stays, and the run never ends as successful,
  partially failed or in need of attention, however the workers go on.\<close>

theorem cancelled_run_never_succeeds:
  assumes "pipe_trace env a b" and "find_run i a = Some r" and "run_cancel_requested r \<noteq> None"
    and "\<not> succeeded (run_status r)"
  shows "\<exists>s. find_run i b = Some s \<and> run_cancel_requested s = run_cancel_requested r \<and> \<not> succeeded (run_status s)"
  using withdrawal.trace [OF assms(1)] assms(2-4) unfolding cancelled_stay_def by blast

definition cancelled_demo :: db where
  "cancelled_demo = (case cancelRun 5 100 saved_viewer (created_run ''step1'') of
     Inr (_, db) \<Rightarrow> db | Inl _ \<Rightarrow> run_platform)"

lemma cancelled_demo_run:
  "map_option (\<lambda>r. (run_cancel_requested r, run_status r)) (find_run 100 cancelled_demo) = Some (Some 5, RuCancelling)"
  by code_simp

theorem cancelled_run_never_succeeds_witness:
  "\<exists>s. find_run 100 (finishStage 6 100 ''queued'' cancelled_demo) = Some s \<and> run_cancel_requested s = Some 5
     \<and> \<not> succeeded (run_status s)"
proof -
  obtain r where r: "find_run 100 cancelled_demo = Some r" "run_cancel_requested r = Some 5" "run_status r = RuCancelling"
    using cancelled_demo_run by (cases "find_run 100 cancelled_demo") auto
  have "pipe_trace run_env cancelled_demo (finishStage 6 100 ''queued'' cancelled_demo)"
    by (rule r_into_rtranclp) (rule pipe_step.finish_stage, rule refl)
  from cancelled_run_never_succeeds [OF this r(1)] r show ?thesis by (simp add: succeeded_def)
qed

subsection \<open>Stopping a run\<close>

definition blockable :: "db \<Rightarrow> int \<Rightarrow> bool" where
  "blockable db resume \<longleftrightarrow> (\<exists>a. first_where (\<lambda>a. app_resume a = resume) (db_applications db) = Some a
     \<and> \<not> closed_status (app_status a))"

lemma ensure_application_present:
  assumes "first_where (\<lambda>a. app_resume a = resume) (db_applications db) = Some a"
  shows "ensure_application now resume db = db"
  using assms first_where_SomeD [OF assms]
  by (auto simp: ensure_application_def exists_where_iff split: option.splits)

text \<open>Blocking touches the ledger only, and leaves every blockable application blockable.\<close>

definition ledger_only :: "db \<Rightarrow> db \<Rightarrow> bool" where
  "ledger_only a b \<longleftrightarrow> db_runs b = db_runs a \<and> db_stages b = db_stages a \<and> db_items b = db_items a
     \<and> db_workflows b = db_workflows a \<and> db_decisions b = db_decisions a"

lemma block_resume_succeeds:
  assumes "blockable a resume"
  shows "\<exists>b. block_resume now run code resume a = Inr b \<and> ledger_only a b \<and> (\<forall>r. blockable a r \<longrightarrow> blockable b r)"
proof -
  from assms obtain p where p: "first_where (\<lambda>a. app_resume a = resume) (db_applications a) = Some p"
      "\<not> closed_status (app_status p)"
    unfolding blockable_def by blast
  show ?thesis
  proof (cases "app_status p = AppBlocked \<and> app_reason p = code")
    case True
    then show ?thesis using p
      by (auto simp: block_resume_def applicationState_def ensure_application_present ledger_only_def)
  next
    case False
    have kept: "blockable (a\<lparr>db_applications := update_where (\<lambda>a. app_resume a = resume) f (db_applications a),
        db_app_events := es\<rparr>) r" if "blockable a r"
      and f: "\<And>x. app_resume (f x) = app_resume x" "\<And>x. \<not> closed_status (app_status (f x))" for f es r
    proof -
      from that obtain x where "first_where (\<lambda>a. app_resume a = r) (db_applications a) = Some x"
          "\<not> closed_status (app_status x)"
        unfolding blockable_def by blast
      then show ?thesis
        using f first_where_update [of "db_applications a" "\<lambda>a. app_resume a = resume" app_resume f r]
        unfolding blockable_def by (intro exI [of _ "if app_resume x = resume then f x else x"]) simp
    qed
    from False p show ?thesis
      by (auto simp: block_resume_def applicationState_def ensure_application_present ledger_only_def
          closedApplication_def Let_def intro!: kept)
  qed
qed

lemma block_all_succeeds:
  assumes "\<forall>r \<in> set rs. blockable a r"
  shows "\<exists>b. foldE (block_resume now run code) rs a = Inr b \<and> ledger_only a b"
  using assms
proof (induction rs arbitrary: a)
  case Nil
  then show ?case by (simp add: ledger_only_def)
next
  case (Cons r rs)
  then obtain c where c: "block_resume now run code r a = Inr c" "ledger_only a c" "\<forall>r. blockable a r \<longrightarrow> blockable c r"
    using block_resume_succeeds [of a r now run code] by auto
  with Cons obtain b where "foldE (block_resume now run code) rs c = Inr b" "ledger_only c b" by (metis list.set_intros(2))
  with c show ?case by (auto simp: ledger_only_def)
qed

lemma claimed_blockable:
  assumes "ledger_ok a" and "claimed_resume run a w = Some resume"
  shows "blockable a resume"
proof -
  from assms(2) obtain x where x: "x \<in> set (db_applications a)" "app_resume x = resume" "app_status x = AppAssessing"
    by (auto simp: claimed_resume_def exists_where_iff split: option.split_asm if_split_asm)
  have "first_where (\<lambda>a. app_resume a = resume) (db_applications a) = Some x"
    using first_where_key [of app_resume "db_applications a" x] assms(1) x by (simp add: ledger_ok_def)
  with x show ?thesis by (auto simp: blockable_def)
qed

text \<open>What a stopped run leaves behind.\<close>

definition settled :: "int \<Rightarrow> db \<Rightarrow> bool" where
  "settled run db \<longleftrightarrow>
     (\<forall>s \<in> set (db_stages db). stg_run s = run \<longrightarrow> stg_status s \<notin> {SgPending, SgRunning, SgWaitingConflict}) \<and>
     (\<forall>i \<in> set (db_items db). itm_run i = run \<longrightarrow> terminalItem (itm_status i)) \<and>
     (\<forall>w \<in> set (db_workflows db). \<forall>i \<in> set (db_items db). itm_run i = run \<longrightarrow> wf_item w \<noteq> Some (itm_id i))"

lemma update_where_all:
  assumes "\<And>r. p r \<Longrightarrow> Q (f r)" and "\<And>r. r \<in> set rs \<Longrightarrow> \<not> p r \<Longrightarrow> Q r"
  shows "\<forall>r \<in> set (update_where p f rs). Q r"
  using assms by (auto simp: update_where_def)

lemma settled_cong:
  assumes "db_items b = db_items a" and "db_workflows b = db_workflows a"
    and "map (\<lambda>s. (stg_run s, stg_status s)) (db_stages b) = map (\<lambda>s. (stg_run s, stg_status s)) (db_stages a)"
  shows "settled run b = settled run a"
proof -
  have all: "(\<forall>s \<in> set xs. P (stg_run s) (stg_status s)) = (\<forall>p \<in> set (map (\<lambda>s. (stg_run s, stg_status s)) xs). P (fst p) (snd p))"
    for P and xs :: "stage_row list"
    by simp
  have "(\<forall>s \<in> set (db_stages b). P (stg_run s) (stg_status s)) = (\<forall>s \<in> set (db_stages a). P (stg_run s) (stg_status s))" for P
    by (simp only: all assms(3))
  from this [of "\<lambda>x y. x = run \<longrightarrow> y \<notin> {SgPending, SgRunning, SgWaitingConflict}"]
  show ?thesis using assms(1,2) by (simp add: settled_def)
qed

lemma created_run_found: "\<exists>r. find_run 100 (created_run ''step1'') = Some r"
proof -
  have "map_option run_id (find_run 100 (created_run ''step1'')) = Some 100" by code_simp
  then show ?thesis by auto
qed

lemma stop_stage_row_status: "stg_status (stop_stage_row now code s) \<notin> {SgPending, SgRunning, SgWaitingConflict}"
  by (simp add: stop_stage_row_def)

lemma stop_stages_settle:
  "\<forall>s \<in> set (db_stages (stop_rows now run code a)). stg_run s = run \<longrightarrow> stg_status s \<notin> {SgPending, SgRunning, SgWaitingConflict}"
proof -
  have "\<forall>s \<in> set (update_where (\<lambda>s. stg_run s = run \<and> stg_status s \<in> {SgRunning, SgWaitingConflict})
      (stop_stage_row now code) (db_stages a)). stg_run s = run \<longrightarrow> stg_status s \<notin> {SgRunning, SgWaitingConflict}"
    by (rule update_where_all) (use stop_stage_row_status in blast, blast)
  then have 1: "\<forall>s \<in> set (update_where (\<lambda>s. stg_run s = run \<and> stg_status s = SgPending)
      (\<lambda>s. s\<lparr>stg_status := SgSkipped, stg_message := ''stopped'', stg_finished := Some now\<rparr>)
      (update_where (\<lambda>s. stg_run s = run \<and> stg_status s \<in> {SgRunning, SgWaitingConflict})
        (stop_stage_row now code) (db_stages a))).
      stg_run s = run \<longrightarrow> stg_status s \<notin> {SgPending, SgRunning, SgWaitingConflict}"
    by - (rule update_where_all, simp, blast)
  have 2: "db_stages (stop_rows now run code a) = update_where (\<lambda>s. stg_run s = run \<and> stg_status s = SgPending)
      (\<lambda>s. s\<lparr>stg_status := SgSkipped, stg_message := ''stopped'', stg_finished := Some now\<rparr>)
      (update_where (\<lambda>s. stg_run s = run \<and> stg_status s \<in> {SgRunning, SgWaitingConflict})
        (stop_stage_row now code) (db_stages a))"
    by (simp add: stop_rows_def Let_def)
  from 1 show ?thesis by (simp only: 2)
qed

lemma stop_items_settle:
  "\<forall>i \<in> set (db_items (stop_rows now run code a)). itm_run i = run \<longrightarrow> terminalItem (itm_status i)"
proof -
  have "terminalItem x \<or> x \<in> {ItPending, ItProcessing, ItWaitingConflict}" for x by (cases x) simp_all
  then show ?thesis
    unfolding stop_rows_def Let_def by (simp, intro update_where_all) (auto simp: stop_item_row_def Let_def)
qed

lemma item_of_run_None:
  "item_of_run run x db = None \<longleftrightarrow> (\<forall>i \<in> set (db_items db). itm_run i = run \<longrightarrow> x \<noteq> Some (itm_id i))"
  by (auto simp: item_of_run_def first_where_None)

lemma release_workflows_settle:
  "\<forall>w \<in> set (db_workflows (release_workflows run a)). \<forall>i \<in> set (db_items a). itm_run i = run \<longrightarrow>
     wf_item w \<noteq> Some (itm_id i)"
proof -
  have "\<forall>w \<in> set (db_workflows (release_workflows run a)). item_of_run run (wf_item w) a = None"
    unfolding release_workflows_def by (simp, rule update_where_all) (auto simp: item_of_run_None)
  then show ?thesis by (auto simp: item_of_run_None)
qed

lemma summarizeRun_unfinished:
  assumes "find_run run a = Some r"
  shows "\<exists>b. summarizeRun now run False a = Inr b \<and> db_items b = db_items a \<and> db_workflows b = db_workflows a
    \<and> find_run run b = Some (r\<lparr>run_counts := run_summary_counts run a\<rparr>)
    \<and> map (\<lambda>s. (stg_run s, stg_status s)) (db_stages b) = map (\<lambda>s. (stg_run s, stg_status s)) (db_stages a)
    \<and> db_decisions b = db_decisions a"
proof -
  let ?c = "run_summary_counts run a"
  have r: "first_where (\<lambda>r. run_id r = run) (db_runs a) = Some r" using assms by (simp add: find_run_def)
  have sv: "summary_values now False ?c = (\<lambda>r. r\<lparr>run_counts := ?c\<rparr>)" by (simp add: fun_eq_iff summary_values_def)
  have u: "first_where (\<lambda>r. run_id r = run) (update_where (\<lambda>r. run_id r = run) (\<lambda>r. r\<lparr>run_counts := ?c\<rparr>) (db_runs a))
      = Some (r\<lparr>run_counts := ?c\<rparr>)"
    using r first_where_SomeD [OF r] by (subst first_where_update) simp_all
  show ?thesis
  proof (cases "first_where (\<lambda>s. stg_run s = run \<and> stg_step s = ''step4'') (db_stages a)")
    case None
    then show ?thesis using r u
      by (simp add: summarizeRun_def fetch_def save_row_def sv find_run_def Let_def)
  next
    case (Some s)
    then have "first_where (\<lambda>q. stg_id q = stg_id s) (db_stages a) \<noteq> None"
      using first_where_SomeD [OF Some] by (auto simp: first_where_None)
    then show ?thesis using r u Some
      by (auto simp: summarizeRun_def fetch_def save_row_def sv find_run_def Let_def map_update_where_key
          split: option.split)
  qed
qed

text \<open>C17. A run that exists can always be stopped, whatever state its stages, items and workflows are in:
  \<open>stopRun\<close> returns without an error, the run is cancelled or failed according to the cause, no stage
  is left pending or running, every item is terminal, no workflow is held by an item of the run, and
  the counts of the run are those of its items.\<close>

theorem stopped_run_settles:
  assumes "find_run run a = Some r" and "ledger_ok a"
  shows "\<exists>b s. stopRun now run cause a = (Inr (), b) \<and> settled run b \<and> find_run run b = Some s
    \<and> run_status s = (if failure_code cause = ''agent_cancelled'' then RuCancelled else RuFailed)
    \<and> \<not> activeRun (run_status s) \<and> run_finished s = Some now \<and> run_counts s = run_summary_counts run b"
proof -
  let ?code = "failure_code cause"
  let ?s = "stop_run_row now ?code r"
  have r: "first_where (\<lambda>r. run_id r = run) (db_runs a) = Some r" using assms(1) by (simp add: find_run_def)
  define runs where "runs = update_where (\<lambda>r. run_id r = run) (stop_run_row now ?code) (db_runs a)"
  have saved: "save_row run_id run (stop_run_row now ?code) (db_runs a) = Inr (?s, runs)"
    using r by (simp add: save_row_def runs_def)
  define c where "c = stop_rows now run ?code (a\<lparr>db_runs := runs\<rparr>)"
  have frame: "db_applications c = db_applications a" "db_app_events c = db_app_events a" "db_runs c = runs"
    by (simp_all add: c_def stop_rows_def Let_def)
  then have c: "ledger_ok c" "db_runs c = runs" using assms(2) by (simp_all add: ledger_ok_def events_of_def)
  have "\<forall>x \<in> set (List.map_filter (claimed_resume run c) (db_workflows c)). blockable c x"
    using claimed_blockable [OF c(1)] by (auto simp: List.map_filter_def split: option.splits)
  then obtain d where d: "foldE (block_resume now run ?code) (List.map_filter (claimed_resume run c) (db_workflows c)) c = Inr d"
      "ledger_only c d"
    using block_all_succeeds by blast
  define e where "e = release_workflows run d"
  have stop: "stop_transaction now run ?code a = Inr e"
    using d(1) by (simp add: stop_transaction_def saved c_def [symmetric] Let_def e_def)
  have u: "first_where (\<lambda>r. run_id r = run) runs = Some ?s"
    using r first_where_SomeD [OF r] unfolding runs_def by (subst first_where_update) (simp_all add: stop_run_row_def)
  have e: "find_run run e = Some ?s" "db_items e = db_items c" "db_stages e = db_stages c"
    using u d(2) c(2) by (simp_all add: e_def release_workflows_def ledger_only_def find_run_def)
  obtain b where b: "summarizeRun now run False e = Inr b" "db_items b = db_items e" "db_workflows b = db_workflows e"
      "find_run run b = Some (?s\<lparr>run_counts := run_summary_counts run e\<rparr>)"
      "map (\<lambda>s. (stg_run s, stg_status s)) (db_stages b) = map (\<lambda>s. (stg_run s, stg_status s)) (db_stages e)"
      "db_decisions b = db_decisions e"
    using summarizeRun_unfinished [OF e(1)] by blast
  have "settled run e"
    using stop_stages_settle [of now run ?code "a\<lparr>db_runs := runs\<rparr>"] stop_items_settle [of now run ?code "a\<lparr>db_runs := runs\<rparr>"]
      release_workflows_settle [of run d] d(2) e(2,3)
    by (simp add: settled_def c_def [symmetric] e_def [symmetric] ledger_only_def)
  then have "settled run b" using settled_cong [OF b(2,3,5)] by simp
  moreover have "run_summary_counts run b = run_summary_counts run e"
    using b(2,6) by (simp add: run_summary_counts_def count_items_def recommended_def)
  ultimately show ?thesis
    using stop b(1,4) by (auto simp: stopRun_def stop_run_row_def)
qed

theorem stopped_run_settles_witness:
  "\<exists>b s. stopRun 9 100 (TaskError ''processing_timeout'') (created_run ''step1'') = (Inr (), b) \<and> settled 100 b
     \<and> find_run 100 b = Some s \<and> run_status s = RuFailed"
proof -
  obtain r where "find_run 100 (created_run ''step1'') = Some r"
    using created_run_found by blast
  from stopped_run_settles [OF this created_run_ok(2), of 9 "TaskError ''processing_timeout''"]
  show ?thesis by (auto simp: failure_code_def)
qed

end
