(* ===== verification/RequestFacts.thy ===== *)
theory RequestFacts
  imports RunDemo Schedules References
begin

text \<open>
  The properties of requests: what an accepted request for a run is, the rows a new run consists of,
  the pages of a list, the next time of a schedule and what a trigger leaves behind.
\<close>

subsection \<open>Requests for runs\<close>

lemma positive_id_bounds: "positive_id v = Some i \<Longrightarrow> 0 < i \<and> i \<le> int64_max"
  by (cases v) (auto simp: positive_id_def truncate_rat_def split: if_split_asm)

definition typed_ids :: "int list \<Rightarrow> bool" where
  "typed_ids ids \<longleftrightarrow> distinct ids \<and> (\<forall>i \<in> set ids. 0 < i \<and> i \<le> int64_max)"

lemma add_id_typed:
  assumes "add_id x u = Inr w" and "typed_ids u"
  shows "w \<noteq> [] \<and> typed_ids w"
proof -
  from assms(1) obtain i where i: "positive_id x = Some i" "w = (if i \<in> set u then u else u @ [i])"
    by (cases "positive_id x") (simp_all add: add_id_def)
  then show ?thesis using assms(2) positive_id_bounds [OF i(1)] by (cases "i \<in> set u") (auto simp: typed_ids_def)
qed

lemma positiveIDs_typed:
  assumes "positiveIDs v = Inr ids"
  shows "ids \<noteq> [] \<and> typed_ids ids"
proof -
  obtain x xs where x: "list_of v = x # xs" "foldE add_id (x # xs) [] = Inr ids"
    using assms by (cases "list_of v") (simp_all add: positiveIDs_def)
  then obtain u where u: "add_id x [] = Inr u" "foldE add_id xs u = Inr ids" by (auto simp: andThen_eq_Inr)
  show ?thesis
    by (rule foldE_invariant [OF u(2)]) (use add_id_typed [OF u(1)] add_id_typed in \<open>simp_all add: typed_ids_def\<close>)
qed

lemma name_scope_Inr:
  assumes "name_scope body scope = Inr s"
  shows "s = scope \<or> (\<exists>v. fld body ''name'' = JStr v \<and> rune_count v \<le> 100 \<and> trim_space v \<noteq> []
    \<and> s = put ''task_name'' (JStr (trim_space v)) scope)"
  using assms by (auto simp: name_scope_def split: if_split_asm json.split_asm)

lemma check_force_Inr:
  assumes "check_force step scope = Inr ()" and "has_key scope ''force_reprocess''"
  shows "step = ''step2'' \<and> (\<exists>ids. positiveIDs (fld scope ''candidate_ids'') = Inr ids \<and> ids \<noteq> [] \<and> typed_ids ids)"
  using assms by (auto simp: check_force_def andThen_eq_Inr dest: positiveIDs_typed split: if_split_asm)

lemma resolved_ids_typed:
  assumes "resolveRunCandidates filtered p scope db = Inr ids" and "has_key scope ''candidate_ids''"
  shows "ids \<noteq> [] \<and> typed_ids ids"
  using assms positiveIDs_typed by (simp add: resolveRunCandidates_def)

text \<open>C37. An accepted request for a run names one of the six steps; its scope has none of the keys that
  only the server sets, apart from a task name of at most 100 characters that is not blank; forced
  reprocessing is accepted for the second step only, with candidates selected by distinct positive
  64-bit ids; and wherever a request selects candidates by id, the run is resolved either to an error
  or to a non-empty list of distinct positive 64-bit integers, for every user and database.\<close>

theorem accepted_request_is_typed:
  assumes "submitted_request body = Inr (step, scope)"
  shows "step \<in> set [''all'', ''resume_process'', ''step1'', ''step2'', ''step3'', ''step4'']
    \<and> (\<forall>k \<in> set reserved_scope_keys. k \<noteq> ''task_name'' \<longrightarrow> \<not> has_key scope k)
    \<and> (has_key scope ''task_name'' \<longrightarrow> (\<exists>v. fld body ''name'' = JStr v \<and> rune_count v \<le> 100
          \<and> fld scope ''task_name'' = JStr (trim_space v) \<and> trim_space v \<noteq> []))
    \<and> (has_key scope ''force_reprocess'' \<longrightarrow> step = ''step2'' \<and> (\<exists>ids. positiveIDs (fld scope ''candidate_ids'') = Inr ids
          \<and> ids \<noteq> [] \<and> typed_ids ids))
    \<and> (\<forall>filtered p db ids. has_key scope ''candidate_ids'' \<and> resolveRunCandidates filtered p scope db = Inr ids
          \<longrightarrow> ids \<noteq> [] \<and> typed_ids ids)"
proof -
  obtain given where g: "requested_scope body = Inr given" "\<not> list_ex (has_key given) reserved_scope_keys"
      "contains [''all'', ''resume_process'', ''step1'', ''step2'', ''step3'', ''step4''] step"
      "check_force step given = Inr ()" "name_scope body given = Inr scope"
    using assms by (auto simp: submitted_request_def andThen_eq_Inr Let_def split: if_split_asm)
  have clean: "\<forall>k \<in> set reserved_scope_keys. \<not> has_key given k" using g(2) by (simp add: list_ex_iff)
  have keys: "k \<noteq> ''task_name'' \<Longrightarrow> has_key scope k = has_key given k \<and> fld scope k = fld given k" for k
    using name_scope_Inr [OF g(5)] by auto
  show ?thesis
  proof (intro conjI)
    show "has_key scope ''task_name'' \<longrightarrow> (\<exists>v. fld body ''name'' = JStr v \<and> rune_count v \<le> 100
        \<and> fld scope ''task_name'' = JStr (trim_space v) \<and> trim_space v \<noteq> [])"
      using name_scope_Inr [OF g(5)] clean by (auto simp: reserved_scope_keys_def)
    show "\<forall>filtered p db ids. has_key scope ''candidate_ids'' \<and> resolveRunCandidates filtered p scope db = Inr ids
        \<longrightarrow> ids \<noteq> [] \<and> typed_ids ids"
      using resolved_ids_typed by blast
  qed (use g(3) clean keys check_force_Inr [OF g(4)] in \<open>simp_all add: contains_iff\<close>)
qed

theorem accepted_request_is_typed_witness:
  "\<exists>step scope. submitted_request [(''name'', JStr '' Spring ''), (''step'', JStr ''step2''),
       (''scope'', JObj [(''force_reprocess'', JBool True), (''candidate_ids'', JArr [JNum 7, JNum 3, JNum 7])])]
       = Inr (step, scope) \<and> (\<exists>v. fld scope ''task_name'' = JStr (trim_space v) \<and> trim_space v \<noteq> [])
     \<and> resolveRunCandidates (\<lambda>q p. Inr []) (sample_principal ''secondary'' 1) scope empty_db = Inr [7, 3] \<and> typed_ids [7, 3]"
proof -
  define body where "body = [(''name'', JStr '' Spring ''), (''step'', JStr ''step2''),
       (''scope'', JObj [(''force_reprocess'', JBool True), (''candidate_ids'', JArr [JNum 7, JNum 3, JNum 7])])]"
  have "case submitted_request body of Inr (step, scope) \<Rightarrow> has_key scope ''task_name'' \<and> has_key scope ''candidate_ids''
        \<and> resolveRunCandidates (\<lambda>q p. Inr []) (sample_principal ''secondary'' 1) scope empty_db = Inr [7, 3]
      | Inl _ \<Rightarrow> False"
    unfolding body_def by code_simp
  then obtain step scope where s: "submitted_request body = Inr (step, scope)" "has_key scope ''task_name''"
      "has_key scope ''candidate_ids''"
      "resolveRunCandidates (\<lambda>q p. Inr []) (sample_principal ''secondary'' 1) scope empty_db = Inr [7, 3]"
    by (auto split: sum.splits)
  show ?thesis
    using accepted_request_is_typed [OF s(1)] s unfolding body_def [symmetric] by blast
qed

subsection \<open>The rows of a new run\<close>

lemma check_retry_frame:
  assumes "check_retry scope ids a = Inr b"
  shows "db_runs b = db_runs a" "db_items b = db_items a" "db_stages b = db_stages a" "db_queue b = db_queue a"
    "db_candidates b = db_candidates a"
  using assms by (auto simp: check_retry_def lockWorkflow_def andThen_eq_Inr Let_def
      split: if_split_asm list.split_asm option.split_asm)

lemma existing_run_found: "existing_run scope ids a = Inr (Some r) \<Longrightarrow> r \<in> set (db_runs a)"
  by (auto simp: existing_run_def dest: first_where_SomeD split: if_split_asm list.split_asm option.split_asm)

lemma chosen_ids:
  assumes "distinct (map cnd_id cs)" and "length (sort_key cnd_id (filter (\<lambda>c. cnd_id c \<in> set ids) cs)) = length ids"
  shows "map cnd_id (sort_key cnd_id (filter (\<lambda>c. cnd_id c \<in> set ids) cs)) = sort ids"
proof -
  define xs where "xs = map cnd_id (sort_key cnd_id (filter (\<lambda>c. cnd_id c \<in> set ids) cs))"
  have d: "distinct xs" using assms(1) by (simp add: xs_def distinct_map inj_on_def)
  have "card (set xs) = length ids" using distinct_card [OF d] assms(2) by (simp add: xs_def)
  moreover have "set xs \<subseteq> set ids" by (auto simp: xs_def)
  moreover have "card (set ids) \<le> length ids" by (rule card_length)
  ultimately have "set xs = set ids \<and> distinct ids"
    by (metis List.finite_set card_distinct card_mono card_subset_eq le_antisym)
  then show ?thesis
    using d unfolding xs_def [symmetric] by (intro sorted_distinct_set_unique) (simp_all add: xs_def)
qed

lemma map_enumerate_fst: "map (\<lambda>p. f (fst p)) (enumerate n xs) = map f [n..<n + length xs]"
  by (simp add: comp_def flip: map_map [of f fst, unfolded comp_def])

lemma new_items:
  assumes items: "items = map (\<lambda>(k, c). new_item i db (j + int k) c) (enumerate n cs)"
  shows "map itm_candidate items = map cnd_id cs" and "distinct (map itm_id items)"
    and "x \<in> set items \<Longrightarrow> itm_run x = i \<and> itm_status x = ItPending \<and> itm_snapshot x = []"
proof -
  show "map itm_candidate items = map cnd_id cs"
    by (simp add: items new_item_def case_prod_beta' comp_def flip: map_map [of cnd_id snd, unfolded comp_def])
  have "map itm_id items = map (\<lambda>k. j + int k) [n..<n + length cs]"
    by (simp add: items new_item_def case_prod_beta' comp_def map_enumerate_fst [of "\<lambda>k. j + int k"])
  then show "distinct (map itm_id items)" by (simp add: distinct_map inj_on_def)
  show "x \<in> set items \<Longrightarrow> itm_run x = i \<and> itm_status x = ItPending \<and> itm_snapshot x = []"
    by (auto simp: items new_item_def)
qed

lemma new_stages:
  assumes stages: "stages = map (new_stage now i j k) (enumerate 0 steps)"
  shows "map stg_step stages = steps" and "map stg_sequence stages = map int [1..<length steps + 1]"
    and "s \<in> set stages \<Longrightarrow> stg_run s = i \<and> stg_status s = (if stg_step s = ''queued'' then SgRunning else SgPending)"
proof -
  show "map stg_step stages = steps"
    by (simp add: stages new_stage_def case_prod_beta' comp_def)
  have "map stg_sequence stages = map (\<lambda>n. int n + 1) [0..<length steps]"
    by (simp add: stages new_stage_def case_prod_beta' comp_def map_enumerate_fst [of "\<lambda>n. int n + 1" 0, simplified])
  then show "map stg_sequence stages = map int [1..<length steps + 1]"
    by (simp add: map_Suc_upt [symmetric] comp_def del: map_Suc_upt upt_Suc)
  show "s \<in> set stages \<Longrightarrow> stg_run s = i \<and> stg_status s = (if stg_step s = ''queued'' then SgRunning else SgPending)"
    by (auto simp: stages new_stage_def)
qed

text \<open>C19. A run that is created (and not found to exist already) consists of exactly one pending item for
  each selected candidate, in the order of their ids, one stage for each step of the run in order, of
  which only the first is running, and one pending job without a lease; the run starts pending with the
  number of its candidates and no scope entry for the selected ids.\<close>

theorem created_run_is_complete:
  assumes "createRun now step scope ids p a = Inr (r, b)" and "r \<notin> set (db_runs a)"
    and "distinct (map cnd_id (db_candidates a))"
  shows "db_runs b = db_runs a @ [r] \<and> run_status r = RuPending \<and> run_step r = step \<and> run_total r = int (length ids)
    \<and> \<not> has_key (run_scope r) ''candidate_ids''
    \<and> (\<exists>items. db_items b = db_items a @ items \<and> map itm_candidate items = sort ids
         \<and> distinct (map itm_id items) \<and> (\<forall>i \<in> set items. itm_run i = run_id r \<and> itm_status i = ItPending \<and> itm_snapshot i = []))
    \<and> (\<exists>stages. db_stages b = db_stages a @ stages \<and> map stg_step stages = run_stages step
         \<and> map stg_sequence stages = map int [1..<length (run_stages step) + 1]
         \<and> (\<forall>s \<in> set stages. stg_run s = run_id r
              \<and> stg_status s = (if stg_step s = ''queued'' then SgRunning else SgPending)))
    \<and> (\<exists>q. db_queue b = db_queue a @ [q] \<and> que_run q = run_id r \<and> que_status q = ''pending'' \<and> que_lease_until q = None)"
proof -
  obtain c e where c: "check_retry scope ids a = Inr c" "existing_run scope ids c = Inr e"
      "(case e of Some x \<Rightarrow> Inr (x, c) | None \<Rightarrow> insert_run now step scope ids p c) = Inr (r, b)"
    using assms(1) by (auto simp: createRun_def andThen_eq_Inr)
  note frame = check_retry_frame [OF c(1)]
  have "e = None"
    using c(2,3) existing_run_found [of scope ids c] assms(2) frame(1) by (cases e) auto
  then have ins: "insert_run now step scope ids p c = Inr (r, b)" using c(3) by simp
  define chosen where "chosen = sort_key cnd_id (filter (\<lambda>c. cnd_id c \<in> set ids) (db_candidates c))"
  define items where "items = map (\<lambda>(k, x). new_item (db_next c) c (db_next c + 1 + int k) x) (enumerate 0 chosen)"
  define stages where "stages = map (new_stage now (db_next c) (db_next c + 1 + int (length chosen)) (int (length ids)))
    (enumerate 0 (run_stages step))"
  have len: "length chosen = length ids"
    using ins by (auto simp: insert_run_def Let_def chosen_def split: if_split_asm)
  have r: "r = new_run (db_next c) step scope (length ids) p"
    and b: "db_runs b = db_runs c @ [r]" "db_items b = db_items c @ items" "db_stages b = db_stages c @ stages"
      "\<exists>q. db_queue b = db_queue c @ [q] \<and> que_run q = db_next c \<and> que_status q = ''pending'' \<and> que_lease_until q = None"
    using ins len by (auto simp: insert_run_def Let_def chosen_def [symmetric] items_def stages_def)
  have run: "run_id r = db_next c" "run_status r = RuPending" "run_step r = step" "run_total r = int (length ids)"
      "\<not> has_key (run_scope r) ''candidate_ids''"
    by (auto simp: r new_run_def Let_def has_key_def drop_keys_def)
  have "map cnd_id chosen = sort ids"
    using chosen_ids [of "db_candidates c" ids] len assms(3) frame(5) by (simp add: chosen_def)
  then show ?thesis
    using b run frame new_items [OF items_def] new_stages [OF stages_def] by auto
qed

theorem created_run_is_complete_witness:
  "\<exists>r b. createRun 0 ''step2'' [] [10] None run_platform = Inr (r, b) \<and> run_total r = 1
     \<and> (\<exists>items. db_items b = db_items run_platform @ items \<and> map itm_candidate items = [10])"
proof -
  obtain r b where c: "createRun 0 ''step2'' [] [10] None run_platform = Inr (r, b)" "r \<notin> set (db_runs run_platform)"
    by (simp add: createRun_def check_retry_def existing_run_def insert_run_def run_platform_def run_candidate_def
        has_key_def Let_def empty_db_def)
  from created_run_is_complete [OF c] show ?thesis
    using c(1) by (auto simp: run_platform_def run_candidate_def)
qed

end
