(* ===== verification/PreflightFacts.thy ===== *)
theory PreflightFacts
  imports Preflight
begin

text \<open>
  The properties of the preflight: which of a candidate's volunteers is current, and when the school
  admission lets it through.
\<close>

lemma scan_rules_found:
  "snd (scan_rules first highest education rules m) =
     find (\<lambda>r. rule_tags_match first highest r \<and> rule_educations_match education r) rules"
  by (induction rules arbitrary: m) auto

lemma scan_rules_tags:
  "snd (scan_rules first highest education rules m) = None \<Longrightarrow>
     fst (scan_rules first highest education rules m) \<longleftrightarrow> m \<or> (\<exists>r \<in> set rules. rule_tags_match first highest r)"
  by (induction rules arbitrary: m) (auto split: if_split_asm)

lemma current_volunteer_None:
  "current_volunteer retry i vs = None \<longleftrightarrow> (\<forall>v \<in> set vs. \<not> may_be_current retry v)"
  by (induction vs arbitrary: i) auto

lemma current_volunteer_Some:
  assumes "current_volunteer retry i vs = Some (n, v)"
  shows "\<exists>k < length vs. n = i + k + 1 \<and> vs ! k = v \<and> may_be_current retry v \<and> (\<forall>j < k. \<not> may_be_current retry (vs ! j))"
  using assms
proof (induction vs arbitrary: i)
  case (Cons u vs)
  show ?case
  proof (cases "may_be_current retry u")
    case False
    with Cons obtain k where k: "k < length vs" "n = (i + 1) + k + 1" "vs ! k = v" "may_be_current retry v"
        "\<forall>j < k. \<not> may_be_current retry (vs ! j)"
      by fastforce
    then show ?thesis using False by (intro exI [of _ "Suc k"]) (auto simp: less_Suc_eq_0_disj)
  qed (use Cons.prems in auto)
qed simp

definition decided_keys :: "string set" where
  "decided_keys = {''status'', ''job_refs'', ''pool_code'', ''standard_code''}"

lemma mark_resolution_keeps: "k \<notin> decided_keys \<Longrightarrow> fld (mark_resolution d r) k = fld d k"
  by (cases r) (simp_all add: mark_resolution_def decided_keys_def)

lemma resolve_keeps:
  assumes "resolveApplicationStandard s current d = Inr e" and "k \<notin> decided_keys"
  shows "fld e k = fld d k"
proof -
  have "\<exists>r. e = mark_resolution d r"
    using assms(1) by (auto simp: resolveApplicationStandard_def andThen_eq_Inr Let_def simp del: fld_put split: if_split_asm)
  then show ?thesis using mark_resolution_keeps [OF assms(2)] by auto
qed

lemma admit_other:
  assumes "k \<notin> {''status'', ''admission_passed'', ''admission_rule_ref''}"
  shows "fld (admit c d rules) k = fld d k"
  using assms by (simp add: admit_def Let_def split: prod.split option.split)

text \<open>The first rule by priority that admits the degrees of a candidate, and the test of the tags alone.\<close>

definition admitting_rule :: "object \<Rightarrow> object list \<Rightarrow> object option" where
  "admitting_rule c rules = find (\<lambda>r.
     rule_tags_match (str (fld c ''first_degree_tag_ref'')) (str (fld c ''highest_degree_tag_ref'')) r \<and>
     rule_educations_match (str (fld c ''highest_education'')) r) rules"

definition tags_admitted :: "object \<Rightarrow> object list \<Rightarrow> bool" where
  "tags_admitted c rules \<longleftrightarrow> (\<exists>r \<in> set rules.
     rule_tags_match (str (fld c ''first_degree_tag_ref'')) (str (fld c ''highest_degree_tag_ref'')) r)"

lemma admit_verdict:
  assumes "fld d ''first_degree_tag_ref'' = JStr (str (fld c ''first_degree_tag_ref''))"
    and "fld d ''highest_degree_tag_ref'' = JStr (str (fld c ''highest_degree_tag_ref''))"
  shows "fld (admit c d rules) ''admission_passed'' = JBool (rules = [] \<or> admitting_rule c rules \<noteq> None)"
    and "admitting_rule c rules = Some r \<Longrightarrow> fld (admit c d rules) ''admission_rule_ref'' = fld r ''ref''"
    and "admitting_rule c rules = None \<Longrightarrow> rules \<noteq> [] \<Longrightarrow> fld (admit c d rules) ''status'' =
      JStr (if tags_admitted c rules then ''education_not_eligible'' else ''school_not_eligible'')"
proof -
  obtain m found where scan: "scan_rules (str (fld c ''first_degree_tag_ref'')) (str (fld c ''highest_degree_tag_ref''))
      (str (fld c ''highest_education'')) rules False = (m, found)"
    by (metis surj_pair)
  have found: "found = admitting_rule c rules"
    
    using scan_rules_found [of "str (fld c ''first_degree_tag_ref'')" "str (fld c ''highest_degree_tag_ref'')" "str (fld c ''highest_education'')" rules False]
    by (simp add: scan admitting_rule_def)
  have tags: "found = None \<Longrightarrow> m = tags_admitted c rules"
    
    using scan_rules_tags [of "str (fld c ''first_degree_tag_ref'')" "str (fld c ''highest_degree_tag_ref'')" "str (fld c ''highest_education'')" rules False]
    by (simp add: scan tags_admitted_def)
  define passed where "passed = put ''admission_passed'' (JBool (rules = [])) d"
  have admit: "admit c d rules = (case found of
      Some rule \<Rightarrow> put ''admission_rule_ref'' (fld rule ''ref'') (put ''admission_passed'' (JBool True) passed)
    | None \<Rightarrow> if rules = [] then passed
        else put ''status'' (JStr (if m then ''education_not_eligible'' else ''school_not_eligible'')) passed)"
    unfolding admit_def Let_def assms str_simps scan passed_def by (simp split: option.split)
  show "fld (admit c d rules) ''admission_passed'' = JBool (rules = [] \<or> admitting_rule c rules \<noteq> None)"
    unfolding found [symmetric] by (cases found) (simp_all add: admit passed_def)
  show "fld (admit c d rules) ''admission_rule_ref'' = fld r ''ref''" if "admitting_rule c rules = Some r"
    using found that by (simp add: admit)
  show "fld (admit c d rules) ''status'' =
      JStr (if tags_admitted c rules then ''education_not_eligible'' else ''school_not_eligible'')"
    if "admitting_rule c rules = None" "rules \<noteq> []"
    using found that tags by (simp add: admit)
qed

text \<open>\<open>prepareSnapshot\<close> in two cases.\<close>

definition retry_ref :: "object \<Rightarrow> string" where
  "retry_ref s = str (fld (obj (fld s ''workflow'')) ''retry_volunteer_ref'')"

definition ordered_preflight :: "object \<Rightarrow> object" where
  "ordered_preflight s = put ''volunteer_order'' (JArr (map (\<lambda>v. fld v ''ref'') (volunteer_order s)))
     (initial_preflight (obj (fld s ''candidate'')))"

definition admitted_preflight :: "object \<Rightarrow> nat \<Rightarrow> object \<Rightarrow> object" where
  "admitted_preflight s rank current = admit (obj (fld s ''candidate'')) (put ''current_volunteer_ref'' (fld current ''ref'')
     (put ''current_rank'' (JNum (of_nat rank)) (ordered_preflight s))) (admission_rules s)"

lemma prepareSnapshot_cases:
  "prepareSnapshot s = (case current_volunteer (retry_ref s) 0 (volunteer_order s) of
     None \<Rightarrow> Inr (put ''admission_passed'' (JBool True) (ordered_preflight s))
   | Some (rank, current) \<Rightarrow>
       if truth (fld (admitted_preflight s rank current) ''admission_passed'')
       then resolveApplicationStandard s current (admitted_preflight s rank current)
       else Inr (admitted_preflight s rank current))"
  by (simp add: prepareSnapshot_def retry_ref_def ordered_preflight_def admitted_preflight_def Let_def
      split: option.split)

lemma admitted_preflight_verdict:
  fixes s :: object
  defines "c \<equiv> obj (fld s ''candidate'')"
  shows "fld (admitted_preflight s rank current) ''admission_passed'' =
      JBool (admission_rules s = [] \<or> admitting_rule c (admission_rules s) \<noteq> None)"
    and "admitting_rule c (admission_rules s) = Some r \<Longrightarrow>
      fld (admitted_preflight s rank current) ''admission_rule_ref'' = fld r ''ref''"
    and "admitting_rule c (admission_rules s) = None \<Longrightarrow> admission_rules s \<noteq> [] \<Longrightarrow>
      fld (admitted_preflight s rank current) ''status'' =
      JStr (if tags_admitted c (admission_rules s) then ''education_not_eligible'' else ''school_not_eligible'')"
    and "fld (admitted_preflight s rank current) ''current_volunteer_ref'' = fld current ''ref''"
    and "fld (admitted_preflight s rank current) ''current_rank'' = JNum (of_nat rank)"
proof -
  define d where "d = put ''current_volunteer_ref'' (fld current ''ref'') (put ''current_rank'' (JNum (of_nat rank)) (ordered_preflight s))"
  have keys: "fld d ''first_degree_tag_ref'' = JStr (str (fld c ''first_degree_tag_ref''))"
      "fld d ''highest_degree_tag_ref'' = JStr (str (fld c ''highest_degree_tag_ref''))"
      "fld d ''current_volunteer_ref'' = fld current ''ref''" "fld d ''current_rank'' = JNum (of_nat rank)"
    by (simp_all add: d_def ordered_preflight_def initial_preflight_def c_def)
  have d: "admitted_preflight s rank current = admit c d (admission_rules s)"
    by (simp only: admitted_preflight_def d_def c_def)
  note verdict = admit_verdict [OF keys(1,2)]
  show "fld (admitted_preflight s rank current) ''admission_passed'' =
      JBool (admission_rules s = [] \<or> admitting_rule c (admission_rules s) \<noteq> None)"
    unfolding d by (rule verdict)
  show "admitting_rule c (admission_rules s) = Some r \<Longrightarrow>
      fld (admitted_preflight s rank current) ''admission_rule_ref'' = fld r ''ref''"
    unfolding d by (rule verdict)
  show "admitting_rule c (admission_rules s) = None \<Longrightarrow> admission_rules s \<noteq> [] \<Longrightarrow>
      fld (admitted_preflight s rank current) ''status'' =
      JStr (if tags_admitted c (admission_rules s) then ''education_not_eligible'' else ''school_not_eligible'')"
    unfolding d by (rule verdict)
  show "fld (admitted_preflight s rank current) ''current_volunteer_ref'' = fld current ''ref''"
      "fld (admitted_preflight s rank current) ''current_rank'' = JNum (of_nat rank)"
    unfolding d by (simp_all add: admit_other keys)
qed

text \<open>C18. The current volunteer of a candidate is the first one that is neither rejected nor excluded by a
  retry, in an order that permutes the volunteers, puts those of the preferred entity before the
  others and orders each of the two groups by date; its rank is its place in that order. Without one,
  the preflight says so and names none.\<close>

theorem current_volunteer_is_first:
  assumes "prepareSnapshot s = Inr d"
  shows "mset (volunteer_order s) = mset (map obj (list_of (fld s ''volunteers'')))
    \<and> sorted (map (volunteer_key (preferredEntity (obj (fld s ''candidate'')))) (volunteer_order s))
    \<and> (if \<exists>v \<in> set (volunteer_order s). may_be_current (retry_ref s) v
       then \<exists>k < length (volunteer_order s). may_be_current (retry_ref s) (volunteer_order s ! k)
          \<and> (\<forall>j < k. \<not> may_be_current (retry_ref s) (volunteer_order s ! j))
          \<and> fld d ''current_volunteer_ref'' = fld (volunteer_order s ! k) ''ref''
          \<and> fld d ''current_rank'' = JNum (of_nat (k + 1))
       else fld d ''current_volunteer_ref'' = JStr [] \<and> fld d ''status'' = JStr ''no_effective_volunteer'')"
proof -
  have order: "mset (volunteer_order s) = mset (map obj (list_of (fld s ''volunteers'')))"
    "sorted (map (volunteer_key (preferredEntity (obj (fld s ''candidate'')))) (volunteer_order s))"
    by (simp_all add: volunteer_order_def)
  show ?thesis
  proof (cases "current_volunteer (retry_ref s) 0 (volunteer_order s)")
    case None
    then have "d = put ''admission_passed'' (JBool True) (ordered_preflight s)"
      using assms by (simp add: prepareSnapshot_cases)
    then show ?thesis
      using order None by (simp add: current_volunteer_None ordered_preflight_def initial_preflight_def)
  next
    case (Some p)
    obtain n v where p: "p = (n, v)" by (cases p)
    obtain k where k: "k < length (volunteer_order s)" "n = k + 1" "volunteer_order s ! k = v"
        "may_be_current (retry_ref s) v" "\<forall>j < k. \<not> may_be_current (retry_ref s) (volunteer_order s ! j)"
      using current_volunteer_Some [OF Some [unfolded p]] by auto
    have "fld d key = fld (admitted_preflight s n v) key" if "key \<notin> decided_keys" for key
      using assms Some p resolve_keeps [of s v "admitted_preflight s n v" d key] that
      by (simp add: prepareSnapshot_cases split: if_split_asm)
    then have "fld d ''current_volunteer_ref'' = fld v ''ref'' \<and> fld d ''current_rank'' = JNum (of_nat (k + 1))"
      using k(2) admitted_preflight_verdict(4,5) by (simp add: decided_keys_def)
    then show ?thesis using order k nth_mem [OF k(1)] by auto
  qed
qed

text \<open>The school admission of a current volunteer passes exactly when there are no rules or some rule
  admits both degrees and the education, and then names the first such rule by priority; a refusal
  says whether a rule would have admitted the schools with another education.\<close>

theorem admission_verdict:
  fixes s :: object
  defines "c \<equiv> obj (fld s ''candidate'')"
  assumes "prepareSnapshot s = Inr d" and "\<exists>v \<in> set (volunteer_order s). may_be_current (retry_ref s) v"
  shows "fld d ''admission_passed'' = JBool (admission_rules s = [] \<or> admitting_rule c (admission_rules s) \<noteq> None)
    \<and> (\<forall>r. admitting_rule c (admission_rules s) = Some r \<longrightarrow> fld d ''admission_rule_ref'' = fld r ''ref'')
    \<and> (admitting_rule c (admission_rules s) = None \<and> admission_rules s \<noteq> [] \<longrightarrow> fld d ''status'' =
        JStr (if tags_admitted c (admission_rules s) then ''education_not_eligible'' else ''school_not_eligible''))
    \<and> sorted (map (\<lambda>r. num (fld r ''priority'')) (admission_rules s))"
proof -
  obtain n v where p: "current_volunteer (retry_ref s) 0 (volunteer_order s) = Some (n, v)"
    using assms(3) current_volunteer_None [of "retry_ref s" 0 "volunteer_order s"]
    by (cases "current_volunteer (retry_ref s) 0 (volunteer_order s)") auto
  define e where "e = admitted_preflight s n v"
  note verdict = admitted_preflight_verdict [where s = s and rank = n and current = v, folded e_def c_def]
  have d: "(if truth (fld e ''admission_passed'') then resolveApplicationStandard s v e else Inr e) = Inr d"
    using assms(2) unfolding prepareSnapshot_cases p option.case prod.case e_def .
  have keep: "key \<notin> decided_keys \<Longrightarrow> fld d key = fld e key" for key
    using d resolve_keeps [of s v e d key] by (auto split: if_split_asm)
  have "sorted (map (\<lambda>r. num (fld r ''priority'')) (admission_rules s))" by (simp add: admission_rules_def)
  moreover have "fld d ''admission_passed'' = fld e ''admission_passed''" "fld d ''admission_rule_ref'' = fld e ''admission_rule_ref''"
    by (rule keep, simp add: decided_keys_def)+
  moreover have "d = e" if "admitting_rule c (admission_rules s) = None" "admission_rules s \<noteq> []"
    using d that verdict(1) by (simp add: truth_def)
  ultimately show ?thesis using verdict(1-3) by auto
qed

text \<open>A snapshot with two volunteers, the earlier of which was rejected, and two admission rules.\<close>

definition preflight_demo :: object where
  "preflight_demo =
     [(''candidate'', JObj [(''first_degree_tag_ref'', JStr ''t1''), (''highest_degree_tag_ref'', JStr ''t2''),
         (''highest_education'', JStr ''master'')]),
      (''workflow'', JObj []),
      (''volunteers'', JArr [JObj [(''ref'', JStr ''b''), (''apply_date'', JStr ''2024-05-01'')],
         JObj [(''ref'', JStr ''a''), (''apply_date'', JStr ''2024-01-01''), (''rejected'', JBool True)]]),
      (''admission_rules'', JArr [JObj [(''ref'', JStr ''r2''), (''priority'', JNum 2), (''first_tag_refs'', JArr [JStr ''t1'']),
           (''highest_tag_refs'', JArr [JStr ''t2''])],
         JObj [(''ref'', JStr ''r1''), (''priority'', JNum 1), (''first_tag_refs'', JArr [JStr ''t1'']),
           (''highest_tag_refs'', JArr [JStr ''t2'']), (''educations'', JArr [JStr ''doctor''])]])]"

lemma preflight_demo_value:
  "map (\<lambda>v. fld v ''ref'') (volunteer_order preflight_demo) = [JStr ''a'', JStr ''b'']"
  "map (\<lambda>v. may_be_current (retry_ref preflight_demo) v) (volunteer_order preflight_demo) = [False, True]"
  "case prepareSnapshot preflight_demo of Inr _ \<Rightarrow> True | Inl _ \<Rightarrow> False"
  "map_option (\<lambda>r. fld r ''ref'') (admitting_rule (obj (fld preflight_demo ''candidate'')) (admission_rules preflight_demo))
     = Some (JStr ''r2'')"
  by code_simp+

lemma preflight_demo_current: "\<exists>v \<in> set (volunteer_order preflight_demo). may_be_current (retry_ref preflight_demo) v"
  using preflight_demo_value(2) by (cases "volunteer_order preflight_demo") auto

theorem current_volunteer_is_first_witness:
  "\<exists>d. prepareSnapshot preflight_demo = Inr d \<and> fld d ''current_volunteer_ref'' = JStr ''b'' \<and> fld d ''current_rank'' = JNum 2"
proof -
  obtain d where d: "prepareSnapshot preflight_demo = Inr d"
    using preflight_demo_value(3) by (cases "prepareSnapshot preflight_demo") auto
  obtain u v where order: "volunteer_order preflight_demo = [u, v]" "fld v ''ref'' = JStr ''b''"
      "\<not> may_be_current (retry_ref preflight_demo) u"
    using preflight_demo_value(1,2) by auto
  from current_volunteer_is_first [OF d] preflight_demo_current order d show ?thesis
    by (auto simp: less_Suc_eq)
qed

theorem admission_verdict_witness:
  "\<exists>d. prepareSnapshot preflight_demo = Inr d \<and> fld d ''admission_passed'' = JBool True \<and> fld d ''admission_rule_ref'' = JStr ''r2''"
proof -
  obtain d where d: "prepareSnapshot preflight_demo = Inr d"
    using preflight_demo_value(3) by (cases "prepareSnapshot preflight_demo") auto
  obtain r where "admitting_rule (obj (fld preflight_demo ''candidate'')) (admission_rules preflight_demo) = Some r"
      "fld r ''ref'' = JStr ''r2''"
    using preflight_demo_value(4) by auto
  with admission_verdict [OF d preflight_demo_current] d show ?thesis by auto
qed

end
