(* ===== verification/ScheduleFacts.thy ===== *)
theory ScheduleFacts
  imports Schedules
begin

text \<open>
  The properties of schedules: the next time, and what a trigger leaves behind.
\<close>

lemma second_pos: "0 < second" by (simp add: second_def)

lemma unix_add_days: "unix (t + k * day_instant) = unix t + k * 86400"
  by (simp add: unix_def day_instant_def second_def)

lemma unix_less: "unix a < unix b \<Longrightarrow> a < b"
  unfolding unix_def by (rule ccontr) (auto dest: zdiv_mono1 [OF _ second_pos] simp: not_less)

lemma next_time_later:
  assumes "r \<noteq> Once"
  shows "\<exists>t k. nextScheduleTime previous r now = Some t \<and> 0 < k \<and> t = previous + k * repeat_days r * day_instant
    \<and> now < t \<and> (1 < k \<longrightarrow> unix (t - repeat_days r * day_instant) \<le> unix now)"
proof -
  define d where "d = repeat_days r"
  define n where "n = max 0 (go_div (unix now - unix previous) (d * 86400))"
  have d: "0 < d" by (simp add: d_def repeat_days_def)
  let ?t = "previous + (n + 1) * d * day_instant"
  have s: "nextScheduleTime previous r now = Some ?t"
    using assms by (simp add: nextScheduleTime_def Let_def d_def n_def)
  have "unix now < unix ?t \<and> (0 < n \<longrightarrow> unix (?t - d * day_instant) \<le> unix now)"
  proof (cases "unix previous \<le> unix now")
    case True
    then have n: "n = (unix now - unix previous) div (d * 86400)"
      using d by (simp add: n_def go_div_nonneg pos_imp_zdiv_nonneg_iff max_absorb2)
    have "unix now - unix previous = n * (d * 86400) + (unix now - unix previous) mod (d * 86400)"
      unfolding n by (rule div_mult_mod_eq [symmetric])
    moreover have "0 \<le> (unix now - unix previous) mod (d * 86400)" "(unix now - unix previous) mod (d * 86400) < d * 86400"
      using d by simp_all
    moreover have "unix ?t = unix previous + (n + 1) * d * 86400" by (simp only: unix_add_days)
    moreover have "unix (?t - d * day_instant) = unix previous + n * d * 86400"
      using unix_add_days [of previous "n * d"] by (simp add: algebra_simps)
    ultimately show ?thesis by (simp add: algebra_simps)
  next
    case False
    have "unix ?t = unix previous + (n + 1) * d * 86400" by (simp only: unix_add_days)
    moreover have "0 \<le> (unix previous - unix now) div (d * 86400)" using False d by (simp add: pos_imp_zdiv_nonneg_iff)
    then have "n = 0" using False d by (simp add: n_def go_div_def mult_le_0_iff zero_le_mult_iff)
    ultimately show ?thesis using False d by simp
  qed
  moreover have "0 \<le> n" by (simp add: n_def)
  ultimately show ?thesis
    using s unix_less by (intro exI [of _ ?t] exI [of _ "n + 1"]) (auto simp: d_def)
qed

text \<open>C38. The next time of a repeating schedule lies after the present, a whole number of days or weeks
  after the time it was planned for, so it never drifts and never comes at once; and it is the first
  such time to the second: either the next one planned, or the one before it has passed.\<close>

theorem next_time_is_anchored:
  assumes "r \<noteq> Once"
  shows "\<exists>t k. nextScheduleTime previous r now = Some t \<and> 0 < k \<and> t = previous + k * repeat_days r * day_instant
    \<and> now < t \<and> (1 < k \<longrightarrow> unix (t - repeat_days r * day_instant) \<le> unix now)"
  by (rule next_time_later [OF assms])

theorem next_time_is_anchored_witness:
  "\<exists>t k. nextScheduleTime 0 Weekly (10 * day_instant) = Some t \<and> t = k * 7 * day_instant \<and> 10 * day_instant < t"
  using next_time_is_anchored [of Weekly 0 "10 * day_instant"] by (auto simp: repeat_days_def)

subsection \<open>Triggers\<close>

lemma createRun_schedules:
  assumes "createRun now step scope ids p a = Inr (r, b)"
  shows "db_schedules b = db_schedules a"
  using assms by (auto simp: createRun_def check_retry_def lockWorkflow_def insert_run_def andThen_eq_Inr Let_def
      split: if_split_asm list.split_asm option.split_asm)

lemma fire_frame:
  assumes "fire show_time filtered now creator s a = Inr (t, b)"
  shows "db_schedules b = db_schedules a" "trg_status t = ScActive \<longrightarrow> trg_next t = nextScheduleTime (next_instant s) (sch_repeat s) now"
    "trg_status t \<noteq> ScActive \<longrightarrow> trg_next t = None"
    "trg_status t = ScActive \<longrightarrow> nextScheduleTime (next_instant s) (sch_repeat s) now \<noteq> None"
  using assms by (auto simp: fire_def planned_def start_scheduled_def andThen_eq_Inr Let_def
      dest: createRun_schedules split: option.split_asm if_split_asm)

lemma fire_next:
  assumes "fire show_time filtered now creator s a = Inr (t, b)"
  shows "if trg_status t = ScActive then \<exists>x. trg_next t = Some x \<and> now < x else trg_next t = None"
proof (cases "nextScheduleTime (next_instant s) (sch_repeat s) now")
  case None
  then show ?thesis using fire_frame(2-4) [OF assms] by auto
next
  case (Some x)
  then have "sch_repeat s \<noteq> Once" by (auto simp: nextScheduleTime_def)
  then have "now < x" using next_time_later [of "sch_repeat s" "next_instant s" now] Some by auto
  then show ?thesis using Some fire_frame(2-4) [OF assms] by auto
qed

lemma trigger_not_due:
  assumes "fire show_time filtered now creator s a = Inr (t, b)"
  shows "\<not> due now locked (trigger_row now t q)"
  using fire_next [OF assms] by (auto simp: due_def trigger_row_def split: if_split_asm option.splits)

lemma sort_key_hd:
  assumes "sort_key f xs = x # ys"
  shows "x \<in> set xs \<and> (\<forall>y \<in> set xs. f x \<le> f y)"
proof -
  have "sorted (map f (x # ys))" using sorted_sort_key [of f xs] assms by simp
  moreover have "set xs = set (x # ys)" using assms by (metis set_sort)
  ultimately show ?thesis by auto
qed

lemma due_schedule_first:
  assumes "due_schedule now locked db = Some s"
  shows "s \<in> set (db_schedules db) \<and> due now locked s \<and> (\<forall>q \<in> set (db_schedules db). due now locked q \<longrightarrow> next_instant s \<le> next_instant q)"
proof -
  obtain ys where "sort_key next_instant (filter (due now locked) (db_schedules db)) = s # ys"
    using assms by (auto simp: due_schedule_def split: list.split_asm)
  from sort_key_hd [OF this] show ?thesis by auto
qed

lemma fewer_after_update:
  assumes "r \<in> set rs" and "c r" and "p r" and "\<And>q. c q \<Longrightarrow> \<not> p (f q)"
  shows "count_where p (update_where c f rs) < count_where p rs"
proof -
  have le: "count_where p (update_where c f qs) \<le> count_where p qs" for qs
    using assms(4) by (induction qs) auto
  from assms(1-3) show ?thesis
  proof (induction rs)
    case (Cons q rs)
    show ?case
    proof (cases "q = r")
      case True
      then show ?thesis using Cons.prems(2,3) assms(4) le [of rs] by simp
    next
      case False
      then show ?thesis using Cons assms(4) by auto
    qed
  qed simp
qed

text \<open>A successful trigger takes the due schedule with the earliest time, records the trigger and leaves
  that schedule with a time in the future or ended, every other schedule as it was, and so strictly
  fewer schedules due: the rounds of the scheduler work off what is due.\<close>

theorem trigger_makes_progress:
  assumes "triggerSchedule show_time filtered account locked now a = Inr (True, b)"
  shows "\<exists>s t. s \<in> set (db_schedules a) \<and> due now locked s
    \<and> (\<forall>q \<in> set (db_schedules a). due now locked q \<longrightarrow> next_instant s \<le> next_instant q)
    \<and> db_schedules b = update_where (\<lambda>r. sch_id r = sch_id s) (trigger_row now t) (db_schedules a)
    \<and> (if trg_status t = ScActive then \<exists>x. trg_next t = Some x \<and> now < x else trg_next t = None)
    \<and> count_where (due now locked) (db_schedules b) < count_where (due now locked) (db_schedules a)"
proof -
  obtain s creator t c where s: "due_schedule now locked a = Some s" "fire show_time filtered now creator s a = Inr (t, c)"
      "b = c\<lparr>db_schedules := update_where (\<lambda>r. sch_id r = sch_id s) (trigger_row now t) (db_schedules c)\<rparr>"
    using assms by (auto simp: triggerSchedule_def andThen_eq_Inr split: option.split_asm)
  note first = due_schedule_first [OF s(1)]
  have b: "db_schedules b = update_where (\<lambda>r. sch_id r = sch_id s) (trigger_row now t) (db_schedules a)"
    using s(3) fire_frame(1) [OF s(2)] by simp
  have "count_where (due now locked) (db_schedules b) < count_where (due now locked) (db_schedules a)"
    unfolding b using first trigger_not_due [OF s(2)] by (intro fewer_after_update [of s]) auto
  moreover have "if trg_status t = ScActive then \<exists>x. trg_next t = Some x \<and> now < x else trg_next t = None"
    using fire_next [OF s(2)] .
  ultimately show ?thesis using first b by blast
qed

definition schedule_demo :: db where
  "schedule_demo = empty_db\<lparr>db_next := 100, db_candidates := [\<lparr> cnd_id = 10, cnd_fields = [] \<rparr>],
     db_schedules := [\<lparr> sch_id = 1, sch_name = ''daily'', sch_scope = [(''candidate_ids'', JArr [JNum 10])], sch_repeat = Daily,
       sch_run_at = 0, sch_next = Some 0, sch_status = ScActive, sch_created_by = Some 5, sch_created_by_name = ''u'',
       sch_last_run = None, sch_last_triggered = None, sch_message = [], sch_count = 0 \<rparr>]\<rparr>"

definition schedule_creator :: principal where
  "schedule_creator = saved_viewer\<lparr>pri_user := 5, pri_permissions := [''pipeline.run'', ''resume.view'']\<rparr>"

definition demo_trigger :: "instant \<Rightarrow> db \<Rightarrow> go_error + bool \<times> db" where
  "demo_trigger = triggerSchedule (\<lambda>_. ''t'') (\<lambda>_ _. Inr []) (\<lambda>_. Inr (Some schedule_creator)) (\<lambda>_. False)"

lemma demo_trigger_value:
  "case demo_trigger (3 * day_instant) schedule_demo of Inr (claimed, b) \<Rightarrow> claimed \<and> map run_id (db_runs b) = [100]
     | Inl _ \<Rightarrow> False"
  by code_simp

theorem trigger_makes_progress_witness:
  "\<exists>b. demo_trigger (3 * day_instant) schedule_demo = Inr (True, b)
     \<and> count_where (due (3 * day_instant) (\<lambda>_. False)) (db_schedules b)
       < count_where (due (3 * day_instant) (\<lambda>_. False)) (db_schedules schedule_demo)"
proof -
  obtain b where b: "demo_trigger (3 * day_instant) schedule_demo = Inr (True, b)"
    using demo_trigger_value by (auto split: sum.split_asm prod.split_asm)
  from trigger_makes_progress [OF b [unfolded demo_trigger_def]] b show ?thesis by blast
qed

end
