(* ===== verification/Pages.thy ===== *)
theory Pages
  imports Filters References
begin

text \<open>
  The pages of a list (pagination.go, \<open>paginate\<close> of http.go): following the pages of a list gives the
  list. The query of a page is the one a client builds from a page number and a page size.
\<close>

lemma page_slice_nat: "page_slice (int k + 1) (int per) rows = take per (drop (k * per) rows)"
proof (cases "k * per \<le> length rows")
  case True
  then have start: "min (int k * int per) (int (length rows)) = int (k * per)"
    by (metis min.absorb1 of_nat_le_iff of_nat_mult)
  have finish: "min (int (k * per) + int per) (int (length rows)) = int (min (k * per + per) (length rows))"
    by (simp only: of_nat_min of_nat_add)
  have difference: "nat (int m - int n) = m - n" for m n by arith
  have "nat (int (min (k * per + per) (length rows)) - int (k * per)) = min per (length rows - k * per)"
    unfolding difference by simp
  moreover have "take (min per (length rows - k * per)) (drop (k * per) rows) = take per (drop (k * per) rows)"
    by (simp add: min_def)
  ultimately show ?thesis unfolding page_slice_def Let_def add_diff_cancel_right' start finish nat_int by simp
next
  case False
  then have "min (int k * int per) (int (length rows)) = int (length rows)"
    by (metis linear min.absorb2 of_nat_le_iff of_nat_mult)
  then show ?thesis using False by (simp add: page_slice_def Let_def)
qed

lemma pages_prefix: "concat (map (\<lambda>n. page_slice n (int per) rows) [1..int k]) = take (k * per) rows"
proof (induction k)
  case (Suc k)
  have "[1..int (Suc k)] = [1..int k] @ [int k + 1]" by (simp add: upto_rec2)
  then show ?case
    using Suc page_slice_nat [of k per rows] by (simp add: take_add [of "k * per" per, symmetric] add.commute)
qed simp

definition page_query :: "int \<Rightarrow> int \<Rightarrow> query" where
  "page_query n per = [(''page'', [show_int n]), (''page_size'', [show_int per])]"

lemma page_query_get [simp]: "q_get (page_query n per) ''page'' = show_int n" "q_get (page_query n per) ''page_size'' = show_int per"
  by (simp_all add: page_query_def q_get_def q_all_def)

lemma show_int_word [simp]: "show_int n \<noteq> []" "show_int n \<noteq> ''last''"
  using parse_int_syntax_show [of n] by (auto simp: parse_int_syntax_def digit_def byte_def Let_def)

lemma atoi_show: "int64_min \<le> n \<Longrightarrow> n \<le> int64_max \<Longrightarrow> atoi (show_int n) = Some n"
  by (simp add: atoi_def parse_int_syntax_show)

lemma page_query_bounds:
  assumes "0 < per" and "per \<le> 500" and "1 \<le> n" and "n \<le> int64_max"
  shows "pageBounds (page_query n per) amount =
    (if 1 < n \<and> page_count (int amount) per < n then Inl (ApiError 404 ''invalid page'') else Inr (n, per))"
proof -
  have "parse_int (show_int per) = per"
    using assms(1,2) by (simp add: parse_int_def parse_int_syntax_show clamp64_def int64_max_def int64_min_def)
  moreover have "atoi (show_int n) = Some n" using assms(3,4) by (simp add: atoi_show int64_min_def)
  ultimately show ?thesis using assms by (simp add: pageBounds_def page_size_of_def Let_def)
qed

definition page_results :: "query \<Rightarrow> 'a list \<Rightarrow> 'a list" where
  "page_results q rows = (case paginate q rows of Inr p \<Rightarrow> pg_results p | Inl _ \<Rightarrow> [])"

lemma page_count_le:
  assumes "0 < per"
  shows "n \<le> page_count m per \<longleftrightarrow> (n - 1) * per < m"
proof -
  have "n \<le> (m + per - 1) div per \<longleftrightarrow> n * per \<le> m + per - 1"
  proof
    assume "n \<le> (m + per - 1) div per"
    then have "n * per \<le> (m + per - 1) div per * per" using assms by simp
    also have "\<dots> \<le> m + per - 1" using assms div_mult_mod_eq [of "m + per - 1" per] pos_mod_sign [of per "m + per - 1"] by linarith
    finally show "n * per \<le> m + per - 1" .
  next
    assume "n * per \<le> m + per - 1"
    from zdiv_mono1 [OF this assms] show "n \<le> (m + per - 1) div per" using assms by simp
  qed
  moreover have "n * per \<le> m + per - 1 \<longleftrightarrow> (n - 1) * per < m" by (auto simp: algebra_simps)
  ultimately show ?thesis by (simp only: page_count_def)
qed

lemma page_count_covers:
  assumes "0 < per" and "0 \<le> m"
  shows "0 \<le> page_count m per" and "m \<le> page_count m per * per" and "page_count m per \<le> m"
proof -
  have "m \<le> m * per" using assms by (simp add: mult_le_cancel_left1)
  then show "0 \<le> page_count m per" "m \<le> page_count m per * per" "page_count m per \<le> m"
  using page_count_le [OF assms(1), of 0 m] page_count_le [OF assms(1), of "page_count m per + 1" m]
    page_count_le [OF assms(1), of "m + 1" m] assms
    by (auto simp: algebra_simps not_le)
qed

text \<open>Asking for the pages of a list one after another, for any page size up to 500, gives every row
  exactly once and in order; each of these pages is answered, names the next page exactly when it is not
  the last, and holds at most the page size; a page beyond the last is refused with a 404.\<close>

theorem pages_partition:
  assumes "0 < per" and "per \<le> 500" and "int (length rows) < int64_max"
  shows "concat (map (\<lambda>n. page_results (page_query n per) rows) [1..max 1 (page_count (int (length rows)) per)]) = rows
    \<and> (\<forall>n \<in> {1..max 1 (page_count (int (length rows)) per)}. \<exists>p. paginate (page_query n per) rows = Inr p
         \<and> pg_count p = length rows \<and> length (pg_results p) \<le> nat per
         \<and> pg_next p = (if n < page_count (int (length rows)) per then Some (n + 1) else None))
    \<and> (\<forall>n \<in> {max 1 (page_count (int (length rows)) per) <..int64_max}.
         paginate (page_query n per) rows = Inl (ApiError 404 ''invalid page''))"
proof -
  let ?m = "int (length rows)" and ?last = "max 1 (page_count (int (length rows)) per)"
  note cover = page_count_covers [OF assms(1), of ?m, simplified]
  have small: "?last \<le> int64_max" using cover(3) assms(3) by (simp add: int64_max_def)
  have answer: "paginate (page_query n per) rows = Inr (pageResponse (page_slice n per rows) (length rows) n per)"
    if "1 \<le> n" "n \<le> ?last" for n
    using that small assms(1,2) by (auto simp: paginate_def page_query_bounds)
  have "concat (map (\<lambda>n. page_results (page_query n per) rows) [1..?last]) = concat (map (\<lambda>n. page_slice n per rows) [1..?last])"
    by (intro arg_cong [where f = concat] map_cong) (simp_all add: page_results_def answer pageResponse_def)
  also have "\<dots> = rows"
  proof -
    have "?m \<le> ?last * per" using cover(2) assms(1) by (simp add: max_def mult_right_mono order_trans)
    then have "length rows \<le> nat ?last * nat per" using cover(1) assms(1) by (simp add: nat_mult_distrib [symmetric] le_nat_iff)
    moreover have "int (nat ?last) = ?last" "int (nat per) = per" using assms(1) by (simp_all add: le_max_iff_disj)
    ultimately show ?thesis using pages_prefix [of "nat per" rows "nat ?last"] by (simp only:) simp
  qed
  finally have all: "concat (map (\<lambda>n. page_results (page_query n per) rows) [1..?last]) = rows" .
  have slice: "length (page_slice n per rows) \<le> nat per" if "1 \<le> n" for n
    using that assms(1) page_slice_nat [of "nat (n - 1)" "nat per" rows] by simp
  have following: "n < page_count ?m per \<longleftrightarrow> n * per < ?m" for n
    using page_count_le [OF assms(1), of "n + 1" ?m] by (simp add: add1_zle_eq)
  show ?thesis
  proof (intro conjI ballI)
    fix n
    assume "n \<in> {1..?last}"
    then show "\<exists>p. paginate (page_query n per) rows = Inr p \<and> pg_count p = length rows \<and> length (pg_results p) \<le> nat per
        \<and> pg_next p = (if n < page_count ?m per then Some (n + 1) else None)"
      using answer [of n] slice [of n] following [of n] by (simp add: pageResponse_def)
  next
    fix n
    assume "n \<in> {?last<..int64_max}"
    then show "paginate (page_query n per) rows = Inl (ApiError 404 ''invalid page'')"
      using assms(1,2) by (simp add: paginate_def page_query_bounds)
  qed (rule all)
qed

theorem pages_partition_witness:
  "page_results (page_query 1 2) [1::nat, 2, 3] @ page_results (page_query 2 2) [1::nat, 2, 3] = [1, 2, 3]
     \<and> paginate (page_query 3 2) [1::nat, 2, 3] = Inl (ApiError 404 ''invalid page'')"
  using pages_partition [of 2 "[1::nat, 2, 3]"] by (simp add: page_count_def int64_max_def upto.simps)

end
