(* ===== verification/PoolMembers.thy ===== *)
theory PoolMembers
  imports Preflight Filters
begin

text \<open>
  The members of the position pools (internal/platform/pools.go, poolMembersAPI): the visible members
  of a list request, the request to allocate a member and the manual revision of its tags; and the
  invalidation of a candidate's assessments when the facts they rest on change
  (candidate_inputs.go).
\<close>

subsection \<open>Listing members\<close>

definition member_matches :: "query \<Rightarrow> (string \<Rightarrow> string \<Rightarrow> bool) \<Rightarrow> (member_status \<Rightarrow> string) \<Rightarrow> member_row \<Rightarrow> bool" where
  "member_matches q like status_text m \<longleftrightarrow>
     (q_get q ''pool_code'' = [] \<or> mem_pool m = q_get q ''pool_code'') \<and>
     (q_get q ''status'' = [] \<or> status_text (mem_status m) = q_get q ''status'') \<and>
     (q_get q ''candidate_id'' = [] \<or> parse_int_syntax (q_get q ''candidate_id'') = Some (mem_candidate m)) \<and>
     (q_get q ''pool_name'' = [] \<or> like (q_get q ''pool_name'') (str (fld (obj (fld (mem_assessment m) ''pool'')) ''name'')))"

fun member_status_text :: "member_status \<Rightarrow> string" where
  "member_status_text PmPendingReview = ''pending_review''"
| "member_status_text PmPendingAllocation = ''pending_allocation''"
| "member_status_text PmAllocated = ''allocated''"
| "member_status_text PmNeedsReanalysis = ''needs_reanalysis''"
| "member_status_text PmClosed = ''closed''"
| "member_status_text PmRejected = ''rejected''"

text \<open>\<open>like\<close> is the case-insensitive ILIKE of the database for an escaped pattern.\<close>

definition listPoolMembers ::
  "(string \<Rightarrow> string \<Rightarrow> bool) \<Rightarrow> query \<Rightarrow> principal \<Rightarrow> db \<Rightarrow> go_error + member_row page" where
  "listPoolMembers like q p db =
     (if \<not> has p ''resume.view'' then Inl (ApiError 403 ''no permission to view pools'')
      else if q_get q ''candidate_id'' \<noteq> [] \<and> parse_int_syntax (q_get q ''candidate_id'') = None
      then Inl (OtherError ''22P02'')
      else paginate q (filter (canReadPoolMember db p)
        (sort_key (\<lambda>m. (mem_created m, mem_id m)) (filter (member_matches q like member_status_text) (db_members db)))))"

subsection \<open>Revising tags\<close>

definition catalogue_has :: "member_row \<Rightarrow> string \<Rightarrow> bool" where
  "catalogue_has m key \<longleftrightarrow>
     list_ex (\<lambda>t. fld (obj t) ''code'' = JStr key) (list_of (fld (mem_assessment m) ''tag_catalog''))"

text \<open>The evidence of the last tag with the code; none when the member had no such tag.\<close>

definition prior_evidence :: "member_row \<Rightarrow> string \<Rightarrow> json list" where
  "prior_evidence m key = (case last_where (\<lambda>t. fld (obj t) ''code'' = JStr key) (mem_tags m) of
     None \<Rightarrow> [] | Some t \<Rightarrow> list_of (fld (obj t) ''evidence''))"

definition revised_tag :: "member_row \<Rightarrow> json \<Rightarrow> object \<Rightarrow> json" where
  "revised_tag m remark tag =
     (let key = str (fld tag ''code'') in
      JObj [(''code'', JStr key), (''status'', fld tag ''status''), (''confidence'', JNum 1), (''source'', JStr ''manual''),
        (''note'', remark), (''evidence'', JArr (prior_evidence m key))])"

definition revise_tag :: "member_row \<Rightarrow> json \<Rightarrow> json \<Rightarrow> string list \<times> json list \<Rightarrow> go_error + string list \<times> json list" where
  "revise_tag m remark value = (\<lambda>(seen, tags).
     let tag = obj value; key = str (fld tag ''code'') in
     if \<not> catalogue_has m key \<or> contains seen key
       \<or> \<not> contains [''supported'', ''needs_verification''] (str (fld tag ''status''))
     then Inl (bad ''unknown, repeated or invalid tag'')
     else Inr (key # seen, tags @ [revised_tag m remark tag]))"

definition revised_tags :: "member_row \<Rightarrow> object \<Rightarrow> go_error + json list" where
  "revised_tags m body =
     (if mem_status m \<noteq> PmPendingAllocation then Inl (bad ''only a pending member'')
      else if blank (str (fld body ''note'')) then Inl (bad ''a reason is required'')
      else case fld body ''tags'' of
          JArr vs \<Rightarrow> andThen (foldE (revise_tag m (fld body ''note'')) vs ([], [])) (\<lambda>(_, tags). Inr tags)
        | _ \<Rightarrow> Inl (bad ''a list of tags is required''))"

definition store_tags :: "int \<Rightarrow> json list \<Rightarrow> member_row \<Rightarrow> member_row" where
  "store_tags i tags m = m\<lparr>mem_tags := tags, mem_revision := mem_revision m + 1\<rparr>"

definition reviseTags :: "platform_env \<Rightarrow> principal \<Rightarrow> object \<Rightarrow> member_row \<Rightarrow> db \<Rightarrow> go_error + db" where
  "reviseTags env p body m db =
     andThen (revised_tags m body) (\<lambda>tags.
     let db = poolEvent (mem_id m) ''tags_revised''
           [(''previous'', JArr (mem_tags m)), (''tags'', JArr tags), (''note'', fld body ''note'')] (Some p) db;
         db = db\<lparr>db_members := update_where (\<lambda>r. mem_id r = mem_id m) (store_tags (mem_id m) tags) (db_members db)\<rparr>
     in andThen (fetch mem_id (mem_id m) (db_members db)) (\<lambda>revised.
        andThen (saveScreeningQualification env revised False db) (\<lambda>(_, db). Inr db)))"

subsection \<open>The requests on a member\<close>

definition request_allocation ::
  "(task_input \<Rightarrow> string) \<Rightarrow> entropy \<Rightarrow> principal \<Rightarrow> member_row \<Rightarrow> db \<Rightarrow> go_error + task_row \<times> db" where
  "request_allocation fingerprint ent p m db =
     andThen (allocationScope m db) (\<lambda>s.
       if \<not> canAccessAllocationScope db (Some p) s True then Inl (ApiError 403 ''no permission for the scope'')
       else enqueuePoolAllocation fingerprint ent m (Some p) db)"

text \<open>The guards of \<open>POST pool-members/{id}/{action}\<close> inside the transaction.\<close>

definition locked_member :: "int \<Rightarrow> object \<Rightarrow> db \<Rightarrow> go_error + (workflow_row \<times> member_row) \<times> db" where
  "locked_member i body db =
     andThen (fetch mem_id i (db_members db)) (\<lambda>m.
     andThen (lockWorkflow (mem_candidate m) db) (\<lambda>(w, db).
       if num (fld body ''revision'') \<noteq> mem_revision m then Inl (ApiError 409 ''member changed'')
       else if opt_number (wf_current_resume w) \<noteq> mem_resume m
       then Inl (bad ''not the current application'')
       else Inr ((w, m), db)))"

definition poolMemberAction ::
  "platform_env \<Rightarrow> (task_input \<Rightarrow> string) \<Rightarrow> entropy \<Rightarrow> principal \<Rightarrow> int \<Rightarrow> string \<Rightarrow> object \<Rightarrow> db
    \<Rightarrow> go_error + task_row option \<times> db" where
  "poolMemberAction env fingerprint ent p i action body db =
     (if \<not> has p ''resume.view'' then Inl (ApiError 403 ''no permission to view pools'')
      else if i \<le> 0 then Inl (bad ''invalid member'')
      else andThen (fetch mem_id i (db_members db)) (\<lambda>seen.
        if \<not> canReadPoolMember db p seen then Inl (ApiError 403 ''no access to the member'')
        else if \<not> has p ''attempt.dispatch'' then Inl (ApiError 403 ''no permission to allocate'')
        else if action = ''review'' then Inl (ApiError 410 ''review is gone'')
        else andThen (locked_member i body db) (\<lambda>((w, m), db).
          andThen (if action = ''allocate''
              then andThen (request_allocation fingerprint ent p m db) (\<lambda>(t, db). Inr (Some t, db))
              else if action = ''tags'' then andThen (reviseTags env p body m db) (\<lambda>db. Inr (None, db))
              else Inl (ApiError 404 ''unknown action'')) (\<lambda>(t, db).
          andThen (invalidateWorkflow w db) (\<lambda>(_, db). Inr (t, db))))))"

subsection \<open>Changed inputs\<close>

definition stale_work :: "int \<Rightarrow> work_row \<Rightarrow> bool" where
  "stale_work m i \<longleftrightarrow> wrk_member i = m \<and> wrk_status i \<in> {WiPending, WiLeased, WiWaiting}"

definition invalidate_member :: "instant \<Rightarrow> principal option \<Rightarrow> member_row \<Rightarrow> db \<Rightarrow> go_error + db" where
  "invalidate_member now actor m db =
     andThen (applicationState now (mem_resume m) AppNeedsReanalysis ''candidate changed''
       [(''member_id'', JNum (of_int (mem_id m)))]
       (db\<lparr>db_work := update_where (stale_work (mem_id m))
          (\<lambda>i. i\<lparr>wrk_status := WiCancelled, wrk_reason := ''qualification_stale''\<rparr>) (db_work db)\<rparr>)) (\<lambda>db.
     Inr (poolEvent (mem_id m) ''candidate_changed'' [(''message'', JStr ''candidate changed'')] actor db))"

definition assessing_resumes :: "int \<Rightarrow> db \<Rightarrow> int list" where
  "assessing_resumes c db = sort (map app_resume
     (filter (\<lambda>a. app_candidate a = c \<and> app_status a = AppAssessing) (db_applications db)))"

definition pending_member :: "int \<Rightarrow> member_row \<Rightarrow> bool" where
  "pending_member c m \<longleftrightarrow> mem_candidate m = c \<and> mem_status m = PmPendingAllocation"

definition stale_member :: "member_row \<Rightarrow> member_row" where
  "stale_member m = m\<lparr>mem_status := PmNeedsReanalysis, mem_revision := mem_revision m + 1\<rparr>"

text \<open>\<open>before\<close> and \<open>after\<close> are the fields of the candidate; the hash compares the assessed ones.\<close>

definition invalidateCandidateInputs ::
  "(json \<Rightarrow> string) \<Rightarrow> instant \<Rightarrow> principal option \<Rightarrow> int \<Rightarrow> object \<Rightarrow> object \<Rightarrow> db \<Rightarrow> go_error + db" where
  "invalidateCandidateInputs fingerprint now actor c before after db =
     (if fingerprint (JObj (candidateAssessmentInputs before)) = fingerprint (JObj (candidateAssessmentInputs after))
      then Inr db
      else case first_where (\<lambda>w. wf_candidate w = c) (db_workflows db) of
        None \<Rightarrow> Inr db
      | Some w \<Rightarrow>
          andThen (invalidateWorkflow w db) (\<lambda>(_, db).
          andThen (foldE (\<lambda>r. applicationState now r AppBlocked ''candidate changed''
              [(''source'', JStr ''candidate_changed'')]) (assessing_resumes c db) db) (\<lambda>db.
          foldE (invalidate_member now actor) (map stale_member (filter (pending_member c) (db_members db)))
            (db\<lparr>db_members := update_where (pending_member c) stale_member (db_members db)\<rparr>))))"

end
