(* ===== verification/JobPolicy.thy ===== *)
theory JobPolicy
  imports PoolPolicy
begin

text \<open>
  The part of the pool policy that the job records own (internal/platform/job_configuration.go): the
  pools, rules and standards generated from jobs, and the check whether a standard's candidates can be
  allocated. The content hash \<open>fingerprint\<close> is a parameter. A loop that changes objects of the
  policy in place is an update of the list element; only JSON objects can be changed that way.
\<close>

subsection \<open>Codes and requirements\<close>

definition jobPolicyCode :: "(json \<Rightarrow> string) \<Rightarrow> string \<Rightarrow> string \<Rightarrow> string \<Rightarrow> string" where
  "jobPolicyCode fingerprint prefix entity name =
     prefix @ ''_'' @ take 24 (fingerprint (JArr [JStr (normalized entity), JStr (normalized name)]))"

definition jobRequirementFields :: "object \<Rightarrow> object" where
  "jobRequirementFields job =
     [(''responsibilities'', JStr (trim_space (str (fld job ''responsibilities'')))),
      (''education'', JStr (trim_space (str (fld job ''education'')))),
      (''required_majors'', JArr (list_of (fld job ''required_majors'')))]"

definition pool_code_of :: "(json \<Rightarrow> string) \<Rightarrow> object \<Rightarrow> string" where
  "pool_code_of fingerprint job =
     jobPolicyCode fingerprint ''pool'' (str (fld job ''entity'')) (str (fld job ''position_name''))"

definition standard_code_of :: "(json \<Rightarrow> string) \<Rightarrow> object \<Rightarrow> string" where
  "standard_code_of fingerprint job =
     jobPolicyCode fingerprint ''standard'' (str (fld job ''entity'')) (str (fld job ''public_name''))"

definition job_number :: "object \<Rightarrow> int" where
  "job_number job = num (fld job ''id'')"

definition rule_number :: "json \<Rightarrow> int" where
  "rule_number v = num (fld (obj v) ''job_id'')"

subsection \<open>Pools and rules\<close>

text \<open>\<open>policy[kind] = append(list(policy[kind]), item)\<close>.\<close>

definition add_item :: "string \<Rightarrow> object \<Rightarrow> object \<Rightarrow> object" where
  "add_item kind item policy = put kind (JArr (list_of (fld policy kind) @ [JObj item])) policy"

definition set_items :: "string \<Rightarrow> json list \<Rightarrow> object \<Rightarrow> object" where
  "set_items kind vs policy = (case fld policy kind of JArr _ \<Rightarrow> put kind (JArr vs) policy | _ \<Rightarrow> policy)"

definition keep_rules :: "object list \<Rightarrow> object \<Rightarrow> object" where
  "keep_rules jobs policy = put ''rules'' (JArr (filter (\<lambda>v. rule_number v \<in> job_number ` set jobs)
     (list_of (fld policy ''rules'')))) policy"

definition takes_part :: "object \<Rightarrow> bool" where
  "takes_part job \<longleftrightarrow> truth (fld job ''is_active'') \<and> normalized (str (fld job ''entity'')) \<noteq> [] \<and>
     normalized (str (fld job ''position_name'')) \<noteq> []"

definition new_pool :: "(json \<Rightarrow> string) \<Rightarrow> object \<Rightarrow> object" where
  "new_pool fingerprint job = [(''code'', JStr (pool_code_of fingerprint job)), (''entity'', fld job ''entity''),
     (''name'', fld job ''position_name''), (''active'', JBool True), (''generated'', JBool True)]"

definition new_rule :: "(json \<Rightarrow> string) \<Rightarrow> object \<Rightarrow> object" where
  "new_rule fingerprint job = [(''job_id'', fld job ''id''), (''pool_code'', JStr (pool_code_of fingerprint job)),
     (''active'', JBool False), (''required_tags'', JArr []), (''preferred_tags'', JArr []), (''priority'', JNum 0)]"

definition entity_of :: "object option \<Rightarrow> string" where
  "entity_of item = normalized (str (fld (case item of None \<Rightarrow> [] | Some m \<Rightarrow> m) ''entity''))"

definition job_entity_norm :: "object \<Rightarrow> string" where
  "job_entity_norm job = normalized (str (fld job ''entity''))"

definition add_pool :: "(json \<Rightarrow> string) \<Rightarrow> object \<Rightarrow> object \<Rightarrow> object" where
  "add_pool fingerprint job policy =
     (if policyItem policy ''pools'' (pool_code_of fingerprint job) = None
      then add_item ''pools'' (new_pool fingerprint job) policy else policy)"

text \<open>A demand moved to another entity needs its routing explicitly enabled again.\<close>

definition routed :: "object \<Rightarrow> object \<Rightarrow> object \<Rightarrow> bool" where
  "routed policy job rule \<longleftrightarrow>
     entity_of (policyItem policy ''pools'' (str (fld rule ''pool_code''))) = job_entity_norm job"

definition reroute :: "(json \<Rightarrow> string) \<Rightarrow> object \<Rightarrow> object \<Rightarrow> object" where
  "reroute fingerprint job rule =
     put ''active'' (JBool False) (put ''pool_code'' (JStr (pool_code_of fingerprint job)) rule)"

definition route_rule :: "(json \<Rightarrow> string) \<Rightarrow> object \<Rightarrow> object \<Rightarrow> object" where
  "route_rule fingerprint job policy =
     (case find (\<lambda>v. rule_number v = job_number job) (list_of (fld policy ''rules'')) of
        None \<Rightarrow> add_item ''rules'' (new_rule fingerprint job) policy
      | Some v \<Rightarrow> if routed policy job (obj v) then policy
          else set_items ''rules'' (update_first (\<lambda>v. rule_number v = job_number job)
            (change_object (reroute fingerprint job)) (list_of (fld policy ''rules''))) policy)"

definition derive_job :: "(json \<Rightarrow> string) \<Rightarrow> object \<Rightarrow> object \<Rightarrow> object" where
  "derive_job fingerprint job policy =
     (if takes_part job then route_rule fingerprint job (add_pool fingerprint job policy) else policy)"

subsection \<open>Standards\<close>

definition posted :: "object \<Rightarrow> bool" where
  "posted job \<longleftrightarrow> takes_part job \<and> normalized (str (fld job ''public_name'')) \<noteq> []"

definition job_group :: "(json \<Rightarrow> string) \<Rightarrow> object list \<Rightarrow> string \<Rightarrow> object list" where
  "job_group fingerprint jobs code = filter (\<lambda>j. posted j \<and> standard_code_of fingerprint j = code) jobs"

definition group_codes :: "(json \<Rightarrow> string) \<Rightarrow> object list \<Rightarrow> string list" where
  "group_codes fingerprint jobs = sort (remdups (map (standard_code_of fingerprint) (filter posted jobs)))"

text \<open>An explicitly maintained posting mapping takes precedence over generation.\<close>

definition names_posting :: "object \<Rightarrow> object \<Rightarrow> bool" where
  "names_posting job other \<longleftrightarrow> normalized (str (fld other ''entity'')) = job_entity_norm job \<and>
     list_ex (\<lambda>name. normalized name = normalized (str (fld job ''public_name'')))
       (string_values (fld other ''application_names''))"

definition mapped :: "object \<Rightarrow> object \<Rightarrow> bool" where
  "mapped policy job \<longleftrightarrow> list_ex (\<lambda>v. names_posting job (obj v)) (list_of (fld policy ''standards''))"

definition new_standard :: "string \<Rightarrow> object \<Rightarrow> object" where
  "new_standard code job = [(''code'', JStr code), (''name'', fld job ''public_name''), (''entity'', fld job ''entity''),
     (''application_names'', JArr [fld job ''public_name'']), (''active'', JBool True), (''generated'', JBool True),
     (''tag_codes'', JArr []), (''required_majors'', JArr []), (''responsibilities'', JStr []), (''education'', JStr [])]"

definition add_standard :: "(json \<Rightarrow> string) \<Rightarrow> object list \<Rightarrow> string \<Rightarrow> object \<Rightarrow> object" where
  "add_standard fingerprint jobs code policy =
     (let posting = hd (job_group fingerprint jobs code) in
      if policyItem policy ''standards'' code \<noteq> None \<or> mapped policy posting then policy
      else add_item ''standards'' (new_standard code posting) policy)"

definition signature :: "(json \<Rightarrow> string) \<Rightarrow> object \<Rightarrow> string" where
  "signature fingerprint job = fingerprint (JObj
     [(''pool'', JStr (normalized (str (fld job ''position_name'')))), (''requirement'', JObj (jobRequirementFields job))])"

definition issue :: "string \<Rightarrow> object \<Rightarrow> object" where
  "issue code s = put ''configuration_issue'' (JStr code) s"

definition source_job :: "object \<Rightarrow> object list \<Rightarrow> object option" where
  "source_job s jobs = last_where (\<lambda>j. num (fld s ''source_job_id'') = job_number j) jobs"

text \<open>The fields of a generated standard from the job that is its source.\<close>

definition from_source :: "(json \<Rightarrow> string) \<Rightarrow> object \<Rightarrow> object \<Rightarrow> object" where
  "from_source fingerprint source s =
     (let s = put_all (jobRequirementFields source) (put ''pool_code'' (JStr (pool_code_of fingerprint source)) s)
      in if str (fld s ''responsibilities'') = [] then issue ''job_responsibility_missing'' s else s)"

definition relabel :: "(json \<Rightarrow> string) \<Rightarrow> object list \<Rightarrow> object \<Rightarrow> object" where
  "relabel fingerprint jobs s =
     (if \<not> truth (fld s ''generated'') then s
      else let posting = job_group fingerprint jobs (str (fld s ''code''));
               source = source_job s posting;
               s = put ''source_job_ids'' (JArr (map (\<lambda>j. fld j ''id'') posting)) (issue [] s)
           in case posting of
                [] \<Rightarrow> issue ''source_job_missing'' s
              | j # _ \<Rightarrow>
                  if 0 < num (fld s ''source_job_id'') \<and> source = None then issue ''source_job_missing'' s
                  else let s = put_all [(''pool_code'', JStr (pool_code_of fingerprint j)), (''entity'', fld j ''entity''),
                         (''name'', fld j ''public_name''), (''application_names'', JArr [fld j ''public_name''])] s
                       in case source of
                            Some source \<Rightarrow> from_source fingerprint source s
                          | None \<Rightarrow> if 1 < length (remdups (map (signature fingerprint) posting))
                                    then issue ''source_job_conflict'' s
                                    else from_source fingerprint j s)"

definition relabel_all :: "(json \<Rightarrow> string) \<Rightarrow> object list \<Rightarrow> object \<Rightarrow> object" where
  "relabel_all fingerprint jobs policy =
     set_items ''standards'' (map (change_object (relabel fingerprint jobs)) (list_of (fld policy ''standards''))) policy"

definition deriveJobPolicy :: "(json \<Rightarrow> string) \<Rightarrow> object \<Rightarrow> object list \<Rightarrow> object" where
  "deriveJobPolicy fingerprint policy jobs =
     relabel_all fingerprint jobs
       (fold (add_standard fingerprint jobs) (group_codes fingerprint jobs)
         (fold (derive_job fingerprint) jobs (keep_rules jobs policy)))"

subsection \<open>Whether the members of a standard can be allocated\<close>

definition rule_tag_missing :: "object \<Rightarrow> object \<Rightarrow> object \<Rightarrow> bool" where
  "rule_tag_missing policy standard rule \<longleftrightarrow>
     list_ex (\<lambda>code. \<not> contains (string_values (fld standard ''tag_codes'')) code \<or>
         \<not> activePolicyItem (policyItem policy ''tags'' code))
       (string_values (fld rule ''required_tags'') @ string_values (fld rule ''preferred_tags''))"

definition job_receives :: "object \<Rightarrow> object \<Rightarrow> bool" where
  "job_receives standard j \<longleftrightarrow> truth (fld j ''is_active'') \<and>
     normalized (str (fld j ''entity'')) = normalized (str (fld standard ''entity'')) \<and>
     num (fld j ''department_level'') \<in> {1, 2} \<and> fld j ''reception_state'' = JStr ''receiving''"

text \<open>\<open>activePolicyItem(obj(v))\<close>: what is no object is not active.\<close>

definition active_value :: "json \<Rightarrow> bool" where
  "active_value v = (case v of JObj m \<Rightarrow> active_item m | _ \<Rightarrow> False)"

text \<open>The comparison of the two pool codes is one of interface values, which panics on lists and objects.\<close>

fun allocation_issue :: "object \<Rightarrow> object \<Rightarrow> object list \<Rightarrow> json list \<Rightarrow> bool \<Rightarrow> bool \<Rightarrow> go_error + string" where
  "allocation_issue policy standard jobs [] found receiving =
     Inr (if \<not> found then ''allocation_rules_missing'' else if \<not> receiving then ''no_receiving_demand'' else [])"
| "allocation_issue policy standard jobs (v # vs) found receiving =
     (let rule = obj v in
      if \<not> active_value v then allocation_issue policy standard jobs vs found receiving
      else compare_values (fld rule ''pool_code'') (fld standard ''pool_code'') (\<lambda>same.
        if \<not> same then allocation_issue policy standard jobs vs found receiving
        else if rule_tag_missing policy standard rule then Inr ''allocation_tags_missing''
        else allocation_issue policy standard jobs vs True (receiving \<or>
          (case last_where (\<lambda>j. job_number j = rule_number v) jobs of
             None \<Rightarrow> False | Some j \<Rightarrow> job_receives standard j))))"

definition allocationConfigurationIssue :: "object \<Rightarrow> object \<Rightarrow> object list \<Rightarrow> go_error + string" where
  "allocationConfigurationIssue policy standard jobs =
     allocation_issue policy standard jobs (list_of (fld policy ''rules'')) False False"

end
