(* ===== verification/JobPolicyFacts.thy ===== *)
theory JobPolicyFacts
  imports JobPolicy
begin

text \<open>
  Deriving the job-owned part of a pool policy is stable: a second derivation from the same jobs
  changes nothing, so a synchronisation without a change of the jobs writes no new version.
\<close>

subsection \<open>Objects\<close>

lemma fst_put: "map fst (put k v m) = (if has_key m k then map fst m else map fst m @ [k])"
proof (induction m)
  case (Cons p m)
  then show ?case by (cases p) (auto simp: has_key_def)
qed (simp add: has_key_def)

lemma put_same: "map_of m k = Some v \<Longrightarrow> put k v m = m"
proof (induction m)
  case (Cons p m)
  then show ?case by (cases p) (auto split: if_split_asm)
qed simp

lemma map_of_put [simp]: "map_of (put k v m) k' = (if k' = k then Some v else map_of m k')"
proof (induction m)
  case (Cons p m)
  then show ?case by (cases p) auto
qed simp

lemma object_eqI:
  assumes "map fst m = map fst n" and "distinct (map fst n)" and "\<And>k. map_of m k = map_of n k"
  shows "m = n"
proof (rule nth_equalityI)
  show len: "length m = length n" using assms(1) by (metis length_map)
  fix i
  assume i: "i < length m"
  have f: "fst (m ! i) = fst (n ! i)" using assms(1) i len by (metis nth_map)
  have "map_of m (fst (m ! i)) = Some (snd (m ! i))"
    using assms(1,2) i by (intro map_of_is_SomeI) (auto simp: in_set_conv_nth)
  moreover have "map_of n (fst (n ! i)) = Some (snd (n ! i))"
    using assms(2) i len by (intro map_of_is_SomeI) (auto simp: in_set_conv_nth)
  ultimately show "m ! i = n ! i" using assms(3) f by (metis option.inject prod_eqI)
qed

lemma put_all_simps [simp]:
  "put_all [] m = m" "put_all ((k, v) # fs) m = put_all fs (put k v m)"
  "put_all (fs @ gs) m = put_all gs (put_all fs m)"
  by (simp_all add: put_all_def)

lemma map_of_put_all: "map_of (put_all fs m) k = (case map_of (rev fs) k of Some v \<Rightarrow> Some v | None \<Rightarrow> map_of m k)"
proof (induction fs arbitrary: m)
  case (Cons p fs)
  then show ?case by (cases p) (auto simp: map_of_append map_add_def split: option.split)
qed simp

lemma fst_put_all: "(\<And>k. k \<in> set (map fst fs) \<Longrightarrow> has_key m k) \<Longrightarrow> map fst (put_all fs m) = map fst m"
proof (induction fs arbitrary: m)
  case (Cons p fs)
  obtain k v where p: "p = (k, v)" by (cases p)
  have "map fst (put_all fs (put k v m)) = map fst (put k v m)"
    by (rule Cons.IH) (use Cons.prems p in simp)
  then show ?case using Cons.prems [of k] p by (simp add: fst_put)
qed simp

lemma distinct_put: "distinct (map fst m) \<Longrightarrow> distinct (map fst (put k v m))"
  by (simp add: fst_put has_key_def)

lemma distinct_put_all: "distinct (map fst m) \<Longrightarrow> distinct (map fst (put_all fs m))"
proof (induction fs arbitrary: m)
  case (Cons p fs)
  then show ?case by (cases p) (simp add: distinct_put)
qed simp

lemma fld_put_all: "k \<notin> set (map fst fs) \<Longrightarrow> fld (put_all fs m) k = fld m k"
proof (induction fs arbitrary: m)
  case (Cons p fs)
  then show ?case by (cases p) simp
qed simp

lemma has_key_put_all: "has_key (put_all fs m) k \<longleftrightarrow> k \<in> set (map fst fs) \<or> has_key m k"
proof (induction fs arbitrary: m)
  case (Cons p fs)
  obtain k' v where p: "p = (k', v)" by (cases p)
  show ?case by (auto simp: p Cons.IH)
qed simp

lemma put_all_idem:
  assumes "distinct (map fst m)"
  shows "put_all fs (put_all fs m) = put_all fs m"
proof (rule object_eqI)
  show "map fst (put_all fs (put_all fs m)) = map fst (put_all fs m)"
    by (rule fst_put_all) (simp add: has_key_put_all)
  show "map_of (put_all fs (put_all fs m)) k = map_of (put_all fs m) k" for k
    by (simp add: map_of_put_all split: option.split)
qed (rule distinct_put_all [OF assms])

subsection \<open>Generated standards\<close>

definition source_fields :: "(json \<Rightarrow> string) \<Rightarrow> object \<Rightarrow> object" where
  "source_fields fp source = (''pool_code'', JStr (pool_code_of fp source)) # jobRequirementFields source @
     (if trim_space (str (fld source ''responsibilities'')) = []
      then [(''configuration_issue'', JStr ''job_responsibility_missing'')] else [])"

definition relabel_fields :: "(json \<Rightarrow> string) \<Rightarrow> object list \<Rightarrow> object \<Rightarrow> object" where
  "relabel_fields fp jobs s =
     (if \<not> truth (fld s ''generated'') then []
      else let posting = job_group fp jobs (str (fld s ''code'')); source = source_job s posting
           in [(''configuration_issue'', JStr []), (''source_job_ids'', JArr (map (\<lambda>j. fld j ''id'') posting))] @
             (case posting of [] \<Rightarrow> [(''configuration_issue'', JStr ''source_job_missing'')]
              | j # _ \<Rightarrow> if 0 < num (fld s ''source_job_id'') \<and> source = None
                 then [(''configuration_issue'', JStr ''source_job_missing'')]
                 else [(''pool_code'', JStr (pool_code_of fp j)), (''entity'', fld j ''entity''),
                     (''name'', fld j ''public_name''), (''application_names'', JArr [fld j ''public_name''])] @
                   (case source of Some q \<Rightarrow> source_fields fp q
                    | None \<Rightarrow> if 1 < length (remdups (map (signature fp) posting))
                        then [(''configuration_issue'', JStr ''source_job_conflict'')] else source_fields fp j)))"

lemma from_source_fields: "from_source fp q s = put_all (source_fields fp q) s"
  by (simp add: from_source_def source_fields_def jobRequirementFields_def issue_def Let_def)

lemma relabel_put_all: "relabel fp jobs s = put_all (relabel_fields fp jobs s) s"
  unfolding relabel_def relabel_fields_def Let_def issue_def
  by (simp add: from_source_fields issue_def split: list.split option.split)

lemma relabel_fields_keys:
  "set (map fst (relabel_fields fp jobs s)) \<inter> {''code'', ''generated'', ''source_job_id''} = {}"
  by (auto simp: relabel_fields_def source_fields_def jobRequirementFields_def Let_def
      split: list.split_asm option.split_asm if_split_asm)

lemma relabel_keeps [simp]:
  "fld (relabel fp jobs s) ''code'' = fld s ''code''" "fld (relabel fp jobs s) ''generated'' = fld s ''generated''"
  "fld (relabel fp jobs s) ''source_job_id'' = fld s ''source_job_id''"
  using relabel_fields_keys [of fp jobs s] by (auto simp: relabel_put_all intro!: fld_put_all)

lemma relabel_fields_cong:
  "fld s ''code'' = fld t ''code'' \<Longrightarrow> fld s ''generated'' = fld t ''generated'' \<Longrightarrow>
   fld s ''source_job_id'' = fld t ''source_job_id'' \<Longrightarrow> relabel_fields fp jobs s = relabel_fields fp jobs t"
  unfolding relabel_fields_def source_job_def by (simp only:)

lemma relabel_idem:
  assumes "distinct (map fst s)"
  shows "relabel fp jobs (relabel fp jobs s) = relabel fp jobs s"
proof -
  have "relabel_fields fp jobs (relabel fp jobs s) = relabel_fields fp jobs s"
    by (rule relabel_fields_cong) simp_all
  then show ?thesis
    using put_all_idem [OF assms, of "relabel_fields fp jobs s"] by (metis relabel_put_all)
qed

subsection \<open>What each step keeps\<close>

definition items :: "object \<Rightarrow> string \<Rightarrow> json list" where
  "items policy kind = list_of (fld policy kind)"

lemma policyItem_items: "policyItem policy kind code = map_option obj (find (\<lambda>v. fld (obj v) ''code'' = JStr code) (items policy kind))"
  by (simp add: policyItem_def items_def)

lemma items_add [simp]: "items (add_item kind m policy) k = (if k = kind then items policy kind @ [JObj m] else items policy k)"
  by (simp add: items_def add_item_def)

lemma items_set [simp]: "items (set_items kind vs policy) k =
    (if k = kind \<and> (\<exists>us. fld policy kind = JArr us) then vs else items policy k)"
  by (simp add: items_def set_items_def split: json.split)

lemma find_append: "find p (xs @ ys) = (case find p xs of None \<Rightarrow> find p ys | Some x \<Rightarrow> Some x)"
  by (induction xs) simp_all

lemma set_items_same: "vs = items policy kind \<Longrightarrow> set_items kind vs policy = policy"
proof -
  assume vs: "vs = items policy kind"
  show "set_items kind vs policy = policy"
  proof (cases "fld policy kind")
    case (JArr us)
    then have "map_of policy kind = Some (JArr us)" by (simp add: fld_def split: option.split_asm)
    then show ?thesis using vs JArr by (simp add: set_items_def items_def put_same)
  qed (simp_all add: set_items_def)
qed

lemma update_first_id: "(\<And>v. find p xs = Some v \<Longrightarrow> f v = v) \<Longrightarrow> update_first p f xs = xs"
  by (induction xs) auto

lemma find_update_first:
  assumes "\<And>v. q v \<Longrightarrow> \<not> p v" and "\<And>v. p v \<Longrightarrow> \<not> q (f v)"
  shows "find q (update_first p f xs) = find q xs"
  using assms by (induction xs) auto

lemma find_update_first_same:
  assumes "\<And>v. p v \<Longrightarrow> p (f v)"
  shows "find p (update_first p f xs) = map_option f (find p xs)"
  using assms by (induction xs) auto

lemma update_first_all: "\<forall>v \<in> set xs. P v \<Longrightarrow> (\<And>v. P v \<Longrightarrow> P (f v)) \<Longrightarrow> \<forall>v \<in> set (update_first p f xs). P v"
  by (induction xs) auto

text \<open>A job whose pool and rule need no change; that is what one pass establishes for every job.\<close>

definition rule_settled :: "(json \<Rightarrow> string) \<Rightarrow> object \<Rightarrow> object \<Rightarrow> json \<Rightarrow> bool" where
  "rule_settled fp policy job v \<longleftrightarrow> routed policy job (obj v) \<or> change_object (reroute fp job) v = v"

definition job_settled :: "(json \<Rightarrow> string) \<Rightarrow> object \<Rightarrow> object \<Rightarrow> bool" where
  "job_settled fp job policy \<longleftrightarrow> (takes_part job \<longrightarrow>
     policyItem policy ''pools'' (pool_code_of fp job) \<noteq> None \<and>
     (\<exists>v. find (\<lambda>v. rule_number v = job_number job) (items policy ''rules'') = Some v \<and> rule_settled fp policy job v))"

lemma settled_unchanged: "job_settled fp job policy \<Longrightarrow> derive_job fp job policy = policy"
  by (auto simp: derive_job_def job_settled_def add_pool_def route_rule_def rule_settled_def items_def [symmetric]
      intro!: set_items_same update_first_id split: option.split)

lemma routed_extends:
  assumes "items b ''pools'' = items a ''pools'' @ ps" and "takes_part job" and "routed a job rule"
  shows "routed b job rule"
proof -
  have "entity_of None = []" by (simp add: entity_of_def normalized_def runes_def)
  then obtain m where "policyItem a ''pools'' (str (fld rule ''pool_code'')) = Some m"
    using assms(2,3) by (cases "policyItem a ''pools'' (str (fld rule ''pool_code''))")
      (auto simp: routed_def takes_part_def job_entity_norm_def)
  then have "policyItem b ''pools'' (str (fld rule ''pool_code'')) = Some m"
    using assms(1) by (auto simp: policyItem_items find_append split: option.split)
  then show ?thesis using assms(3) \<open>policyItem a _ _ = _\<close> by (simp add: routed_def)
qed

lemma job_settled_extends:
  assumes "job_settled fp job a" and "items b ''pools'' = items a ''pools'' @ ps"
    and "find (\<lambda>v. rule_number v = job_number job) (items b ''rules'') = find (\<lambda>v. rule_number v = job_number job) (items a ''rules'')
      \<or> find (\<lambda>v. rule_number v = job_number job) (items a ''rules'') = None"
  shows "job_settled fp job b"
  using assms routed_extends [OF assms(2)]
  by (auto simp: job_settled_def rule_settled_def policyItem_items find_append split: option.split)

lemma rule_number_change [simp]: "rule_number (change_object (reroute fp job) v) = rule_number v"
  by (cases v) (simp_all add: change_object_def rule_number_def reroute_def)

lemma reroute_idem: "reroute fp job (reroute fp job m) = reroute fp job m"
proof -
  let ?m = "reroute fp job m"
  have "put ''pool_code'' (JStr (pool_code_of fp job)) ?m = ?m" by (rule put_same) (simp add: reroute_def)
  moreover have "put ''active'' (JBool False) ?m = ?m" by (rule put_same) (simp add: reroute_def)
  ultimately show ?thesis by (metis reroute_def)
qed

lemma change_reroute_idem: "change_object (reroute fp job) (change_object (reroute fp job) v) = change_object (reroute fp job) v"
  by (cases v) (simp_all add: change_object_def reroute_idem)

lemma new_rule_settled: "change_object (reroute fp job) (JObj (new_rule fp job)) = JObj (new_rule fp job)"
  by (simp add: change_object_def reroute_def new_rule_def)

lemma new_rule_number [simp]: "rule_number (JObj (new_rule fp job)) = job_number job"
  by (simp add: rule_number_def new_rule_def job_number_def)

lemma items_nonempty: "items policy kind = v # vs \<Longrightarrow> \<exists>us. fld policy kind = JArr us"
  by (cases "fld policy kind") (simp_all add: items_def list_of_def)

lemma derive_job_other: "kind \<notin> {''pools'', ''rules''} \<Longrightarrow> fld (derive_job fp job policy) kind = fld policy kind"
  by (simp add: derive_job_def add_pool_def route_rule_def add_item_def set_items_def split: option.split json.split)

lemma derive_jobs_other: "kind \<notin> {''pools'', ''rules''} \<Longrightarrow> fld (fold (derive_job fp) js policy) kind = fld policy kind"
  by (induction js arbitrary: policy) (simp_all add: derive_job_other)

lemma derive_job_pools: "\<exists>ps. items (derive_job fp job policy) ''pools'' = items policy ''pools'' @ ps"
  by (simp add: derive_job_def add_pool_def route_rule_def split: option.split)

lemma derive_job_rules:
  assumes "takes_part job"
  shows "items (derive_job fp job policy) ''rules'' =
    (case find (\<lambda>v. rule_number v = job_number job) (items policy ''rules'') of
       None \<Rightarrow> items policy ''rules'' @ [JObj (new_rule fp job)]
     | Some v \<Rightarrow> if routed (add_pool fp job policy) job (obj v) then items policy ''rules''
         else update_first (\<lambda>v. rule_number v = job_number job) (change_object (reroute fp job)) (items policy ''rules''))"
proof -
  have same: "items (add_pool fp job policy) ''rules'' = items policy ''rules''" by (simp add: add_pool_def)
  have arr: "\<exists>us. fld (add_pool fp job policy) ''rules'' = JArr us"
    if "find p (items policy ''rules'') = Some v" for p v
    using that items_nonempty [of "add_pool fp job policy" "''rules''"] same by (cases "items policy ''rules''") auto
  show ?thesis
    using assms arr by (auto simp: derive_job_def route_rule_def items_def [symmetric] same split: option.split)
qed

lemma routed_cong: "items a ''pools'' = items b ''pools'' \<Longrightarrow> routed a job rule = routed b job rule"
  by (simp add: routed_def policyItem_items)

lemma derive_job_settles: "job_settled fp job (derive_job fp job policy)"
proof (cases "takes_part job")
  case True
  let ?q = "add_pool fp job policy" and ?d = "derive_job fp job policy"
  let ?p = "\<lambda>v. rule_number v = job_number job"
  have pools: "items ?d ''pools'' = items ?q ''pools''"
    using True by (simp add: derive_job_def route_rule_def split: option.split)
  have "policyItem ?q ''pools'' (pool_code_of fp job) \<noteq> None"
    by (auto simp: add_pool_def policyItem_items find_append new_pool_def split: option.split)
  then have pool: "policyItem ?d ''pools'' (pool_code_of fp job) \<noteq> None" using pools by (simp add: policyItem_items)
  have "\<exists>v. find ?p (items ?d ''rules'') = Some v \<and> rule_settled fp ?d job v"
  proof (cases "find ?p (items policy ''rules'')")
    case None
    then show ?thesis
      using derive_job_rules [OF True] new_rule_settled by (simp add: find_append rule_settled_def)
  next
    case (Some v)
    show ?thesis
    proof (cases "routed ?q job (obj v)")
      case routed: True
      then show ?thesis
        using derive_job_rules [OF True] Some routed_cong [OF pools] by (simp add: rule_settled_def)
    next
      case False
      then show ?thesis
        using derive_job_rules [OF True] Some by (simp add: find_update_first_same rule_settled_def change_reroute_idem)
    qed
  qed
  with pool show ?thesis by (simp add: job_settled_def)
qed (simp add: job_settled_def)

lemma derive_job_keeps_settled:
  assumes "job_settled fp job policy" and "job_number other \<noteq> job_number job"
  shows "job_settled fp job (derive_job fp other policy)"
proof (cases "takes_part other")
  case True
  obtain ps where "items (derive_job fp other policy) ''pools'' = items policy ''pools'' @ ps"
    using derive_job_pools by blast
  moreover have "find (\<lambda>v. rule_number v = job_number job) (update_first (\<lambda>v. rule_number v = job_number other)
      (change_object (reroute fp other)) (items policy ''rules'')) = find (\<lambda>v. rule_number v = job_number job) (items policy ''rules'')"
    using assms(2) by (intro find_update_first) auto
  ultimately show ?thesis
    using assms derive_job_rules [OF True, of fp policy]
    by (intro job_settled_extends [OF assms(1)]) (auto simp: find_append split: option.splits)
qed (use assms in \<open>simp add: derive_job_def\<close>)

lemma derive_jobs_keep_settled:
  "job_settled fp job policy \<Longrightarrow> \<forall>j \<in> set js. job_number j \<noteq> job_number job \<Longrightarrow> job_settled fp job (fold (derive_job fp) js policy)"
  by (induction js arbitrary: policy) (simp_all add: derive_job_keeps_settled)

lemma derive_jobs_settle:
  assumes "distinct (map job_number js)" and "job \<in> set js"
  shows "job_settled fp job (fold (derive_job fp) js policy)"
  using assms
proof (induction js arbitrary: policy)
  case (Cons j js)
  show ?case
  proof (cases "job = j")
    case True
    have "job_settled fp j (fold (derive_job fp) js (derive_job fp j policy))"
      by (rule derive_jobs_keep_settled [OF derive_job_settles]) (use Cons.prems(1) in \<open>simp add: image_iff, metis\<close>)
    then show ?thesis using True by simp
  qed (use Cons in simp)
qed simp

lemma settled_jobs_unchanged:
  "\<forall>job \<in> set js. job_settled fp job policy \<Longrightarrow> fold (derive_job fp) js policy = policy"
  by (induction js) (simp_all add: settled_unchanged)

subsection \<open>The rules\<close>

definition rules_known :: "object list \<Rightarrow> object \<Rightarrow> bool" where
  "rules_known js policy \<longleftrightarrow> (\<exists>vs. fld policy ''rules'' = JArr vs \<and> (\<forall>v \<in> set vs. rule_number v \<in> job_number ` set js))"

lemma rules_known_unchanged: "rules_known js policy \<Longrightarrow> keep_rules js policy = policy"
proof -
  assume "rules_known js policy"
  then obtain vs where vs: "fld policy ''rules'' = JArr vs" "\<forall>v \<in> set vs. rule_number v \<in> job_number ` set js"
    by (auto simp: rules_known_def)
  then have "map_of policy ''rules'' = Some (JArr vs)" by (simp add: fld_def split: option.split_asm)
  then show ?thesis using vs by (simp add: keep_rules_def put_same filter_id_conv)
qed

lemma keep_rules_known: "rules_known js (keep_rules js policy)"
  by (simp add: rules_known_def keep_rules_def)

lemma rules_known_cong: "fld b ''rules'' = fld a ''rules'' \<Longrightarrow> rules_known js a \<Longrightarrow> rules_known js b"
  by (simp add: rules_known_def)

lemma add_pool_fld: "kind \<noteq> ''pools'' \<Longrightarrow> fld (add_pool fp job policy) kind = fld policy kind"
  by (simp add: add_pool_def add_item_def)

lemma derive_job_known:
  assumes "rules_known js policy" and "job \<in> set js"
  shows "rules_known js (derive_job fp job policy)"
proof -
  obtain vs where vs: "fld (add_pool fp job policy) ''rules'' = JArr vs" "\<forall>v \<in> set vs. rule_number v \<in> job_number ` set js"
    using assms(1) unfolding rules_known_def by (auto simp: add_pool_fld)
  let ?vs = "update_first (\<lambda>v. rule_number v = job_number job) (change_object (reroute fp job)) vs"
  have "\<forall>v \<in> set ?vs. rule_number v \<in> job_number ` set js"
    using vs(2) by (rule update_first_all) simp
  with vs assms show ?thesis
    by (auto simp: derive_job_def route_rule_def rules_known_def add_item_def set_items_def split: option.split)
qed

lemma derive_jobs_known:
  "rules_known js policy \<Longrightarrow> set ks \<subseteq> set js \<Longrightarrow> rules_known js (fold (derive_job fp) ks policy)"
  by (induction ks arbitrary: policy) (simp_all add: derive_job_known)

subsection \<open>The standards\<close>

definition names_kept :: "(json \<Rightarrow> string) \<Rightarrow> object list \<Rightarrow> object \<Rightarrow> bool" where
  "names_kept fp js m \<longleftrightarrow> fld (relabel fp js m) ''entity'' = fld m ''entity''
     \<and> fld (relabel fp js m) ''application_names'' = fld m ''application_names''"

definition standards_ok :: "(json \<Rightarrow> string) \<Rightarrow> object list \<Rightarrow> object \<Rightarrow> bool" where
  "standards_ok fp js policy \<longleftrightarrow>
     (\<forall>m. JObj m \<in> set (items policy ''standards'') \<longrightarrow> distinct (map fst m) \<and> names_kept fp js m)"

definition posting_known :: "(json \<Rightarrow> string) \<Rightarrow> object list \<Rightarrow> object \<Rightarrow> string \<Rightarrow> bool" where
  "posting_known fp js policy code \<longleftrightarrow>
     policyItem policy ''standards'' code \<noteq> None \<or> mapped policy (hd (job_group fp js code))"

lemma known_posting_unchanged: "posting_known fp js policy code \<Longrightarrow> add_standard fp js code policy = policy"
  by (auto simp: posting_known_def add_standard_def Let_def)

lemma add_standard_items:
  "items (add_standard fp js code policy) ''standards'' = (if posting_known fp js policy code then items policy ''standards''
     else items policy ''standards'' @ [JObj (new_standard code (hd (job_group fp js code)))])"
  "kind \<noteq> ''standards'' \<Longrightarrow> fld (add_standard fp js code policy) kind = fld policy kind"
  by (auto simp: posting_known_def add_standard_def add_item_def items_def Let_def)

lemma posting_known_extends:
  "posting_known fp js a code \<Longrightarrow> items b ''standards'' = items a ''standards'' @ vs \<Longrightarrow> posting_known fp js b code"
  by (auto simp: posting_known_def policyItem_items mapped_def find_append items_def split: option.split)

lemma add_standard_knows: "posting_known fp js (add_standard fp js code policy) code"
proof (cases "posting_known fp js policy code")
  case True
  then show ?thesis by (simp add: known_posting_unchanged)
next
  case False
  then show ?thesis
    using add_standard_items(1) [of fp js code policy]
    by (auto simp: posting_known_def policyItem_items find_append new_standard_def split: option.split)
qed

lemma add_standards_keep: "posting_known fp js policy code \<Longrightarrow> posting_known fp js (fold (add_standard fp js) cs policy) code"
proof (induction cs arbitrary: policy)
  case (Cons c cs)
  have "posting_known fp js (add_standard fp js c policy) code"
    using add_standard_items(1) [of fp js c policy] posting_known_extends [OF Cons.prems, of "add_standard fp js c policy"]
    by (metis append_Nil2)
  then show ?case using Cons.IH by simp
qed simp

lemma add_standards_know: "code \<in> set cs \<Longrightarrow> posting_known fp js (fold (add_standard fp js) cs policy) code"
  by (induction cs arbitrary: policy) (auto intro: add_standards_keep add_standard_knows)

lemma known_postings_unchanged:
  "\<forall>code \<in> set cs. posting_known fp js policy code \<Longrightarrow> fold (add_standard fp js) cs policy = policy"
  by (induction cs) (simp_all add: known_posting_unchanged)

lemma add_standards_other: "kind \<noteq> ''standards'' \<Longrightarrow> fld (fold (add_standard fp js) cs policy) kind = fld policy kind"
  by (induction cs arbitrary: policy) (simp_all add: add_standard_items)

lemma new_standard_names:
  assumes "code \<in> set (group_codes fp js)"
  shows "names_kept fp js (new_standard code (hd (job_group fp js code)))"
proof -
  obtain j ks where g: "job_group fp js code = j # ks"
    using assms by (cases "job_group fp js code") (auto simp: group_codes_def job_group_def filter_empty_conv)
  let ?m = "new_standard code j"
  have "relabel_fields fp js ?m = [(''configuration_issue'', JStr []), (''source_job_ids'', JArr (map (\<lambda>j. fld j ''id'') (j # ks))),
      (''pool_code'', JStr (pool_code_of fp j)), (''entity'', fld j ''entity''),
      (''name'', fld j ''public_name''), (''application_names'', JArr [fld j ''public_name''])] @
      (case source_job ?m (j # ks) of Some q \<Rightarrow> source_fields fp q
       | None \<Rightarrow> if 1 < length (remdups (map (signature fp) (j # ks)))
           then [(''configuration_issue'', JStr ''source_job_conflict'')] else source_fields fp j)"
    (is "_ = ?fs @ ?gs")
  proof -
    have f: "truth (fld ?m ''generated'')" "str (fld ?m ''code'') = code" "num (fld ?m ''source_job_id'') = 0"
      by (simp_all add: new_standard_def truth_def)
    show ?thesis unfolding relabel_fields_def Let_def by (simp only: f g list.case not_True_eq_False if_False less_irrefl simp_thms append.simps append_assoc)
  qed
  moreover have "set (map fst ?gs) \<inter> {''entity'', ''application_names''} = {}"
    by (auto simp: source_fields_def jobRequirementFields_def split: option.split_asm if_split_asm)
  ultimately show ?thesis
    unfolding names_kept_def g list.sel relabel_put_all
    by (auto simp: fld_put_all new_standard_def)
qed

lemma add_standard_ok:
  assumes "standards_ok fp js policy" and "code \<in> set (group_codes fp js)"
  shows "standards_ok fp js (add_standard fp js code policy)"
  using assms new_standard_names [OF assms(2)] add_standard_items(1) [of fp js code policy]
  by (auto simp: standards_ok_def new_standard_def)

text \<open>The objects in a list have each key once, as every decoded JSON object has.\<close>

definition keys_once :: "object \<Rightarrow> bool" where
  "keys_once policy \<longleftrightarrow> (\<forall>m. JObj m \<in> set (items policy ''standards'') \<longrightarrow> distinct (map fst m))"

lemma add_standards_once: "keys_once policy \<Longrightarrow> keys_once (fold (add_standard fp js) cs policy)"
proof (induction cs arbitrary: policy)
  case (Cons c cs)
  have "keys_once (add_standard fp js c policy)"
    using Cons.prems add_standard_items(1) [of fp js c policy] by (auto simp: keys_once_def new_standard_def)
  then show ?case using Cons.IH by simp
qed simp

lemma add_standards_ok:
  "standards_ok fp js policy \<Longrightarrow> set cs \<subseteq> set (group_codes fp js) \<Longrightarrow> standards_ok fp js (fold (add_standard fp js) cs policy)"
  by (induction cs arbitrary: policy) (simp_all add: add_standard_ok)

lemma relabel_all_items:
  "items (relabel_all fp js policy) ''standards'' = map (change_object (relabel fp js)) (items policy ''standards'')"
  "kind \<noteq> ''standards'' \<Longrightarrow> fld (relabel_all fp js policy) kind = fld policy kind"
  by (auto simp: relabel_all_def items_def set_items_def list_of_def split: json.split)

lemma relabel_all_unchanged:
  assumes "standards_ok fp js policy"
  shows "relabel_all fp js (relabel_all fp js policy) = relabel_all fp js policy"
proof -
  have "change_object (relabel fp js) (change_object (relabel fp js) v) = change_object (relabel fp js) v"
    if "v \<in> set (items policy ''standards'')" for v
    using that assms relabel_idem by (cases v rule: json.exhaust) (auto simp: change_object_def standards_ok_def)
  then have "map (change_object (relabel fp js)) (items (relabel_all fp js policy) ''standards'')
      = items (relabel_all fp js policy) ''standards''"
    by (simp add: relabel_all_items(1))
  then show ?thesis unfolding relabel_all_def [of fp js "relabel_all fp js policy"] items_def [symmetric]
    by (rule set_items_same)
qed

text \<open>The result of a derivation carries the names of the postings, whatever the policy carried.\<close>

lemma relabel_all_ok:
  assumes "keys_once policy"
  shows "standards_ok fp js (relabel_all fp js policy) \<and> keys_once (relabel_all fp js policy)"
proof -
  have "distinct (map fst m) \<and> names_kept fp js m"
    if m: "JObj m \<in> set (items (relabel_all fp js policy) ''standards'')" for m
  proof -
    obtain q where q: "JObj q \<in> set (items policy ''standards'')" "m = relabel fp js q"
      using m unfolding relabel_all_items(1) by (auto simp: change_object_def split: json.splits)
    then have "distinct (map fst q)" using assms by (simp add: keys_once_def)
    then show ?thesis
      using q(2) by (simp add: names_kept_def relabel_idem) (simp add: relabel_put_all distinct_put_all)
  qed
  then show ?thesis by (simp add: standards_ok_def keys_once_def)
qed

lemma find_map_same: "(\<And>v. p (f v) = p v) \<Longrightarrow> find p (map f xs) = map_option f (find p xs)"
  by (induction xs) simp_all

lemma relabel_all_known:
  assumes "standards_ok fp js policy" and "posting_known fp js policy code"
  shows "posting_known fp js (relabel_all fp js policy) code"
proof -
  let ?f = "change_object (relabel fp js)" and ?p = "hd (job_group fp js code)"
  have code: "fld (obj (?f v)) ''code'' = fld (obj v) ''code''" for v
    by (cases v) (simp_all add: change_object_def)
  have "find (\<lambda>v. fld (obj v) ''code'' = JStr code) (map ?f vs) = map_option ?f (find (\<lambda>v. fld (obj v) ''code'' = JStr code) vs)" for vs
    by (rule find_map_same) (simp add: code)
  then have item: "policyItem (relabel_all fp js policy) ''standards'' code = None \<longleftrightarrow> policyItem policy ''standards'' code = None"
    by (simp add: policyItem_items relabel_all_items(1))
  have "names_posting ?p (obj (?f v)) = names_posting ?p (obj v)" if "v \<in> set (items policy ''standards'')" for v
    using that assms(1) by (cases v rule: json.exhaust) (auto simp: change_object_def standards_ok_def names_kept_def names_posting_def)
  then have "mapped policy ?p \<Longrightarrow> mapped (relabel_all fp js policy) ?p"
    by (auto simp: mapped_def items_def [symmetric] relabel_all_items(1) list_ex_iff)
  with item assms(2) show ?thesis by (auto simp: posting_known_def)
qed

subsection \<open>Stability\<close>

lemma derivation_stable:
  assumes "distinct (map job_number jobs)" and "standards_ok fp jobs policy"
  shows "deriveJobPolicy fp (deriveJobPolicy fp policy jobs) jobs = deriveJobPolicy fp policy jobs"
proof -
  define p where "p = fold (derive_job fp) jobs (keep_rules jobs policy)"
  define q where "q = fold (add_standard fp jobs) (group_codes fp jobs) p"
  define d where "d = relabel_all fp jobs q"
  have d: "deriveJobPolicy fp policy jobs = d" by (simp only: deriveJobPolicy_def p_def q_def d_def)
  have standards: "items p ''standards'' = items policy ''standards''"
    unfolding p_def by (simp add: derive_jobs_other keep_rules_def items_def)
  have same: "fld d kind = fld p kind" if "kind \<noteq> ''standards''" for kind
    using that by (simp add: d_def q_def relabel_all_items(2) add_standards_other)
  have ok: "standards_ok fp jobs q"
    unfolding q_def by (rule add_standards_ok) (use assms(2) standards in \<open>simp_all add: standards_ok_def\<close>)
  have "rules_known jobs d"
    using rules_known_cong [OF same [of "''rules''"]] derive_jobs_known [OF keep_rules_known order_refl, of jobs fp policy]
    unfolding p_def by blast
  then have 1: "keep_rules jobs d = d" by (rule rules_known_unchanged)
  have "job_settled fp job d" if "job \<in> set jobs" for job
  proof (rule job_settled_extends)
    show "job_settled fp job p" unfolding p_def by (rule derive_jobs_settle [OF assms(1) that])
    show "items d ''pools'' = items p ''pools'' @ []" using same by (simp add: items_def)
    show "find (\<lambda>v. rule_number v = job_number job) (items d ''rules'') = find (\<lambda>v. rule_number v = job_number job) (items p ''rules'')
        \<or> find (\<lambda>v. rule_number v = job_number job) (items p ''rules'') = None"
      using same by (simp add: items_def)
  qed
  then have 2: "fold (derive_job fp) jobs d = d" by (intro settled_jobs_unchanged) blast
  have "posting_known fp jobs d code" if "code \<in> set (group_codes fp jobs)" for code
    unfolding d_def by (rule relabel_all_known [OF ok]) (simp only: q_def add_standards_know [OF that])
  then have 3: "fold (add_standard fp jobs) (group_codes fp jobs) d = d" by (intro known_postings_unchanged) blast
  have 4: "relabel_all fp jobs d = d" unfolding d_def by (rule relabel_all_unchanged [OF ok])
  show ?thesis unfolding d by (simp only: deriveJobPolicy_def 1 2 3 4)
qed

lemma derived_ok:
  assumes "keys_once policy"
  shows "standards_ok fp jobs (deriveJobPolicy fp policy jobs) \<and> keys_once (deriveJobPolicy fp policy jobs)"
proof -
  define p where "p = fold (derive_job fp) jobs (keep_rules jobs policy)"
  have "items p ''standards'' = items policy ''standards''"
    unfolding p_def by (simp add: derive_jobs_other keep_rules_def items_def)
  then have "keys_once p" using assms by (simp add: keys_once_def)
  then show ?thesis unfolding deriveJobPolicy_def p_def [symmetric]
    by (intro relabel_all_ok add_standards_once)
qed

text \<open>C25. Deriving the job-owned part of a policy again from the same jobs comes to rest: from any policy
  (whose objects have each key once, as the maps of the source) the third derivation gives what the
  second gave, and the second gives what the first gave when the generated standards of the policy
  already carry the names of their posting (\<open>standards_ok\<close>), so that a synchronisation without a change of
  the jobs writes no new version then. Without that proviso the second derivation can differ from the
  first (\<open>stolen_posting_is_unstable\<close> below).\<close>

theorem derivation_is_stable:
  assumes "distinct (map job_number jobs)" and "keys_once policy"
  shows "deriveJobPolicy fp (deriveJobPolicy fp (deriveJobPolicy fp policy jobs) jobs) jobs
      = deriveJobPolicy fp (deriveJobPolicy fp policy jobs) jobs \<and>
    (standards_ok fp jobs policy \<longrightarrow>
      deriveJobPolicy fp (deriveJobPolicy fp policy jobs) jobs = deriveJobPolicy fp policy jobs)"
  using derivation_stable [OF assms(1)] derived_ok [OF assms(2)] by blast

text \<open>Without that proviso a second derivation may add a standard: a generated standard that lists another
  posting keeps it from being generated, loses the name in the same derivation, and so lets it be
  generated by the next.\<close>

definition posting_demo :: "rat \<Rightarrow> string \<Rightarrow> object" where
  "posting_demo i name = [(''id'', JNum i), (''is_active'', JBool True), (''entity'', JStr ''e''), (''position_name'', JStr ''p''),
     (''public_name'', JStr name), (''responsibilities'', JStr ''r'')]"

definition demo_fingerprint :: "json \<Rightarrow> string" where
  "demo_fingerprint v = concat (map str (list_of v))"

definition policy_demo :: "string list \<Rightarrow> object" where
  "policy_demo names = [(''tags'', JArr []), (''pools'', JArr []), (''rules'', JArr []),
     (''standards'', JArr [JObj [(''code'', JStr ''standard_ea''), (''entity'', JStr ''e''), (''generated'', JBool True),
        (''name'', JStr ''a''), (''application_names'', JArr (map JStr names))]])]"

theorem derivation_is_stable_witness:
  "let jobs = [posting_demo 1 ''a'', posting_demo 2 ''b'']; derive = (\<lambda>p. deriveJobPolicy demo_fingerprint p jobs) in
   derive (derive (policy_demo [''a''])) = derive (policy_demo [''a'']) \<and>
   derive (derive (derive (policy_demo [''a'', ''b'']))) = derive (derive (policy_demo [''a'', ''b'']))"
proof -
  let ?jobs = "[posting_demo 1 ''a'', posting_demo 2 ''b'']"
  have d: "distinct (map job_number ?jobs)" by code_simp
  have k: "keys_once (policy_demo names)" for names
    by (simp add: keys_once_def policy_demo_def items_def)
  have "names_kept demo_fingerprint ?jobs (obj (hd (items (policy_demo [''a'']) ''standards'')))" by code_simp
  then have "standards_ok demo_fingerprint ?jobs (policy_demo [''a''])"
    by (simp add: standards_ok_def policy_demo_def items_def)
  then show ?thesis
    using derivation_is_stable [OF d k, of demo_fingerprint "[''a'']"]
      derivation_is_stable [OF d k, of demo_fingerprint "[''a'', ''b'']"] by (simp add: Let_def)
qed

theorem stolen_posting_is_unstable:
  "length (items (deriveJobPolicy demo_fingerprint (policy_demo [''a'', ''b'']) [posting_demo 1 ''a'', posting_demo 2 ''b'']) ''standards'') = 1
   \<and> length (items (deriveJobPolicy demo_fingerprint (deriveJobPolicy demo_fingerprint (policy_demo [''a'', ''b''])
        [posting_demo 1 ''a'', posting_demo 2 ''b'']) [posting_demo 1 ''a'', posting_demo 2 ''b'']) ''standards'') = 2"
  by code_simp

end
