(* ===== verification/PoolConfig.thy ===== *)
theory PoolConfig
  imports JobPolicy PoolMembers
begin

text \<open>
  The configuration of the position pools (internal/platform/job_configuration.go and poolConfigAPI of
  pools_policy.go): the jobs as the configuration sees them, the effect of a new policy on the members
  whose standard it changes, the synchronisation with the jobs, the update of the policy under its
  version, what the screen shows, reprocessing after a repair and the preview of a run. The content
  hash is a parameter; wake-ups of the workers are not modelled.
\<close>

subsection \<open>The jobs\<close>

definition configuration_job :: "db \<Rightarrow> object \<Rightarrow> object" where
  "configuration_job db j =
     (let dep = first_where (\<lambda>d. JNum (of_int (dep_id d)) = fld j ''department_id'') (db_departments db);
          demand = first_where (\<lambda>d. dem_id d = job_number j) (db_demands db)
      in put ''reception_state'' (JStr (case demand of None \<Rightarrow> ''receiving'' | Some d \<Rightarrow> dem_state d))
          (put ''required_majors'' (JArr (map (\<lambda>m. fld m ''major'') (job_majors (db_catalog db) j)))
          (put ''department_level'' (case dep of None \<Rightarrow> JNull | Some d \<Rightarrow> JNum (of_int (dep_level d)))
          (put ''department_name'' (case dep of None \<Rightarrow> JNull | Some d \<Rightarrow> JStr (dep_name d)) j))))"

definition configurationJobs :: "db \<Rightarrow> object list" where
  "configurationJobs db = map (configuration_job db) (sort_key job_number (cat_jobs (db_catalog db)))"

text \<open>\<open>a.get(core_job, id)\<close>.\<close>

definition find_job :: "db \<Rightarrow> int \<Rightarrow> object option" where
  "find_job db i = first_where (\<lambda>j. job_number j = i) (cat_jobs (db_catalog db))"

subsection \<open>The members whose standard changes\<close>

definition standard_changed :: "(json \<Rightarrow> string) \<Rightarrow> object \<Rightarrow> object \<Rightarrow> object \<Rightarrow> bool" where
  "standard_changed fingerprint before after s =
     (case policyItem after ''standards'' (str (fld s ''code'')) of
        None \<Rightarrow> True
      | Some new \<Rightarrow> \<not> active_item new \<or>
          \<not> activePolicyItem (policyItem after ''pools'' (str (fld new ''pool_code''))) \<or>
          str (fld new ''configuration_issue'') \<noteq> [] \<or>
          fld (standardJob fingerprint before s) ''content_hash'' \<noteq> fld (standardJob fingerprint after new) ''content_hash'' \<or>
          fingerprint (fld s ''application_names'') \<noteq> fingerprint (fld new ''application_names''))"

definition changed_standards :: "(json \<Rightarrow> string) \<Rightarrow> object \<Rightarrow> object \<Rightarrow> string list" where
  "changed_standards fingerprint before after =
     map (\<lambda>v. str (fld (obj v) ''code''))
       (filter (\<lambda>v. standard_changed fingerprint before after (obj v)) (list_of (fld before ''standards'')))"

definition impacted :: "string list \<Rightarrow> member_row \<Rightarrow> bool" where
  "impacted codes m \<longleftrightarrow> contains codes (mem_standard m) \<and> mem_status m = PmPendingAllocation"

definition reassess_member :: "member_row \<Rightarrow> db \<Rightarrow> db" where
  "reassess_member m db =
     poolEvent (mem_id m) ''assessment_changed'' [(''message'', JStr ''standard or tags changed'')] None
       (db\<lparr>db_work := update_where (stale_work (mem_id m))
          (\<lambda>i. i\<lparr>wrk_status := WiCancelled, wrk_reason := ''qualification_stale''\<rparr>) (db_work db)\<rparr>)"

definition applyConfigurationImpact ::
  "(json \<Rightarrow> string) \<Rightarrow> object \<Rightarrow> object \<Rightarrow> bool \<Rightarrow> db \<Rightarrow> object \<times> db" where
  "applyConfigurationImpact fingerprint before after apply db =
     (let codes = changed_standards fingerprint before after;
          members = filter (impacted codes) (db_members db)
      in ([(''changed_standard_codes'', JArr (map JStr codes)),
           (''reassessment_count'', JNum (of_nat (length members)))],
          if apply then fold reassess_member (map stale_member members)
            (db\<lparr>db_members := update_where (impacted codes) stale_member (db_members db)\<rparr>) else db))"

subsection \<open>A new version of the policy\<close>

definition store_policy :: "principal \<Rightarrow> object \<Rightarrow> db \<Rightarrow> db" where
  "store_policy p policy db =
     db\<lparr>db_policy := policy, db_policy_version := db_policy_version db + 1,
        db_config_events := db_config_events db @
          [\<lparr> cev_version = db_policy_version db + 1, cev_policy = policy, cev_actor = Some (pri_user p) \<rparr>]\<rparr>"

definition replace_policy :: "(json \<Rightarrow> string) \<Rightarrow> principal \<Rightarrow> object \<Rightarrow> db \<Rightarrow> db" where
  "replace_policy fingerprint p policy db =
     store_policy p policy (snd (applyConfigurationImpact fingerprint (db_policy db) policy True db))"

definition syncJobPolicy :: "(json \<Rightarrow> string) \<Rightarrow> principal \<Rightarrow> db \<Rightarrow> db" where
  "syncJobPolicy fingerprint p db =
     (let policy = deriveJobPolicy fingerprint (db_policy db) (configurationJobs db)
      in syncAllocationConfig
          (if fingerprint (JObj policy) = fingerprint (JObj (db_policy db)) then db
           else replace_policy fingerprint p policy db))"

text \<open>A generated standard stays generated, whatever the request says.\<close>

definition mark_generated :: "json \<Rightarrow> object \<Rightarrow> object" where
  "mark_generated v policy =
     (if truth (fld (obj v) ''generated'')
      then set_items ''standards'' (update_first (\<lambda>w. fld (obj w) ''code'' = JStr (str (fld (obj v) ''code'')))
        (change_object (put ''generated'' (JBool True))) (list_of (fld policy ''standards''))) policy
      else policy)"

definition keeps_code :: "object \<Rightarrow> string \<Rightarrow> json \<Rightarrow> bool" where
  "keeps_code policy kind v \<longleftrightarrow> policyItem policy kind (str (fld (obj v) ''code'')) \<noteq> None"

definition codes_kept :: "object \<Rightarrow> object \<Rightarrow> bool" where
  "codes_kept current policy \<longleftrightarrow> list_all (\<lambda>kind. list_all (keeps_code policy kind) (list_of (fld current kind)))
     [''pools'', ''standards'', ''tags'']"

text \<open>\<open>obj\<close> never returns nil, so the test \<open>policy == nil\<close> of the handler is never true: a request without a
  policy goes on with an empty object, and the derivation and the checks below decide about it.\<close>

definition accepted_policy :: "(json \<Rightarrow> string) \<Rightarrow> object \<Rightarrow> db \<Rightarrow> go_error + object" where
  "accepted_policy fingerprint body db =
     (if num (fld body ''version'') \<noteq> db_policy_version db then Inl (ApiError 409 ''configuration changed'')
      else let policy = deriveJobPolicy fingerprint
             (fold mark_generated (list_of (fld (db_policy db) ''standards'')) (obj (fld body ''policy'')))
             (configurationJobs db)
           in andThen (validatePoolPolicy (find_job db) policy) (\<lambda>_.
                if codes_kept (db_policy db) policy then Inr policy
                else Inl (bad ''saved codes cannot be removed'')))"

text \<open>The update; a preview answers with the impact and changes nothing.\<close>

definition updatePoolPolicy ::
  "(json \<Rightarrow> string) \<Rightarrow> principal \<Rightarrow> object \<Rightarrow> db \<Rightarrow> go_error + object option \<times> db" where
  "updatePoolPolicy fingerprint p body db =
     andThen (accepted_policy fingerprint body db) (\<lambda>policy.
       if truth (fld body ''preview'')
       then Inr (Some (fst (applyConfigurationImpact fingerprint (db_policy db) policy False db)), db)
       else Inr (None, syncAllocationConfig (replace_policy fingerprint p policy db)))"

subsection \<open>What the screen shows\<close>

definition configurationMessages :: "string \<Rightarrow> string option" where
  "configurationMessages = map_of
     [(''assessment_standard_missing'', ''no standard for the entity and application name''),
      (''source_job_missing'', ''the source job is inactive or renamed''),
      (''source_job_conflict'', ''the source job must be chosen''),
      (''job_responsibility_missing'', ''the source job has no responsibilities''),
      (''job_mapping_ambiguous'', ''several standards for one application''),
      (''allocation_rules_missing'', ''no rule enabled''),
      (''allocation_tags_missing'', ''rule tags missing from the standard''),
      (''no_receiving_demand'', ''no demand receives'')]"

definition message_of :: "string \<Rightarrow> string" where
  "message_of code = (case configurationMessages code of None \<Rightarrow> [] | Some m \<Rightarrow> m)"

definition firstPolicyName :: "object \<Rightarrow> string" where
  "firstPolicyName s = (case string_values (fld s ''application_names'') of [] \<Rightarrow> [] | name # _ \<Rightarrow> name)"

definition add_demand :: "object \<Rightarrow> json \<Rightarrow> json list \<Rightarrow> go_error + json list" where
  "add_demand s v demands =
     compare_values (fld (obj v) ''pool_code'') (fld s ''pool_code'') (\<lambda>same.
       Inr (if same \<and> active_value v then demands @ [fld (obj v) ''job_id''] else demands))"

definition coverage_entry :: "object \<Rightarrow> object list \<Rightarrow> json \<Rightarrow> json list \<Rightarrow> go_error + json list" where
  "coverage_entry policy jobs v coverage =
     (let s = obj v in
      andThen (resolveApplicationStandard [(''pool_policy'', JObj policy)]
        [(''entity'', fld s ''entity''), (''position_name'', JStr (firstPolicyName s))] []) (\<lambda>d.
      andThen (if str (fld d ''status'') = ''ready'' then allocationConfigurationIssue policy s jobs
               else Inr (str (fld d ''status''))) (\<lambda>code.
      andThen (foldE (add_demand s) (list_of (fld policy ''rules'')) []) (\<lambda>demands.
        Inr (coverage @ [JObj [(''code'', fld s ''code''), (''entity'', fld s ''entity''), (''name'', fld s ''name''),
          (''status'', JStr code), (''message'', JStr (message_of code)),
          (''screening_ready'', JBool (fld d ''status'' = JStr ''ready'')), (''demand_ids'', JArr demands)]])))))"

definition writePoolConfiguration :: "db \<Rightarrow> go_error + object" where
  "writePoolConfiguration db =
     (let jobs = configurationJobs db; policy = db_policy db in
      andThen (foldE (coverage_entry policy jobs) (list_of (fld policy ''standards'')) []) (\<lambda>coverage.
        Inr [(''singleton'', JBool True), (''version'', JNum (of_int (db_policy_version db))), (''policy'', JObj policy),
          (''job_options'', JArr (map JObj jobs)), (''coverage'', JArr coverage)]))"

text \<open>The answer, and the state after the request: it is written after the commit.\<close>

definition poolConfigAPI ::
  "(json \<Rightarrow> string) \<Rightarrow> principal \<Rightarrow> string \<Rightarrow> object \<Rightarrow> db \<Rightarrow> (go_error + object) \<times> db" where
  "poolConfigAPI fingerprint p http_method body db =
     (if \<not> has p ''settings.manage_config'' then (Inl (ApiError 403 ''no permission to configure pools''), db)
      else if http_method = ''POST'' then
        (let db = syncJobPolicy fingerprint p db in (writePoolConfiguration db, db))
      else if http_method = ''GET'' then (writePoolConfiguration db, db)
      else if http_method \<noteq> ''PUT'' then (Inl (ApiError 405 ''method not allowed''), db)
      else case updatePoolPolicy fingerprint p body db of
          Inl e \<Rightarrow> (Inl e, db)
        | Inr (Some preview, db) \<Rightarrow> (Inr preview, db)
        | Inr (None, db) \<Rightarrow> (writePoolConfiguration db, db))"

subsection \<open>Reprocessing after a repair\<close>

definition blocked_by_configuration :: "db \<Rightarrow> workflow_row \<Rightarrow> bool" where
  "blocked_by_configuration db w \<longleftrightarrow>
     contains [''assessment_standard_missing'', ''source_job_missing'', ''source_job_conflict'',
       ''job_mapping_ambiguous'', ''job_responsibility_missing''] (wf_block_reason w) \<or>
     exists_where (\<lambda>m. mem_workflow m = wf_id w \<and> mem_status m = PmNeedsReanalysis) (db_members db)"

definition blocked_candidates :: "db \<Rightarrow> int list" where
  "blocked_candidates db = sort (remdups (map wf_candidate (filter (blocked_by_configuration db) (db_workflows db))))"

definition reprocessConfiguration :: "instant \<Rightarrow> principal \<Rightarrow> string \<Rightarrow> db \<Rightarrow> go_error + object \<times> db" where
  "reprocessConfiguration now p http_method db =
     (if \<not> has p ''pipeline.run'' \<or> \<not> has p ''settings.manage_config''
      then Inl (ApiError 403 ''no permission to reprocess'')
      else if http_method \<noteq> ''POST'' then Inl (ApiError 405 ''method not allowed'')
      else let ids = blocked_candidates db in
        if ids = [] then Inl (bad ''no candidate is blocked by the configuration'')
        else andThen (createRun now ''step2'' [(''force_reprocess'', JBool True),
            (''task_name'', JStr ''reprocess after repair'')] ids (Some p) db) (\<lambda>(r, db).
          Inr ([(''run_id'', JNum (of_int (run_id r))), (''candidate_count'', JNum (of_nat (length ids)))], db)))"

subsection \<open>The preview of a run\<close>

record run_preview =
  pv_ready :: int
  pv_blocked :: int
  pv_waiting :: int
  pv_admission :: int
  pv_groups :: "(string \<times> object) list"

definition no_preview :: run_preview where
  "no_preview = \<lparr> pv_ready = 0, pv_blocked = 0, pv_waiting = 0, pv_admission = 0, pv_groups = [] \<rparr>"

definition issue_group :: "object \<Rightarrow> string \<Rightarrow> object" where
  "issue_group current code =
     [(''entity'', fld current ''entity''), (''application_name'', fld current ''position_name''), (''code'', JStr code),
      (''message'', JStr (message_of code)), (''count'', JNum 0),
      (''configuration_url'', JStr ''/jobs?tab=configuration'')]"

definition count_issue :: "object \<Rightarrow> object" where
  "count_issue g = put ''count'' (JNum (of_int (num (fld g ''count'') + 1))) g"

definition add_issue :: "(json \<Rightarrow> string) \<Rightarrow> object \<Rightarrow> string \<Rightarrow> run_preview \<Rightarrow> run_preview" where
  "add_issue fingerprint current code pv =
     (let key = fingerprint (JArr [fld current ''entity'', fld current ''position_name'', JStr code]);
          groups = (if exists_where (\<lambda>(k, _). k = key) (pv_groups pv) then pv_groups pv
                    else pv_groups pv @ [(key, issue_group current code)])
      in pv\<lparr>pv_groups := map (\<lambda>(k, g). (k, if k = key then count_issue g else g)) groups\<rparr>)"

definition preview_volunteer :: "object \<Rightarrow> object" where
  "preview_volunteer frozen =
     (let d = obj (fld frozen ''preflight'') in
      case last_where (\<lambda>v. fld (obj v) ''ref'' = fld d ''current_volunteer_ref'')
        (list_of (fld (obj (fld frozen ''snapshot'')) ''volunteers'')) of None \<Rightarrow> [] | Some v \<Rightarrow> obj v)"

definition preview_case :: "(json \<Rightarrow> string) \<Rightarrow> object \<Rightarrow> object list \<Rightarrow> object \<Rightarrow> run_preview \<Rightarrow> go_error + run_preview" where
  "preview_case fingerprint policy jobs frozen pv =
     (let d = obj (fld frozen ''preflight''); code = str (fld d ''status''); current = preview_volunteer frozen in
      if code = ''ready'' then
        (let standard = nil_map (policyItem policy ''standards'' (str (fld d ''standard_code'')));
             pv = pv\<lparr>pv_ready := pv_ready pv + 1\<rparr>
         in andThen (allocationConfigurationIssue policy standard jobs) (\<lambda>code.
              if code = [] then Inr pv
              else Inr (add_issue fingerprint current code (pv\<lparr>pv_waiting := pv_waiting pv + 1\<rparr>))))
      else if configurationMessages code = None then Inr (pv\<lparr>pv_admission := pv_admission pv + 1\<rparr>)
      else Inr (add_issue fingerprint current code (pv\<lparr>pv_blocked := pv_blocked pv + 1\<rparr>)))"

definition preview_candidate ::
  "processing_env \<Rightarrow> (int \<Rightarrow> string) \<Rightarrow> preparationData \<Rightarrow> object list \<Rightarrow> db \<Rightarrow> int \<Rightarrow> run_preview \<Rightarrow> go_error + run_preview" where
  "preview_candidate env tok data jobs db i pv =
     andThen (fetch cnd_id i (db_candidates db)) (\<lambda>c.
     andThen (freezeCase env [] [] data (tok i) (tok i) c db) (\<lambda>frozen.
       preview_case (pe_fingerprint env) (pd_policy data) jobs frozen pv))"

text \<open>Loading the preparation data may insert the tag of schools outside the lists.\<close>

definition processingConfigurationCheck ::
  "processing_env \<Rightarrow> ((string \<times> string) list \<Rightarrow> principal \<Rightarrow> go_error + int list) \<Rightarrow> (int \<Rightarrow> string)
    \<Rightarrow> principal \<Rightarrow> string \<Rightarrow> object \<Rightarrow> db \<Rightarrow> go_error + object \<times> db" where
  "processingConfigurationCheck env filtered tok p http_method body db =
     (if \<not> has p ''pipeline.run'' then Inl (ApiError 403 ''no permission to process'')
      else if http_method \<noteq> ''POST'' then Inl (ApiError 405 ''method not allowed'')
      else andThen (resolveRunCandidates filtered p (obj (fld body ''scope'')) db) (\<lambda>ids.
        andThen (loadPreparationData env db) (\<lambda>(data, db).
        andThen (foldE (preview_candidate env tok data (configurationJobs db) db) ids no_preview) (\<lambda>pv.
          Inr ([(''total'', JNum (of_nat (length ids))), (''ready_count'', JNum (of_int (pv_ready pv))),
            (''blocked_count'', JNum (of_int (pv_blocked pv))), (''allocation_wait_count'', JNum (of_int (pv_waiting pv))),
            (''admission_or_completed_count'', JNum (of_int (pv_admission pv))),
            (''issues'', JArr (map (\<lambda>(_, g). JObj g) (sort_key fst (pv_groups pv))))], db)))))"

end
