(* ===== verification/PoolConfigFacts.thy ===== *)
theory PoolConfigFacts
  imports PoolConfig
begin

text \<open>
  What an accepted change of the pool configuration establishes, and which members it leaves ready to
  be allocated.
\<close>

subsection \<open>Frames\<close>

lemma reassess_member_frame [frame_simps]:
  "db_members (reassess_member m db) = db_members db"
  "db_policy (reassess_member m db) = db_policy db"
  "db_policy_version (reassess_member m db) = db_policy_version db"
  "db_config_events (reassess_member m db) = db_config_events db"
  "db_applications (reassess_member m db) = db_applications db"
  by (simp_all add: reassess_member_def poolEvent_def)

lemma reassess_members_frame [frame_simps]:
  "db_members (fold reassess_member ms db) = db_members db"
  "db_policy (fold reassess_member ms db) = db_policy db"
  "db_policy_version (fold reassess_member ms db) = db_policy_version db"
  "db_config_events (fold reassess_member ms db) = db_config_events db"
  "db_applications (fold reassess_member ms db) = db_applications db"
  by (induction ms arbitrary: db) (simp_all add: frame_simps)

lemma reassess_member_work:
  "db_work (reassess_member m db) = update_where (stale_work (mem_id m))
     (\<lambda>i. i\<lparr>wrk_status := WiCancelled, wrk_reason := ''qualification_stale''\<rparr>) (db_work db)"
  by (simp add: reassess_member_def poolEvent_def)

lemma reassess_members_work:
  assumes "i \<in> set (db_work (fold reassess_member ms db))"
  shows "\<forall>m \<in> set ms. \<not> stale_work (mem_id m) i"
  using assms
proof (induction ms arbitrary: i rule: rev_induct)
  case (snoc m ms)
  let ?cancel = "\<lambda>i. i\<lparr>wrk_status := WiCancelled, wrk_reason := ''qualification_stale''\<rparr>"
  from snoc.prems obtain j where j: "j \<in> set (db_work (fold reassess_member ms db))"
      and i: "i = (if stale_work (mem_id m) j then ?cancel j else j)"
    by (auto simp: reassess_member_work in_update_where)
  have cancelled: "\<not> stale_work k (?cancel j)" for k by (simp add: stale_work_def)
  show ?case using snoc.IH [OF j] i cancelled by auto
qed simp

lemma sync_scope_frame [frame_simps]:
  "db_members (sync_scope v db) = db_members db" "db_policy (sync_scope v db) = db_policy db"
  "db_policy_version (sync_scope v db) = db_policy_version db" "db_work (sync_scope v db) = db_work db"
  "db_config_events (sync_scope v db) = db_config_events db" "db_applications (sync_scope v db) = db_applications db"
  by (simp_all add: sync_scope_def Let_def)

lemma sync_demand_frame [frame_simps]:
  "db_members (sync_demand j db) = db_members db" "db_policy (sync_demand j db) = db_policy db"
  "db_policy_version (sync_demand j db) = db_policy_version db" "db_work (sync_demand j db) = db_work db"
  "db_config_events (sync_demand j db) = db_config_events db" "db_applications (sync_demand j db) = db_applications db"
  by (simp_all add: sync_demand_def Let_def)

lemma fold_same: "(\<And>x db. f (g x db) = f db) \<Longrightarrow> f (fold g xs db) = f db"
  by (induction xs arbitrary: db) simp_all

lemma sync_frame [frame_simps]:
  "db_members (syncAllocationConfig db) = db_members db" "db_policy (syncAllocationConfig db) = db_policy db"
  "db_policy_version (syncAllocationConfig db) = db_policy_version db" "db_work (syncAllocationConfig db) = db_work db"
  "db_config_events (syncAllocationConfig db) = db_config_events db"
  "db_applications (syncAllocationConfig db) = db_applications db"
  unfolding syncAllocationConfig_def Let_def by (simp_all add: fold_same frame_simps)

subsection \<open>The members after a change\<close>

text \<open>A standard of the policy changed under a member.\<close>

definition member_changed :: "(json \<Rightarrow> string) \<Rightarrow> object \<Rightarrow> object \<Rightarrow> member_row \<Rightarrow> bool" where
  "member_changed fp before after m \<longleftrightarrow> (\<exists>v \<in> set (list_of (fld before ''standards'')).
     str (fld (obj v) ''code'') = mem_standard m \<and> standard_changed fp before after (obj v))"

lemma impacted_iff:
  "impacted (changed_standards fp before after) m \<longleftrightarrow>
     mem_status m = PmPendingAllocation \<and> member_changed fp before after m"
  by (auto simp: impacted_def changed_standards_def member_changed_def contains_def image_iff)

lemma replace_policy_members:
  "db_members (replace_policy fp p policy db) =
     update_where (\<lambda>m. mem_status m = PmPendingAllocation \<and> member_changed fp (db_policy db) policy m)
       stale_member (db_members db)"
  by (simp add: replace_policy_def store_policy_def applyConfigurationImpact_def Let_def frame_simps
      impacted_iff [abs_def])

lemma replace_policy_work:
  assumes "i \<in> set (db_work (replace_policy fp p policy db))" "m \<in> set (db_members db)"
    and "mem_status m = PmPendingAllocation" "member_changed fp (db_policy db) policy m"
  shows "\<not> stale_work (mem_id m) i"
proof -
  let ?codes = "changed_standards fp (db_policy db) policy"
  have "i \<in> set (db_work (fold reassess_member (map stale_member (filter (impacted ?codes) (db_members db)))
      (db\<lparr>db_members := update_where (impacted ?codes) stale_member (db_members db)\<rparr>)))"
    using assms(1) by (simp add: replace_policy_def store_policy_def applyConfigurationImpact_def Let_def)
  moreover have "stale_member m \<in> set (map stale_member (filter (impacted ?codes) (db_members db)))"
    using assms(2-4) by (simp add: impacted_iff)
  ultimately have "\<not> stale_work (mem_id (stale_member m)) i" using reassess_members_work by blast
  then show ?thesis by (simp add: stale_member_def)
qed

lemma keeps_code_iff:
  "keeps_code policy kind v \<longleftrightarrow> (\<exists>w \<in> set (list_of (fld policy kind)). fld (obj w) ''code'' = JStr (str (fld (obj v) ''code'')))"
  by (auto simp: keeps_code_def policyItem_def find_None_iff)

subsection \<open>Properties\<close>

text \<open>C24. An accepted update of the pool configuration was made under the version it was read at, stores
  a policy that passes the validation as the next version with its audit event, and drops no code of a
  saved pool, standard or tag. Afterwards exactly the pending members whose standard changed need a new
  assessment, with none of their work items left to an allocation; every other member is untouched.\<close>

theorem accepted_configuration_contract:
  assumes "updatePoolPolicy fp p body db = Inr (None, db')"
  shows "num (fld body ''version'') = db_policy_version db \<and> db_policy_version db' = db_policy_version db + 1
    \<and> validatePoolPolicy (find_job db) (db_policy db') = Inr ()
    \<and> db_config_events db' = db_config_events db @
        [\<lparr> cev_version = db_policy_version db', cev_policy = db_policy db', cev_actor = Some (pri_user p) \<rparr>]
    \<and> (\<forall>kind \<in> {''pools'', ''standards'', ''tags''}. \<forall>v \<in> set (list_of (fld (db_policy db) kind)).
        \<exists>w \<in> set (list_of (fld (db_policy db') kind)). fld (obj w) ''code'' = JStr (str (fld (obj v) ''code'')))
    \<and> db_members db' = map (\<lambda>m. if mem_status m = PmPendingAllocation \<and> member_changed fp (db_policy db) (db_policy db') m
        then m\<lparr>mem_status := PmNeedsReanalysis, mem_revision := mem_revision m + 1\<rparr> else m) (db_members db)
    \<and> (\<forall>m \<in> set (db_members db). \<forall>i \<in> set (db_work db'). mem_status m = PmPendingAllocation
        \<and> member_changed fp (db_policy db) (db_policy db') m \<longrightarrow>
        wrk_member i \<noteq> mem_id m \<or> wrk_status i \<notin> {WiPending, WiLeased, WiWaiting})"
proof -
  obtain policy where acc: "accepted_policy fp body db = Inr policy"
      and db': "db' = syncAllocationConfig (replace_policy fp p policy db)"
    using assms by (auto simp: updatePoolPolicy_def andThen_eq_Inr split: if_splits)
  have version: "num (fld body ''version'') = db_policy_version db"
    and valid: "validatePoolPolicy (find_job db) policy = Inr ()" and kept: "codes_kept (db_policy db) policy"
    using acc by (auto simp: accepted_policy_def andThen_eq_Inr Let_def split: if_splits json.splits)
  have stored: "db_policy db' = policy" "db_policy_version db' = db_policy_version db + 1"
      "db_config_events db' = db_config_events db @
        [\<lparr> cev_version = db_policy_version db + 1, cev_policy = policy, cev_actor = Some (pri_user p) \<rparr>]"
    unfolding db' by (simp_all add: frame_simps replace_policy_def store_policy_def applyConfigurationImpact_def Let_def)
  have members: "db_members db' = update_where
      (\<lambda>m. mem_status m = PmPendingAllocation \<and> member_changed fp (db_policy db) policy m) stale_member (db_members db)"
    unfolding db' by (simp add: frame_simps replace_policy_members)
  have work: "\<not> stale_work (mem_id m) i"
    if "i \<in> set (db_work db')" "m \<in> set (db_members db)" "mem_status m = PmPendingAllocation"
      "member_changed fp (db_policy db) policy m" for i m
    using that unfolding db' by (intro replace_policy_work) (simp_all add: frame_simps)
  show ?thesis
    unfolding stored using version valid kept work
    by (auto simp: codes_kept_def list_all_iff keeps_code_iff members update_where_def stale_member_def stale_work_def)
qed

subsection \<open>A change that reaches a member\<close>

definition demo_hash :: "json \<Rightarrow> string" where
  "demo_hash v = concat (map (\<lambda>t. str (fld (obj t) ''description'')) (list_of (fld (obj v) ''tags'')))"

definition config_member :: member_row where
  "config_member = \<lparr> mem_id = 1, mem_candidate = 2, mem_workflow = 3, mem_resume = 4, mem_decision = 5, mem_run = 6,
     mem_standard = ''std'', mem_pool = ''dev'', mem_status = PmPendingAllocation, mem_tags = [], mem_assessment = [],
     mem_checksum = [], mem_revision = 1, mem_created = 0 \<rparr>"

definition demo_job :: object where
  "demo_job = [(''id'', JNum 7), (''entity'', JStr ''acme''), (''is_active'', JBool False)]"

definition config_demo :: db where
  "config_demo = empty_db\<lparr>db_policy := sample_policy (JStr ''acme'') (JStr ''acme''), db_members := [config_member],
     db_catalog := empty_catalog\<lparr>cat_jobs := [demo_job]\<rparr>\<rparr>"

text \<open>The request gives the tag another description.\<close>

definition config_request :: object where
  "config_request = [(''version'', JNum 1), (''policy'', JObj (put ''tags'' (JArr [JObj [(''code'', JStr ''go''),
     (''name'', JStr ''Go''), (''category'', JStr ''skill''), (''description'', JStr ''writes Go services'')]])
     (sample_policy (JStr ''acme'') (JStr ''acme''))))]"

definition config_manager :: principal where
  "config_manager = \<lparr> pri_user = 1, pri_name = ''manager'', pri_superuser = True, pri_permissions = [], pri_roles = [],
     pri_contact = None, pri_grants = None, pri_global = None, pri_level = [] \<rparr>"

definition demo_update :: "go_error + object option \<times> db" where
  "demo_update = updatePoolPolicy demo_hash config_manager config_request config_demo"

lemma demo_update_accepted:
  "(case demo_update of Inr (None, db) \<Rightarrow> map mem_status (db_members db) = [PmNeedsReanalysis] \<and>
      db_applications db = db_applications config_demo | _ \<Rightarrow> False)"
  by code_simp

theorem accepted_configuration_contract_witness:
  "\<exists>db. demo_update = Inr (None, db) \<and> db_policy_version db = 2 \<and> map mem_revision (db_members db) = [2]"
proof -
  obtain db where db: "demo_update = Inr (None, db)" "map mem_status (db_members db) = [PmNeedsReanalysis]"
    using demo_update_accepted by (auto split: sum.splits prod.splits option.splits)
  have *: "db_policy_version db = db_policy_version config_demo + 1"
      "db_members db = map (\<lambda>m. if mem_status m = PmPendingAllocation \<and>
          member_changed demo_hash (db_policy config_demo) (db_policy db) m
        then m\<lparr>mem_status := PmNeedsReanalysis, mem_revision := mem_revision m + 1\<rparr> else m) (db_members config_demo)"
    using accepted_configuration_contract [OF db(1) [unfolded demo_update_def]] by blast+
  then show ?thesis
    using db by (auto simp: config_demo_def config_member_def empty_db_def split: if_splits)
qed

text \<open>The change of the configuration leaves the ledger of the applications alone, so the application of a
  member that needs a new assessment still waits for an allocation.\<close>

theorem configuration_leaves_ledger:
  "db_applications (replace_policy fp p policy db) = db_applications db"
  by (simp add: replace_policy_def store_policy_def applyConfigurationImpact_def Let_def frame_simps)

end
