(* ===== verification/AnalysisCheck.thy ===== *)
theory AnalysisCheck
  imports Runs
begin

text \<open>
  The assessment of a resume's text by the model kernel (internal/platform/kernel.go and
  analysis_cache.go): extracting the text with its cache, the request, the check of the kernel's
  answer against the text it was given, and the reuse of an earlier answer. The kernel, the protocol
  schemas (contract.Validate), the JSON encoding and the content hash are parameters. Sums of scores
  are exact rationals here, float64 in the source, which rounds them to four decimals.
\<close>

subsection \<open>Extracting the text of an item\<close>

record text_env =
  te_digest :: "string \<Rightarrow> string"
  te_tool :: "string list \<Rightarrow> process"
  te_state :: "nat \<Rightarrow> go_error option"
  te_max_pages :: int

text \<open>The file is read three times: for its checksum, to inspect it and to extract it.\<close>

type_synonym file_reads = "nat \<Rightarrow> string \<Rightarrow> go_error + string"

definition not_stopped :: "go_error option \<Rightarrow> go_error + unit" where
  "not_stopped state = (case state of None \<Rightarrow> Inr () | Some e \<Rightarrow> Inl e)"

definition fileDigest :: "text_env \<Rightarrow> go_error + string \<Rightarrow> go_error + string \<times> nat" where
  "fileDigest env content = andThen content (\<lambda>c.
     if c = [] then Inl (TaskError ''pdf_damaged'') else Inr (te_digest env c, length c))"

definition run_text :: "text_env \<Rightarrow> bool \<Rightarrow> string \<Rightarrow> nat \<Rightarrow> go_error + string \<Rightarrow> go_error + extraction" where
  "run_text env inspect checksum bytes content = run_extractor (te_digest env) (te_tool env) (te_state env) ''input.pdf''
     \<lparr> opt_sha = checksum, opt_size = bytes, opt_pages = te_max_pages env, opt_inspect = inspect \<rparr> content"

definition usable_text :: "text_env \<Rightarrow> string \<Rightarrow> string \<Rightarrow> pdf_text \<Rightarrow> bool" where
  "usable_text env checksum version t \<longleftrightarrow>
     txt_file_sha t = checksum \<and> txt_extractor t = version \<and> validText (te_digest env) t"

definition cached_text :: "text_env \<Rightarrow> string \<Rightarrow> string \<Rightarrow> db \<Rightarrow> extraction_row option" where
  "cached_text env checksum version db =
     (case first_where (\<lambda>r. ext_sha r = checksum \<and> ext_version r = version) (db_extractions db) of
        None \<Rightarrow> None
      | Some r \<Rightarrow> if usable_text env checksum version (ext_payload r) then Some r else None)"

text \<open>\<open>INSERT ... ON CONFLICT(file_sha256,extractor_version) DO UPDATE SET payload\<close>.\<close>

definition store_text :: "string \<Rightarrow> string \<Rightarrow> pdf_text \<Rightarrow> db \<Rightarrow> extraction_row \<times> db" where
  "store_text checksum version t db =
     (let c = (\<lambda>r. ext_sha r = checksum \<and> ext_version r = version) in
      case first_where c (db_extractions db) of
        Some r \<Rightarrow> (r\<lparr>ext_payload := t\<rparr>, db\<lparr>db_extractions := update_where c (\<lambda>r. r\<lparr>ext_payload := t\<rparr>) (db_extractions db)\<rparr>)
      | None \<Rightarrow>
          let r = \<lparr> ext_id = db_next db, ext_sha = checksum, ext_version = version, ext_payload = t \<rparr>
          in (r, db\<lparr>db_extractions := db_extractions db @ [r], db_next := db_next db + 1\<rparr>))"

definition fresh_text ::
  "text_env \<Rightarrow> string \<Rightarrow> string \<Rightarrow> nat \<Rightarrow> go_error + string \<Rightarrow> db \<Rightarrow> go_error + extraction_row \<times> db" where
  "fresh_text env version checksum bytes content db =
     andThen (run_text env False checksum bytes content) (\<lambda>x.
       case xtr_text x of
         None \<Rightarrow> Inl (TaskError ''resume_text_invalid'')
       | Some t \<Rightarrow>
           if \<not> usable_text env checksum version t then Inl (TaskError ''resume_text_invalid'')
           else andThen (not_stopped (te_state env 3)) (\<lambda>_. Inr (store_text checksum (txt_extractor t) t db)))"

definition extractText ::
  "text_env \<Rightarrow> file_reads \<Rightarrow> int \<Rightarrow> object \<Rightarrow> db \<Rightarrow> go_error + (pdf_text \<times> object) \<times> db" where
  "extractText env reads item volunteer db =
     (let artifact = obj (fld volunteer ''artifact''); path = str (fld artifact ''path'') in
      andThen (fileDigest env (reads 0 path)) (\<lambda>(checksum, bytes).
        let prior = str (fld artifact ''checksum'');
            artifact = put ''size_bytes'' (JNum (of_nat bytes)) (put ''checksum'' (JStr checksum) artifact) in
        if prior \<noteq> [] \<and> prior \<noteq> checksum then Inl (TaskError ''pdf_changed'')
        else andThen (run_text env True checksum bytes (reads 1 path)) (\<lambda>info.
          andThen (case cached_text env checksum (xtr_version info) db of
              Some r \<Rightarrow> Inr (r, db)
            | None \<Rightarrow> fresh_text env (xtr_version info) checksum bytes (reads 2 path) db) (\<lambda>(r, db).
          andThen (not_stopped (te_state env 4)) (\<lambda>_.
            Inr ((ext_payload r, artifact), db\<lparr>db_items := update_where (\<lambda>i. itm_id i = item)
              (\<lambda>i. i\<lparr>itm_extraction := Some (ext_id r), itm_node := ''validating_text''\<rparr>) (db_items db)\<rparr>))))))"

subsection \<open>Evidence\<close>

text \<open>The lines of the text with the number of their page.\<close>

definition source_lines :: "string list \<Rightarrow> (nat \<times> string) list" where
  "source_lines pages = concat (map (\<lambda>(i, body). map (Pair (i + 1)) (split_at (CHR 0x0A) body)) (enumerate 0 pages))"

definition cited_lines :: "(nat \<times> string) list \<Rightarrow> object \<Rightarrow> (nat \<times> string) list" where
  "cited_lines ls e =
     (let start = nat (num (fld e ''start_line'')); stop = nat (num (fld e ''end_line'')) in
      take (stop - (start - 1)) (drop (start - 1) ls))"

definition quote_of :: "object \<Rightarrow> string" where
  "quote_of e = norm_quote (str (fld e ''quote''))"

definition verify :: "(nat \<times> string) list \<Rightarrow> json \<Rightarrow> bool" where
  "verify ls v \<longleftrightarrow>
     (let e = obj v; start = num (fld e ''start_line''); stop = num (fld e ''end_line'') in
      8 \<le> rune_count (quote_of e) \<and> 1 \<le> start \<and> start \<le> stop \<and> stop \<le> int (length ls) \<and> stop - start \<le> 100 \<and>
      list_all (\<lambda>(page, _). int page = num (fld e ''page'')) (cited_lines ls e) \<and>
      contains_str (norm_quote (concat (map snd (cited_lines ls e)))) (quote_of e))"

definition evidence_ok :: "(nat \<times> string) list \<Rightarrow> object \<Rightarrow> bool" where
  "evidence_ok ls m \<longleftrightarrow> list_all (verify ls) (list_of (fld m ''evidence''))"

subsection \<open>The answer of the kernel\<close>

definition invalid_output :: go_error where
  "invalid_output = TaskError ''agent_invalid_output''"

definition failure_codes :: "(string \<times> string) list" where
  "failure_codes = [(''task_timeout'', ''llm_timeout''), (''task_cancelled'', ''agent_cancelled''),
     (''budget_exhausted'', ''agent_budget_exhausted''), (''text_invalid'', ''resume_text_unavailable''),
     (''model_connection_error'', ''ai_connection_error''), (''model_rate_limited'', ''ai_rate_limited''),
     (''model_output_invalid'', ''agent_invalid_output''), (''materials_incomplete'', ''agent_incomplete''),
     (''token_budget_exhausted'', ''agent_budget_exhausted''),
     (''next_request_budget_insufficient'', ''agent_budget_exhausted''),
     (''context_limit_exceeded'', ''agent_budget_exhausted''), (''turn_budget_exhausted'', ''agent_budget_exhausted''),
     (''tool_budget_exhausted'', ''agent_budget_exhausted''), (''analysis_stalled'', ''agent_stalled'')]"

definition kernel_failure :: "string \<Rightarrow> go_error" where
  "kernel_failure code = TaskError (case map_of failure_codes code of None \<Rightarrow> ''agent_incomplete'' | Some c \<Rightarrow> c)"

definition same_task :: "(json \<Rightarrow> string) \<Rightarrow> object \<Rightarrow> object \<Rightarrow> bool" where
  "same_task encode request result \<longleftrightarrow> list_all (\<lambda>k. encode (fld request k) = encode (fld result k))
     [''protocol_version'', ''task_id'', ''idempotency_key'', ''workflow_revision'', ''pin'']"

text \<open>The tags: known, once each, with evidence; an unsure one needs verification.\<close>

definition settle_tag :: "object \<Rightarrow> object" where
  "settle_tag tag = (if float_value (fld tag ''confidence'') < 8 / 10
     then put ''status'' (JStr ''needs_verification'') tag else tag)"

definition check_analysis_tag ::
  "string list \<Rightarrow> (nat \<times> string) list \<Rightarrow> json \<Rightarrow> string list \<times> json list \<Rightarrow> go_error + string list \<times> json list" where
  "check_analysis_tag known ls v = (\<lambda>(seen, tags).
     let tag = obj v; code = str (fld tag ''code'') in
     if \<not> contains known code \<or> contains seen code \<or> \<not> evidence_ok ls tag then Inl invalid_output
     else Inr (code # seen, tags @ [change_object settle_tag v]))"

subsection \<open>The matches\<close>

definition json_float :: "json \<Rightarrow> rat" where
  "json_float v = (case v of JNum r \<Rightarrow> r | _ \<Rightarrow> 0)"

definition match_weights :: "(string \<times> rat) list" where
  "match_weights = [(''major_match'', 3 / 10), (''skills_match'', 2 / 10), (''experience_evidence'', 25 / 100),
     (''job_requirement'', 15 / 100), (''resume_quality'', 1 / 10)]"

text \<open>\<open>math.Round\<close> rounds half away from zero.\<close>

definition round_half :: "rat \<Rightarrow> int" where
  "round_half r = (if r < 0 then - \<lfloor>1 / 2 - r\<rfloor> else \<lfloor>r + 1 / 2\<rfloor>)"

definition match_score :: "object \<Rightarrow> rat" where
  "match_score m = of_int (round_half (sum_list (map (\<lambda>(k, w). json_float (fld (obj (fld m ''dimensions'')) k) * w)
     match_weights) * 10000)) / 10000"

record match_state =
  ms_seen :: "string list"
  ms_last :: "(rat \<times> string) option"

definition score_in_order :: "rat \<Rightarrow> string \<Rightarrow> match_state \<Rightarrow> bool" where
  "score_in_order score ref s = (case ms_last s of None \<Rightarrow> True
     | Some (last_score, last_ref) \<Rightarrow> score < last_score \<or> (score = last_score \<and> \<not> ref < last_ref))"

definition check_match ::
  "string list \<Rightarrow> (nat \<times> string) list \<Rightarrow> nat \<times> json \<Rightarrow> match_state \<Rightarrow> go_error + match_state" where
  "check_match refs ls = (\<lambda>(i, v) s.
     let m = obj v; ref = str (fld m ''job_ref''); score = match_score m in
     if contains (ms_seen s) ref \<or> \<not> contains refs ref then Inl invalid_output
     else if 11 / 100000 < \<bar>score - json_float (fld m ''score'')\<bar> \<or> num (fld m ''rank'') \<noteq> int i + 1
       \<or> \<not> score_in_order score ref s then Inl invalid_output
     else if \<not> evidence_ok ls m then Inl invalid_output
     else Inr \<lparr> ms_seen = ref # ms_seen s, ms_last = Some (score, ref) \<rparr>)"

text \<open>\<open>fmt.Sprint\<close> of two sorted lists.\<close>

definition sprint_sorted :: "string list \<Rightarrow> string" where
  "sprint_sorted names = join_with '' '' (sort names)"

definition covers_refs :: "object \<Rightarrow> string list \<Rightarrow> match_state \<Rightarrow> bool" where
  "covers_refs manifest refs s \<longleftrightarrow> length (ms_seen s) = length refs \<and>
     sprint_sorted (string_values (fld manifest ''covered_jobs'')) = sprint_sorted refs"

definition known_tags :: "object \<Rightarrow> string list" where
  "known_tags request = map (\<lambda>v. str (fld (obj v) ''code'')) (list_of (fld (obj (fld request ''scope'')) ''tag_catalog''))"

definition with_tags :: "json list \<Rightarrow> object \<Rightarrow> object" where
  "with_tags tags result = (case fld result ''profile'' of
       JObj profile \<Rightarrow> (case fld profile ''tags'' of
           JArr _ \<Rightarrow> put ''profile'' (JObj (put ''tags'' (JArr tags) profile)) result | _ \<Rightarrow> result)
     | _ \<Rightarrow> result)"

definition claims_ok :: "(nat \<times> string) list \<Rightarrow> object \<Rightarrow> bool" where
  "claims_ok ls profile \<longleftrightarrow> list_all (\<lambda>v. evidence_ok ls (obj v)) (list_of (fld profile ''claims''))"

definition match_indices :: "object \<Rightarrow> (nat \<times> json) list" where
  "match_indices result = enumerate 0 (list_of (fld result ''matches''))"

text \<open>The result is the answer with the settled tags, which the source changes in place.\<close>

definition validateAnalysis ::
  "(json \<Rightarrow> string) \<Rightarrow> object \<Rightarrow> object \<Rightarrow> pdf_text \<Rightarrow> string list \<Rightarrow> go_error + object" where
  "validateAnalysis encode request result text refs =
     (let manifest = obj (fld result ''manifest''); profile = obj (fld result ''profile'');
          ls = source_lines (txt_pages text) in
      if \<not> same_task encode request result then Inl invalid_output
      else if fld manifest ''terminal_state'' \<noteq> JStr ''DONE'' then Inl (kernel_failure (str (fld manifest ''failure_code'')))
      else if str (fld manifest ''resume_checksum'') \<noteq> txt_file_sha text
        \<or> str (fld profile ''source_text'') \<noteq> join_with [page_break] (txt_pages text) then Inl invalid_output
      else if \<not> claims_ok ls profile then Inl invalid_output
      else andThen (foldE (check_analysis_tag (known_tags request) ls) (list_of (fld profile ''tags'')) ([], [])) (\<lambda>(_, tags).
           let result = with_tags tags result in
           andThen (foldE (check_match refs ls) (match_indices result) \<lparr> ms_seen = [], ms_last = None \<rparr>) (\<lambda>s.
             if \<not> covers_refs manifest refs s then Inl invalid_output
             else if contains_str (encode (JObj result)) [CHR 0x5C, CHR ''u'', CHR ''0'', CHR ''0'', CHR ''0'', CHR ''0'']
             then Inl invalid_output else Inr result)))"

subsection \<open>Reusing an earlier answer\<close>

record analysis_env =
  ae_encode :: "json \<Rightarrow> string"
  ae_fingerprint :: "json \<Rightarrow> string"
  ae_config :: "string \<Rightarrow> json option"
  ae_connection :: "go_error + object \<times> string"
  ae_request_ok :: "json \<Rightarrow> bool"
  ae_response_ok :: "json \<Rightarrow> bool"
  ae_execute :: "json \<Rightarrow> go_error + nat \<times> json option"
  ae_skip_verify :: bool

definition referenced_jobs :: "object \<Rightarrow> string list \<Rightarrow> object list" where
  "referenced_jobs snapshot refs =
     filter (\<lambda>j. contains refs (str (fld j ''ref''))) (map obj (list_of (fld snapshot ''jobs'')))"

definition analysisContentKey :: "(json \<Rightarrow> string) \<Rightarrow> object \<Rightarrow> object \<Rightarrow> pdf_text \<Rightarrow> string" where
  "analysisContentKey fingerprint frozen pin text =
     (let snapshot = obj (fld frozen ''snapshot''); d = obj (fld frozen ''preflight'');
          jobs = map (\<lambda>j. str (fld j ''ref'') @ '':'' @ str (fld j ''content_hash''))
            (referenced_jobs snapshot (string_values (fld d ''job_refs'')))
      in fingerprint (JObj [(''pin'', JObj pin),
           (''candidate'', JObj (brief (obj (fld snapshot ''candidate'')) [''highest_major'', ''highest_education''])),
           (''volunteer'', fld d ''current_volunteer_ref''), (''file_sha256'', JStr (txt_file_sha text)),
           (''text_sha256'', JStr (txt_text_sha text)), (''extractor_version'', JStr (txt_extractor text)),
           (''jobs'', JArr (map JStr (sort jobs))), (''tag_catalog'', fld snapshot ''tag_catalog'')]))"

text \<open>The last twenty finished analyses of the candidate with their stored texts.\<close>

definition earlier_analyses :: "item_row \<Rightarrow> db \<Rightarrow> (item_row \<times> pdf_text) list" where
  "earlier_analyses item db = take 20 (rev (List.map_filter (\<lambda>i.
     if itm_candidate i = itm_candidate item \<and> itm_id i \<noteq> itm_id item \<and>
        jsonb_text (fld (obj (fld (itm_result i) ''manifest'')) ''terminal_state'') = Some ''DONE''
     then (case first_where (\<lambda>r. Some (ext_id r) = itm_extraction i) (db_extractions db) of
        None \<Rightarrow> None | Some r \<Rightarrow> Some (i, ext_payload r))
     else None) (sort_key itm_id (db_items db))))"

definition uses_mcp :: "object \<Rightarrow> bool" where
  "uses_mcp result \<longleftrightarrow>
     list_ex (\<lambda>(name, _). has_prefix name ''mcp.'') (obj (fld (obj (fld result ''manifest'')) ''tool_versions''))"

text \<open>The answer under the new task, without model usage; \<open>None\<close> when it has no trace to clear.\<close>

definition relabelled :: "object \<Rightarrow> object \<Rightarrow> object option" where
  "relabelled request result =
     (case fld result ''safe_trace'' of
        JObj trace \<Rightarrow>
          (let manifest = put ''reused_from_task_id'' (fld result ''task_id'') (obj (fld result ''manifest''));
               cleared = drop_keys [''budget''] (put_all
                 ([(k, JNum 0). k \<leftarrow> [''turns'', ''tool_call_count'', ''input_tokens'', ''output_tokens'']] @
                  [(''tool_calls'', JArr []), (''rounds'', JArr [])]) trace)
           in Some (put_all ((''manifest'', JObj manifest) #
                [(k, fld request k). k \<leftarrow> [''task_id'', ''idempotency_key'', ''workflow_revision'', ''pin'']] @
                [(''safe_trace'', JObj cleared)]) (drop_keys [''deterministic''] result)))
      | _ \<Rightarrow> None)"

fun reuse_first ::
  "analysis_env \<Rightarrow> string \<Rightarrow> object \<Rightarrow> object \<Rightarrow> pdf_text \<Rightarrow> string list \<Rightarrow> (item_row \<times> pdf_text) list
    \<Rightarrow> go_error + object option" where
  "reuse_first env key frozen request text refs [] = Inr None"
| "reuse_first env key frozen request text refs ((i, prior) # rest) =
     (let result = itm_result i in
      if analysisContentKey (ae_fingerprint env) (itm_snapshot i) (obj (fld result ''pin'')) prior \<noteq> key \<or> uses_mcp result
      then reuse_first env key frozen request text refs rest
      else case relabelled request result of
          None \<Rightarrow> Inl Panic
        | Some result \<Rightarrow>
            if \<not> ae_response_ok env (JObj result) then reuse_first env key frozen request text refs rest
            else case validateAnalysis (ae_encode env) request result text refs of
                Inl _ \<Rightarrow> reuse_first env key frozen request text refs rest
              | Inr checked \<Rightarrow> Inr (Some (put ''deterministic'' (JObj (obj (fld frozen ''preflight''))) checked)))"

definition reusableAnalysis ::
  "analysis_env \<Rightarrow> item_row \<Rightarrow> object \<Rightarrow> object \<Rightarrow> pdf_text \<Rightarrow> string list \<Rightarrow> db \<Rightarrow> go_error + object option" where
  "reusableAnalysis env item frozen request text refs db =
     reuse_first env (analysisContentKey (ae_fingerprint env) frozen (obj (fld request ''pin'')) text)
       frozen request text refs (earlier_analyses item db)"

subsection \<open>The request and the answer\<close>

definition unavailable :: go_error where
  "unavailable = TaskError ''agent_snapshot_unavailable''"

definition text_json :: "pdf_text \<Rightarrow> json" where
  "text_json t = JObj [(''file_sha256'', JStr (txt_file_sha t)), (''text_sha256'', JStr (txt_text_sha t)),
     (''extractor_version'', JStr (txt_extractor t)), (''pages'', JArr (map JStr (txt_pages t))),
     (''status'', JStr (txt_status t)), (''warnings'', JArr (map JStr (txt_warnings t)))]"

text \<open>The frozen case still resolves to the one standard it was prepared for.\<close>

definition frozen_standard :: "object \<Rightarrow> go_error + unit" where
  "frozen_standard frozen =
     (let d = obj (fld frozen ''preflight''); refs = string_values (fld d ''job_refs'') in
      andThen (prepareSnapshot (obj (fld frozen ''snapshot''))) (\<lambda>resolved.
        if fld resolved ''status'' \<noteq> JStr ''ready'' then Inl unavailable
        else compare_values (fld resolved ''standard_code'') (fld d ''standard_code'') (\<lambda>same.
          if \<not> same then Inl unavailable
          else compare_values (fld resolved ''pool_code'') (fld d ''pool_code'') (\<lambda>same.
            if \<not> same \<or> length refs \<noteq> 1 \<or> fld d ''standard_code'' \<noteq> JStr (hd refs)
              \<or> fld (obj (fld frozen ''pin'')) ''policy_version'' \<noteq> JStr ''application-pool-policy/v1''
            then Inl unavailable else Inr ()))))"

definition task_pin :: "analysis_env \<Rightarrow> string \<Rightarrow> object \<Rightarrow> object" where
  "task_pin env revision frozen =
     (let pin = put ''model_config_revision'' (JStr revision) (drop_keys [''pin_id''] (obj (fld frozen ''pin'')))
      in put ''pin_id'' (JStr (ae_fingerprint env (JObj pin))) pin)"

definition task_scope :: "object \<Rightarrow> pdf_text \<Rightarrow> json" where
  "task_scope frozen text =
     (let snapshot = obj (fld frozen ''snapshot''); d = obj (fld frozen ''preflight'');
          jobs = map (\<lambda>j. JObj (brief j [''ref'', ''content_hash'', ''entity'', ''public_name'', ''position_name'', ''category'',
              ''job_family'', ''location'', ''education'', ''required_majors'', ''responsibilities'', ''department_ref'',
              ''department_name''])) (referenced_jobs snapshot (string_values (fld d ''job_refs'')))
      in JObj [(''candidate'', JObj (brief (obj (fld snapshot ''candidate'')) [''ref'', ''highest_major'', ''highest_education''])),
           (''volunteer_ref'', fld d ''current_volunteer_ref''), (''resume_text'', text_json text), (''jobs'', JArr jobs),
           (''tag_catalog'', fld snapshot ''tag_catalog'')])"

definition task_model :: "analysis_env \<Rightarrow> object \<Rightarrow> json" where
  "task_model env c = JObj [(''api_style'', fld c ''api_style''), (''base_url'', fld c ''base_url''),
     (''model_name'', fld c ''model_name''),
     (''structured_output_mode'', configValue (ae_config env) ''ai_connection_structured_output_mode'' (JStr ''json_compat'')),
     (''timeout_seconds'', configValue (ae_config env) ''ai_timeout_seconds'' (JNum 60)),
     (''retry_count'', configValue (ae_config env) ''ai_retry_count'' (JNum 1)),
     (''insecure_skip_verify'', JBool (ae_skip_verify env))]"

definition task_budget :: "analysis_env \<Rightarrow> json" where
  "task_budget env = JObj [(''max_turns'', JNum 32), (''max_tool_calls'', JNum 256), (''max_duration_seconds'', JNum 600),
     (''max_tokens'', JNum 120000), (''max_context_tokens'', configValue (ae_config env) ''ai_context_tokens'' (JNum 32768))]"

definition task_request :: "analysis_env \<Rightarrow> object \<Rightarrow> string \<Rightarrow> item_row \<Rightarrow> object \<Rightarrow> pdf_text \<Rightarrow> object" where
  "task_request env c revision item frozen text =
     (let pin = JObj (task_pin env revision frozen); scope = task_scope frozen text; budget = task_budget env;
          task = JStr (str (fld frozen ''task_id'') @ ''-'' @ show_id (itm_attempts item));
          workflow = fld (obj (fld (obj (fld frozen ''snapshot'')) ''workflow'')) ''revision''
      in [(''protocol_version'', JStr ''resume-analysis/v5''), (''task_kind'', JStr ''candidate.application_assessment''),
          (''task_id'', task), (''trigger'', JStr ''processing_run''), (''workflow_revision'', workflow), (''pin'', pin),
          (''scope'', scope), (''model'', task_model env c), (''budget'', budget),
          (''idempotency_key'', JStr (ae_fingerprint env (JObj [(''task_id'', task), (''pin'', pin), (''scope'', scope),
             (''workflow_revision'', workflow), (''budget'', budget)])))])"

definition kernel_rejection :: "object \<Rightarrow> go_error" where
  "kernel_rejection result =
     (let code = str (fld result ''code'') in
      if contains [''agent_protocol_incompatible'', ''kernel_version_unavailable'', ''idempotency_conflict'',
        ''request_too_large''] code then TaskError code else TaskError ''agent_kernel_unavailable'')"

definition kernel_answer :: "analysis_env \<Rightarrow> object \<Rightarrow> go_error + object" where
  "kernel_answer env request = andThen (ae_execute env (JObj request)) (\<lambda>(status, body).
     case body of
       Some (JObj result) \<Rightarrow>
         if status \<noteq> 200 then Inl (kernel_rejection result)
         else if \<not> ae_response_ok env (JObj result) then Inl invalid_output else Inr result
     | Some JNull \<Rightarrow> if status \<noteq> 200 then Inl (kernel_rejection []) else Inl invalid_output
     | _ \<Rightarrow> Inl invalid_output)"

definition fresh_analysis ::
  "analysis_env \<Rightarrow> object \<Rightarrow> object \<Rightarrow> pdf_text \<Rightarrow> string list \<Rightarrow> go_error + object" where
  "fresh_analysis env request frozen text refs =
     andThen (kernel_answer env request) (\<lambda>result.
     andThen (validateAnalysis (ae_encode env) request result text refs) (\<lambda>checked.
       Inr (put ''deterministic'' (JObj (obj (fld frozen ''preflight''))) checked)))"

definition analyze :: "analysis_env \<Rightarrow> item_row \<Rightarrow> object \<Rightarrow> pdf_text \<Rightarrow> db \<Rightarrow> go_error + object" where
  "analyze env item frozen text db =
     andThen (ae_connection env) (\<lambda>(c, revision).
       if str (configValue (ae_config env) ''ai_connection_test_fingerprint'' (JStr [])) \<noteq> revision
       then Inl (TaskError ''ai_not_configured'')
       else andThen (frozen_standard frozen) (\<lambda>_.
         let refs = string_values (fld (obj (fld frozen ''preflight'')) ''job_refs'');
             request = task_request env c revision item frozen text in
         if 2097152 < length (ae_encode env (JObj request)) then Inl (TaskError ''request_too_large'')
         else if \<not> ae_request_ok env (JObj request) then Inl (TaskError ''agent_invalid_input'')
         else andThen (reusableAnalysis env item frozen request text refs db) (\<lambda>reused.
           case reused of Some r \<Rightarrow> Inr r | None \<Rightarrow> fresh_analysis env request frozen text refs)))"

subsection \<open>The version of the kernel and the presentation\<close>

text \<open>The capabilities of the kernel; \<open>answer\<close> is the status and the valid body of its reply.\<close>

definition kernelCapabilities ::
  "string \<Rightarrow> string \<Rightarrow> bool \<Rightarrow> (json \<Rightarrow> bool) \<Rightarrow> go_error + nat \<times> json \<Rightarrow> go_error + object" where
  "kernelCapabilities token build mock_allowed schema answer =
     (if token = [] then Inl (TaskError ''agent_kernel_unavailable'')
      else case answer of
        Inl _ \<Rightarrow> Inl (TaskError ''agent_kernel_unavailable'')
      | Inr (status, body) \<Rightarrow>
          if status \<noteq> 200 then Inl (TaskError ''agent_kernel_unavailable'')
          else if \<not> schema body then Inl (TaskError ''agent_protocol_incompatible'')
          else if truth (fld (obj body) ''mock'') \<noteq> mock_allowed then Inl (TaskError ''agent_protocol_incompatible'')
          else if build \<noteq> [] \<and> fld (obj body) ''kernel_build'' \<noteq> JStr build
          then Inl (TaskError ''kernel_version_unavailable'')
          else Inr (obj body))"

definition runtimePin :: "analysis_env \<Rightarrow> go_error + object \<Rightarrow> go_error + object \<times> object" where
  "runtimePin env capabilities =
     andThen (ae_connection env) (\<lambda>(c, revision).
       if str (fld c ''model_name'') = [] \<or> str (fld c ''base_url'') = []
         \<or> str (configValue (ae_config env) ''ai_connection_test_fingerprint'' (JStr [])) \<noteq> revision
       then Inl (TaskError ''ai_not_configured'')
       else andThen capabilities (\<lambda>caps.
         let pin = [(''kernel_build'', fld caps ''kernel_build''), (''protocol_version'', JStr ''resume-analysis/v5''),
               (''toolset_version'', fld caps ''toolset_version''),
               (''result_schema_version'', JStr ''resume-application-assessment/v1''),
               (''policy_version'', JStr ''application-pool-policy/v1''),
               (''instruction_version'', fld caps ''instruction_version''), (''model_config_revision'', JStr revision)]
         in Inr (put ''pin_id'' (JStr (ae_fingerprint env (JObj pin))) pin, c)))"

text \<open>What the screens show of a stored assessment; \<open>frozen\<close> is the case of its item.\<close>

definition match_title :: "object \<Rightarrow> string" where
  "match_title j = (if str (fld j ''position_name'') \<noteq> [] then str (fld j ''position_name'')
     else if str (fld j ''public_name'') \<noteq> [] then str (fld j ''public_name'') else ''job name unavailable'')"

definition presented_match :: "object \<Rightarrow> json \<Rightarrow> object \<Rightarrow> object" where
  "presented_match frozen recommended m =
     (let ref = str (fld m ''job_ref'');
          j = nil_map (last_where (\<lambda>j. str (fld j ''ref'') = ref) (map obj (list_of (fld (obj (fld frozen ''snapshot'')) ''jobs''))))
      in put ''is_selected'' (JBool (num (fld (obj (fld frozen ''job_ids'')) ref) = num recommended \<and> recommended \<noteq> JNull))
          (put ''department_name'' (JStr (str (fld j ''department_name''))) (put ''job_title'' (JStr (match_title j)) m)))"

definition analysisPresentation :: "object \<Rightarrow> object \<Rightarrow> json \<Rightarrow> bool \<Rightarrow> object" where
  "analysisPresentation stored frozen recommended detail =
     (let manifest = obj (fld stored ''manifest'') in
      if stored = [] then []
      else if \<not> detail then
        [(''match_count'', JNum (of_nat (length (list_of (fld stored ''matches''))))),
         (''terminal_state'', fld manifest ''terminal_state''),
         (''reused'', JBool (str (fld manifest ''reused_from_task_id'') \<noteq> []))]
      else
        (let shown = (case fld stored ''profile'' of
               JObj profile \<Rightarrow> put ''profile'' (JObj (drop_keys [''source_text''] profile)) stored | _ \<Rightarrow> stored)
         in case fld shown ''matches'' of
              JArr ms \<Rightarrow> put ''matches'' (JArr (map (change_object (presented_match frozen recommended)) ms)) shown
            | _ \<Rightarrow> shown))"

end
