(* ===== verification/TextFacts.thy ===== *)
theory TextFacts
  imports TextExtraction
begin

text \<open>
  What the extraction of a text guarantees: the text it returns passes the platform's own check, and is
  the output of the tool up to line ends and the last page break.
\<close>

subsection \<open>Valid strings\<close>

lemma segments_append: "utf8_valid s \<Longrightarrow> segments (s @ t) = segments s @ segments t"
proof (induction s rule: utf8_valid.induct)
  case 1
  then show ?case by simp
next
  case (2 c s)
  then obtain n where n: "rune_size (c # s) = Some n" "utf8_valid (drop n (c # s))"
    by (auto split: option.splits)
  have m: "rune_size ((c # s) @ t) = Some n" by (rule rune_size_append [OF n(1)])
  have l: "n \<le> length (c # s)" using rune_size_bounds [OF n(1)] by simp
  have e: "take n (c # s @ t) = take n (c # s)" "drop n (c # s @ t) = drop n (c # s) @ t"
    using l take_append [of n "c # s" t] drop_append [of n "c # s" t] by simp_all
  show ?case using n(1) m 2(1) [OF n] by (simp add: e)
qed

lemma runes_append: "utf8_valid s \<Longrightarrow> runes (s @ t) = runes s @ runes t"
  by (simp add: runes_def segments_append)

lemma runes_concat: "list_all utf8_valid ps \<Longrightarrow> runes (concat ps) = concat (map runes ps)"
proof (induction ps)
  case Nil
  then show ?case by (simp add: runes_def)
next
  case (Cons p ps)
  then show ?case by (simp add: runes_append)
qed

lemma utf8_valid_concat: "list_all utf8_valid ps \<Longrightarrow> utf8_valid (concat ps)"
  by (induction ps) (simp_all add: utf8_valid_append)

lemma utf8_valid_ascii: "list_all (\<lambda>c. byte c < 0x80) s \<Longrightarrow> utf8_valid s"
  by (induction s) (simp_all del: utf8_valid.simps(2))

lemma segments_not_empty: "\<forall>p \<in> set (segments s). snd p \<noteq> []"
proof (induction s rule: segments.induct)
  case (2 c s)
  show ?case
  proof (cases "rune_size (c # s)")
    case None
    then show ?thesis using 2(1) [OF None] by simp
  next
    case (Some n)
    then have "take n (c # s) \<noteq> []" using rune_size_bounds by force
    then show ?thesis using 2(2) [OF Some] Some by simp
  qed
qed simp

lemma dropWhile_Nil_rev: "dropWhile P (rev (dropWhile P xs)) = [] \<longleftrightarrow> (\<forall>x \<in> set xs. P x)"
proof
  assume "dropWhile P (rev (dropWhile P xs)) = []"
  then have all: "\<forall>x \<in> set (dropWhile P xs). P x" by (simp add: dropWhile_eq_Nil_conv)
  then have "dropWhile P xs = []"
    using hd_dropWhile [of P xs] hd_in_set [of "dropWhile P xs"] by blast
  then show "\<forall>x \<in> set xs. P x" by (simp add: dropWhile_eq_Nil_conv)
next
  assume "\<forall>x \<in> set xs. P x"
  then have "dropWhile P xs = []" by (simp add: dropWhile_eq_Nil_conv)
  then show "dropWhile P (rev (dropWhile P xs)) = []" by (simp only: rev.simps dropWhile.simps)
qed

lemma blank_iff: "blank s \<longleftrightarrow> (\<forall>r \<in> set (runes s). is_space r)"
proof -
  let ?space = "\<lambda>p. is_space (fst p)"
  have nonempty: "\<forall>p \<in> set (trim_segments (segments s)). snd p \<noteq> []"
    unfolding trim_segments_def using segments_not_empty [of s] by (auto dest!: set_dropWhileD)
  have "blank s \<longleftrightarrow> trim_segments (segments s) = []"
    unfolding blank_def trim_space_def using nonempty
    by (cases "trim_segments (segments s)") auto
  also have "\<dots> \<longleftrightarrow> (\<forall>p \<in> set (segments s). ?space p)"
    unfolding trim_segments_def by (simp only: rev_is_Nil_conv dropWhile_Nil_rev)
  finally show ?thesis by (simp add: runes_def)
qed

lemma visible_blank: "visible_runes s = 0 \<longleftrightarrow> blank s"
  by (simp add: visible_runes_def blank_iff filter_empty_conv)

subsection \<open>Line ends\<close>

lemma join_newlines_append: "13 \<notin> byte ` set a \<Longrightarrow> join_newlines (a @ t) = a @ join_newlines t"
proof (induction a)
  case (Cons c a)
  then show ?case by (cases "a @ t") auto
qed simp

lemma join_newlines_cr:
  "byte c = 13 \<Longrightarrow> join_newlines (c # t) =
     (case t of d # u \<Rightarrow> if byte d = 10 then d # join_newlines u else c # join_newlines t | [] \<Rightarrow> [c])"
  by (cases t) auto

lemma first_occurrence:
  assumes "b \<in> byte ` set s"
  obtains a c t where "s = a @ c # t" "byte c = b" "b \<notin> byte ` set a"
proof -
  have "\<exists>c \<in> set s. byte c = b" using assms by auto
  then obtain a c t where "s = a @ c # t" "byte c = b" "\<forall>d \<in> set a. byte d \<noteq> b" by (rule split_list_first_propE) blast
  then show thesis by (intro that) auto
qed

lemma no_cr_map: "13 \<notin> byte ` set a \<Longrightarrow> map (\<lambda>c. if byte c = 13 then CHR 0x0A else c) a = a"
  by (induction a) auto

lemma unix_newlines_same: "13 \<notin> byte ` set s \<Longrightarrow> unix_newlines s = s"
  using join_newlines_append [of s "[]"] by (simp add: unix_newlines_def no_cr_map)

lemma unix_newlines_cr:
  assumes "13 \<notin> byte ` set a" and "byte c = 13"
  shows "unix_newlines (a @ c # t) = a @ CHR 0x0A #
    unix_newlines (case t of d # u \<Rightarrow> if byte d = 10 then u else t | [] \<Rightarrow> [])"
proof -
  note a = no_cr_map [OF assms(1)]
  have lf: "d = CHR 0x0A" if "byte d = 10" for d
  proof -
    have "char_of (byte d) = (char_of (10 :: nat) :: char)" using that by (simp only:)
    moreover have "char_of (10 :: nat) = CHR 0x0A" by code_simp
    ultimately show ?thesis by simp
  qed
  show ?thesis
    using assms(2) by (auto simp: unix_newlines_def join_newlines_append [OF assms(1)] join_newlines_cr a split: list.split dest: lf)
qed

lemma valid_unix_newlines: "utf8_valid s \<Longrightarrow> utf8_valid (unix_newlines s)"
proof (induction "length s" arbitrary: s rule: less_induct)
  case less
  show ?case
  proof (cases "13 \<in> byte ` set s")
    case True
    then obtain a c t where s: "s = a @ c # t" "byte c = 13" "13 \<notin> byte ` set a" by (rule first_occurrence)
    let ?t = "case t of d # u \<Rightarrow> if byte d = 10 then u else t | [] \<Rightarrow> []"
    have v: "utf8_valid a" "utf8_valid t" using less.prems s(2) by (simp_all add: s(1) utf8_valid_ascii_split)
    then have "utf8_valid ?t" by (cases t) (auto simp del: utf8_valid.simps(2))
    moreover have "length ?t < length s" by (cases t) (auto simp: s(1))
    ultimately have "utf8_valid (unix_newlines ?t)" using less.hyps by blast
    then show ?thesis
      using v(1) by (simp only: s(1) unix_newlines_cr [OF s(3,2)]) (simp add: utf8_valid_append byte_def del: utf8_valid.simps(2))
  next
    case False
    then show ?thesis using less.prems by (simp add: unix_newlines_same)
  qed
qed

lemma no_cr_unix_newlines: "13 \<notin> byte ` set (unix_newlines s)"
  by (auto simp: unix_newlines_def byte_def)

lemma set_join_newlines: "set (join_newlines s) \<subseteq> set s"
  by (induction s rule: join_newlines.induct) auto

lemma set_unix_newlines: "c \<in> set (unix_newlines s) \<Longrightarrow> c = CHR 0x0A \<or> c \<in> set s"
  using set_join_newlines [of s] by (auto simp: unix_newlines_def split: if_splits)

subsection \<open>Pages\<close>

lemma page_break_byte [simp]: "byte page_break = 12"
  by (simp add: page_break_def byte_def)

lemma trim_break: "trim_suffix s [page_break] = s \<or> s = trim_suffix s [page_break] @ [page_break]"
proof (cases "has_prefix (rev s) (rev [page_break])")
  case True
  then obtain t where "rev s = page_break # t" by (auto simp: has_prefix_iff)
  then have "s = rev t @ [page_break]" by (metis rev.simps(2) rev_rev_ident)
  then show ?thesis using True by (simp add: trim_suffix_def)
qed (simp add: trim_suffix_def)

lemma trim_break_valid: "utf8_valid s \<Longrightarrow> utf8_valid (trim_suffix s [page_break])"
  using trim_break [of s] utf8_valid_ascii_split [of page_break "trim_suffix s [page_break]" "[]"] by auto

lemma trim_break_set: "set (trim_suffix s [page_break]) \<subseteq> set s"
  using trim_break [of s] by (metis Un_upper1 order_refl set_append)

text \<open>The pages of an output that is valid text without NUL.\<close>

lemma canonical_pages:
  assumes "utf8_valid raw" and "CHR 0x00 \<notin> set raw"
    and p: "p \<in> set (split_at page_break (trim_suffix (unix_newlines raw) [page_break]))"
  shows "page_text p"
proof -
  let ?t = "trim_suffix (unix_newlines raw) [page_break]"
  have valid: "utf8_valid p"
    by (rule utf8_valid_split [OF _ trim_break_valid [OF valid_unix_newlines [OF assms(1)]] p]) simp
  have "c \<noteq> page_break" "c \<in> set (unix_newlines raw)" if "c \<in> set p" for c
    using that split_at_pieces [OF p] set_split_at [OF p] trim_break_set [of "unix_newlines raw"] by auto
  moreover have "c = page_break" if "byte c = 12" for c
    using that by (metis page_break_byte char_of_byte)
  moreover have "c = CHR 0x00" if "byte c = 0" for c
  proof -
    have "char_of (byte c) = (char_of (0 :: nat) :: char)" using that by (simp only:)
    moreover have "char_of (0 :: nat) = CHR 0x00" by code_simp
    ultimately show ?thesis by simp
  qed
  moreover have "CHR 0x00 \<notin> set (unix_newlines raw)" using set_unix_newlines [of "CHR 0x00" raw] assms(2) by auto
  ultimately have "\<forall>c \<in> set p. byte c \<notin> {13, 12, 0}" using no_cr_unix_newlines [of raw] by auto
  then show ?thesis using valid by (simp add: page_text_def list_all_iff)
qed

lemma visible_concat: "list_all utf8_valid ps \<Longrightarrow> visible_runes (concat ps) = sum_list (map visible_runes ps)"
  by (simp add: visible_runes_def [abs_def] runes_concat filter_concat length_concat comp_def)

lemma length_map_filter: "length (List.map_filter f xs) \<le> length xs"
  by (simp add: List.map_filter_def)

lemma warnings_bounded: "length (text_warnings pages images) \<le> length pages + 1"
  using length_map_filter [of "\<lambda>(i, p). if visible_runes p < 50 \<and> int i + 1 \<in> set (image_pages images (length pages))
       then Some (scan_warning (int i + 1)) else None" "enumerate 0 pages"]
  by (simp add: text_warnings_def)

lemma digit_ascii: "digit c \<Longrightarrow> byte c < 0x80"
  by (simp add: digit_def)

lemma show_int_ascii: "list_all (\<lambda>c. byte c < 0x80) (show_int i)"
  using digits_of_digit [of "nat i"] digits_of_digit [of "nat (- i)"]
  by (auto simp: show_int_def list_all_iff digit_ascii, simp add: byte_def)

lemma scan_warning_valid: "utf8_valid (scan_warning i)"
proof (rule utf8_valid_ascii)
  have "list_all (\<lambda>c. byte c < 0x80) ''page ''" "list_all (\<lambda>c. byte c < 0x80) '' may be scanned''" by code_simp+
  then show "list_all (\<lambda>c. byte c < 0x80) (scan_warning i)" using show_int_ascii by (simp only: scan_warning_def list_all_append)
qed

lemma warnings_valid: "list_all utf8_valid (text_warnings pages images)"
proof -
  have "utf8_valid ''not enough text''" by code_simp
  then show ?thesis
    by (auto simp: text_warnings_def list_all_iff List.map_filter_def scan_warning_valid simp del: utf8_valid.simps(2) split: if_splits)
qed

text \<open>What \<open>canonical_text\<close> establishes of its text.\<close>

lemma canonical_Inr:
  assumes "canonical_text digest raw images n = Inr t"
  shows "list_all page_text (txt_pages t)" "int (length (txt_pages t)) = n"
    and "join_with [page_break] (txt_pages t) = trim_suffix (unix_newlines raw) [page_break]"
    and "length (join_with [page_break] (txt_pages t)) \<le> MaxTextBytes"
    and "txt_text_sha t = digest (join_with [page_break] (txt_pages t))"
    and "txt_warnings t = text_warnings (txt_pages t) images"
    and "txt_status t = (if txt_warnings t = [] then ''ready'' else ''needs_attention'')"
  using assms canonical_pages [of raw]
  by (auto simp: canonical_text_def Let_def list_all_iff split: if_splits)

lemma ready_not_blank:
  assumes "canonical_text digest raw images n = Inr t" and "txt_warnings t = []"
  shows "\<not> blank (concat (txt_pages t))"
proof -
  have v: "list_all utf8_valid (txt_pages t)"
    using canonical_Inr(1) [OF assms(1)] by (auto simp: list_all_iff page_text_def)
  have "50 \<le> visible_runes (concat (txt_pages t))"
    using assms(2) canonical_Inr(6) [OF assms(1)] by (auto simp: text_warnings_def visible_concat [OF v] split: if_splits)
  then show ?thesis using visible_blank [of "concat (txt_pages t)"] by simp
qed

subsection \<open>Properties\<close>

text \<open>The hex form of a SHA-256.\<close>

definition hex_digest :: "(string \<Rightarrow> string) \<Rightarrow> bool" where
  "hex_digest digest \<longleftrightarrow> (\<forall>s. length (digest s) = 64 \<and> list_all lower_hex (digest s))"

text \<open>The tool lines of a successful extraction.\<close>

lemma extract_pages_Inr:
  assumes "extract_pages digest tool state pdf opts = Inr t"
  obtains raw err images n errs u where "tool [''pdftotext'', ''-layout'', ''-enc'', ''UTF-8'', pdf, ''-''] = Exited True raw err"
    "canonical_text digest raw images n = Inr u" "1 \<le> n" "n \<le> opt_pages opts" "t = with_diagnostics errs u"
proof -
  have exited: "p = Exited True (fst out) (snd out)" if "tool_output p = Inr out" for p out
    using that by (cases p) (auto simp: tool_output_def contextError_def andThen_eq_Inr split: if_splits go_error.splits)
  obtain info ierr n raw err images merr u where
    "page_total opts info = Inr n" and
    raw: "tool_output (tool [''pdftotext'', ''-layout'', ''-enc'', ''UTF-8'', pdf, ''-'']) = Inr (raw, err)" and
    u: "canonical_text digest raw images n = Inr u" "t = with_diagnostics [ierr, err, merr] u"
    using assms by (auto simp: extract_pages_def andThen_eq_Inr)
  moreover from this have "1 \<le> n" "n \<le> opt_pages opts" by (auto simp: page_total_def split: if_splits)
  ultimately show thesis using that exited [OF raw] u by simp
qed

lemma extractor_version_length: "extractor_version out = Inr v \<Longrightarrow> 1 \<le> length v \<and> length v \<le> 128"
  by (auto simp: extractor_version_def split: option.splits if_splits)

lemma with_diagnostics_simps [simp]:
  "txt_pages (with_diagnostics errs t) = txt_pages t" "txt_text_sha (with_diagnostics errs t) = txt_text_sha t"
  by (simp_all add: with_diagnostics_def)

lemma diagnostics_warning_valid: "utf8_valid diagnostics_warning"
  by code_simp

text \<open>C9. A text that the extractor returns passes the platform's check exactly when the version the
  tool reported is valid UTF-8, the one field that the extractor copies unchecked (its pattern
  \<open>[^\s]+\<close> also matches invalid bytes); every other condition of the check holds of what it returns.
  The text is filed under the checksum the caller asked for and loses nothing: its pages joined by page
  breaks are the output of the tool, with unix line ends and without the last page break. It is ready
  exactly when it has no warning.\<close>

theorem extracted_text_is_valid:
  assumes "run_extractor digest tool state pdf opts source = Inr x" and "xtr_text x = Some t"
    and "hex_digest digest"
  shows "(validText digest t \<longleftrightarrow> utf8_valid (xtr_version x)) \<and> txt_extractor t = xtr_version x
    \<and> txt_file_sha t = opt_sha opts \<and> (txt_status t = ''ready'' \<longleftrightarrow> txt_warnings t = [])
    \<and> (\<exists>raw err. tool [''pdftotext'', ''-layout'', ''-enc'', ''UTF-8'', pdf, ''-''] = Exited True raw err
        \<and> join_with [page_break] (txt_pages t) = trim_suffix (unix_newlines raw) [page_break])"
proof -
  obtain content out v u where src: "source = Inr content" "digest content = opt_sha opts"
    and v: "extractor_version out = Inr v" and pages: "opt_pages opts \<le> 100"
    and u: "extract_pages digest tool (state 2) pdf opts = Inr u"
    and x: "x = \<lparr>xtr_file_sha = digest content, xtr_version = v,
        xtr_text = Some (u\<lparr>txt_file_sha := digest content, txt_extractor := v\<rparr>)\<rparr>"
    using assms(1,2) by (auto simp: run_extractor_def pdf_snapshot_def andThen_eq_Inr MaxPages_def split: if_splits)
  obtain raw err images n errs c where raw: "tool [''pdftotext'', ''-layout'', ''-enc'', ''UTF-8'', pdf, ''-''] = Exited True raw err"
    and c: "canonical_text digest raw images n = Inr c" and n: "1 \<le> n" "n \<le> opt_pages opts" and ud: "u = with_diagnostics errs c"
    by (rule extract_pages_Inr [OF u])
  have t: "t = u\<lparr>txt_file_sha := digest content, txt_extractor := v\<rparr>" using assms(2) x by simp
  note facts = canonical_Inr [OF c]
  have count: "1 \<le> length (txt_pages c)" "length (txt_pages c) \<le> 100" using facts(2) n pages by linarith+
  have status: "contains [''ready'', ''needs_attention''] (txt_status u)" "txt_status u = ''needs_attention'' \<longleftrightarrow> txt_warnings u \<noteq> []"
      "txt_status u = ''ready'' \<longleftrightarrow> txt_warnings u = []"
    using facts(7) by (auto simp: ud with_diagnostics_def contains_def)
  have warnings: "length (txt_warnings u) \<le> 200" "list_all utf8_valid (txt_warnings u)"
    using warnings_bounded [of "txt_pages c" images] warnings_valid [of "txt_pages c" images] count(2) diagnostics_warning_valid
    by (auto simp: ud with_diagnostics_def facts(6) simp del: utf8_valid.simps)
  have filled: "\<not> blank (concat (txt_pages u))" if "txt_status u = ''ready''"
    using that ready_not_blank [OF c] facts(7) by (auto simp: ud with_diagnostics_def split: if_splits)
  have "validText digest t \<longleftrightarrow> utf8_valid (xtr_version x)"
    using assms(3) count status warnings filled facts extractor_version_length [OF v]
    by (auto simp: validText_def t x hex_digest_def ud simp del: utf8_valid.simps)
  then show ?thesis using raw facts(3) status(3) src(2) by (simp add: t ud x)
qed

definition demo_tool :: "string list \<Rightarrow> process" where
  "demo_tool args =
     (if hd args = ''pdfinfo'' then Exited True ''Pages: 1'' []
      else if args = [''pdftotext'', ''-v''] then Exited True [] ''pdftotext version 24.02''
      else if hd args = ''pdftotext'' then Exited True (replicate 60 (CHR ''x'') @ [CHR 0x0D, CHR 0x0A, page_break]) []
      else Exited True [] [])"

definition demo_extraction :: "go_error + extraction" where
  "demo_extraction = run_extractor (\<lambda>_. replicate 64 (CHR ''0'')) demo_tool (\<lambda>_. None) ''in.pdf''
     \<lparr> opt_sha = replicate 64 (CHR ''0''), opt_size = 3, opt_pages = 100, opt_inspect = False \<rparr> (Inr ''pdf'')"

theorem extracted_text_is_valid_witness:
  "\<exists>x t. demo_extraction = Inr x \<and> xtr_text x = Some t \<and> validText (\<lambda>_. replicate 64 (CHR ''0'')) t \<and> txt_status t = ''ready''"
proof -
  have ok: "(case demo_extraction of Inl _ \<Rightarrow> False | Inr x \<Rightarrow> (case xtr_text x of None \<Rightarrow> False
      | Some t \<Rightarrow> utf8_valid (xtr_version x) \<and> txt_status t = ''ready''))"
    by code_simp
  have hex: "hex_digest (\<lambda>_. replicate 64 (CHR ''0''))"
    by (simp add: hex_digest_def list_all_iff lower_hex_def digit_def byte_def)
  obtain x t where x: "demo_extraction = Inr x" "xtr_text x = Some t" "utf8_valid (xtr_version x)" "txt_status t = ''ready''"
    using ok by (auto split: sum.splits option.splits)
  show ?thesis
    using extracted_text_is_valid [OF x(1) [unfolded demo_extraction_def] x(2) hex] x by blast
qed

end
