(* ===== verification/AnalysisFacts.thy ===== *)
theory AnalysisFacts
  imports AnalysisCheck TextFacts
begin

text \<open>
  What the check of a kernel's answer guarantees: every quotation is on the page it names, the tags and
  matches are the ones that were asked for, and the answer belongs to the text that was sent.
\<close>

subsection \<open>Quotations\<close>

lemma norm_quote_append: "utf8_valid s \<Longrightarrow> norm_quote (s @ t) = norm_quote s @ norm_quote t"
  by (simp add: norm_quote_def runes_append)

lemma norm_quote_Nil [simp]: "norm_quote [] = []"
  by (simp add: norm_quote_def runes_def)

lemma norm_quote_concat: "list_all utf8_valid ps \<Longrightarrow> norm_quote (concat ps) = concat (map norm_quote ps)"
  by (induction ps) (simp_all add: norm_quote_append)

lemma norm_quote_newline: "norm_quote (CHR 0x0A # s) = norm_quote s"
proof -
  have "rune_size (CHR 0x0A # s) = Some 1" by (simp add: rune_size.simps byte_def)
  then have "segments (CHR 0x0A # s) = (10, [CHR 0x0A]) # segments s"
    by (simp add: byte_def)
  then show ?thesis by (simp add: norm_quote_def runes_def is_space_def)
qed

lemma norm_quote_join: "list_all utf8_valid ps \<Longrightarrow> norm_quote (join_with [CHR 0x0A] ps) = concat (map norm_quote ps)"
proof (induction ps)
  case Nil
  then show ?case by simp
next
  case (Cons p ps)
  then show ?case by (cases ps) (simp_all add: norm_quote_append norm_quote_newline)
qed

lemma norm_quote_lines:
  assumes "utf8_valid page"
  shows "norm_quote page = concat (map norm_quote (split_at (CHR 0x0A) page))"
proof -
  have "list_all utf8_valid (split_at (CHR 0x0A) page)"
    unfolding list_all_iff by (intro ballI utf8_valid_split [OF _ assms]) (simp_all add: byte_def)
  then show ?thesis using norm_quote_join [of "split_at (CHR 0x0A) page"] by simp
qed

text \<open>The lines of a page are the ones with its number.\<close>

lemma lines_of_page:
  "filter (\<lambda>l. fst l = p) (concat (map (\<lambda>(i, body). map (Pair (i + 1)) (f body)) (enumerate n pages))) =
     (if n < p \<and> p \<le> n + length pages then map (Pair p) (f (pages ! (p - n - 1))) else [])"
proof (induction pages arbitrary: n)
  case Nil
  then show ?case by auto
next
  case (Cons page pages)
  have "filter (\<lambda>l. fst l = p) (map (Pair (n + 1)) (f page)) = (if p = n + 1 then map (Pair p) (f page) else [])"
    by (auto simp: filter_map comp_def)
  then show ?case using Cons.IH [of "Suc n"] by (auto simp: nth_Cons' Suc_diff_le)
qed

definition quoted_on_page :: "string list \<Rightarrow> json \<Rightarrow> bool" where
  "quoted_on_page pages v \<longleftrightarrow> 8 \<le> rune_count (quote_of (obj v)) \<and>
     (\<exists>p. 1 \<le> p \<and> p \<le> length pages \<and> int p = num (fld (obj v) ''page'') \<and>
        (\<exists>a b. norm_quote (pages ! (p - 1)) = a @ quote_of (obj v) @ b))"

lemma verify_quoted:
  assumes v: "verify (source_lines pages) v" and pages: "list_all utf8_valid pages"
  shows "quoted_on_page pages v"
proof -
  let ?ls = "source_lines pages" and ?e = "obj v"
  let ?start = "nat (num (fld ?e ''start_line''))" and ?stop = "nat (num (fld ?e ''end_line''))"
  let ?cited = "cited_lines ?ls ?e"
  have range: "1 \<le> num (fld ?e ''start_line'')" "num (fld ?e ''start_line'') \<le> num (fld ?e ''end_line'')"
      "num (fld ?e ''end_line'') \<le> int (length ?ls)"
    and long: "8 \<le> rune_count (quote_of ?e)"
    and same: "\<forall>l \<in> set ?cited. int (fst l) = num (fld ?e ''page'')"
    and found: "contains_str (norm_quote (concat (map snd ?cited))) (quote_of ?e)"
    using v by (auto simp: verify_def Let_def list_all_iff)
  have "length ?cited = ?stop - (?start - 1)" using range by (simp add: cited_lines_def Let_def)
  then have "?cited \<noteq> []" using range by (auto simp: nat_le_iff)
  then obtain p body where pb: "(p, body) \<in> set ?cited" by (cases ?cited) auto
  have p: "int p = num (fld ?e ''page'')" using same pb by fastforce
  have tags: "fst l = p" if "l \<in> set ?cited" for l using same p that by fastforce
  obtain xs ys where split: "?ls = xs @ ?cited @ ys"
    unfolding cited_lines_def Let_def by (metis append_take_drop_id)
  let ?here = "\<lambda>l. fst l = p"
  have "filter ?here ?cited = ?cited" using tags by (simp add: filter_id_conv)
  then have block: "filter ?here ?ls = filter ?here xs @ ?cited @ filter ?here ys"
    by (subst split) simp
  have lines: "filter ?here ?ls = (if 0 < p \<and> p \<le> length pages then map (Pair p) (split_at (CHR 0x0A) (pages ! (p - 1))) else [])"
    using lines_of_page [of p "split_at (CHR 0x0A)" 0 pages] by (simp add: source_lines_def)
  have inside: "0 < p \<and> p \<le> length pages"
    using block lines \<open>?cited \<noteq> []\<close> by (auto split: if_splits)
  let ?page = "pages ! (p - 1)"
  have valid: "utf8_valid ?page" using pages inside by (auto simp: list_all_iff)
  have "map snd (filter ?here ?ls) = split_at (CHR 0x0A) ?page" using lines inside by (simp add: comp_def)
  then have pieces: "split_at (CHR 0x0A) ?page = map snd (filter ?here xs) @ map snd ?cited @ map snd (filter ?here ys)"
    unfolding block by simp
  have "list_all utf8_valid (split_at (CHR 0x0A) ?page)"
    unfolding list_all_iff by (intro ballI utf8_valid_split [OF _ valid]) (simp_all add: byte_def)
  then have cited: "list_all utf8_valid (map snd ?cited)" unfolding pieces by (simp only: list_all_append)
  obtain a b where ab: "concat (map norm_quote (map snd ?cited)) = a @ quote_of ?e @ b"
    using found by (auto simp: contains_str_iff norm_quote_concat [OF cited])
  have "norm_quote ?page = (concat (map norm_quote (map snd (filter ?here xs))) @ a) @ quote_of ?e @
      (b @ concat (map norm_quote (map snd (filter ?here ys))))"
    unfolding norm_quote_lines [OF valid] pieces using ab by simp
  then have "\<exists>a b. norm_quote ?page = a @ quote_of ?e @ b" by blast
  moreover have "1 \<le> p" "p \<le> length pages" using inside by simp_all
  ultimately show ?thesis unfolding quoted_on_page_def using long p by blast
qed

subsection \<open>Tags\<close>

lemma check_analysis_tag_Inr:
  "check_analysis_tag known ls v (seen, acc) = Inr st \<longleftrightarrow>
     str (fld (obj v) ''code'') \<in> set known - set seen \<and> evidence_ok ls (obj v) \<and>
     st = (str (fld (obj v) ''code'') # seen, acc @ [change_object settle_tag v])"
  by (auto simp: check_analysis_tag_def Let_def contains_def)

lemma tags_checked:
  assumes "foldE (check_analysis_tag known ls) vs (seen, acc) = Inr (t, tags)"
  shows "tags = acc @ map (change_object settle_tag) vs
    \<and> distinct (map (\<lambda>v. str (fld (obj v) ''code'')) vs)
    \<and> (\<forall>v \<in> set vs. str (fld (obj v) ''code'') \<in> set known - set seen \<and> evidence_ok ls (obj v))"
  using assms
proof (induction vs arbitrary: seen acc)
  case (Cons v vs)
  let ?code = "str (fld (obj v) ''code'')"
  have v: "?code \<in> set known - set seen" "evidence_ok ls (obj v)"
      "foldE (check_analysis_tag known ls) vs (?code # seen, acc @ [change_object settle_tag v]) = Inr (t, tags)"
    using Cons.prems by (auto simp: andThen_eq_Inr check_analysis_tag_Inr)
  show ?case using Cons.IH [OF v(3)] v(1,2) by auto
qed auto

lemma settle_tag_simps [simp]: "k \<noteq> ''status'' \<Longrightarrow> fld (settle_tag tag) k = fld tag k"
  by (simp add: settle_tag_def)

lemma obj_change_object: "obj (change_object settle_tag v) = (case v of JObj m \<Rightarrow> settle_tag m | _ \<Rightarrow> [])"
  by (cases v rule: json.exhaust) (simp_all add: change_object_def obj_def)

lemma settled_fld: "k \<noteq> ''status'' \<Longrightarrow> fld (obj (change_object settle_tag v)) k = fld (obj v) k"
  by (cases v rule: json.exhaust) (simp_all add: change_object_def obj_def)

subsection \<open>Matches\<close>

text \<open>The jobs of the matches, best first.\<close>

definition match_ref :: "json \<Rightarrow> string" where
  "match_ref v = str (fld (obj v) ''job_ref'')"

definition ranked :: "nat \<Rightarrow> json list \<Rightarrow> bool" where
  "ranked n ms \<longleftrightarrow> (\<forall>i < length ms. num (fld (obj (ms ! i)) ''rank'') = int (n + i) + 1
     \<and> \<bar>match_score (obj (ms ! i)) - json_float (fld (obj (ms ! i)) ''score'')\<bar> \<le> 11 / 100000)"

lemma ranked_Cons:
  "ranked n (v # vs) \<longleftrightarrow> num (fld (obj v) ''rank'') = int n + 1
     \<and> \<bar>match_score (obj v) - json_float (fld (obj v) ''score'')\<bar> \<le> 11 / 100000 \<and> ranked (Suc n) vs"
  by (auto simp: ranked_def less_Suc_eq_0_disj)

lemma matches_checked:
  assumes "foldE (check_match refs ls) (enumerate n vs) s = Inr t"
  shows "ms_seen t = rev (map match_ref vs) @ ms_seen s \<and> distinct (map match_ref vs)
    \<and> (\<forall>v \<in> set vs. match_ref v \<in> set refs - set (ms_seen s) \<and> evidence_ok ls (obj v))
    \<and> ranked n vs \<and> sorted_wrt (\<ge>) (map (\<lambda>v. match_score (obj v)) vs)
    \<and> (case ms_last s of None \<Rightarrow> True | Some (score, _) \<Rightarrow> \<forall>v \<in> set vs. match_score (obj v) \<le> score)"
  using assms
proof (induction vs arbitrary: n s)
  case Nil
  then show ?case by (auto simp: ranked_def split: option.splits)
next
  case (Cons v vs)
  let ?s = "\<lparr> ms_seen = match_ref v # ms_seen s, ms_last = Some (match_score (obj v), match_ref v) \<rparr>"
  have v: "match_ref v \<in> set refs - set (ms_seen s)" "evidence_ok ls (obj v)"
      "num (fld (obj v) ''rank'') = int n + 1" "\<bar>match_score (obj v) - json_float (fld (obj v) ''score'')\<bar> \<le> 11 / 100000"
      "score_in_order (match_score (obj v)) (match_ref v) s" "foldE (check_match refs ls) (enumerate (Suc n) vs) ?s = Inr t"
    using Cons.prems by (auto simp: andThen_eq_Inr check_match_def Let_def contains_def match_ref_def split: if_splits)
  show ?case using Cons.IH [OF v(6)] v(1-5)
    by (auto simp: ranked_Cons score_in_order_def split: option.splits prod.splits)
qed

lemma distinct_covers: "distinct xs \<Longrightarrow> set xs \<subseteq> set ys \<Longrightarrow> length xs = length ys \<Longrightarrow> set xs = set ys"
  by (metis List.card_set card_length card_seteq distinct_card finite_set)

subsection \<open>Properties\<close>

text \<open>What an accepted answer says of its text, task and jobs.\<close>

definition evidence_quoted :: "string list \<Rightarrow> object \<Rightarrow> bool" where
  "evidence_quoted pages m \<longleftrightarrow> (\<forall>e \<in> set (list_of (fld m ''evidence'')). quoted_on_page pages e)"

definition profile_tags :: "object \<Rightarrow> json list" where
  "profile_tags result = list_of (fld (obj (fld result ''profile'')) ''tags'')"

definition grounded_profile :: "string list \<Rightarrow> string list \<Rightarrow> object \<Rightarrow> bool" where
  "grounded_profile pages known result \<longleftrightarrow>
     (\<forall>v \<in> set (list_of (fld (obj (fld result ''profile'')) ''claims'')). evidence_quoted pages (obj v)) \<and>
     distinct (map (\<lambda>v. str (fld (obj v) ''code'')) (profile_tags result)) \<and>
     (\<forall>v \<in> set (profile_tags result). str (fld (obj v) ''code'') \<in> set known \<and> evidence_quoted pages (obj v)) \<and>
     (\<forall>m. JObj m \<in> set (profile_tags result) \<and> float_value (fld m ''confidence'') < 8 / 10 \<longrightarrow>
        fld m ''status'' = JStr ''needs_verification'')"

definition grounded_matches :: "string list \<Rightarrow> string list \<Rightarrow> object \<Rightarrow> bool" where
  "grounded_matches pages refs result \<longleftrightarrow>
     (let ms = list_of (fld result ''matches'') in
      distinct (map match_ref ms) \<and> match_ref ` set ms = set refs \<and> ranked 0 ms \<and>
      sorted_wrt (\<ge>) (map (\<lambda>v. match_score (obj v)) ms) \<and> (\<forall>v \<in> set ms. evidence_quoted pages (obj v)))"

lemma evidence_ok_quoted:
  "list_all utf8_valid pages \<Longrightarrow> evidence_ok (source_lines pages) m \<Longrightarrow> evidence_quoted pages m"
  by (auto simp: evidence_ok_def evidence_quoted_def list_all_iff intro: verify_quoted [unfolded list_all_iff])

lemma with_tags_fld: "k \<noteq> ''profile'' \<Longrightarrow> fld (with_tags tags result) k = fld result k"
  by (simp add: with_tags_def split: json.split)

lemma with_tags_profile: "k \<noteq> ''tags'' \<Longrightarrow> fld (obj (fld (with_tags tags result) ''profile'')) k = fld (obj (fld result ''profile'')) k"
  by (auto simp: with_tags_def obj_def split: json.splits)

lemma with_tags_tags:
  "tags = map f (profile_tags result) \<Longrightarrow> profile_tags (with_tags tags result) = tags"
  by (auto simp: profile_tags_def with_tags_def obj_def list_of_def split: json.splits)

lemma validateAnalysis_Inr:
  assumes ok: "validateAnalysis encode request result text refs = Inr r"
    and pages: "list_all utf8_valid (txt_pages text)" and refs: "distinct refs"
  shows "same_task encode request r \<and> str (fld (obj (fld r ''profile'')) ''source_text'') = join_with [page_break] (txt_pages text)
    \<and> str (fld (obj (fld r ''manifest'')) ''resume_checksum'') = txt_file_sha text
    \<and> grounded_profile (txt_pages text) (known_tags request) r \<and> grounded_matches (txt_pages text) refs r"
proof -
  let ?ls = "source_lines (txt_pages text)"
  obtain seen tags t where same: "same_task encode request result"
    and origin: "str (fld (obj (fld result ''manifest'')) ''resume_checksum'') = txt_file_sha text"
        "str (fld (obj (fld result ''profile'')) ''source_text'') = join_with [page_break] (txt_pages text)"
    and claims: "claims_ok ?ls (obj (fld result ''profile''))"
    and tags: "foldE (check_analysis_tag (known_tags request) ?ls) (profile_tags result) ([], []) = Inr (seen, tags)"
    and matches: "foldE (check_match refs ?ls) (match_indices (with_tags tags result)) \<lparr> ms_seen = [], ms_last = None \<rparr> = Inr t"
    and covers: "covers_refs (obj (fld result ''manifest'')) refs t" and r: "r = with_tags tags result"
    using ok by (auto simp: validateAnalysis_def Let_def andThen_eq_Inr profile_tags_def split: if_splits)
  have T: "tags = map (change_object settle_tag) (profile_tags result)"
      "distinct (map (\<lambda>v. str (fld (obj v) ''code'')) (profile_tags result))"
      "\<And>v. v \<in> set (profile_tags result) \<Longrightarrow> str (fld (obj v) ''code'') \<in> set (known_tags request) \<and> evidence_ok ?ls (obj v)"
    using tags_checked [OF tags] by auto
  have rt: "profile_tags r = map (change_object settle_tag) (profile_tags result)"
    unfolding r using with_tags_tags [OF T(1)] T(1) by simp
  have "same_task encode request r" using same by (simp add: same_task_def r with_tags_fld)
  moreover have "grounded_profile (txt_pages text) (known_tags request) r"
    unfolding grounded_profile_def rt
  proof (intro conjI ballI allI impI)
    fix v
    assume "v \<in> set (list_of (fld (obj (fld r ''profile'')) ''claims''))"
    then show "evidence_quoted (txt_pages text) (obj v)"
      using claims by (auto simp: r with_tags_profile claims_ok_def list_all_iff intro: evidence_ok_quoted [OF pages])
  next
    show "distinct (map (\<lambda>v. str (fld (obj v) ''code'')) (map (change_object settle_tag) (profile_tags result)))"
      using T(2) by (simp add: comp_def settled_fld)
  next
    fix v
    assume "v \<in> set (map (change_object settle_tag) (profile_tags result))"
    then obtain u where u: "u \<in> set (profile_tags result)" "v = change_object settle_tag u" by auto
    show "str (fld (obj v) ''code'') \<in> set (known_tags request)" using T(3) [OF u(1)] by (simp add: u(2) settled_fld)
    have "evidence_quoted (txt_pages text) (obj u)" using evidence_ok_quoted [OF pages] T(3) [OF u(1)] by blast
    then show "evidence_quoted (txt_pages text) (obj v)" by (simp add: u(2) evidence_quoted_def settled_fld)
  next
    fix m
    assume m: "JObj m \<in> set (map (change_object settle_tag) (profile_tags result)) \<and> float_value (fld m ''confidence'') < 8 / 10"
    then obtain u where "JObj m = change_object settle_tag u" by auto
    then obtain n where "m = settle_tag n" by (cases u rule: json.exhaust) (auto simp: change_object_def)
    then show "fld m ''status'' = JStr ''needs_verification''" using m by (auto simp: settle_tag_def)
  qed
  moreover have "grounded_matches (txt_pages text) refs r"
  proof -
    let ?ms = "list_of (fld r ''matches'')"
    have M: "ms_seen t = rev (map match_ref ?ms)" "distinct (map match_ref ?ms)" "ranked 0 ?ms"
        "\<And>v. v \<in> set ?ms \<Longrightarrow> match_ref v \<in> set refs \<and> evidence_ok ?ls (obj v)"
        "sorted_wrt (\<ge>) (map (\<lambda>v. match_score (obj v)) ?ms)"
      using matches_checked [OF matches [unfolded match_indices_def]] by (auto simp: r)
    have "length (map match_ref ?ms) = length refs" using covers M(1) by (simp add: covers_refs_def)
    then have "set (map match_ref ?ms) = set refs" using M(2,4) by (intro distinct_covers) auto
    then show ?thesis using M evidence_ok_quoted [OF pages] by (auto simp: grounded_matches_def Let_def)
  qed
  ultimately show ?thesis using origin by (simp add: r with_tags_fld with_tags_profile)
qed

lemma grounded_deterministic [simp]:
  "grounded_profile pages known (put ''deterministic'' v r) = grounded_profile pages known r"
  "grounded_matches pages refs (put ''deterministic'' v r) = grounded_matches pages refs r"
  by (simp_all add: grounded_profile_def grounded_matches_def profile_tags_def)

lemma same_task_deterministic [simp]: "same_task encode request (put ''deterministic'' v r) = same_task encode request r"
  by (simp add: same_task_def)

text \<open>A reused answer passed the same check.\<close>

lemma reuse_first_checked:
  "reuse_first env key frozen request text refs priors = Inr (Some r) \<Longrightarrow>
     \<exists>result checked. validateAnalysis (ae_encode env) request result text refs = Inr checked
       \<and> r = put ''deterministic'' (JObj (obj (fld frozen ''preflight''))) checked"
proof (induction priors)
  case (Cons p priors)
  then show ?case by (cases p) (auto simp: Let_def split: if_splits option.splits sum.splits)
qed simp

lemma frozen_standard_Inr:
  assumes "frozen_standard frozen = Inr u"
  shows "\<exists>code. string_values (fld (obj (fld frozen ''preflight'')) ''job_refs'') = [code]
    \<and> fld (obj (fld frozen ''preflight'')) ''standard_code'' = JStr code"
proof -
  let ?d = "obj (fld frozen ''preflight'')"
  have "length (string_values (fld ?d ''job_refs'')) = 1" "fld ?d ''standard_code'' = JStr (hd (string_values (fld ?d ''job_refs'')))"
    using assms by (auto simp: frozen_standard_def Let_def andThen_eq_Inr compare_values_Inr split: if_splits)
  then show ?thesis by (cases "string_values (fld ?d ''job_refs'')") auto
qed

lemma valid_pages: "validText digest t \<Longrightarrow> list_all utf8_valid (txt_pages t)"
  by (auto simp: validText_def page_text_def list_all_iff)

definition catalogue_tags :: "object \<Rightarrow> string list" where
  "catalogue_tags frozen = map (\<lambda>v. str (fld (obj v) ''code'')) (list_of (fld (obj (fld frozen ''snapshot'')) ''tag_catalog''))"

lemma known_tags_request: "known_tags (task_request env c revision item frozen text) = catalogue_tags frozen"
  by (simp add: known_tags_def task_request_def task_scope_def catalogue_tags_def obj_def Let_def)

text \<open>C8. Whatever assessment \<open>analyze\<close> accepts, whether the kernel has just produced it or an earlier one is
  reused, is grounded in the text that was extracted: it is filed under the task and the checksum of the file, it
  repeats the text, every quotation has at least eight characters and stands, up to white space, on the page it
  cites, its tags are known and not repeated with the unsure ones marked for verification, and its matches rank
  exactly the standard of the application with scores that follow from the dimensions.\<close>

theorem accepted_analysis_is_grounded:
  assumes "analyze env item frozen text db = Inr r" and "validText digest text"
  shows "\<exists>code c revision. fld (obj (fld frozen ''preflight'')) ''standard_code'' = JStr code
    \<and> same_task (ae_encode env) (task_request env c revision item frozen text) r
    \<and> str (fld (obj (fld r ''profile'')) ''source_text'') = join_with [page_break] (txt_pages text)
    \<and> str (fld (obj (fld r ''manifest'')) ''resume_checksum'') = txt_file_sha text
    \<and> grounded_profile (txt_pages text) (catalogue_tags frozen) r
    \<and> grounded_matches (txt_pages text) [code] r"
proof -
  let ?d = "obj (fld frozen ''preflight'')"
  let ?refs = "string_values (fld ?d ''job_refs'')"
  obtain c revision reused where ready: "frozen_standard frozen = Inr ()"
    and reused: "reusableAnalysis env item frozen (task_request env c revision item frozen text) text ?refs db = Inr reused"
    and r: "(case reused of Some r \<Rightarrow> Inr r | None \<Rightarrow> fresh_analysis env (task_request env c revision item frozen text) frozen text ?refs) = Inr r"
    using assms(1) by (auto simp: analyze_def Let_def andThen_eq_Inr split: if_splits)
  let ?request = "task_request env c revision item frozen text"
  obtain code where code: "?refs = [code]" "fld ?d ''standard_code'' = JStr code" using frozen_standard_Inr [OF ready] by blast
  have "\<exists>result checked. validateAnalysis (ae_encode env) ?request result text ?refs = Inr checked
      \<and> r = put ''deterministic'' (JObj ?d) checked"
  proof (cases reused)
    case None
    then show ?thesis using r by (auto simp: fresh_analysis_def andThen_eq_Inr)
  next
    case (Some q)
    then show ?thesis using r reuse_first_checked reused unfolding reusableAnalysis_def by fastforce
  qed
  then obtain result checked where v: "validateAnalysis (ae_encode env) ?request result text ?refs = Inr checked"
      "r = put ''deterministic'' (JObj ?d) checked" by blast
  have "distinct ?refs" using code(1) by simp
  from validateAnalysis_Inr [OF v(1) valid_pages [OF assms(2)] this] show ?thesis
    using code by (auto simp: v(2) known_tags_request)
qed

subsection \<open>An accepted answer\<close>

definition demo_text :: pdf_text where
  "demo_text = \<lparr> txt_file_sha = replicate 64 (CHR ''0''), txt_text_sha = ''h'', txt_extractor = ''x'',
     txt_pages = [''go for years'' @ [CHR 0x0A] @ ''and more''], txt_status = ''ready'', txt_warnings = [] \<rparr>"

definition demo_quote :: json where
  "demo_quote = JObj [(''page'', JNum 1), (''start_line'', JNum 1), (''end_line'', JNum 2), (''quote'', JStr ''years and more'')]"

definition demo_frozen :: object where
  "demo_frozen = [(''snapshot'', JObj [(''candidate'', JObj []), (''workflow'', JObj [(''revision'', JNum 1)]),
       (''volunteers'', JArr [JObj [(''ref'', JStr ''v''), (''entity'', JStr ''acme''), (''position_name'', JStr ''engineer'')]]),
       (''admission_rules'', JArr []), (''pool_policy'', JObj (sample_policy (JStr ''acme'') (JStr ''acme''))),
       (''jobs'', JArr []), (''tag_catalog'', JArr [JObj [(''code'', JStr ''go'')]])]),
     (''preflight'', JObj [(''status'', JStr ''ready''), (''standard_code'', JStr ''std''), (''pool_code'', JStr ''dev''),
       (''job_refs'', JArr [JStr ''std'']), (''current_volunteer_ref'', JStr ''v'')]),
     (''pin'', JObj [(''policy_version'', JStr ''application-pool-policy/v1'')]), (''task_id'', JStr ''t'')]"

definition demo_answer :: "json \<Rightarrow> json" where
  "demo_answer request = JObj (map (\<lambda>k. (k, fld (obj request) k))
       [''protocol_version'', ''task_id'', ''idempotency_key'', ''workflow_revision'', ''pin''] @
     [(''manifest'', JObj [(''terminal_state'', JStr ''DONE''), (''resume_checksum'', JStr (txt_file_sha demo_text)),
        (''covered_jobs'', JArr [JStr ''std''])]),
      (''profile'', JObj [(''source_text'', JStr (concat (txt_pages demo_text))),
        (''claims'', JArr [JObj [(''evidence'', JArr [demo_quote])]]),
        (''tags'', JArr [JObj [(''code'', JStr ''go''), (''status'', JStr ''supported''), (''confidence'', JNum (1 / 2)),
           (''evidence'', JArr [demo_quote])]])]),
      (''matches'', JArr [JObj [(''job_ref'', JStr ''std''), (''rank'', JNum 1), (''score'', JNum (3 / 10)),
         (''dimensions'', JObj [(''major_match'', JNum 1)]), (''evidence'', JArr [demo_quote])]])])"

definition demo_analysis_env :: analysis_env where
  "demo_analysis_env = \<lparr> ae_encode = str, ae_fingerprint = (\<lambda>_. ''f''),
     ae_config = (\<lambda>k. if k = ''ai_connection_test_fingerprint'' then Some (JStr ''rev'') else None),
     ae_connection = Inr ([], ''rev''), ae_request_ok = (\<lambda>_. True), ae_response_ok = (\<lambda>_. True),
     ae_execute = (\<lambda>request. Inr (200, Some (demo_answer request))), ae_skip_verify = False \<rparr>"

definition demo_item :: item_row where
  "demo_item = new_item 1 empty_db 2 \<lparr> cnd_id = 3, cnd_fields = [] \<rparr>"

definition demo_analysis :: "go_error + object" where
  "demo_analysis = analyze demo_analysis_env demo_item demo_frozen demo_text empty_db"

theorem accepted_analysis_is_grounded_witness:
  "\<exists>r. demo_analysis = Inr r \<and> grounded_profile (txt_pages demo_text) [''go''] r
     \<and> map (\<lambda>v. fld (obj v) ''status'') (profile_tags r) = [JStr ''needs_verification'']"
proof -
  have valid: "validText (\<lambda>_. ''h'') demo_text" by code_simp
  have "(case demo_analysis of Inl _ \<Rightarrow> False
     | Inr r \<Rightarrow> map (\<lambda>v. fld (obj v) ''status'') (profile_tags r) = [JStr ''needs_verification''])"
    by code_simp
  then obtain r where r: "demo_analysis = Inr r"
      "map (\<lambda>v. fld (obj v) ''status'') (profile_tags r) = [JStr ''needs_verification'']"
    by (auto split: sum.splits)
  have "catalogue_tags demo_frozen = [''go'']" by code_simp
  then show ?thesis using accepted_analysis_is_grounded [OF r(1) [unfolded demo_analysis_def] valid] r by auto
qed

end
