(* ===== verification/Store.thy ===== *)
theory Store
  imports GoValues
begin

text \<open>
  The generic tables of app.go and crud.go: the specification the program unmarshals from
  internal/compat/spec.json (models with their fields, resources with their serialised fields), the
  rows of every model as JSON objects, and the operations all handlers share: \<open>get\<close>, \<open>fieldFor\<close>,
  \<open>primaryColumn\<close>, \<open>save\<close> and the cascading \<open>deleteRow\<close>. What PostgreSQL decides by itself (the next
  identity value, a violated constraint or a value of the wrong type, a statement of a delete that
  fails) is a parameter, as is the order in which Go ranges over the map of models: \<open>deleteRow\<close> may see
  a different order in every call.
\<close>

subsection \<open>The specification\<close>

record spec_field =
  sf_name :: string
  sf_column :: string
  sf_type :: string
  sf_relation :: string
  sf_on_delete :: string
  sf_timestamp :: string
  sf_null :: bool
  sf_blank :: bool
  sf_primary :: bool
  sf_unique :: bool
  sf_max_length :: "nat option"
  sf_default :: json
  sf_choices :: "json list list"

record serial_field =
  ser_source :: string
  ser_type :: string
  ser_read_only :: bool
  ser_required :: bool
  ser_allow_null :: bool

record resource_spec =
  rs_table :: string
  rs_fields :: "(string \<times> serial_field) list"
  rs_permission :: json
  rs_by_action :: "(string \<times> json) list"
  rs_read_only :: bool

type_synonym models = "(string \<times> spec_field list) list"

record app_spec =
  sp_models :: models
  sp_resources :: "(string \<times> resource_spec) list"
  sp_permission_tree :: "object list"
  sp_role_permissions :: "(string \<times> string list) list"

type_synonym store = "string \<Rightarrow> object list"

definition model_fields :: "app_spec \<Rightarrow> string \<Rightarrow> spec_field list" where
  "model_fields spec table = (case map_of (sp_models spec) table of None \<Rightarrow> [] | Some fs \<Rightarrow> fs)"

definition primaryColumn :: "app_spec \<Rightarrow> string \<Rightarrow> string" where
  "primaryColumn spec table =
     (case find sf_primary (model_fields spec table) of Some f \<Rightarrow> sf_column f | None \<Rightarrow> ''id'')"

definition fieldFor :: "app_spec \<Rightarrow> string \<Rightarrow> string \<Rightarrow> spec_field option" where
  "fieldFor spec table name = find (\<lambda>f. name = sf_name f \<or> name = sf_column f) (model_fields spec table)"

subsection \<open>Reading\<close>

text \<open>\<open>column = $1\<close>: NULL equals nothing.\<close>

definition sql_eq :: "json \<Rightarrow> json \<Rightarrow> bool" where
  "sql_eq a b \<longleftrightarrow> a \<noteq> JNull \<and> a = b"

definition rows_where :: "store \<Rightarrow> string \<Rightarrow> string \<Rightarrow> json \<Rightarrow> object list" where
  "rows_where st table column v = filter (\<lambda>r. sql_eq (fld r column) v) (st table)"

definition one_row :: "object list \<Rightarrow> go_error + object" where
  "one_row found = (case found of [] \<Rightarrow> Inl not_found | r # _ \<Rightarrow> Inr r)"

definition get_row :: "app_spec \<Rightarrow> store \<Rightarrow> string \<Rightarrow> json \<Rightarrow> go_error + object" where
  "get_row spec st table i =
     (if map_of (sp_models spec) table = None then Inl (bad ''unknown table'')
      else one_row (rows_where st table (primaryColumn spec table) i))"

subsection \<open>Writing a row\<close>

text \<open>The statements of \<open>deleteRow\<close>: the query for the referring rows, the UPDATE and the DELETE.\<close>

datatype statement =
    SelectWhere string string json
  | SetNull string string json
  | DeleteFrom string string json

type_synonym faults = "statement \<Rightarrow> store \<Rightarrow> go_error option"

text \<open>
  The database: the identity of a new row, its verdict on a row to be stored (a unique, not-null,
  check or type violation), and the error of a statement that fails on the rows present, for example
  a foreign key of a table outside the specification that still refers to a deleted row
  (\<open>platform_pool_config_events.actor_id\<close> refers to \<open>accounts_user\<close>) or a lost connection.
\<close>

record store_env =
  se_spec :: app_spec
  se_now :: json
  se_fresh :: "store \<Rightarrow> string \<Rightarrow> int"
  se_reject :: "store \<Rightarrow> string \<Rightarrow> object \<Rightarrow> go_error option"
  se_order :: "string \<Rightarrow> json \<Rightarrow> models"
  se_fault :: faults

definition value_given :: "spec_field \<Rightarrow> object \<Rightarrow> json option" where
  "value_given f vs =
     (if has_key vs (sf_name f) then Some (fld vs (sf_name f))
      else if has_key vs (sf_column f) then Some (fld vs (sf_column f)) else None)"

definition text_type :: "spec_field \<Rightarrow> bool" where
  "text_type f \<longleftrightarrow> sf_type f \<in> {''CharField'', ''TextField'', ''EmailField''}"

definition value_absent :: "spec_field \<Rightarrow> json option" where
  "value_absent f = (if sf_default f \<noteq> JNull then Some (sf_default f)
     else if sf_null f then Some JNull else if text_type f then Some (JStr []) else None)"

definition integer_type :: "spec_field \<Rightarrow> bool" where
  "integer_type f \<longleftrightarrow> contains_str (sf_type f) ''Integer''"

definition stored_value :: "spec_field \<Rightarrow> json \<Rightarrow> json" where
  "stored_value f v =
     (let v = (if (sf_type f \<in> {''ForeignKey'', ''OneToOneField''} \<or> integer_type f) \<and> v \<noteq> JNull
               then JNum (of_int (num v)) else v)
      in if sf_type f = ''DateField'' \<and> v = JStr [] then JNull else v)"

definition column_setting :: "json \<Rightarrow> json \<Rightarrow> object \<Rightarrow> spec_field \<Rightarrow> json option" where
  "column_setting now i vs f =
     (let given = (if sf_timestamp f = ''update'' \<or> sf_timestamp f = ''create'' \<and> i = JNull
                   then Some now else value_given f vs)
      in case given of Some v \<Rightarrow> Some v | None \<Rightarrow> if i = JNull then value_absent f else None)"

fun column_settings :: "json \<Rightarrow> json \<Rightarrow> object \<Rightarrow> spec_field list \<Rightarrow> object" where
  "column_settings now i vs [] = []"
| "column_settings now i vs (f # fs) =
     (if sf_primary f then column_settings now i vs fs
      else case column_setting now i vs f of
        None \<Rightarrow> column_settings now i vs fs
      | Some v \<Rightarrow> (sf_column f, stored_value f v) # column_settings now i vs fs)"

definition store_row :: "store_env \<Rightarrow> string \<Rightarrow> object \<Rightarrow> (object list \<Rightarrow> object list) \<Rightarrow> store
    \<Rightarrow> go_error + object \<times> store" where
  "store_row env table row change st =
     (case se_reject env st table row of Some e \<Rightarrow> Inl e
      | None \<Rightarrow> Inr (row, st(table := change (st table))))"

definition insert_row :: "store_env \<Rightarrow> string \<Rightarrow> object \<Rightarrow> store \<Rightarrow> go_error + object \<times> store" where
  "insert_row env table sets st =
     (let row = (''id'', JNum (of_int (se_fresh env st table))) # sets
      in store_row env table row (\<lambda>rs. rs @ [row]) st)"

text \<open>The UPDATE names the column \<open>id\<close> whatever the primary key of the table is.\<close>

definition update_row :: "store_env \<Rightarrow> string \<Rightarrow> json \<Rightarrow> object \<Rightarrow> store \<Rightarrow> go_error + object \<times> store" where
  "update_row env table i sets st =
     andThen (one_row (rows_where st table ''id'' i)) (\<lambda>r.
       store_row env table (put_all sets r)
         (map (\<lambda>r. if sql_eq (fld r ''id'') i then put_all sets r else r)) st)"

definition saveRow :: "store_env \<Rightarrow> string \<Rightarrow> json \<Rightarrow> object \<Rightarrow> store \<Rightarrow> go_error + object \<times> store" where
  "saveRow env table i vs st =
     (if map_of (sp_models (se_spec env)) table = None then Inl (bad ''unknown table'')
      else let sets = column_settings (se_now env) i vs (model_fields (se_spec env) table) in
        if i = JNull then insert_row env table sets st
        else if sets = [] then andThen (get_row (se_spec env) st table i) (\<lambda>r. Inr (r, st))
        else update_row env table i sets st)"

subsection \<open>Deleting a row with what depends on it\<close>

text \<open>The fields of all models that refer to \<open>table\<close>, in the order the map of models is ranged over.\<close>

definition referring :: "models \<Rightarrow> string \<Rightarrow> (string \<times> spec_field) list" where
  "referring ms table =
     concat (map (\<lambda>(other, fs). map (Pair other) (filter (\<lambda>f. sf_relation f = table) fs)) ms)"

definition set_null :: "string \<Rightarrow> json \<Rightarrow> object list \<Rightarrow> object list" where
  "set_null column i rs = map (\<lambda>r. if sql_eq (fld r column) i then put column JNull r else r) rs"

definition remove_row :: "app_spec \<Rightarrow> string \<Rightarrow> json \<Rightarrow> store \<Rightarrow> store" where
  "remove_row spec table i st =
     st(table := filter (\<lambda>r. \<not> sql_eq (fld r (primaryColumn spec table)) i) (st table))"

definition row_key :: "string \<Rightarrow> json \<Rightarrow> string" where
  "row_key table i = table @ '':'' @ str i"

type_synonym deletion = "store \<times> string list"

text \<open>The result of a statement, or its error.\<close>

definition run_statement :: "faults \<Rightarrow> statement \<Rightarrow> store \<Rightarrow> 'a \<Rightarrow> go_error option + 'a" where
  "run_statement fault q st result = (case fault q st of Some e \<Rightarrow> Inl (Some e) | None \<Rightarrow> Inr result)"

text \<open>
  One referring field. The recursive call is a parameter; an error \<open>None\<close> stands for a recursion
  that was cut off.
\<close>

definition release :: "(string \<Rightarrow> json \<Rightarrow> deletion \<Rightarrow> go_error option + deletion) \<Rightarrow> faults \<Rightarrow> app_spec
    \<Rightarrow> json \<Rightarrow> string \<times> spec_field \<Rightarrow> deletion \<Rightarrow> go_error option + deletion" where
  "release delete fault spec i ref s =
     (let other = fst ref; f = snd ref in
      andThen (run_statement fault (SelectWhere other (sf_column f) i) (fst s)
          (rows_where (fst s) other (sf_column f) i)) (\<lambda>items.
      if items = [] then Inr s
      else if sf_on_delete f \<in> {''PROTECT'', ''RESTRICT''} then Inl (Some (bad ''row is referenced''))
      else if sf_on_delete f = ''SET_NULL''
        then run_statement fault (SetNull other (sf_column f) i) (fst s)
          ((fst s)(other := set_null (sf_column f) i (fst s other)), snd s)
      else foldE (\<lambda>item. delete other (fld item (primaryColumn spec other))) items s))"

primrec delete_row :: "nat \<Rightarrow> faults \<Rightarrow> (string \<Rightarrow> json \<Rightarrow> models) \<Rightarrow> app_spec
    \<Rightarrow> string \<Rightarrow> json \<Rightarrow> deletion \<Rightarrow> go_error option + deletion" where
  "delete_row 0 = (\<lambda>fault order spec table i s. Inl None)"
| "delete_row (Suc n) = (\<lambda>fault order spec table i s.
     if contains (snd s) (row_key table i) then Inr s
     else andThen (foldE (release (delete_row n fault order spec) fault spec i)
            (referring (order table i) table) (fst s, row_key table i # snd s))
          (\<lambda>s. run_statement fault (DeleteFrom table (primaryColumn spec table) i) (fst s)
            (remove_row spec table i (fst s), snd s)))"

text \<open>
  \<open>deleteRow(ctx, db, table, id, map[string]bool{})\<close>. Every nested call that does anything marks a
  row that was not marked, so the number of rows bounds the depth.
\<close>

definition row_total :: "app_spec \<Rightarrow> store \<Rightarrow> nat" where
  "row_total spec st = sum_list (map (\<lambda>(table, _). length (st table)) (sp_models spec))"

definition deleteRow :: "store_env \<Rightarrow> string \<Rightarrow> json \<Rightarrow> store \<Rightarrow> go_error + store" where
  "deleteRow env table i st =
     (case delete_row (row_total (se_spec env) st + 3) (se_fault env) (se_order env) (se_spec env) table i (st, []) of
        Inl None \<Rightarrow> Inl (OtherError ''recursion cut off'')
      | Inl (Some e) \<Rightarrow> Inl e
      | Inr s \<Rightarrow> Inr (fst s))"

end
