(* ===== verification/Grants.thy ===== *)
theory Grants
  imports Store Access
begin

text \<open>
  The account behind the grants of an employee (contact_grants.go, syncContactUser): one user for all
  contact rows of an employee number, its display pointer and role, and its membership in the
  groups of its active grants.
\<close>

definition user_table :: string where "user_table = ''accounts_user''"
definition contact_table :: string where "contact_table = ''core_contact''"

definition employee_of :: "object \<Rightarrow> json" where
  "employee_of c = JStr (str (fld c ''employee_no''))"

definition text_is :: "json \<Rightarrow> string \<Rightarrow> bool" where
  "text_is v s \<longleftrightarrow> v \<noteq> JNull \<and> str v = s"

text \<open>Users reached through the employee number, the e-mail or a contact of the employee, by id.\<close>

definition linked_users :: "store \<Rightarrow> string \<Rightarrow> string \<Rightarrow> object list" where
  "linked_users st employee email =
     sort_key (\<lambda>u. num (fld u ''id'')) (filter (\<lambda>u.
       text_is (fld u ''username'') employee \<or>
       fld u ''email'' \<noteq> JNull \<and> lower_text (str (fld u ''email'')) = email \<or>
       list_ex (\<lambda>c. text_is (fld c ''employee_no'') employee \<and> sql_eq (fld u ''contact_id'') (fld c ''id''))
         (st contact_table)) (st user_table))"

fun single_user :: "string \<Rightarrow> object list \<Rightarrow> object option \<Rightarrow> go_error + object option" where
  "single_user employee [] user = Inr user"
| "single_user employee (u # us) user =
     (if str (fld u ''username'') = ''012358'' then Inl (bad ''built-in administrator'')
      else if str (fld u ''username'') \<noteq> employee \<or> user \<noteq> None then Inl (bad ''employee and e-mail map to different accounts'')
      else single_user employee us (Some u))"

definition contactRole :: "string \<Rightarrow> string \<times> string" where
  "contactRole level =
     (if level = ''secondary_hr'' then (level, role_hr)
      else (level @ ''_contact'', if level = ''secondary'' then role_liaison
        else if level = ''tertiary'' then role_screener else []))"

definition live_grant :: "object \<Rightarrow> bool" where
  "live_grant g \<longleftrightarrow> truth (fld g ''is_active'') \<and> validContactLevel (str (fld g ''contact_level''))"

definition grant_role :: "object \<Rightarrow> string" where
  "grant_role g = fst (contactRole (str (fld g ''contact_level'')))"

definition grant_group :: "object \<Rightarrow> string" where
  "grant_group g = snd (contactRole (str (fld g ''contact_level'')))"

text \<open>The loop over the grants: the anchor, the role and the groups in order of their first grant.\<close>

fun weigh_grants :: "object list \<Rightarrow> object option \<times> string \<times> string list \<Rightarrow> object option \<times> string \<times> string list" where
  "weigh_grants [] acc = acc"
| "weigh_grants (g # gs) (anchor, role, groups) =
     (if \<not> live_grant g then weigh_grants gs (anchor, role, groups)
      else weigh_grants gs
        (if anchor = None then Some g else anchor,
         if anchor = None \<and> \<not> contains [''admin'', ''primary_hr'', ''hr''] role then grant_role g else role,
         if contains groups (grant_group g) then groups else groups @ [grant_group g]))"

text \<open>\<open>INSERT ... ON CONFLICT DO NOTHING\<close> into a table of pairs.\<close>

definition add_link :: "store_env \<Rightarrow> string \<Rightarrow> object \<Rightarrow> store \<Rightarrow> go_error + store" where
  "add_link env table columns st =
     (if list_ex (\<lambda>r. list_all (\<lambda>(k, v). fld r k = v) columns) (st table) then Inr st
      else andThen (insert_row env table columns st) (\<lambda>(_, st). Inr st))"

definition escape_code :: "string \<Rightarrow> string" where
  "escape_code code = concat (map (\<lambda>c. if c = CHR ''.'' then ''__'' else [c]) code)"

definition permission_ids :: "store \<Rightarrow> string \<Rightarrow> json list" where
  "permission_ids st code =
     map (\<lambda>p. fld p ''id'') (filter (\<lambda>p. text_is (fld p ''codename'') (escape_code code) \<and>
       list_ex (\<lambda>c. sql_eq (fld p ''content_type_id'') (fld c ''id'') \<and> text_is (fld c ''app_label'') ''accounts'')
         (st ''django_content_type'')) (st ''auth_permission''))"

definition grant_permission :: "store_env \<Rightarrow> json \<Rightarrow> string \<Rightarrow> store \<Rightarrow> go_error + store" where
  "grant_permission env g code st =
     foldE (\<lambda>p. add_link env ''auth_group_permissions'' [(''group_id'', g), (''permission_id'', p)])
       (permission_ids st code) st"

definition role_permissions :: "app_spec \<Rightarrow> string \<Rightarrow> string list" where
  "role_permissions spec name = (case map_of (sp_role_permissions spec) name of None \<Rightarrow> [] | Some cs \<Rightarrow> cs)"

text \<open>A group of a grant: created with its permissions when it is missing.\<close>

definition join_group :: "store_env \<Rightarrow> json \<Rightarrow> string \<Rightarrow> store \<Rightarrow> go_error + store" where
  "join_group env user name st =
     andThen (case rows_where st ''auth_group'' ''name'' (JStr name) of
         g # _ \<Rightarrow> Inr (g, st)
       | [] \<Rightarrow> andThen (saveRow env ''auth_group'' JNull [(''name'', JStr name)] st) (\<lambda>(g, st).
           andThen (foldE (grant_permission env (fld g ''id'')) (role_permissions (se_spec env) name) st) (\<lambda>st.
           Inr (g, st)))) (\<lambda>(g, st).
     add_link env ''accounts_user_groups'' [(''user_id'', user), (''group_id'', fld g ''id'')] st)"

text \<open>The memberships in the groups of grants are dropped before they are built again.\<close>

definition contact_groups :: "string list" where
  "contact_groups = [role_liaison, role_screener, role_hr]"

definition leave_groups :: "json \<Rightarrow> store \<Rightarrow> store" where
  "leave_groups user st = st(''accounts_user_groups'' := filter (\<lambda>l.
     \<not> (sql_eq (fld l ''user_id'') user \<and>
        list_ex (\<lambda>g. sql_eq (fld l ''group_id'') (fld g ''id'') \<and> contains contact_groups (str (fld g ''name'')))
          (st ''auth_group''))) (st ''accounts_user_groups''))"

definition share_person :: "string \<Rightarrow> string \<Rightarrow> object \<Rightarrow> store \<Rightarrow> store" where
  "share_person employee email c st = st(contact_table := map (\<lambda>r.
     if text_is (fld r ''employee_no'') employee
     then put_all [(''name'', fld c ''name''), (''email'', JStr email), (''name_pinyin'', fld c ''name_pinyin''),
       (''name_pinyin_initials'', fld c ''name_pinyin_initials'')] r else r) (st contact_table))"

definition grants_of :: "string \<Rightarrow> store \<Rightarrow> object list" where
  "grants_of employee st =
     sort_key (\<lambda>g. (\<not> truth (fld g ''is_active''), num (fld g ''id'')))
       (filter (\<lambda>g. text_is (fld g ''employee_no'') employee) (st contact_table))"

definition account_values :: "string \<Rightarrow> string \<Rightarrow> object option \<Rightarrow> object option \<Rightarrow> string \<Rightarrow> json \<Rightarrow> string \<Rightarrow> object" where
  "account_values employee email user anchor role now secret =
     [(''username'', JStr employee), (''email'', JStr email),
      (''contact_id'', case anchor of None \<Rightarrow> JNull | Some g \<Rightarrow> fld g ''id'')] @
     (if role \<noteq> [] then [(''role'', JStr role)] else []) @
     (if user = None then [(''date_joined'', now), (''password'', JStr (''!'' @ secret)), (''is_active'', JBool True)] else [])"

definition syncContactUser :: "store_env \<Rightarrow> string \<Rightarrow> object \<Rightarrow> store \<Rightarrow> go_error + store" where
  "syncContactUser env secret c st =
     (let employee = str (fld c ''employee_no''); email = lower_text (str (fld c ''email'')) in
      andThen (single_user employee (linked_users st employee email) None) (\<lambda>user.
      let st = share_person employee email c st; grants = grants_of employee st in
      if user = None \<and> grants = [] then Inr st
      else let row = (case user of None \<Rightarrow> [] | Some u \<Rightarrow> u);
             (anchor, role, groups) = weigh_grants grants (None, str (fld row ''role''), []) in
        andThen (saveRow env user_table (fld row ''id'')
            (account_values employee email user anchor role (se_now env) secret) st) (\<lambda>(saved, st).
        foldE (join_group env (fld saved ''id'')) groups (leave_groups (fld saved ''id'') st))))"

end
