(* ===== verification/Resources.thy ===== *)
theory Resources
  imports Grants PoolConfig
begin

text \<open>
  The generic create, update and delete of internal/platform/crud.go: \<open>writeResource\<close> with its
  coercions, field checks and the rules of each resource, \<open>syncRelations\<close>, \<open>deleteCandidate\<close> and
  \<open>deleteResource\<close>. A request works on the generic rows (\<open>site_rows\<close>) and, through \<open>syncJobPolicy\<close>
  and \<open>invalidateCandidateInputs\<close>, on the typed tables of Tables.thy (\<open>site_db\<close>), whose departments
  and catalogue are read from the generic rows. Hashing, pinyin and the parsing of mail addresses
  are parameters; the transaction makes an error leave no trace, so an error carries no state.
  The response body (serialize.go) and the school enrichment after the commit are not modelled.
\<close>

record write_env =
  we_store :: store_env
  we_syllables :: "string \<Rightarrow> string list"
  we_sha256 :: "string \<Rightarrow> string"
  we_address :: "string \<Rightarrow> string option"
  we_secret :: string
  we_fingerprint :: "json \<Rightarrow> string"
  we_instant :: instant

record site =
  site_rows :: store
  site_db :: db

abbreviation we_spec :: "write_env \<Rightarrow> app_spec" where
  "we_spec env \<equiv> se_spec (we_store env)"

subsection \<open>Persons\<close>

definition pinyinNames :: "(string \<Rightarrow> string list) \<Rightarrow> string \<Rightarrow> string \<times> string" where
  "pinyinNames syllables name = (concat (syllables name), concat (map (take 1) (syllables name)))"

definition normalizedPhone :: "string \<Rightarrow> string" where
  "normalizedPhone phone =
     (let digits = filter digit phone
      in if has_prefix digits ''86'' \<and> 11 < length digits then drop 2 digits else digits)"

text \<open>\<open>strings.Join(strings.Fields(name), "")\<close> drops the white space.\<close>

definition without_space :: "string \<Rightarrow> string" where
  "without_space s = concat (map snd (filter (\<lambda>p. \<not> is_space (fst p)) (segments s)))"

definition identity_hash :: "(string \<Rightarrow> string) \<Rightarrow> string \<Rightarrow> string \<Rightarrow> string" where
  "identity_hash sha256 name phone = sha256 (without_space name @ ''|'' @ normalizedPhone phone)"

subsection \<open>From the request to column values\<close>

definition take_value :: "(string \<times> serial_field) list \<Rightarrow> string \<times> json \<Rightarrow> object \<Rightarrow> object" where
  "take_value fs entry vs = (case map_of fs (fst entry) of
       None \<Rightarrow> vs
     | Some f \<Rightarrow> if ser_read_only f \<or> ser_source f = ''*'' then vs else put (ser_source f) (snd entry) vs)"

definition incoming :: "(string \<times> serial_field) list \<Rightarrow> object \<Rightarrow> object" where
  "incoming fs body = fold (take_value fs) body []"

definition lacks_required :: "(string \<times> serial_field) list \<Rightarrow> object \<Rightarrow> bool" where
  "lacks_required fs body \<longleftrightarrow>
     list_ex (\<lambda>(name, f). \<not> ser_read_only f \<and> ser_required f \<and> \<not> has_key body name) fs"

text \<open>\<open>strconv.ParseFloat\<close> on decimal notation, exactly; hexadecimal floats are not modelled.\<close>

definition split_mantissa :: "string \<Rightarrow> string \<times> string" where
  "split_mantissa s = (takeWhile (\<lambda>c. c \<noteq> CHR ''.'') s, drop 1 (dropWhile (\<lambda>c. c \<noteq> CHR ''.'') s))"

definition parse_mantissa :: "string \<Rightarrow> rat option" where
  "parse_mantissa s =
     (let (whole, part) = split_mantissa s in
      if whole @ part = [] \<or> \<not> list_all digit (whole @ part) then None
      else Some (of_int (digits_value (whole @ part)) / 10 ^ length part))"

definition parse_exponent :: "string \<Rightarrow> int option" where
  "parse_exponent s = (case s of [] \<Rightarrow> Some 0 | _ # ds \<Rightarrow> parse_int_syntax ds)"

definition parse_float :: "string \<Rightarrow> rat option" where
  "parse_float s =
     (let (neg, u) = (case s of c # t \<Rightarrow> if c = CHR ''-'' then (True, t) else if c = CHR ''+'' then (False, t) else (False, s)
          | [] \<Rightarrow> (False, s));
          m = takeWhile (\<lambda>c. c \<noteq> CHR ''e'' \<and> c \<noteq> CHR ''E'') u;
          e = dropWhile (\<lambda>c. c \<noteq> CHR ''e'' \<and> c \<noteq> CHR ''E'') u
      in case (parse_mantissa m, parse_exponent e) of
           (Some r, Some x) \<Rightarrow>
             let v = (if 0 \<le> x then r * 10 ^ nat x else r / 10 ^ nat (- x)) in Some (if neg then - v else v)
         | _ \<Rightarrow> None)"

text \<open>A JSON number prints and parses back to itself; a boolean, a list or a map is no number.\<close>

definition number_of :: "json \<Rightarrow> rat option" where
  "number_of v = (case v of JNum r \<Rightarrow> Some r | JStr s \<Rightarrow> parse_float s | _ \<Rightarrow> None)"

definition int64_of :: "json \<Rightarrow> int option" where
  "int64_of v = (case number_of v of
       None \<Rightarrow> None
     | Some r \<Rightarrow> if r = of_int \<lfloor>r\<rfloor> \<and> \<lfloor>r\<rfloor> < 2 ^ 63 \<and> - (2 ^ 63) \<le> \<lfloor>r\<rfloor> then Some \<lfloor>r\<rfloor> else None)"

definition bool_of :: "json \<Rightarrow> bool option" where
  "bool_of v = (case v of JBool b \<Rightarrow> Some b
     | _ \<Rightarrow> let s = lower_text (str v) in
         if s = ''true'' \<or> s = ''1'' then Some True else if s = ''false'' \<or> s = ''0'' then Some False else None)"

definition whole_number :: "spec_field \<Rightarrow> bool" where
  "whole_number f \<longleftrightarrow> integer_type f \<or> sf_relation f \<noteq> []"

definition coerce_value :: "spec_field \<Rightarrow> json \<Rightarrow> go_error + json" where
  "coerce_value f v =
     (if whole_number f then
        (case int64_of v of None \<Rightarrow> Inl (bad ''not an integer'') | Some n \<Rightarrow> Inr (JNum (of_int n)))
      else if sf_type f = ''BooleanField'' then
        (case bool_of v of None \<Rightarrow> Inl (bad ''not a boolean'') | Some b \<Rightarrow> Inr (JBool b))
      else if text_type f then
        (case v of JStr s \<Rightarrow> Inr (JStr s) | JNum r \<Rightarrow> Inr (JStr (str v)) | _ \<Rightarrow> Inl (bad ''not a text''))
      else Inr v)"

definition coerce_entry :: "app_spec \<Rightarrow> string \<Rightarrow> string \<times> json \<Rightarrow> object \<Rightarrow> go_error + object" where
  "coerce_entry spec table entry vs = (case fieldFor spec table (fst entry) of
       None \<Rightarrow> Inr vs
     | Some f \<Rightarrow> if snd entry = JNull then Inr vs
         else andThen (coerce_value f (snd entry)) (\<lambda>v. Inr (put (fst entry) v vs)))"

definition coerced :: "app_spec \<Rightarrow> string \<Rightarrow> object \<Rightarrow> go_error + object" where
  "coerced spec table vs = foldE (coerce_entry spec table) vs vs"

definition merge_entry :: "app_spec \<Rightarrow> string \<Rightarrow> string \<times> json \<Rightarrow> object \<Rightarrow> object" where
  "merge_entry spec table entry m = (case fieldFor spec table (fst entry) of
       None \<Rightarrow> m | Some f \<Rightarrow> put (sf_column f) (snd entry) m)"

definition merged_row :: "app_spec \<Rightarrow> string \<Rightarrow> object \<Rightarrow> object \<Rightarrow> object" where
  "merged_row spec table vs current = fold (merge_entry spec table) vs current"

definition choice_valid :: "spec_field \<Rightarrow> json \<Rightarrow> bool" where
  "choice_valid f v \<longleftrightarrow> sf_choices f = [] \<or> v = JNull \<or> str v = [] \<or>
     list_ex (\<lambda>c. str (hd c) = str v) (sf_choices f)"

definition text_valid :: "spec_field \<Rightarrow> json \<Rightarrow> bool" where
  "text_valid f v = (case v of
       JStr s \<Rightarrow> (case sf_max_length f of None \<Rightarrow> True | Some n \<Rightarrow> rune_count s \<le> n) \<and> (sf_blank f \<or> \<not> blank s)
     | _ \<Rightarrow> True)"

definition relation_valid :: "app_spec \<Rightarrow> store \<Rightarrow> spec_field \<Rightarrow> json \<Rightarrow> bool" where
  "relation_valid spec st f v \<longleftrightarrow> sf_relation f = [] \<or> v = JNull \<or>
     (case get_row spec st (sf_relation f) (JNum (of_int (num v))) of Inl _ \<Rightarrow> False | Inr _ \<Rightarrow> True)"

definition check_entry :: "app_spec \<Rightarrow> store \<Rightarrow> string \<Rightarrow> string \<times> json \<Rightarrow> unit \<Rightarrow> go_error + unit" where
  "check_entry spec st table entry u = (case fieldFor spec table (fst entry) of
       None \<Rightarrow> Inr ()
     | Some f \<Rightarrow>
         if snd entry = JNull \<and> \<not> sf_null f then Inl (bad ''field is not nullable'')
         else if \<not> text_valid f (snd entry) then Inl (bad ''text is empty or too long'')
         else if \<not> choice_valid f (snd entry) then Inl (bad ''unknown choice'')
         else if \<not> relation_valid spec st f (snd entry) then Inl (bad ''related row is missing'')
         else Inr ())"

subsection \<open>Rules of the resources\<close>

definition sql_ne :: "json \<Rightarrow> json \<Rightarrow> bool" where
  "sql_ne a b \<longleftrightarrow> a \<noteq> JNull \<and> b \<noteq> JNull \<and> a \<noteq> b"

definition has_email :: "string \<Rightarrow> object \<Rightarrow> bool" where
  "has_email email r \<longleftrightarrow> fld r ''email'' \<noteq> JNull \<and> lower_text (str (fld r ''email'')) = email"

definition email_taken :: "store \<Rightarrow> string \<Rightarrow> json \<Rightarrow> object \<Rightarrow> string \<Rightarrow> bool" where
  "email_taken st resource i merged email =
     (if resource = ''contacts'' then
        list_ex (\<lambda>c. has_email email c \<and> sql_ne (fld c ''employee_no'') (fld merged ''employee_no'')) (st contact_table) \<or>
        list_ex (\<lambda>u. has_email email u \<and> sql_ne (fld u ''username'') (fld merged ''employee_no'')) (st user_table)
      else
        list_ex (\<lambda>u. has_email email u \<and> (i = JNull \<or> sql_ne (fld u ''id'') i)) (st user_table) \<or>
        list_ex (\<lambda>c. has_email email c \<and> sql_ne (fld c ''employee_no'') (fld merged ''username'')) (st contact_table))"

definition check_email :: "write_env \<Rightarrow> store \<Rightarrow> string \<Rightarrow> json \<Rightarrow> object \<Rightarrow> object \<Rightarrow> go_error + object" where
  "check_email env st resource i merged vs =
     (if resource \<noteq> ''contacts'' \<and> resource \<noteq> ''users'' then Inr vs
      else let email = lower_text (trim_space (str (fld merged ''email''))) in
        if we_address env email \<noteq> Some email then Inl (bad ''not an e-mail address'')
        else if email_taken st resource i merged email then Inl (bad ''e-mail in use'')
        else Inr (put ''email'' (JStr email) vs))"

text \<open>Departments: two levels, the second below the first.\<close>

definition department_level :: "object \<Rightarrow> int" where
  "department_level merged = (let level = num (fld merged ''level'') in if level = 0 then 2 else level)"

definition department_used :: "app_spec \<Rightarrow> store \<Rightarrow> json \<Rightarrow> bool" where
  "department_used spec st i \<longleftrightarrow> list_ex (\<lambda>(table, fs).
     list_ex (\<lambda>f. sf_relation f = ''core_department'' \<and> rows_where st table (sf_column f) i \<noteq> []) fs) (sp_models spec)"

definition check_parent :: "app_spec \<Rightarrow> store \<Rightarrow> json \<Rightarrow> int \<Rightarrow> json \<Rightarrow> go_error + unit" where
  "check_parent spec st i level parent =
     (if level = 1 then ensure (parent = JNull) (bad ''a first-level department has no parent'')
      else case get_row spec st ''core_department'' parent of
        Inl e \<Rightarrow> Inl (bad ''the parent is not one level up'')
      | Inr p \<Rightarrow> if num (fld p ''level'') \<noteq> level - 1 then Inl (bad ''the parent is not one level up'')
          else ensure (\<not> (i \<noteq> JNull \<and> num parent = num i)) (bad ''cyclic departments''))"

definition check_department :: "app_spec \<Rightarrow> store \<Rightarrow> json \<Rightarrow> object \<Rightarrow> object \<Rightarrow> go_error + unit" where
  "check_department spec st i current merged =
     (let level = department_level merged; parent = fld merged ''parent_id'' in
      if level < 1 \<or> 2 < level then Inl (bad ''department level'')
      else andThen (check_parent spec st i level parent) (\<lambda>_.
        ensure (\<not> (i \<noteq> JNull \<and> (level \<noteq> num (fld current ''level'') \<or> num parent \<noteq> num (fld current ''parent_id'')) \<and>
            department_used spec st i)) (bad ''department is referenced'')))"

definition department_of :: "object \<Rightarrow> department_row" where
  "department_of r = \<lparr> dep_id = num (fld r ''id''), dep_name = str (fld r ''name''), dep_level = num (fld r ''level''),
     dep_parent = (if fld r ''parent_id'' = JNull then None else Some (num (fld r ''parent_id''))) \<rparr>"

definition job_department :: "app_spec \<Rightarrow> store \<Rightarrow> object \<Rightarrow> department_row option" where
  "job_department spec st merged = (case get_row spec st ''core_department'' (fld merged ''department_id'') of
       Inl e \<Rightarrow> None
     | Inr d \<Rightarrow> if isJobDepartment (dep_level (department_of d)) then Some (department_of d) else None)"

definition check_contact :: "app_spec \<Rightarrow> store \<Rightarrow> json \<Rightarrow> object \<Rightarrow> object \<Rightarrow> object \<Rightarrow> go_error + object" where
  "check_contact spec st i current merged vs =
     (if i \<noteq> JNull \<and> str (fld merged ''employee_no'') \<noteq> str (fld current ''employee_no'')
      then Inl (bad ''the employee number is the identity of the account'')
      else if str (fld merged ''employee_no'') = ''012358'' \<or> str (fld vs ''email'') = ''huyue2@ueascend.com''
      then Inl (bad ''built-in administrator'')
      else case job_department spec st merged of
        None \<Rightarrow> Inl (bad ''a contact needs a department'')
      | Some d \<Rightarrow>
          let given = str (fld merged ''contact_level''); level = (if given = [] then ''secondary'' else given);
              vs = put ''contact_level'' (JStr level) vs in
          if \<not> validContactLevel level then Inl (bad ''contact level'')
          else if \<not> contactRoleMatchesDepartment level d then Inl (bad ''the role does not fit the department'')
          else Inr (if level = ''tertiary'' then put ''can_delegate'' (JBool False) vs else vs))"

definition check_job :: "app_spec \<Rightarrow> store \<Rightarrow> object \<Rightarrow> go_error + unit" where
  "check_job spec st merged =
     (if job_department spec st merged = None then Inl (bad ''a demand needs a department'')
      else if blank (str (fld merged ''responsibilities'')) then Inl (bad ''responsibilities are empty'')
      else ensure (0 \<le> num (fld merged ''headcount'')) (bad ''negative headcount''))"

definition check_candidate :: "write_env \<Rightarrow> object \<Rightarrow> object \<Rightarrow> go_error + object" where
  "check_candidate env merged vs =
     (let phone = normalizedPhone (str (fld merged ''phone'')) in
      if phone = [] then Inl (bad ''phone is empty'')
      else Inr (put ''identity_hash'' (JStr (identity_hash (we_sha256 env) (str (fld merged ''name'')) phone))
             (put ''phone'' (JStr phone) vs)))"

definition check_tag_rule :: "json \<Rightarrow> object \<Rightarrow> object \<Rightarrow> go_error + unit" where
  "check_tag_rule i body merged =
     (if has_key merged ''is_active'' \<and> \<not> truth (fld merged ''is_active'') then Inr ()
      else foldE (\<lambda>degree u. let key = degree @ ''_degree_tag_ids'' in
        if has_key body key then ensure (list_of (fld body key) \<noteq> []) (bad ''an active rule needs a tag'')
        else ensure (i \<noteq> JNull) (bad ''an active rule needs tags for both degrees'')) [''first'', ''highest''] ())"

definition check_role :: "app_spec \<Rightarrow> object \<Rightarrow> object \<Rightarrow> go_error + unit" where
  "check_role spec current merged =
     ensure (\<not> (map_of (sp_role_permissions spec) (str (fld current ''name'')) \<noteq> None \<and>
         fld merged ''name'' \<noteq> fld current ''name'')) (bad ''built-in role'')"

definition keep :: "object \<Rightarrow> go_error + unit \<Rightarrow> go_error + object" where
  "keep vs r = andThen r (\<lambda>_. Inr vs)"

definition resource_rules :: "write_env \<Rightarrow> store \<Rightarrow> string \<Rightarrow> json \<Rightarrow> object \<Rightarrow> object \<Rightarrow> object \<Rightarrow> object \<Rightarrow> go_error + object" where
  "resource_rules env st resource i body current merged vs =
     (if resource = ''roles'' then keep vs (check_role (we_spec env) current merged)
      else if resource = ''departments'' then keep vs (check_department (we_spec env) st i current merged)
      else if resource = ''contacts'' then check_contact (we_spec env) st i current merged vs
      else if resource = ''jobs'' then keep vs (check_job (we_spec env) st merged)
      else if resource = ''candidates'' then check_candidate env merged vs
      else if resource = ''school-tag-rules'' then keep vs (check_tag_rule i body merged)
      else Inr vs)"

definition check_user :: "store \<Rightarrow> json \<Rightarrow> object \<Rightarrow> object \<Rightarrow> go_error + unit" where
  "check_user st i body current =
     (if has_key body ''password'' then Inl (bad ''accounts have no password'')
      else if str (fld current ''username'') = ''012358'' then Inl (bad ''built-in administrator'')
      else ensure (\<not> (i \<noteq> JNull \<and> has_key body ''username'' \<and> fld body ''username'' \<noteq> fld current ''username'' \<and>
          rows_where st contact_table ''employee_no'' (fld current ''username'') \<noteq> [])) (bad ''the account has grants''))"

definition with_pinyin :: "write_env \<Rightarrow> string \<Rightarrow> object \<Rightarrow> object" where
  "with_pinyin env table vs =
     (if has_key vs ''name'' \<and> fieldFor (we_spec env) table ''name_pinyin'' \<noteq> None
      then let p = pinyinNames (we_syllables env) (str (fld vs ''name''))
           in put ''name_pinyin_initials'' (JStr (snd p)) (put ''name_pinyin'' (JStr (fst p)) vs)
      else vs)"

definition with_secret :: "write_env \<Rightarrow> string \<Rightarrow> json \<Rightarrow> object \<Rightarrow> object" where
  "with_secret env resource i vs =
     (if resource = ''users'' then
        let vs = put ''password'' (JStr (''!'' @ we_secret env)) vs
        in if i = JNull then put ''date_joined'' (se_now (we_store env)) vs else vs
      else vs)"

text \<open>Everything \<open>writeResource\<close> decides before it saves: the values to save.\<close>

definition accepted_values :: "write_env \<Rightarrow> string \<Rightarrow> resource_spec \<Rightarrow> json \<Rightarrow> object \<Rightarrow> object \<Rightarrow> store \<Rightarrow> go_error + object" where
  "accepted_values env resource rs i body current st =
     (let spec = we_spec env; table = rs_table rs in
      andThen (if resource = ''users'' then check_user st i body current else Inr ()) (\<lambda>_.
      if i = JNull \<and> lacks_required (rs_fields rs) body then Inl (bad ''field is required'')
      else andThen (coerced spec table (incoming (rs_fields rs) body)) (\<lambda>vs.
        let merged = merged_row spec table vs current in
        andThen (foldE (check_entry spec st table) vs ()) (\<lambda>_.
        andThen (check_email env st resource i merged vs) (\<lambda>vs.
        andThen (resource_rules env st resource i body current merged vs) (\<lambda>vs.
        Inr (with_secret env resource i (with_pinyin env table vs))))))))"

subsection \<open>Relations of a saved row\<close>

definition delete_where :: "string \<Rightarrow> (object \<Rightarrow> bool) \<Rightarrow> store \<Rightarrow> store" where
  "delete_where table hit st = st(table := filter (\<lambda>r. \<not> hit r) (st table))"

definition save_into :: "store_env \<Rightarrow> string \<Rightarrow> object \<Rightarrow> store \<Rightarrow> go_error + store" where
  "save_into env table vs st = andThen (saveRow env table JNull vs st) (\<lambda>(_, st). Inr st)"

fun fresh_names :: "string list \<Rightarrow> json list \<Rightarrow> string list" where
  "fresh_names seen [] = []"
| "fresh_names seen (v # vs) =
     (let name = trim_space (str v) in
      if name \<noteq> [] \<and> \<not> contains seen name then name # fresh_names (name # seen) vs else fresh_names seen vs)"

definition sync_majors :: "store_env \<Rightarrow> json \<Rightarrow> object \<Rightarrow> store \<Rightarrow> go_error + store" where
  "sync_majors env i body st =
     (if \<not> has_key body ''major_names'' then Inr st
      else foldE (\<lambda>name. save_into env ''core_jobmajor'' [(''job'', i), (''major'', JStr name)])
        (fresh_names [] (list_of (fld body ''major_names'')))
        (delete_where ''core_jobmajor'' (\<lambda>r. sql_eq (fld r ''job_id'') i) st))"

definition sync_user :: "store_env \<Rightarrow> object \<Rightarrow> object \<Rightarrow> store \<Rightarrow> go_error + store" where
  "sync_user env saved body st =
     (let i = fld saved ''id'';
          st = st(contact_table := map (\<lambda>c. if sql_eq (fld c ''employee_no'') (fld saved ''username'')
            then put ''email'' (fld saved ''email'') c else c) (st contact_table)) in
      if \<not> has_key body ''role_ids'' then Inr st
      else foldE (\<lambda>g. add_link env ''accounts_user_groups'' [(''user_id'', i), (''group_id'', JNum (of_int (num g)))])
        (list_of (fld body ''role_ids'')) (delete_where ''accounts_user_groups'' (\<lambda>r. sql_eq (fld r ''user_id'') i) st))"

definition known_codes :: "app_spec \<Rightarrow> string list" where
  "known_codes spec = concat (map (\<lambda>m. map (\<lambda>p. str (fld (obj p) ''code'')) (list_of (fld m ''children''))) (sp_permission_tree spec))"

definition set_permission :: "store_env \<Rightarrow> object \<Rightarrow> json \<Rightarrow> store \<Rightarrow> go_error + store" where
  "set_permission env saved code st =
     (if \<not> contains (known_codes (se_spec env)) (str code) then Inl (bad ''unknown permission'')
      else if \<not> rolePermissionAllowed (role_permissions (se_spec env)) (str (fld saved ''name'')) (str code)
      then Inl (bad ''permission exceeds the role'')
      else grant_permission env (fld saved ''id'') (str code) st)"

definition sync_role :: "store_env \<Rightarrow> object \<Rightarrow> object \<Rightarrow> store \<Rightarrow> go_error + store" where
  "sync_role env saved body st =
     (if \<not> has_key body ''permission_codes'' then Inr st
      else foldE (set_permission env saved) (list_of (fld body ''permission_codes''))
        (delete_where ''auth_group_permissions'' (\<lambda>r. sql_eq (fld r ''group_id'') (fld saved ''id'')) st))"

definition sync_degree :: "store_env \<Rightarrow> json \<Rightarrow> object \<Rightarrow> string \<Rightarrow> store \<Rightarrow> go_error + store" where
  "sync_degree env i body degree st =
     (let key = degree @ ''_degree_tag_ids'' in
      if \<not> has_key body key then Inr st
      else foldE (\<lambda>t. save_into env ''core_schooltagruletag''
          [(''rule'', i), (''school_tag'', JNum (of_int (num t))), (''degree_type'', JStr degree)])
        (list_of (fld body key))
        (delete_where ''core_schooltagruletag'' (\<lambda>r. sql_eq (fld r ''rule_id'') i \<and> fld r ''degree_type'' = JStr degree) st))"

definition sync_educations :: "store_env \<Rightarrow> json \<Rightarrow> object \<Rightarrow> store \<Rightarrow> go_error + store" where
  "sync_educations env i body st =
     (if \<not> has_key body ''allowed_highest_educations'' then Inr st
      else foldE (\<lambda>v st. if \<not> contains [''associate'', ''bachelor'', ''master'', ''doctor''] (str v) then Inl (bad ''unknown education'')
          else save_into env ''core_schooltagruleeducation'' [(''rule'', i), (''education'', v)] st)
        (list_of (fld body ''allowed_highest_educations''))
        (delete_where ''core_schooltagruleeducation'' (\<lambda>r. sql_eq (fld r ''rule_id'') i) st))"

definition syncRelations :: "write_env \<Rightarrow> string \<Rightarrow> object \<Rightarrow> object \<Rightarrow> store \<Rightarrow> go_error + store" where
  "syncRelations env resource saved body st =
     (let se = we_store env; i = fld saved ''id'' in
      if resource = ''jobs'' then sync_majors se i body st
      else if resource = ''users'' then sync_user se saved body st
      else if resource = ''roles'' then sync_role se saved body st
      else if resource = ''school-tag-rules'' then
        andThen (foldE (sync_degree se i body) [''first'', ''highest''] st) (sync_educations se i body)
      else if resource = ''contacts'' then syncContactUser se (we_secret env) saved st
      else Inr st)"

subsection \<open>The typed tables\<close>

text \<open>What the configuration of the pools reads of the generic rows.\<close>

definition catalog_of :: "store \<Rightarrow> catalog" where
  "catalog_of st = \<lparr> cat_schools = st ''core_school'', cat_tags = st ''core_schooltag'', cat_jobs = st ''core_job'',
     cat_majors = st ''core_jobmajor'', cat_rules = st ''core_schooltagrule'', cat_rule_tags = st ''core_schooltagruletag'',
     cat_rule_educations = st ''core_schooltagruleeducation'' \<rparr>"

definition read_rows :: "store \<Rightarrow> db \<Rightarrow> db" where
  "read_rows st db = db\<lparr>db_departments := map department_of (st ''core_department''), db_catalog := catalog_of st\<rparr>"

definition after_save :: "write_env \<Rightarrow> string \<Rightarrow> principal \<Rightarrow> object \<Rightarrow> object \<Rightarrow> store \<Rightarrow> db \<Rightarrow> go_error + db" where
  "after_save env resource p current saved st db =
     (let db = read_rows st db in
      if resource = ''candidates'' \<and> fld current ''id'' \<noteq> JNull
      then invalidateCandidateInputs (we_fingerprint env) (we_instant env) (Some p) (num (fld saved ''id'')) current saved db
      else Inr db)"

definition sync_jobs :: "write_env \<Rightarrow> string \<Rightarrow> principal \<Rightarrow> store \<Rightarrow> db \<Rightarrow> db" where
  "sync_jobs env resource p st db =
     (if resource = ''jobs'' then syncJobPolicy (we_fingerprint env) p (read_rows st db) else read_rows st db)"

subsection \<open>Create and update\<close>

definition current_row :: "app_spec \<Rightarrow> store \<Rightarrow> string \<Rightarrow> json \<Rightarrow> go_error + object" where
  "current_row spec st table i = (if i = JNull then Inr [] else get_row spec st table i)"

definition writeResource :: "write_env \<Rightarrow> string \<Rightarrow> json \<Rightarrow> object \<Rightarrow> principal \<Rightarrow> site \<Rightarrow> go_error + (nat \<times> object) \<times> site" where
  "writeResource env resource i body p site =
     (case map_of (sp_resources (we_spec env)) resource of
        None \<Rightarrow> Inl (bad ''unknown table'')
      | Some rs \<Rightarrow>
          let st = site_rows site; table = rs_table rs in
          andThen (current_row (we_spec env) st table i) (\<lambda>current.
          andThen (accepted_values env resource rs i body current st) (\<lambda>vs.
          andThen (saveRow (we_store env) table i vs st) (\<lambda>(saved, st).
          andThen (after_save env resource p current saved st (site_db site)) (\<lambda>db.
          andThen (syncRelations env resource saved body st) (\<lambda>st.
          Inr ((if i = JNull then 201 else 200, saved),
               \<lparr> site_rows = st, site_db = sync_jobs env resource p st db \<rparr>)))))))"

subsection \<open>Delete\<close>

definition lock_workflow :: "store_env \<Rightarrow> json \<Rightarrow> store \<Rightarrow> go_error + store" where
  "lock_workflow env i st =
     andThen (one_row (rows_where st ''core_candidate'' ''id'' i)) (\<lambda>_.
       case rows_where st ''core_candidateworkflow'' ''candidate_id'' i of
         [] \<Rightarrow> save_into env ''core_candidateworkflow'' [(''candidate_id'', i)] st
       | _ \<Rightarrow> Inr st)"

definition joined :: "store \<Rightarrow> string \<Rightarrow> string \<Rightarrow> string \<Rightarrow> json \<Rightarrow> bool" where
  "joined st table column parent i \<longleftrightarrow> list_ex (\<lambda>r. list_ex (\<lambda>q. sql_eq (fld r column) (fld q ''id'') \<and>
     sql_eq (fld q ''candidate_id'') i) (st parent)) (st table)"

definition candidate_protected :: "store \<Rightarrow> json \<Rightarrow> bool" where
  "candidate_protected st i \<longleftrightarrow>
     joined st ''core_assignmentattempt'' ''workflow_id'' ''core_candidateworkflow'' i \<or>
     joined st ''core_agentdispatchdecision'' ''resume_id'' ''core_resume'' i \<or>
     list_ex (\<lambda>r. sql_eq (fld r ''candidate_id'') i \<and>
       contains [''pending'', ''queued'', ''processing'', ''waiting_conflict''] (str (fld r ''status'')))
       (st ''core_processingrunscopeitem'')"

definition deleteCandidate :: "store_env \<Rightarrow> json \<Rightarrow> store \<Rightarrow> go_error + store" where
  "deleteCandidate env i st =
     andThen (lock_workflow env i st) (\<lambda>st.
       if candidate_protected st i then Inl (ApiError 409 ''candidate is protected'')
       else deleteRow env ''core_candidate'' i st)"

definition delete_grants :: "store_env \<Rightarrow> object \<Rightarrow> json \<Rightarrow> store \<Rightarrow> go_error + store" where
  "delete_grants env row i st =
     (let grants = filter (\<lambda>c. sql_eq (fld c ''employee_no'') (fld row ''username'') \<or> sql_eq (fld c ''id'') (fld row ''contact_id''))
            (st contact_table);
          st = st(user_table := map (\<lambda>u. if sql_eq (fld u ''id'') i then put ''contact_id'' JNull u else u) (st user_table))
      in foldE (\<lambda>g. deleteRow env contact_table (fld g ''id'')) grants st)"

definition delete_other :: "write_env \<Rightarrow> string \<Rightarrow> string \<Rightarrow> json \<Rightarrow> object \<Rightarrow> store \<Rightarrow> go_error + store" where
  "delete_other env resource table i row st =
     (if resource = ''users'' \<and> str (fld row ''username'') = ''012358'' then Inl (bad ''built-in administrator'')
      else andThen (if resource = ''users'' then delete_grants (we_store env) row i st else Inr st) (\<lambda>st.
        andThen (deleteRow (we_store env) table i st) (\<lambda>st.
        if resource = ''contacts'' then syncContactUser (we_store env) (we_secret env) row st else Inr st)))"

definition deleteResource :: "write_env \<Rightarrow> string \<Rightarrow> json \<Rightarrow> principal \<Rightarrow> site \<Rightarrow> go_error + nat \<times> site" where
  "deleteResource env resource i p site =
     (case map_of (sp_resources (we_spec env)) resource of
        None \<Rightarrow> Inl (bad ''unknown table'')
      | Some rs \<Rightarrow>
          let st = site_rows site; table = rs_table rs in
          andThen (get_row (we_spec env) st table i) (\<lambda>row.
          andThen (if resource = ''jobs'' then
              andThen (saveRow (we_store env) table i [(''is_active'', JBool False)] st) (\<lambda>(_, st). Inr st)
            else if resource = ''candidates'' then deleteCandidate (we_store env) i st
            else delete_other env resource table i row st) (\<lambda>st.
          Inr (204, \<lparr> site_rows = st, site_db = sync_jobs env resource p st (site_db site) \<rparr>))))"

end
