(* ===== verification/StoreFacts.thy ===== *)
theory StoreFacts
  imports Store
begin

text \<open>
  What a cascading delete guarantees: it always ends, it deletes the row, it leaves no foreign key
  behind that points to a deleted row, and it only removes rows or empties references.
\<close>

subsection \<open>The shape of the specification and of the rows\<close>

definition tables :: "app_spec \<Rightarrow> string set" where
  "tables spec = fst ` set (sp_models spec)"

definition is_ref :: "app_spec \<Rightarrow> string \<Rightarrow> spec_field \<Rightarrow> string \<Rightarrow> bool" where
  "is_ref spec other f table \<longleftrightarrow>
     f \<in> set (model_fields spec other) \<and> sf_relation f = table \<and> other \<in> tables spec \<and> table \<in> tables spec"

text \<open>Table names are unique and hold no colon; a reference is not the primary key of its table.\<close>

definition sound_spec :: "app_spec \<Rightarrow> bool" where
  "sound_spec spec \<longleftrightarrow> distinct (map fst (sp_models spec)) \<and>
     list_all (\<lambda>(other, fs). CHR '':'' \<notin> set other \<and>
       list_all (\<lambda>f. sf_relation f \<in> tables spec \<longrightarrow> sf_column f \<noteq> primaryColumn spec other) fs)
       (sp_models spec)"

definition orders_of :: "app_spec \<Rightarrow> (string \<Rightarrow> json \<Rightarrow> models) \<Rightarrow> bool" where
  "orders_of spec order \<longleftrightarrow> (\<forall>table i. set (order table i) = set (sp_models spec))"

definition pk_of :: "app_spec \<Rightarrow> string \<Rightarrow> object \<Rightarrow> json" where
  "pk_of spec table r = fld r (primaryColumn spec table)"

text \<open>The identities in the store: primary keys and the values of references.\<close>

definition identities :: "app_spec \<Rightarrow> store \<Rightarrow> json set" where
  "identities spec st =
     {v. \<exists>other \<in> tables spec. \<exists>r \<in> set (st other). v = pk_of spec other r \<or>
        (\<exists>f table. is_ref spec other f table \<and> v = fld r (sf_column f) \<and> v \<noteq> JNull)}"

text \<open>Referential integrity.\<close>

definition references_hold :: "app_spec \<Rightarrow> store \<Rightarrow> bool" where
  "references_hold spec st \<longleftrightarrow>
     (\<forall>other f table r. is_ref spec other f table \<longrightarrow> r \<in> set (st other) \<longrightarrow> fld r (sf_column f) \<noteq> JNull \<longrightarrow>
        (\<exists>x \<in> set (st table). pk_of spec table x = fld r (sf_column f)))"

lemma model_fields_mem:
  assumes "sound_spec spec" and "(other, fs) \<in> set (sp_models spec)"
  shows "model_fields spec other = fs"
  using assms by (simp add: sound_spec_def model_fields_def)

lemma tables_mem: "(other, fs) \<in> set (sp_models spec) \<Longrightarrow> other \<in> tables spec"
  by (force simp: tables_def)

lemma ref_not_primary:
  assumes "sound_spec spec" and "is_ref spec other f table"
  shows "sf_column f \<noteq> primaryColumn spec other"
proof -
  from assms(2) obtain fs where m: "(other, fs) \<in> set (sp_models spec)"
    by (auto simp: is_ref_def tables_def)
  then have "f \<in> set fs" using assms by (simp add: is_ref_def model_fields_mem)
  then show ?thesis using assms m by (fastforce simp: sound_spec_def is_ref_def list_all_iff)
qed

lemma table_no_colon:
  assumes "sound_spec spec" and "table \<in> tables spec"
  shows "CHR '':'' \<notin> set table"
  using assms by (fastforce simp: sound_spec_def tables_def list_all_iff)

lemma referring_is_ref:
  assumes "sound_spec spec" and "orders_of spec order" and "table \<in> tables spec"
  shows "(other, f) \<in> set (referring (order table i) table) \<longleftrightarrow> is_ref spec other f table"
proof -
  have "(other, f) \<in> set (referring (order table i) table) \<longleftrightarrow>
      (\<exists>fs. (other, fs) \<in> set (sp_models spec) \<and> f \<in> set fs \<and> sf_relation f = table)"
    using assms(2) by (auto simp: referring_def orders_of_def image_iff)
  also have "\<dots> \<longleftrightarrow> is_ref spec other f table"
  proof
    assume "\<exists>fs. (other, fs) \<in> set (sp_models spec) \<and> f \<in> set fs \<and> sf_relation f = table"
    then show "is_ref spec other f table"
      using assms(3) model_fields_mem [OF assms(1)] by (auto simp: is_ref_def intro: tables_mem)
  next
    assume r: "is_ref spec other f table"
    then obtain fs where "(other, fs) \<in> set (sp_models spec)" by (auto simp: is_ref_def tables_def)
    then show "\<exists>fs. (other, fs) \<in> set (sp_models spec) \<and> f \<in> set fs \<and> sf_relation f = table"
      using r model_fields_mem [OF assms(1)] by (auto simp: is_ref_def)
  qed
  finally show ?thesis .
qed

lemma append_colon_eq:
  assumes "a @ CHR '':'' # x = b @ CHR '':'' # y" and "CHR '':'' \<notin> set a" and "CHR '':'' \<notin> set b"
  shows "a = b \<and> x = y"
  using assms
proof (induction a arbitrary: b)
  case Nil
  then show ?case by (cases b) auto
next
  case (Cons c a)
  then show ?case by (cases b) auto
qed

lemma row_key_eq:
  assumes "sound_spec spec" and "table \<in> tables spec" and "other \<in> tables spec"
    and "row_key table i = row_key other j" and "inj_on str A" and "i \<in> A" and "j \<in> A"
  shows "table = other \<and> i = j"
proof -
  have "table = other \<and> str i = str j"
    using assms(4) append_colon_eq [of table "str i" other "str j"]
      table_no_colon [OF assms(1,2)] table_no_colon [OF assms(1,3)] by (simp add: row_key_def)
  then show ?thesis using assms(5-7) by (auto dest: inj_onD)
qed

subsection \<open>What every step of a deletion leaves alone\<close>

definition shrinks :: "app_spec \<Rightarrow> store \<Rightarrow> store \<Rightarrow> bool" where
  "shrinks spec st st' \<longleftrightarrow> (\<forall>other \<in> tables spec. \<forall>r' \<in> set (st' other). \<exists>r \<in> set (st other).
     pk_of spec other r' = pk_of spec other r \<and>
     (\<forall>column. fld r' column = fld r column \<or> fld r' column = JNull))"

definition progress :: "app_spec \<Rightarrow> deletion \<Rightarrow> deletion \<Rightarrow> bool" where
  "progress spec s s' \<longleftrightarrow> shrinks spec (fst s) (fst s') \<and> set (snd s) \<subseteq> set (snd s') \<and>
     (\<forall>other \<in> tables spec. \<forall>r \<in> set (fst s other). row_key other (pk_of spec other r) \<notin> set (snd s') \<longrightarrow>
        (\<exists>r' \<in> set (fst s' other). pk_of spec other r' = pk_of spec other r))"

lemma shrinks_refl: "shrinks spec st st"
  unfolding shrinks_def by blast

lemma shrinks_trans:
  assumes "shrinks spec a b" and "shrinks spec b c"
  shows "shrinks spec a c"
  unfolding shrinks_def
proof (intro ballI)
  fix other r' assume o: "other \<in> tables spec" "r' \<in> set (c other)"
  then obtain r where r: "r \<in> set (b other)" "pk_of spec other r' = pk_of spec other r"
    "\<forall>column. fld r' column = fld r column \<or> fld r' column = JNull"
    using assms(2) unfolding shrinks_def by blast
  then obtain q where "q \<in> set (a other)" "pk_of spec other r = pk_of spec other q"
    "\<forall>column. fld r column = fld q column \<or> fld r column = JNull"
    using assms(1) o(1) unfolding shrinks_def by blast
  then show "\<exists>q \<in> set (a other). pk_of spec other r' = pk_of spec other q \<and>
      (\<forall>column. fld r' column = fld q column \<or> fld r' column = JNull)"
    using r by metis
qed

lemma progress_refl: "progress spec s s"
  by (auto simp: progress_def shrinks_refl)

lemma progress_kept:
  assumes "progress spec s s'" and "other \<in> tables spec" and "r \<in> set (fst s other)"
    and "row_key other (pk_of spec other r) \<notin> set (snd s')"
  shows "\<exists>r' \<in> set (fst s' other). pk_of spec other r' = pk_of spec other r"
  using assms unfolding progress_def by blast

lemma progress_trans:
  assumes "progress spec a b" and "progress spec b c"
  shows "progress spec a c"
proof -
  have "\<exists>r' \<in> set (fst c other). pk_of spec other r' = pk_of spec other r"
    if "other \<in> tables spec" "r \<in> set (fst a other)" "row_key other (pk_of spec other r) \<notin> set (snd c)"
    for other r
  proof -
    note h = that
    have "row_key other (pk_of spec other r) \<notin> set (snd b)" using that assms(2) by (auto simp: progress_def)
    then obtain q where q: "q \<in> set (fst b other)" "pk_of spec other q = pk_of spec other r"
      using progress_kept [OF assms(1) h(1,2)] by blast
    then have "\<exists>r' \<in> set (fst c other). pk_of spec other r' = pk_of spec other q"
      using progress_kept [OF assms(2), of other q] that by simp
    with q(2) show ?thesis by simp
  qed
  then show ?thesis
    using assms shrinks_trans [of spec "fst a" "fst b" "fst c"] by (auto simp: progress_def)
qed

lemma progress_set_null:
  assumes "sf_column f \<noteq> primaryColumn spec other"
  shows "progress spec s ((fst s)(other := set_null (sf_column f) i (fst s other)), snd s)"
proof -
  let ?g = "\<lambda>r. if sql_eq (fld r (sf_column f)) i then put (sf_column f) JNull r else r"
  have pk: "pk_of spec other (?g r) = pk_of spec other r" for r
    using assms by (simp add: pk_of_def)
  have c: "fld (?g r) column = fld r column \<or> fld (?g r) column = JNull" for r column by simp
  have g: "set (set_null (sf_column f) i (fst s other)) = ?g ` set (fst s other)"
    by (auto simp: set_null_def)
  have "shrinks spec (fst s) ((fst s)(other := set_null (sf_column f) i (fst s other)))"
    unfolding shrinks_def
  proof (intro ballI)
    fix x r' assume x: "r' \<in> set (((fst s)(other := set_null (sf_column f) i (fst s other))) x)"
    show "\<exists>r \<in> set (fst s x). pk_of spec x r' = pk_of spec x r \<and>
        (\<forall>column. fld r' column = fld r column \<or> fld r' column = JNull)"
    proof (cases "x = other")
      case True
      then obtain r where "r \<in> set (fst s other)" "r' = ?g r" using x g by auto
      then show ?thesis using pk [of r] c [of r] True by blast
    next
      case False
      then show ?thesis using x by auto
    qed
  qed
  moreover have "\<exists>r' \<in> set (((fst s)(other := set_null (sf_column f) i (fst s other))) x).
      pk_of spec x r' = pk_of spec x r" if "r \<in> set (fst s x)" for x r
  proof (cases "x = other")
    case True
    then have "?g r \<in> set (((fst s)(other := set_null (sf_column f) i (fst s other))) x)"
      using that imageI [of r "set (fst s other)" ?g] unfolding g [symmetric] by simp
    then show ?thesis using pk [of r] True by blast
  qed (use that in auto)
  ultimately show ?thesis by (auto simp: progress_def)
qed

lemma progress_remove:
  assumes "row_key table i \<in> set (snd s)"
  shows "progress spec s (remove_row spec table i (fst s), snd s)"
proof -
  have "shrinks spec (fst s) (remove_row spec table i (fst s))"
    unfolding shrinks_def by (auto simp: remove_row_def)
  moreover have "\<exists>r' \<in> set (remove_row spec table i (fst s) x). pk_of spec x r' = pk_of spec x r"
    if "r \<in> set (fst s x)" "row_key x (pk_of spec x r) \<notin> set (snd s)" for x r
    using that assms by (auto simp: remove_row_def pk_of_def sql_eq_def)
  ultimately show ?thesis by (auto simp: progress_def)
qed

lemma run_statement_Inr [simp]: "run_statement fault q st x = Inr y \<longleftrightarrow> fault q st = None \<and> y = x"
  by (auto simp: run_statement_def split: option.splits)

lemma run_statement_Inl [simp]: "run_statement fault q st x = Inl e \<longleftrightarrow> e \<noteq> None \<and> fault q st = e"
  by (cases "fault q st") (auto simp: run_statement_def)

lemma release_progress:
  assumes "release delete fault spec i ref s = Inr s'" and "sound_spec spec" and "is_ref spec (fst ref) (snd ref) table"
    and d: "\<And>j s s'. delete (fst ref) j s = Inr s' \<Longrightarrow> progress spec s s'"
  shows "progress spec s s'"
proof -
  have col: "sf_column (snd ref) \<noteq> primaryColumn spec (fst ref)" by (rule ref_not_primary [OF assms(2,3)])
  show ?thesis
    using assms(1) progress_refl [of spec] progress_set_null [OF col, of s i]
    by (auto simp: release_def Let_def andThen_eq_Inr split: if_splits
        intro: foldE_relation [where R = "progress spec"] progress_trans dest!: d)
qed

lemma delete_progress:
  assumes "sound_spec spec" and "orders_of spec order" and "table \<in> tables spec"
    and "delete_row n fault order spec table i s = Inr s'"
  shows "progress spec s s' \<and> row_key table i \<in> set (snd s')"
  using assms(3,4)
proof (induction n arbitrary: table i s s')
  case 0
  then show ?case by simp
next
  case (Suc n)
  let ?k = "row_key table i"
  show ?case
  proof (cases "?k \<in> set (snd s)")
    case True
    then show ?thesis using Suc.prems by (simp add: progress_refl)
  next
    case False
    then obtain u where u: "foldE (release (delete_row n fault order spec) fault spec i) (referring (order table i) table)
        (fst s, ?k # snd s) = Inr u" "s' = (remove_row spec table i (fst u), snd u)"
      using Suc.prems by (auto simp: andThen_eq_Inr)
    have "progress spec x y"
      if "ref \<in> set (referring (order table i) table)" "release (delete_row n fault order spec) fault spec i ref x = Inr y"
      for ref x y
    proof -
      have r: "is_ref spec (fst ref) (snd ref) table"
        using that(1) referring_is_ref [OF assms(1,2) Suc.prems(1), of "fst ref" "snd ref" i] by simp
      then have "fst ref \<in> tables spec" by (simp add: is_ref_def)
      then show ?thesis using release_progress [OF that(2) assms(1) r] Suc.IH by blast
    qed
    then have p: "progress spec (fst s, ?k # snd s) u"
      using u(1) by (auto intro: foldE_relation [where R = "progress spec"] progress_refl progress_trans)
    have k: "?k \<in> set (snd u)" using p by (auto simp: progress_def)
    have "progress spec s (fst s, ?k # snd s)" by (auto simp: progress_def shrinks_refl)
    then show ?thesis
      using p progress_remove [OF k] u(2) k by (auto intro: progress_trans)
  qed
qed

subsection \<open>No reference to a deleted row survives\<close>

text \<open>
  \<open>gone\<close> are the rows whose deletion has finished, \<open>active\<close> the rows whose deletion has begun: a
  finished row is absent, and only rows that will be deleted themselves still refer to it.
\<close>

definition detached :: "app_spec \<Rightarrow> string set \<Rightarrow> string set \<Rightarrow> store \<Rightarrow> bool" where
  "detached spec gone active st \<longleftrightarrow> (\<forall>other \<in> tables spec. \<forall>r \<in> set (st other).
     row_key other (pk_of spec other r) \<notin> gone \<and>
     (\<forall>f table. is_ref spec other f table \<longrightarrow> fld r (sf_column f) \<noteq> JNull \<longrightarrow>
        row_key table (fld r (sf_column f)) \<in> gone \<longrightarrow> row_key other (pk_of spec other r) \<in> active))"

text \<open>A field that no longer refers to the row, except from rows under deletion.\<close>

definition cleared :: "app_spec \<Rightarrow> string set \<Rightarrow> json \<Rightarrow> string \<times> spec_field \<Rightarrow> store \<Rightarrow> bool" where
  "cleared spec active i ref st \<longleftrightarrow> (\<forall>r \<in> set (st (fst ref)). fld r (sf_column (snd ref)) = i \<longrightarrow>
     row_key (fst ref) (pk_of spec (fst ref) r) \<in> active)"

lemma detached_shrinks:
  assumes "detached spec gone active st" and "shrinks spec st st'"
  shows "detached spec gone active st'"
  unfolding detached_def
proof (intro ballI)
  fix other r' assume o: "other \<in> tables spec" "r' \<in> set (st' other)"
  then obtain r where r: "r \<in> set (st other)" "pk_of spec other r' = pk_of spec other r"
    "\<forall>column. fld r' column = fld r column \<or> fld r' column = JNull"
    using assms(2) unfolding shrinks_def by blast
  have d: "row_key other (pk_of spec other r) \<notin> gone"
    "\<And>f table. is_ref spec other f table \<Longrightarrow> fld r (sf_column f) \<noteq> JNull \<Longrightarrow>
        row_key table (fld r (sf_column f)) \<in> gone \<Longrightarrow> row_key other (pk_of spec other r) \<in> active"
    using assms(1) o(1) r(1) unfolding detached_def by blast+
  show "row_key other (pk_of spec other r') \<notin> gone \<and>
     (\<forall>f table. is_ref spec other f table \<longrightarrow> fld r' (sf_column f) \<noteq> JNull \<longrightarrow>
        row_key table (fld r' (sf_column f)) \<in> gone \<longrightarrow> row_key other (pk_of spec other r') \<in> active)"
    using d r(2,3) by metis
qed

lemma detached_mono:
  assumes "detached spec gone active st" and "gone' \<subseteq> gone" and "active \<subseteq> active'"
  shows "detached spec gone' active' st"
  using assms unfolding detached_def by blast

lemma cleared_shrinks:
  assumes "cleared spec active i ref st" and "shrinks spec st st'" and "fst ref \<in> tables spec" and "i \<noteq> JNull"
  shows "cleared spec active i ref st'"
  unfolding cleared_def
proof (intro ballI impI)
  fix r' assume r': "r' \<in> set (st' (fst ref))" "fld r' (sf_column (snd ref)) = i"
  then obtain r where r: "r \<in> set (st (fst ref))" "pk_of spec (fst ref) r' = pk_of spec (fst ref) r"
    "\<forall>column. fld r' column = fld r column \<or> fld r' column = JNull"
    using assms(2,3) unfolding shrinks_def by blast
  have "fld r (sf_column (snd ref)) = i" using r(3) r'(2) assms(4) by metis
  then show "row_key (fst ref) (pk_of spec (fst ref) r') \<in> active"
    using assms(1) r(1,2) by (simp add: cleared_def)
qed

lemma identities_shrinks:
  assumes "shrinks spec st st'"
  shows "identities spec st' \<subseteq> identities spec st"
proof
  fix v assume "v \<in> identities spec st'"
  then obtain other r' where o: "other \<in> tables spec" "r' \<in> set (st' other)"
    and v: "v = pk_of spec other r' \<or> (\<exists>f table. is_ref spec other f table \<and> v = fld r' (sf_column f) \<and> v \<noteq> JNull)"
    unfolding identities_def by blast
  obtain r where r: "r \<in> set (st other)" "pk_of spec other r' = pk_of spec other r"
    "\<forall>column. fld r' column = fld r column \<or> fld r' column = JNull"
    using assms o unfolding shrinks_def by blast
  have "v = pk_of spec other r \<or> (\<exists>f table. is_ref spec other f table \<and> v = fld r (sf_column f) \<and> v \<noteq> JNull)"
    using v r(2,3) by metis
  then show "v \<in> identities spec st" using o(1) r(1) unfolding identities_def by blast
qed

text \<open>What holds at every moment of a deletion under the rows \<open>active\<close>.\<close>

definition deleting :: "app_spec \<Rightarrow> json set \<Rightarrow> string set \<Rightarrow> deletion \<Rightarrow> bool" where
  "deleting spec A active s \<longleftrightarrow> identities spec (fst s) \<subseteq> A \<and> active \<subseteq> set (snd s) \<and>
     detached spec (set (snd s) - active) active (fst s)"

definition deletes_well :: "app_spec \<Rightarrow> json set \<Rightarrow> (string \<Rightarrow> json \<Rightarrow> deletion \<Rightarrow> go_error option + deletion) \<Rightarrow> bool" where
  "deletes_well spec A delete \<longleftrightarrow> (\<forall>other j s s' active. other \<in> tables spec \<longrightarrow> j \<in> A \<longrightarrow>
     delete other j s = Inr s' \<longrightarrow> deleting spec A active s \<longrightarrow>
     deleting spec A active s' \<and> progress spec s s' \<and> row_key other j \<in> set (snd s'))"

lemma deleting_shrinks:
  assumes "deleting spec A active s" and "shrinks spec (fst s) st"
  shows "deleting spec A active (st, snd s)"
  using assms identities_shrinks [OF assms(2)] detached_shrinks [OF _ assms(2)] by (auto simp: deleting_def)

lemma foldE_each:
  assumes "foldE f xs s = Inr t"
    and "\<And>x s t. x \<in> set xs \<Longrightarrow> f x s = Inr t \<Longrightarrow> P s \<Longrightarrow> P t \<and> R s t \<and> Q x t"
    and "\<And>x s t. x \<in> set xs \<Longrightarrow> Q x s \<Longrightarrow> R s t \<Longrightarrow> Q x t"
    and "\<And>s. R s s" and "\<And>a b c. R a b \<Longrightarrow> R b c \<Longrightarrow> R a c" and "P s"
  shows "P t \<and> R s t \<and> (\<forall>x \<in> set xs. Q x t)"
  using assms(1,2,3,6)
proof (induction xs arbitrary: s)
  case Nil
  then show ?case using assms(4) by simp
next
  case (Cons x xs)
  obtain u where u: "f x s = Inr u" "foldE f xs u = Inr t"
    using Cons.prems(1) by (auto simp: andThen_eq_Inr)
  have x: "P u" "R s u" "Q x u" using Cons.prems(2) [OF _ u(1)] Cons.prems(4) by auto
  have r: "P t \<and> R u t \<and> (\<forall>y \<in> set xs. Q y t)"
    by (rule Cons.IH [OF u(2)], rule Cons.prems(2) [OF list.set_intros(2)], assumption+,
        rule Cons.prems(3) [OF list.set_intros(2)], assumption+, rule x(1))
  then have "Q x t" using Cons.prems(3) [of x u t] x(3) by simp
  moreover have "R s t" using assms(5) [OF x(2)] r by blast
  ultimately show ?case using r by simp
qed

lemma if_chain:
  assumes "(if a then w else if b then x else if c then y else z) = v"
    and "a \<Longrightarrow> w = v \<Longrightarrow> thesis" and "x = v \<Longrightarrow> thesis" and "y = v \<Longrightarrow> thesis" and "z = v \<Longrightarrow> thesis"
  shows thesis
  using assms by (cases a; cases b; cases c) simp_all

lemma release_cases:
  assumes "release delete fault spec i ref s = Inr s'"
  obtains (none) "rows_where (fst s) (fst ref) (sf_column (snd ref)) i = []" "s' = s"
    | (null) "s' = ((fst s)(fst ref := set_null (sf_column (snd ref)) i (fst s (fst ref))), snd s)"
    | (cascade) "foldE (\<lambda>item. delete (fst ref) (fld item (primaryColumn spec (fst ref))))
        (rows_where (fst s) (fst ref) (sf_column (snd ref)) i) s = Inr s'"
proof -
  have e: "(if rows_where (fst s) (fst ref) (sf_column (snd ref)) i = [] then Inr s
      else if sf_on_delete (snd ref) \<in> {''PROTECT'', ''RESTRICT''} then Inl (Some (bad ''row is referenced''))
      else if sf_on_delete (snd ref) = ''SET_NULL''
        then run_statement fault (SetNull (fst ref) (sf_column (snd ref)) i) (fst s)
          ((fst s)(fst ref := set_null (sf_column (snd ref)) i (fst s (fst ref))), snd s)
      else foldE (\<lambda>item. delete (fst ref) (fld item (primaryColumn spec (fst ref))))
        (rows_where (fst s) (fst ref) (sf_column (snd ref)) i) s) = Inr s'"
    using assms unfolding release_def Let_def andThen_eq_Inr by auto
  show thesis
    apply (rule if_chain [OF e])
    subgoal by (rule none, assumption, drule Inr_inject, erule sym)
    subgoal by (erule notE [OF Inl_not_Inr])
    subgoal by (rule null) simp
    subgoal by (erule cascade)
    done
qed

lemma release_clears:
  assumes "release delete fault spec i ref s = Inr s'" and spec: "sound_spec spec"
    and ref: "is_ref spec (fst ref) (snd ref) table" and d: "deletes_well spec A delete"
    and s: "deleting spec A active s" and i: "i \<noteq> JNull"
  shows "deleting spec A active s' \<and> progress spec s s' \<and> cleared spec active i ref (fst s')"
proof -
  let ?o = "fst ref" and ?c = "sf_column (snd ref)"
  let ?items = "rows_where (fst s) ?o ?c i"
  have o: "?o \<in> tables spec" using ref by (simp add: is_ref_def)
  have col: "?c \<noteq> primaryColumn spec ?o" by (rule ref_not_primary [OF spec ref])
  have hit: "r \<in> set ?items" if "r \<in> set (fst s ?o)" "fld r ?c = i" for r
    using that i by (simp add: rows_where_def sql_eq_def)
  from assms(1) show ?thesis
  proof (cases rule: release_cases)
    case none
    then show ?thesis using s hit progress_refl by (fastforce simp: cleared_def)
  next
    case null
    have p: "progress spec s s'" using progress_set_null [OF col, of s i] null by simp
    then have "deleting spec A active s'"
      using deleting_shrinks [OF s] null by (simp add: progress_def)
    moreover have "cleared spec active i ref (fst s')"
      using null i by (auto simp: cleared_def set_null_def sql_eq_def)
    ultimately show ?thesis using p by simp
  next
    case cascade
    have pk: "fld item (primaryColumn spec ?o) \<in> A" if "item \<in> set ?items" for item
    proof -
      have "item \<in> set (fst s ?o)" using that by (simp add: rows_where_def)
      then have "pk_of spec ?o item \<in> identities spec (fst s)" using o unfolding identities_def by blast
      then show ?thesis using s by (auto simp: deleting_def pk_of_def)
    qed
    have all: "deleting spec A active s' \<and> progress spec s s' \<and>
        (\<forall>item \<in> set ?items. row_key ?o (fld item (primaryColumn spec ?o)) \<in> set (snd s'))"
    proof (rule foldE_each [OF cascade, where P = "deleting spec A active" and R = "progress spec"])
      fix item u t assume "item \<in> set ?items" "delete ?o (fld item (primaryColumn spec ?o)) u = Inr t"
        "deleting spec A active u"
      then show "deleting spec A active t \<and> progress spec u t \<and>
          row_key ?o (fld item (primaryColumn spec ?o)) \<in> set (snd t)"
        using d o pk unfolding deletes_well_def by blast
    next
      fix item u t
      assume "row_key ?o (fld item (primaryColumn spec ?o)) \<in> set (snd u)" "progress spec u t"
      then show "row_key ?o (fld item (primaryColumn spec ?o)) \<in> set (snd t)" by (auto simp: progress_def)
    next
      fix a b c assume "progress spec a b" "progress spec b c"
      then show "progress spec a c" by (rule progress_trans)
    qed (rule progress_refl, rule s)
    have "cleared spec active i ref (fst s')"
      unfolding cleared_def
    proof (intro ballI impI)
      fix r' assume r': "r' \<in> set (fst s' ?o)" "fld r' ?c = i"
      then obtain r where r: "r \<in> set (fst s ?o)" "pk_of spec ?o r' = pk_of spec ?o r"
        "\<forall>column. fld r' column = fld r column \<or> fld r' column = JNull"
        using all o unfolding progress_def shrinks_def by blast
      have "fld r ?c = i" using r(3) r'(2) i by metis
      then have "row_key ?o (pk_of spec ?o r') \<in> set (snd s')"
        using all hit [OF r(1)] r(2) by (simp add: pk_of_def)
      moreover have "row_key ?o (pk_of spec ?o r') \<notin> set (snd s') - active"
        using all o r'(1) unfolding deleting_def detached_def by blast
      ultimately show "row_key ?o (pk_of spec ?o r') \<in> active" by blast
    qed
    then show ?thesis using all by simp
  qed
qed

lemma delete_well:
  assumes spec: "sound_spec spec" and order: "orders_of spec order" and A: "inj_on str A" "JNull \<notin> A"
  shows "deletes_well spec A (delete_row n fault order spec)"
proof (induction n)
  case 0
  then show ?case by (simp add: deletes_well_def)
next
  case (Suc n)
  show ?case
    unfolding deletes_well_def
  proof (intro allI impI)
    fix table i s s' active
    let ?k = "row_key table i" and ?refs = "referring (order table i) table"
    assume t: "table \<in> tables spec" and i: "i \<in> A" and r: "delete_row (Suc n) fault order spec table i s = Inr s'"
      and s: "deleting spec A active s"
    note p = delete_progress [OF spec order t r]
    have i0: "i \<noteq> JNull" using i A by blast
    have "deleting spec A active s'"
    proof (cases "?k \<in> set (snd s)")
      case True
      then show ?thesis using r s by simp
    next
      case False
      then obtain u where u: "foldE (release (delete_row n fault order spec) fault spec i) ?refs (fst s, ?k # snd s) = Inr u"
        "s' = (remove_row spec table i (fst u), snd u)"
        using r by (auto simp: andThen_eq_Inr)
      let ?active = "insert ?k active"
      have start: "deleting spec A ?active (fst s, ?k # snd s)"
        using s False by (auto simp: deleting_def intro: detached_mono [where gone = "set (snd s) - active" and active = active])
      have ref: "is_ref spec (fst ref) (snd ref) table" if "ref \<in> set ?refs" for ref
        using that referring_is_ref [OF spec order t, of "fst ref" "snd ref" i] by simp
      have whole: "deleting spec A ?active u \<and> progress spec (fst s, ?k # snd s) u \<and>
          (\<forall>ref \<in> set ?refs. cleared spec ?active i ref (fst u))"
      proof (rule foldE_each [OF u(1), where P = "deleting spec A ?active" and R = "progress spec"])
        fix ref a b assume "ref \<in> set ?refs" "release (delete_row n fault order spec) fault spec i ref a = Inr b"
          "deleting spec A ?active a"
        then show "deleting spec A ?active b \<and> progress spec a b \<and> cleared spec ?active i ref (fst b)"
          using release_clears [OF _ spec ref Suc.IH _ i0] by blast
      next
        fix ref a b assume "ref \<in> set ?refs" "cleared spec ?active i ref (fst a)" "progress spec a b"
        then show "cleared spec ?active i ref (fst b)"
          using cleared_shrinks [OF _ _ _ i0] ref by (auto simp: progress_def is_ref_def)
      next
        fix a b c assume "progress spec a b" "progress spec b c"
        then show "progress spec a c" by (rule progress_trans)
      qed (rule progress_refl, rule start)
      have du: "identities spec (fst u) \<subseteq> A" "?active \<subseteq> set (snd u)"
        "detached spec (set (snd u) - ?active) ?active (fst u)"
        using whole by (auto simp: deleting_def)
      have rem: "shrinks spec (fst u) (fst s')"
        using progress_remove [of table i u] du(2) u(2) by (simp add: progress_def)
      have "detached spec (set (snd u) - active) active (fst s')"
        unfolding detached_def
      proof (intro ballI)
        fix other x assume o: "other \<in> tables spec" and x: "x \<in> set (fst s' other)"
        have xu: "x \<in> set (fst u other)" using x u(2) by (auto simp: remove_row_def split: if_splits)
        have pk: "pk_of spec other x \<in> A" using du(1) o xu unfolding identities_def by blast
        have other: "row_key other (pk_of spec other x) \<noteq> ?k"
        proof
          assume "row_key other (pk_of spec other x) = ?k"
          then have e: "other = table" "pk_of spec other x = i"
            using row_key_eq [OF spec o t _ A(1) pk i] by auto
          then show False using x u(2) i0 by (simp add: remove_row_def pk_of_def sql_eq_def)
        qed
        have 1: "row_key other (pk_of spec other x) \<notin> set (snd u) - ?active"
          using du(3) o xu unfolding detached_def by blast
        have 2: "row_key other (pk_of spec other x) \<in> active"
          if f: "is_ref spec other f to" and v: "fld x (sf_column f) \<noteq> JNull"
            and g: "row_key to (fld x (sf_column f)) \<in> set (snd u) - active" for f to
        proof (cases "row_key to (fld x (sf_column f)) = ?k")
          case True
          have "fld x (sf_column f) \<in> A" using du(1) o xu f v unfolding identities_def by blast
          then have e: "to = table" "fld x (sf_column f) = i"
            using row_key_eq [OF spec _ t True A(1) _ i] f by (auto simp: is_ref_def)
          have "(other, f) \<in> set ?refs" using referring_is_ref [OF spec order t] f e by simp
          then have "row_key other (pk_of spec other x) \<in> ?active"
            using whole xu e(2) by (fastforce simp: cleared_def)
          then show ?thesis using other by simp
        next
          case False
          then have "row_key to (fld x (sf_column f)) \<in> set (snd u) - ?active" using g by simp
          then have "row_key other (pk_of spec other x) \<in> ?active"
            using du(3) o xu f v unfolding detached_def by blast
          then show ?thesis using other by simp
        qed
        show "row_key other (pk_of spec other x) \<notin> set (snd u) - active \<and>
            (\<forall>f to. is_ref spec other f to \<longrightarrow> fld x (sf_column f) \<noteq> JNull \<longrightarrow>
              row_key to (fld x (sf_column f)) \<in> set (snd u) - active \<longrightarrow>
              row_key other (pk_of spec other x) \<in> active)"
          using 1 2 other by blast
      qed
      then show ?thesis
        using du identities_shrinks [OF rem] u(2) by (auto simp: deleting_def)
    qed
    then show "deleting spec A active s' \<and> progress spec s s' \<and> ?k \<in> set (snd s')" using p by blast
  qed
qed

subsection \<open>The recursion ends\<close>

definition keys_of :: "app_spec \<Rightarrow> store \<Rightarrow> string set" where
  "keys_of spec st = (\<Union>other \<in> tables spec. (\<lambda>r. row_key other (pk_of spec other r)) ` set (st other))"

lemma keys_of_list:
  "keys_of spec st = set (concat (map (\<lambda>(other, fs). map (\<lambda>r. row_key other (pk_of spec other r)) (st other)) (sp_models spec)))"
  by (force simp: keys_of_def tables_def)

lemma keys_of_card: "finite (keys_of spec st) \<and> card (keys_of spec st) \<le> row_total spec st"
proof -
  have "length (concat (map (\<lambda>(other, fs). map (\<lambda>r. row_key other (pk_of spec other r)) (st other)) ms)) =
      sum_list (map (\<lambda>(table, _). length (st table)) ms)" for ms :: models
    by (induction ms) auto
  then show ?thesis
    using card_length [of "concat (map (\<lambda>(other, fs). map (\<lambda>r. row_key other (pk_of spec other r)) (st other)) (sp_models spec))"]
    unfolding keys_of_list row_total_def by (simp only: finite_set)
qed

lemma keys_of_shrinks:
  assumes "shrinks spec st st'"
  shows "keys_of spec st' \<subseteq> keys_of spec st"
proof
  fix k assume "k \<in> keys_of spec st'"
  then obtain other r where "k = row_key other (pk_of spec other r)" "other \<in> tables spec" "r \<in> set (st' other)"
    by (auto simp: keys_of_def)
  then show "k \<in> keys_of spec st" using assms unfolding shrinks_def keys_of_def by fastforce
qed

lemma foldE_error_in:
  assumes "foldE f xs s = Inl e" and "P s"
    and "\<And>x s t. x \<in> set xs \<Longrightarrow> f x s = Inr t \<Longrightarrow> P s \<Longrightarrow> P t"
  shows "\<exists>x \<in> set xs. \<exists>t. P t \<and> f x t = Inl e"
  using assms
proof (induction xs arbitrary: s)
  case Nil
  then show ?case by simp
next
  case (Cons x xs)
  show ?case
  proof (cases "f x s")
    case (Inl d)
    then show ?thesis using Cons.prems by auto
  next
    case (Inr t)
    then have "foldE f xs t = Inl e" "P t" using Cons.prems by auto
    then show ?thesis using Cons.IH [of t] Cons.prems(3) by auto
  qed
qed

lemma release_ends:
  assumes "release delete fault spec i ref s = Inl None" and "sound_spec spec" and "P s"
    and "\<And>j s s'. delete (fst ref) j s = Inr s' \<Longrightarrow> P s \<Longrightarrow> P s'"
  shows "\<exists>item \<in> set (fst s (fst ref)). \<exists>u. P u \<and> delete (fst ref) (pk_of spec (fst ref) item) u = Inl None"
proof -
  let ?items = "rows_where (fst s) (fst ref) (sf_column (snd ref)) i"
  have "foldE (\<lambda>item. delete (fst ref) (fld item (primaryColumn spec (fst ref)))) ?items s = Inl None"
    using assms(1) by (auto simp: release_def Let_def andThen_eq_Inl split: if_splits)
  then obtain item u where "item \<in> set ?items" "P u" "delete (fst ref) (fld item (primaryColumn spec (fst ref))) u = Inl None"
    using foldE_error_in [of "\<lambda>item. delete (fst ref) (fld item (primaryColumn spec (fst ref)))" ?items s None P] assms(3,4)
    by blast
  then show ?thesis unfolding pk_of_def by (intro bexI exI conjI) (auto simp: rows_where_def)
qed

lemma delete_ends:
  assumes spec: "sound_spec spec" and order: "orders_of spec order" and K: "finite K"
  shows "table \<in> tables spec \<Longrightarrow> row_key table i \<in> K \<Longrightarrow> keys_of spec (fst s) \<subseteq> K \<Longrightarrow>
    card (K - set (snd s)) < n \<Longrightarrow> delete_row n fault order spec table i s \<noteq> Inl None"
proof (induction n arbitrary: table i s)
  case 0
  then show ?case by simp
next
  case (Suc n)
  let ?k = "row_key table i" and ?refs = "referring (order table i) table"
  let ?P = "\<lambda>u. keys_of spec (fst u) \<subseteq> K \<and> insert ?k (set (snd s)) \<subseteq> set (snd u)"
  show ?case
  proof
    assume fail: "delete_row (Suc n) fault order spec table i s = Inl None"
    then have k: "?k \<notin> set (snd s)" by auto
    have err: "foldE (release (delete_row n fault order spec) fault spec i) ?refs (fst s, ?k # snd s) = Inl None"
      using fail k by (simp add: andThen_eq_Inl)
    have ref: "is_ref spec (fst ref) (snd ref) table" if "ref \<in> set ?refs" for ref
      using that referring_is_ref [OF spec order Suc.prems(1), of "fst ref" "snd ref" i] by simp
    have keep: "?P b" if "progress spec a b" "?P a" for a b
      using that keys_of_shrinks [of spec "fst a" "fst b"] by (auto simp: progress_def)
    have inner: "?P b" if "delete_row n fault order spec other j a = Inr b" "other \<in> tables spec" "?P a" for other j a b
      using delete_progress [OF spec order that(2,1)] keep that(3) by blast
    have "\<exists>ref \<in> set ?refs. \<exists>u. ?P u \<and> release (delete_row n fault order spec) fault spec i ref u = Inl None"
    proof (rule foldE_error_in [OF err])
      show "?P (fst s, ?k # snd s)" using Suc.prems(3) by auto
    next
      fix ref a b
      assume h: "ref \<in> set ?refs" "release (delete_row n fault order spec) fault spec i ref a = Inr b" "?P a"
      have "fst ref \<in> tables spec" using ref [OF h(1)] by (simp add: is_ref_def)
      then show "?P b"
        using keep [OF release_progress [OF h(2) spec ref [OF h(1)]] h(3)] delete_progress [OF spec order] by blast
    qed
    then obtain ref u where r: "ref \<in> set ?refs" "?P u" "release (delete_row n fault order spec) fault spec i ref u = Inl None"
      by blast
    have o: "fst ref \<in> tables spec" using ref [OF r(1)] by (simp add: is_ref_def)
    obtain item v where v: "item \<in> set (fst u (fst ref))" "?P v"
      "delete_row n fault order spec (fst ref) (pk_of spec (fst ref) item) v = Inl None"
      using release_ends [OF r(3) spec, of ?P] r(2) inner [OF _ o] by blast
    have "row_key (fst ref) (pk_of spec (fst ref) item) \<in> K"
      using r(2) v(1) o by (auto simp: keys_of_def)
    moreover have "card (K - set (snd v)) < n"
    proof -
      have "card (K - set (snd v)) \<le> card (K - set (snd s) - {?k})"
        using v(2) K by (intro card_mono) auto
      also have "\<dots> < card (K - set (snd s))"
        using K k Suc.prems(2) by (intro psubset_card_mono) auto
      finally show ?thesis using Suc.prems(4) by simp
    qed
    ultimately show False using Suc.IH [OF o] v(2,3) by blast
  qed
qed

text \<open>A row that may not lose its reference: to the row to be deleted, or to a row of the store.\<close>

definition protected_row :: "app_spec \<Rightarrow> string \<Rightarrow> json \<Rightarrow> store \<Rightarrow> bool" where
  "protected_row spec table i st \<longleftrightarrow> (\<exists>other f to r. is_ref spec other f to \<and> r \<in> set (st other) \<and>
     sf_on_delete f \<in> {''PROTECT'', ''RESTRICT''} \<and> fld r (sf_column f) \<noteq> JNull \<and>
     (to = table \<and> fld r (sf_column f) = i \<or> (\<exists>x \<in> set (st to). pk_of spec to x = fld r (sf_column f))))"

text \<open>An error of a delete: a statement failed on what was left of the store, or a row is protected.\<close>

definition delete_refused :: "app_spec \<Rightarrow> faults \<Rightarrow> string \<Rightarrow> json \<Rightarrow> store \<Rightarrow> go_error \<Rightarrow> bool" where
  "delete_refused spec fault table i st e \<longleftrightarrow>
     (\<exists>q st'. shrinks spec st st' \<and> fault q st' = Some e) \<or>
     e = bad ''row is referenced'' \<and> protected_row spec table i st"

lemma protected_row_shrinks:
  assumes "protected_row spec other j st'" and "shrinks spec st st'"
    and "other = table \<and> j = i \<or> (\<exists>x \<in> set (st other). pk_of spec other x = j)"
  shows "protected_row spec table i st"
proof -
  obtain source f to r' where f: "is_ref spec source f to" and r': "r' \<in> set (st' source)"
    and p: "sf_on_delete f \<in> {''PROTECT'', ''RESTRICT''}" "fld r' (sf_column f) \<noteq> JNull"
    and v: "to = other \<and> fld r' (sf_column f) = j \<or> (\<exists>x \<in> set (st' to). pk_of spec to x = fld r' (sf_column f))"
    using assms(1) unfolding protected_row_def by blast
  have t: "source \<in> tables spec" "to \<in> tables spec" using f by (auto simp: is_ref_def)
  obtain r where r: "r \<in> set (st source)" "\<forall>column. fld r' column = fld r column \<or> fld r' column = JNull"
    using assms(2) t(1) r' unfolding shrinks_def by blast
  have e: "fld r (sf_column f) = fld r' (sf_column f)" using r(2) p(2) by metis
  have "to = table \<and> fld r (sf_column f) = i \<or> (\<exists>x \<in> set (st to). pk_of spec to x = fld r (sf_column f))"
  proof (cases "\<exists>x \<in> set (st' to). pk_of spec to x = fld r' (sf_column f)")
    case True
    then obtain x' where x': "x' \<in> set (st' to)" "pk_of spec to x' = fld r' (sf_column f)" by blast
    then obtain x where "x \<in> set (st to)" "pk_of spec to x' = pk_of spec to x"
      using assms(2) t(2) unfolding shrinks_def by blast
    then show ?thesis using x'(2) e by auto
  next
    case False
    then show ?thesis using v assms(3) by (auto simp: e)
  qed
  then show ?thesis using f r(1) p e unfolding protected_row_def by metis
qed

lemma delete_refused_shrinks:
  assumes "delete_refused spec fault other j st' e" and "shrinks spec st st'"
    and "other = table \<and> j = i \<or> (\<exists>x \<in> set (st other). pk_of spec other x = j)"
  shows "delete_refused spec fault table i st e"
proof (cases "\<exists>q st''. shrinks spec st' st'' \<and> fault q st'' = Some e")
  case True
  then show ?thesis using shrinks_trans [OF assms(2)] unfolding delete_refused_def by blast
next
  case False
  then have "e = bad ''row is referenced''" "protected_row spec other j st'"
    using assms(1) unfolding delete_refused_def by blast+
  then show ?thesis using protected_row_shrinks [OF _ assms(2,3)] unfolding delete_refused_def by blast
qed

lemma release_error:
  assumes "release delete fault spec i ref s = Inl (Some e)" and ref: "is_ref spec (fst ref) (snd ref) table"
    and ok: "\<And>j s s'. delete (fst ref) j s = Inr s' \<Longrightarrow> shrinks spec (fst s) (fst s')"
    and err: "\<And>j s. delete (fst ref) j s = Inl (Some e) \<Longrightarrow> delete_refused spec fault (fst ref) j (fst s) e"
  shows "delete_refused spec fault table i (fst s) e"
proof -
  let ?o = "fst ref" and ?c = "sf_column (snd ref)"
  let ?items = "rows_where (fst s) ?o ?c i"
  let ?inner = "foldE (\<lambda>item. delete ?o (fld item (primaryColumn spec ?o))) ?items s"
  have o: "?o \<in> tables spec" using ref by (simp add: is_ref_def)
  have "(\<exists>q. fault q (fst s) = Some e) \<or>
      (?items \<noteq> [] \<and> sf_on_delete (snd ref) \<in> {''PROTECT'', ''RESTRICT''} \<and> e = bad ''row is referenced'') \<or>
      ?inner = Inl (Some e)"
    using assms(1) by (auto simp: release_def Let_def andThen_eq_Inl split: if_splits)
  then show ?thesis
  proof (elim disjE)
    assume "\<exists>q. fault q (fst s) = Some e"
    then show ?thesis using shrinks_refl unfolding delete_refused_def by blast
  next
    assume p: "?items \<noteq> [] \<and> sf_on_delete (snd ref) \<in> {''PROTECT'', ''RESTRICT''} \<and> e = bad ''row is referenced''"
    then obtain r where "r \<in> set (fst s ?o)" "sql_eq (fld r ?c) i"
      by (auto simp: rows_where_def filter_empty_conv)
    then have "protected_row spec table i (fst s)"
      using p ref unfolding protected_row_def sql_eq_def by blast
    then show ?thesis using p unfolding delete_refused_def by blast
  next
    assume inner: "?inner = Inl (Some e)"
    have "\<exists>item \<in> set ?items. \<exists>u. shrinks spec (fst s) (fst u) \<and>
        delete ?o (fld item (primaryColumn spec ?o)) u = Inl (Some e)"
      by (rule foldE_error_in [where P = "\<lambda>u. shrinks spec (fst s) (fst u)", OF inner shrinks_refl])
         (rule shrinks_trans, assumption, rule ok, assumption)
    then obtain item u where u: "item \<in> set ?items" "shrinks spec (fst s) (fst u)"
        "delete ?o (fld item (primaryColumn spec ?o)) u = Inl (Some e)" by blast
    have "item \<in> set (fst s ?o)" using u(1) by (simp add: rows_where_def)
    then show ?thesis using delete_refused_shrinks [OF err [OF u(3)] u(2)] by (auto simp: pk_of_def)
  qed
qed

lemma delete_error:
  assumes spec: "sound_spec spec" and order: "orders_of spec order"
  shows "table \<in> tables spec \<Longrightarrow> delete_row n fault order spec table i s = Inl (Some e) \<Longrightarrow>
    delete_refused spec fault table i (fst s) e"
proof (induction n arbitrary: table i s)
  case 0
  then show ?case by simp
next
  case (Suc n)
  let ?k = "row_key table i" and ?refs = "referring (order table i) table"
  let ?release = "release (delete_row n fault order spec) fault spec i"
  have ref: "is_ref spec (fst ref) (snd ref) table" if "ref \<in> set ?refs" for ref
    using that referring_is_ref [OF spec order Suc.prems(1), of "fst ref" "snd ref" i] by simp
  have inner: "shrinks spec (fst a) (fst b)"
    if "delete_row n fault order spec other j a = Inr b" "other \<in> tables spec" for other j a b
    using delete_progress [OF spec order that(2,1)] by (simp add: progress_def)
  have keep: "shrinks spec (fst a) (fst b)" if "?release ref a = Inr b" "ref \<in> set ?refs" for ref a b
  proof -
    have "fst ref \<in> tables spec" using ref [OF that(2)] by (simp add: is_ref_def)
    then have "progress spec a b"
      using release_progress [OF that(1) spec ref [OF that(2)]] delete_progress [OF spec order] by blast
    then show ?thesis by (simp add: progress_def)
  qed
  have "foldE ?release ?refs (fst s, ?k # snd s) = Inl (Some e) \<or>
      (\<exists>u q. foldE ?release ?refs (fst s, ?k # snd s) = Inr u \<and> fault q (fst u) = Some e)"
    using Suc.prems(2) by (auto simp: andThen_eq_Inl split: if_splits)
  then show ?case
  proof (elim disjE exE conjE)
    assume fail: "foldE ?release ?refs (fst s, ?k # snd s) = Inl (Some e)"
    have "\<exists>ref \<in> set ?refs. \<exists>u. shrinks spec (fst s) (fst u) \<and> ?release ref u = Inl (Some e)"
      by (rule foldE_error_in [where P = "\<lambda>u. shrinks spec (fst s) (fst u)", OF fail])
         (simp add: shrinks_refl, rule shrinks_trans, assumption, rule keep, assumption+)
    then obtain ref u where u: "ref \<in> set ?refs" "shrinks spec (fst s) (fst u)" "?release ref u = Inl (Some e)"
      by blast
    have o: "fst ref \<in> tables spec" using ref [OF u(1)] by (simp add: is_ref_def)
    have "delete_refused spec fault table i (fst u) e"
      by (rule release_error [OF u(3) ref [OF u(1)]])
         (erule inner [OF _ o], erule Suc.IH [OF o])
    then show ?thesis by (rule delete_refused_shrinks [OF _ u(2)]) simp
  next
    fix u q assume u: "foldE ?release ?refs (fst s, ?k # snd s) = Inr u" and q: "fault q (fst u) = Some e"
    have "shrinks spec (fst (fst s, ?k # snd s)) (fst u)"
      by (rule foldE_relation [where R = "\<lambda>a b. shrinks spec (fst a) (fst b)", OF u])
         (rule shrinks_refl, erule shrinks_trans, assumption, erule keep, assumption)
    then show ?thesis using q unfolding delete_refused_def by auto
  qed
qed

lemma deleteRow_result:
  assumes "sound_spec (se_spec env)" and "orders_of (se_spec env) (se_order env)" and "table \<in> tables (se_spec env)"
  shows "(\<exists>e. deleteRow env table i st = Inl e \<and> delete_refused (se_spec env) (se_fault env) table i st e) \<or>
    (\<exists>seen. delete_row (row_total (se_spec env) st + 3) (se_fault env) (se_order env) (se_spec env) table i (st, []) =
       Inr (projr (deleteRow env table i st), seen) \<and> deleteRow env table i st = Inr (projr (deleteRow env table i st)))"
proof -
  let ?K = "insert (row_key table i) (keys_of (se_spec env) st)"
  let ?r = "delete_row (row_total (se_spec env) st + 3) (se_fault env) (se_order env) (se_spec env) table i (st, [])"
  have "card ?K < row_total (se_spec env) st + 3"
    using keys_of_card [of "se_spec env" st] by (simp add: card_insert_if)
  then have "?r \<noteq> Inl None"
    using delete_ends [OF assms(1,2), of ?K table i "(st, [])"] assms(3) keys_of_card [of "se_spec env" st]
    by (simp add: subset_insertI)
  then show ?thesis
    unfolding deleteRow_def
    using delete_error [OF assms, of "row_total (se_spec env) st + 3" "se_fault env" i "(st, [])"]
    by (cases ?r) (auto split: option.splits simp del: delete_row.simps)
qed

text \<open>C33. A delete always comes to an end, whatever the order in which the map of models is ranged over
  and even when rows refer to each other in a cycle: the recursion is never cut off. It either succeeds,
  or hands back the error of a statement that the database refused on what the delete had left of the
  store, or is refused because a row with a protecting foreign key refers to the row to be deleted or to
  another row of the store.
\<close>

theorem delete_always_ends:
  assumes "sound_spec (se_spec env)" and "orders_of (se_spec env) (se_order env)" and "table \<in> tables (se_spec env)"
  shows "(\<exists>st'. deleteRow env table i st = Inr st') \<or>
    (\<exists>e. deleteRow env table i st = Inl e \<and>
      ((\<exists>q st'. shrinks (se_spec env) st st' \<and> se_fault env q st' = Some e) \<or>
       e = bad ''row is referenced'' \<and> protected_row (se_spec env) table i st))"
  using deleteRow_result [OF assms, of i st] unfolding delete_refused_def by blast

text \<open>C32. After a successful delete the row is gone and referential integrity holds again: no row refers to
  a row that was deleted on the way, in any table. Rows are only removed or get a reference emptied;
  no primary key or other value changes. Primary keys are not null and print differently.
\<close>

theorem delete_keeps_references:
  assumes "sound_spec (se_spec env)" and "orders_of (se_spec env) (se_order env)" and "table \<in> tables (se_spec env)"
    and "references_hold (se_spec env) st"
    and "inj_on str (insert i (identities (se_spec env) st))"
    and "JNull \<notin> insert i (identities (se_spec env) st)"
    and "deleteRow env table i st = Inr st'"
  shows "references_hold (se_spec env) st' \<and> rows_where st' table (primaryColumn (se_spec env) table) i = [] \<and>
    shrinks (se_spec env) st st'"
proof -
  let ?spec = "se_spec env" and ?A = "insert i (identities (se_spec env) st)"
  obtain seen where r: "delete_row (row_total ?spec st + 3) (se_fault env) (se_order env) ?spec table i (st, []) = Inr (st', seen)"
    using deleteRow_result [OF assms(1-3), of i st] assms(7) by auto
  have "deleting ?spec ?A {} (st, [])" by (auto simp: deleting_def detached_def)
  then have d: "deleting ?spec ?A {} (st', seen)" and p: "progress ?spec (st, []) (st', seen)"
    and k: "row_key table i \<in> set seen"
    using delete_well [OF assms(1,2,5,6)] r assms(3) unfolding deletes_well_def by (metis insertI1 snd_conv)+
  have sh: "shrinks ?spec st st'" using p by (simp add: progress_def)
  have gone: "row_key other (pk_of ?spec other x) \<notin> set seen" if "other \<in> tables ?spec" "x \<in> set (st' other)" for other x
    using d that unfolding deleting_def detached_def by simp
  have "references_hold ?spec st'"
    unfolding references_hold_def
  proof (intro allI impI)
    fix other f to x
    assume f: "is_ref ?spec other f to" and x: "x \<in> set (st' other)" and v: "fld x (sf_column f) \<noteq> JNull"
    have o: "other \<in> tables ?spec" and t: "to \<in> tables ?spec" using f by (auto simp: is_ref_def)
    obtain y where y: "y \<in> set (st other)" "\<forall>column. fld x column = fld y column \<or> fld x column = JNull"
      using sh o x unfolding shrinks_def by blast
    have e: "fld y (sf_column f) = fld x (sf_column f)" using y(2) v by metis
    then obtain z where z: "z \<in> set (st to)" "pk_of ?spec to z = fld x (sf_column f)"
      using assms(4) f y(1) v unfolding references_hold_def by metis
    have "row_key to (fld x (sf_column f)) \<notin> set seen"
      using d o x f v unfolding deleting_def detached_def by simp
    then show "\<exists>z \<in> set (st' to). pk_of ?spec to z = fld x (sf_column f)"
      using progress_kept [OF p t, of z] z by simp
  qed
  moreover have "rows_where st' table (primaryColumn ?spec table) i = []"
    using gone [OF assms(3)] k by (auto simp: rows_where_def filter_empty_conv sql_eq_def pk_of_def)
  ultimately show ?thesis using sh by simp
qed

subsection \<open>Witnesses\<close>

text \<open>
  Departments, demands and the majors of a demand: of the fields of spec.json those that refer to a
  table of the sample, and a few plain ones.
\<close>

definition plain_field :: "string \<Rightarrow> string \<Rightarrow> spec_field" where
  "plain_field name kind = \<lparr> sf_name = name, sf_column = name, sf_type = kind, sf_relation = [], sf_on_delete = [],
     sf_timestamp = [], sf_null = False, sf_blank = False, sf_primary = False, sf_unique = False, sf_max_length = None,
     sf_default = JNull, sf_choices = [] \<rparr>"

definition id_field :: spec_field where
  "id_field = (plain_field ''id'' ''BigAutoField'')\<lparr>sf_blank := True, sf_primary := True, sf_unique := True\<rparr>"

definition ref_field :: "string \<Rightarrow> string \<Rightarrow> string \<Rightarrow> bool \<Rightarrow> spec_field" where
  "ref_field name to rule null = (plain_field name ''ForeignKey'')\<lparr>sf_column := name @ ''_id'',
     sf_relation := to, sf_on_delete := rule, sf_null := null, sf_blank := null\<rparr>"

definition sample_models :: models where
  "sample_models =
     [(''core_department'', [id_field, plain_field ''name'' ''CharField'',
         (plain_field ''level'' ''PositiveSmallIntegerField'')\<lparr>sf_default := JNum 2\<rparr>,
         ref_field ''parent'' ''core_department'' ''PROTECT'' True]),
      (''core_job'', [id_field, ref_field ''department'' ''core_department'' ''SET_NULL'' True]),
      (''core_jobmajor'', [id_field, ref_field ''job'' ''core_job'' ''CASCADE'' False, plain_field ''major'' ''CharField''])]"

definition sample_spec :: app_spec where
  "sample_spec = \<lparr> sp_models = sample_models, sp_resources = [], sp_permission_tree = [], sp_role_permissions = [] \<rparr>"

definition rows_env :: store_env where
  "rows_env = \<lparr> se_spec = sample_spec, se_now = JStr ''2026-01-01T00:00:00Z'',
     se_fresh = (\<lambda>st table. int (length (st table)) + 1), se_reject = (\<lambda>st table row. None),
     se_order = (\<lambda>table i. sample_models), se_fault = (\<lambda>q st. None) \<rparr>"

definition sample_store :: store where
  "sample_store = (\<lambda>table.
     if table = ''core_department'' then
       [[(''id'', JNum 1), (''level'', JNum 1), (''parent_id'', JNull)]]
     else if table = ''core_job'' then [[(''id'', JNum 2), (''department_id'', JNum 1)]]
     else if table = ''core_jobmajor'' then [[(''id'', JNum 3), (''job_id'', JNum 2), (''major'', JStr ''m'')]]
     else [])"

lemma sample_tables: "tables sample_spec = {''core_department'', ''core_job'', ''core_jobmajor''}"
  by (auto simp: tables_def sample_spec_def sample_models_def)

lemma sample_pk: "primaryColumn sample_spec table = ''id''"
  by (simp add: primaryColumn_def model_fields_def sample_spec_def sample_models_def id_field_def plain_field_def
      split: option.splits)

lemma sample_sound: "sound_spec sample_spec" "orders_of sample_spec (se_order rows_env)"
  by (simp_all add: sound_spec_def sample_pk sample_tables)
     (simp_all add: sample_spec_def sample_models_def rows_env_def orders_of_def ref_field_def id_field_def plain_field_def)

lemmas sample_fields = id_field_def plain_field_def ref_field_def

definition parent_field :: spec_field where "parent_field = ref_field ''parent'' ''core_department'' ''PROTECT'' True"
definition department_field :: spec_field where "department_field = ref_field ''department'' ''core_department'' ''SET_NULL'' True"
definition job_field :: spec_field where "job_field = ref_field ''job'' ''core_job'' ''CASCADE'' False"

lemma sample_columns:
  "sf_column parent_field = ''parent_id''" "sf_column department_field = ''department_id''" "sf_column job_field = ''job_id''"
  by (simp_all add: parent_field_def department_field_def job_field_def ref_field_def plain_field_def)

lemma sample_referring:
  "referring sample_models ''core_department'' = [(''core_department'', parent_field), (''core_job'', department_field)]"
  "referring sample_models ''core_job'' = [(''core_jobmajor'', job_field)]"
  "referring sample_models ''core_jobmajor'' = []"
  by (simp_all add: referring_def sample_models_def parent_field_def department_field_def job_field_def)
     (simp_all add: sample_fields)

lemma rows_order: "se_order rows_env table i = sample_models"
  by (simp add: rows_env_def)

lemma sample_is_ref:
  assumes "is_ref sample_spec other f table"
  shows "(other, f, table) \<in> {(''core_department'', parent_field, ''core_department''),
    (''core_job'', department_field, ''core_department''), (''core_jobmajor'', job_field, ''core_job'')}"
proof -
  have t: "table \<in> tables sample_spec" using assms by (simp add: is_ref_def)
  have r: "(other, f) \<in> set (referring sample_models table)"
    using referring_is_ref [OF sample_sound t] assms unfolding rows_order by (rule iffD2)
  from t [unfolded sample_tables] show ?thesis
  proof (elim insertE emptyE)
    assume "table = ''core_department''"
    then show ?thesis using r by (simp only: sample_referring) fastforce
  next
    assume "table = ''core_job''"
    then show ?thesis using r by (simp only: sample_referring) fastforce
  next
    assume "table = ''core_jobmajor''"
    then show ?thesis using r by (simp only: sample_referring) simp
  qed
qed

lemma sample_identities: "identities sample_spec sample_store \<subseteq> {JNum 1, JNum 2, JNum 3}"
  by (auto simp: identities_def sample_tables pk_of_def sample_pk sample_store_def sample_columns
      dest!: sample_is_ref)

lemma sample_references: "references_hold sample_spec sample_store"
  unfolding references_hold_def
  by (auto simp: sample_store_def sample_columns pk_of_def sample_pk dest!: sample_is_ref)

lemma sample_printable: "inj_on str {JNum 1, JNum 2, JNum 3}"
  by (simp add: inj_on_def) code_simp

lemma sample_fuel: "row_total sample_spec sample_store + 3 = Suc (Suc (Suc (Suc (Suc (Suc 0)))))"
  by (simp add: row_total_def sample_spec_def sample_models_def sample_store_def)

lemma sample_rows:
  "sample_store ''core_department'' = [[(''id'', JNum 1), (''level'', JNum 1), (''parent_id'', JNull)]]"
  "sample_store ''core_job'' = [[(''id'', JNum 2), (''department_id'', JNum 1)]]"
  "sample_store ''core_jobmajor'' = [[(''id'', JNum 3), (''job_id'', JNum 2), (''major'', JStr ''m'')]]"
  by (simp_all add: sample_store_def)

lemma sample_rules:
  "sf_on_delete parent_field = ''PROTECT''" "sf_on_delete department_field = ''SET_NULL''"
  "sf_on_delete job_field = ''CASCADE''"
  by (simp_all add: parent_field_def department_field_def job_field_def ref_field_def plain_field_def)

lemma delete_row_step:
  "delete_row (Suc n) fault order spec table i s =
     (if row_key table i \<in> set (snd s) then Inr s
      else andThen (foldE (release (delete_row n fault order spec) fault spec i) (referring (order table i) table)
             (fst s, row_key table i # snd s))
           (\<lambda>s. run_statement fault (DeleteFrom table (primaryColumn spec table) i) (fst s)
             (remove_row spec table i (fst s), snd s)))"
  by simp

lemma rows_faults: "se_fault rows_env q st = None"
  by (simp add: rows_env_def)

lemmas rows_run = deleteRow_def sample_fuel delete_row_step run_statement_def rows_faults rows_order sample_referring release_def Let_def
  sample_pk sample_columns sample_rules rows_where_def sql_eq_def row_key_def remove_row_def sample_rows

lemma sample_spec_env: "se_spec rows_env = sample_spec"
  by (simp add: rows_env_def)

lemma sample_delete: "deleteRow rows_env ''core_job'' (JNum 2) sample_store =
    Inr (sample_store(''core_jobmajor'' := [], ''core_job'' := []))"
  by (simp add: rows_run sample_spec_env del: delete_row.simps)

text \<open>The department of the sample is referred to by a demand only, which loses its department.\<close>

theorem delete_always_ends_witness:
  "\<exists>st'. deleteRow rows_env ''core_department'' (JNum 1) sample_store = Inr st'"
proof -
  have free: "\<not> protected_row sample_spec ''core_department'' (JNum 1) sample_store"
    by (auto simp: protected_row_def sample_rows sample_columns sample_rules dest!: sample_is_ref)
  show ?thesis
    using delete_always_ends [of rows_env "''core_department''" "JNum 1" sample_store]
      sample_sound sample_tables free by (simp add: sample_spec_env rows_faults)
qed

theorem delete_keeps_references_witness:
  "references_hold sample_spec (sample_store(''core_jobmajor'' := [], ''core_job'' := [])) \<and>
   shrinks sample_spec sample_store (sample_store(''core_jobmajor'' := [], ''core_job'' := []))"
proof -
  have A: "insert (JNum 2) (identities sample_spec sample_store) \<subseteq> {JNum 1, JNum 2, JNum 3}"
    using sample_identities by simp
  show ?thesis
    using delete_keeps_references [of rows_env "''core_job''" sample_store "JNum 2", OF _ _ _ _ _ _ sample_delete, unfolded sample_spec_env]
      sample_sound sample_tables sample_references inj_on_subset [OF sample_printable A] A
    by blast
qed

end
