(* ===== verification/ResourceFacts.thy ===== *)
theory ResourceFacts
  imports Resources StoreFacts
begin

text \<open>
  What the generic create and update guarantee: a request changes only columns it may write, every
  stored reference and choice was checked, and the departments stay a tree of two levels.
\<close>

subsection \<open>Objects\<close>

lemma distinct_put_key: "distinct (map fst m) \<Longrightarrow> distinct (map fst (put k v m))"
proof (induction m)
  case (Cons p m)
  obtain a b where p: "p = (a, b)" by (cases p)
  show ?case
  proof (cases "k = a")
    case True
    then show ?thesis using Cons.prems p by simp
  next
    case False
    have "a \<notin> fst ` set (put k v m)" using Cons.prems p False by (simp add: keys_put)
    then show ?thesis using Cons p False by simp
  qed
qed simp

lemma map_of_no_key: "map_of m k = None \<longleftrightarrow> \<not> has_key m k"
  by (simp add: has_key_def map_of_eq_None_iff)

lemma fld_no_key: "\<not> has_key m k \<Longrightarrow> fld m k = JNull"
  by (simp add: fld_def flip: map_of_no_key)

lemma fld_entry: "distinct (map fst m) \<Longrightarrow> (k, v) \<in> set m \<Longrightarrow> fld m k = v"
  by (simp add: fld_def)

lemma has_key_Cons: "has_key ((k, v) # m) k' \<longleftrightarrow> k' = k \<or> has_key m k'"
  by (auto simp: has_key_def)

lemma fld_put_sets: "fld (put_all sets r) c = (if has_key sets c then fld (rev sets) c else fld r c)"
proof (induction sets arbitrary: r)
  case Nil
  then show ?case by (simp add: put_all_def has_key_def)
next
  case (Cons s sets)
  obtain k v where s: "s = (k, v)" by (cases s)
  have e: "put_all (s # sets) r = put_all sets (put k v r)" by (simp add: put_all_def s)
  have "has_key (rev sets) c = has_key sets c" by (simp add: has_key_def)
  then have f: "fld (rev (s # sets)) c = (if has_key sets c then fld (rev sets) c else if c = k then v else JNull)"
    using map_of_no_key [of "rev sets" c]
    by (cases "map_of (rev sets) c") (auto simp: s fld_def map_add_def)
  show ?case unfolding e Cons.IH f by (auto simp: s has_key_Cons)
qed

subsection \<open>The values taken from a request\<close>

lemma incoming_keys:
  assumes "has_key (incoming fs body) k"
  shows "\<exists>name f. (name, f) \<in> set fs \<and> \<not> ser_read_only f \<and> ser_source f = k"
proof -
  let ?ok = "\<exists>name f. (name, f) \<in> set fs \<and> \<not> ser_read_only f \<and> ser_source f = k"
  have one: "has_key (take_value fs e vs) k \<Longrightarrow> has_key vs k \<or> ?ok" for e vs
    using map_of_SomeD [of fs "fst e"]
    by (cases "map_of fs (fst e)") (auto simp: take_value_def split: if_splits)
  have "has_key (fold (take_value fs) es vs) k \<Longrightarrow> has_key vs k \<or> ?ok" for es vs
  proof (induction es arbitrary: vs)
    case (Cons e es)
    then have "has_key (take_value fs e vs) k \<or> ?ok" by simp
    then show ?case using one by blast
  qed simp
  from this [OF assms [unfolded incoming_def]] show ?thesis by (simp add: has_key_def)
qed

lemma incoming_distinct: "distinct (map fst (incoming fs body))"
proof -
  have "distinct (map fst vs) \<Longrightarrow> distinct (map fst (fold (take_value fs) es vs))" for es vs
    by (induction es arbitrary: vs) (auto simp: take_value_def distinct_put_key split: option.splits)
  then show ?thesis by (simp add: incoming_def)
qed

definition number_or_null :: "json \<Rightarrow> bool" where
  "number_or_null v \<longleftrightarrow> v = JNull \<or> (\<exists>n :: int. v = JNum (of_int n))"

lemma coerced_shape:
  assumes "coerced spec table vs = Inr ws" and "distinct (map fst vs)"
  shows "distinct (map fst ws)" and "has_key ws k \<longleftrightarrow> has_key vs k"
    and "fieldFor spec table k = Some f \<Longrightarrow> whole_number f \<Longrightarrow> number_or_null (fld ws k)"
proof -
  have keys: "distinct (map fst b) \<and> has_key b = has_key vs"
    if "coerce_entry spec table e a = Inr b" "e \<in> set vs" "distinct (map fst a) \<and> has_key a = has_key vs" for e a b
  proof -
    have "has_key vs (fst e)" using that(2) by (force simp: has_key_def)
    then have "has_key (put (fst e) v a) = has_key vs" for v using that(3) by auto
    then show ?thesis
      using that(1,3) distinct_put_key by (auto simp: coerce_entry_def andThen_eq_Inr split: option.splits if_splits)
  qed
  have "distinct (map fst ws) \<and> has_key ws = has_key vs"
    using assms(1) unfolding coerced_def
    by (rule foldE_invariant) (use assms(2) keys in blast)+
  then show "distinct (map fst ws)" "has_key ws k \<longleftrightarrow> has_key vs k" by auto
  assume f: "fieldFor spec table k = Some f" "whole_number f"
  let ?P = "\<lambda>s. fld s k = fld vs k \<or> number_or_null (fld s k)"
  let ?Q = "\<lambda>e s. fst e = k \<longrightarrow> number_or_null (fld s k)"
  let ?R = "\<lambda>a b. number_or_null (fld a k) \<longrightarrow> number_or_null (fld b k)"
  have "?P ws \<and> ?R vs ws \<and> (\<forall>e \<in> set vs. ?Q e ws)"
    using assms(1) unfolding coerced_def
  proof (rule foldE_each [where P = ?P and R = ?R])
    fix e a b assume e: "e \<in> set vs" "coerce_entry spec table e a = Inr b" "?P a"
    show "?P b \<and> ?R a b \<and> ?Q e b"
    proof (cases "fst e = k")
      case True
      show ?thesis
      proof (cases "snd e = JNull")
        case null: True
        have "e = (k, JNull)" using True null by (cases e) simp
        then have v: "fld vs k = JNull" using fld_entry [OF assms(2)] e(1) by simp
        have "b = a" using e(2) f null True by (simp add: coerce_entry_def)
        moreover have "number_or_null (fld a k)" using e(3) v by (auto simp: number_or_null_def)
        ultimately show ?thesis by simp
      next
        case False
        then obtain n :: int where "b = put k (JNum (of_int n)) a"
          using e True f by (auto simp: coerce_entry_def andThen_eq_Inr coerce_value_def split: option.splits)
        then show ?thesis by (auto simp: number_or_null_def)
      qed
    next
      case False
      then have "fld b k = fld a k"
        using e(2) by (auto simp: coerce_entry_def andThen_eq_Inr split: option.splits if_splits)
      then show ?thesis using e(3) False by simp
    qed
  qed auto
  then show "number_or_null (fld ws k)"
  proof (cases "has_key vs k")
    case True
    then obtain e where "e \<in> set vs" "fst e = k" by (auto simp: has_key_def)
    then show ?thesis using \<open>?P ws \<and> ?R vs ws \<and> (\<forall>e \<in> set vs. ?Q e ws)\<close> by blast
  next
    case False
    then have "\<not> has_key ws k" using \<open>distinct (map fst ws) \<and> has_key ws = has_key vs\<close> by simp
    then show ?thesis by (simp add: fld_no_key number_or_null_def)
  qed
qed

lemma merged_other:
  assumes "\<And>k v f. (k, v) \<in> set vs \<Longrightarrow> fieldFor spec table k = Some f \<Longrightarrow> sf_column f \<noteq> c"
  shows "fld (merged_row spec table vs current) c = fld current c"
proof -
  have "fld (fold (merge_entry spec table) es m) c = fld m c" if "set es \<subseteq> set vs" for es m
    using that
  proof (induction es arbitrary: m)
    case (Cons e es)
    then have "fld (merge_entry spec table e m) c = fld m c"
      using assms [of "fst e" "snd e"] by (auto simp: merge_entry_def split: option.splits)
    then show ?case using Cons by simp
  qed simp
  then show ?thesis by (simp add: merged_row_def)
qed

lemma merged_given:
  assumes "distinct (map fst vs)" and "(k, v) \<in> set vs" and "fieldFor spec table k = Some f"
    and "\<And>k' v' g. (k', v') \<in> set vs \<Longrightarrow> fieldFor spec table k' = Some g \<Longrightarrow> sf_column g = sf_column f \<Longrightarrow> k' = k"
  shows "fld (merged_row spec table vs current) (sf_column f) = v"
proof -
  obtain as bs where vs: "vs = as @ (k, v) # bs" using assms(2) by (auto simp: in_set_conv_decomp)
  have "k \<notin> fst ` set bs" using assms(1) vs by auto
  then have b: "\<And>k' v' g. (k', v') \<in> set bs \<Longrightarrow> fieldFor spec table k' = Some g \<Longrightarrow> sf_column g \<noteq> sf_column f"
    using assms(4) vs by (metis (no_types, lifting) append_is_Nil_conv fst_conv image_eqI in_set_conv_decomp insertCI list.set(2) set_append Un_iff)
  have "merged_row spec table vs current = merged_row spec table bs (merge_entry spec table (k, v) (fold (merge_entry spec table) as current))"
    by (simp add: merged_row_def vs)
  then show ?thesis using merged_other [OF b] assms(3) by (simp add: merge_entry_def)
qed

subsection \<open>What an update may change\<close>

text \<open>The names a request may set, and those the program computes for some resources.\<close>

definition writable_names :: "resource_spec \<Rightarrow> string set" where
  "writable_names rs = set (map (\<lambda>(name, f). ser_source f) (filter (\<lambda>(name, f). \<not> ser_read_only f) (rs_fields rs)))"

definition computed_names :: "string set" where
  "computed_names = {''email'', ''contact_level'', ''can_delegate'', ''phone'', ''identity_hash'', ''name_pinyin'',
     ''name_pinyin_initials'', ''password'', ''date_joined''}"

lemma rules_keys:
  assumes "resource_rules env st resource i body current merged vs = Inr ws" and "has_key ws k"
  shows "has_key vs k \<or> k \<in> computed_names"
  using assms
  by (auto simp: resource_rules_def keep_def andThen_eq_Inr check_contact_def check_candidate_def Let_def computed_names_def
      split: if_splits option.splits)

lemma email_keys:
  assumes "check_email env st resource i merged vs = Inr ws" and "has_key ws k"
  shows "has_key vs k \<or> k \<in> computed_names"
  using assms by (auto simp: check_email_def Let_def computed_names_def split: if_splits)

lemma late_keys:
  assumes "has_key (with_secret env resource i (with_pinyin env table vs)) k"
  shows "has_key vs k \<or> k \<in> computed_names"
  using assms by (auto simp: with_secret_def with_pinyin_def Let_def computed_names_def split: if_splits)

lemma accepted_keys:
  assumes "accepted_values env resource rs i body current st = Inr vs" and "has_key vs k"
  shows "k \<in> writable_names rs \<or> k \<in> computed_names"
proof -
  let ?spec = "we_spec env" and ?table = "rs_table rs"
  obtain v1 v2 v3 where
    c: "coerced ?spec ?table (incoming (rs_fields rs) body) = Inr v1" and
    e: "check_email env st resource i (merged_row ?spec ?table v1 current) v1 = Inr v2" and
    r: "resource_rules env st resource i body current (merged_row ?spec ?table v1 current) v2 = Inr v3" and
    v: "vs = with_secret env resource i (with_pinyin env ?table v3)"
    using assms(1) by (auto simp: accepted_values_def Let_def andThen_eq_Inr split: if_splits)
  have "has_key v1 k \<or> k \<in> computed_names"
    using late_keys [of env resource i ?table v3 k] rules_keys [OF r] email_keys [OF e] assms(2) v by blast
  moreover have "k \<in> writable_names rs" if "has_key v1 k"
    using incoming_keys [of "rs_fields rs" body k] that coerced_shape(2) [OF c incoming_distinct]
    by (force simp: writable_names_def)
  ultimately show ?thesis by blast
qed

lemma column_settings_key:
  "has_key (column_settings now i vs fs) c \<Longrightarrow>
    \<exists>f \<in> set fs. \<not> sf_primary f \<and> sf_column f = c \<and> column_setting now i vs f \<noteq> None"
  by (induction fs) (auto simp: has_key_def split: if_splits option.splits)

lemma given_key: "value_given f vs \<noteq> None \<Longrightarrow> has_key vs (sf_name f) \<or> has_key vs (sf_column f)"
  by (auto simp: value_given_def split: if_splits)

lemma one_row_Inr: "one_row rs = Inr r \<longleftrightarrow> rs \<noteq> [] \<and> r = hd rs"
  by (cases rs) (auto simp: one_row_def)

lemma save_current:
  assumes "saveRow env table i vs st = Inr (saved, st')" and "i \<noteq> JNull"
    and "primaryColumn (se_spec env) table = ''id''" and "get_row (se_spec env) st table i = Inr current"
  shows "saved = put_all (column_settings (se_now env) i vs (model_fields (se_spec env) table)) current"
proof -
  let ?sets = "column_settings (se_now env) i vs (model_fields (se_spec env) table)"
  have c: "one_row (rows_where st table ''id'' i) = Inr current"
    using assms(3,4) by (auto simp: get_row_def split: if_splits)
  show ?thesis
  proof (cases "?sets = []")
    case True
    then show ?thesis using assms by (auto simp: saveRow_def Let_def put_all_def split: if_splits)
  next
    case False
    then have "update_row env table i ?sets st = Inr (saved, st')"
      using assms(1,2) by (simp add: saveRow_def Let_def split: if_splits)
    then show ?thesis using c by (auto simp: update_row_def store_row_def andThen_eq_Inr split: option.splits)
  qed
qed

lemma write_steps:
  assumes "writeResource env resource i body p site = Inr ((status, saved), site')"
    and "map_of (sp_resources (we_spec env)) resource = Some rs"
  obtains current vs st db st' where
    "current_row (we_spec env) (site_rows site) (rs_table rs) i = Inr current"
    "accepted_values env resource rs i body current (site_rows site) = Inr vs"
    "saveRow (we_store env) (rs_table rs) i vs (site_rows site) = Inr (saved, st)"
    "after_save env resource p current saved st (site_db site) = Inr db"
    "syncRelations env resource saved body st = Inr st'" "site_rows site' = st'"
  using assms unfolding writeResource_def by (auto simp: Let_def andThen_eq_Inr)

text \<open>C31. An update changes a column only if the request may set it or the program computes it: every
  other column of the saved row, the primary key and every read-only field among them, keeps its
  value, whatever the request contains.
\<close>

theorem update_keeps_read_only:
  assumes "writeResource env resource i body p site = Inr ((status, saved), site')" and "i \<noteq> JNull"
    and "map_of (sp_resources (we_spec env)) resource = Some rs"
    and "primaryColumn (we_spec env) (rs_table rs) = ''id''"
    and "get_row (we_spec env) (site_rows site) (rs_table rs) i = Inr current"
    and "fld saved c \<noteq> fld current c"
  shows "\<exists>f \<in> set (model_fields (we_spec env) (rs_table rs)). sf_column f = c \<and> \<not> sf_primary f \<and>
    (sf_timestamp f = ''update'' \<or> sf_name f \<in> writable_names rs \<union> computed_names \<or>
     sf_column f \<in> writable_names rs \<union> computed_names)"
proof -
  let ?fs = "model_fields (we_spec env) (rs_table rs)"
  obtain cur vs st where a: "current_row (we_spec env) (site_rows site) (rs_table rs) i = Inr cur"
    "accepted_values env resource rs i body cur (site_rows site) = Inr vs"
    "saveRow (we_store env) (rs_table rs) i vs (site_rows site) = Inr (saved, st)"
    by (rule write_steps [OF assms(1,3)])
  let ?sets = "column_settings (se_now (we_store env)) i vs ?fs"
  have "saved = put_all ?sets current" using save_current [OF a(3) assms(2,4,5)] .
  then have "has_key ?sets c" using assms(6) by (simp add: fld_put_sets split: if_splits)
  then obtain f where f: "f \<in> set ?fs" "\<not> sf_primary f" "sf_column f = c"
    "column_setting (se_now (we_store env)) i vs f \<noteq> None"
    using column_settings_key by blast
  then have "sf_timestamp f = ''update'' \<or> value_given f vs \<noteq> None"
    using assms(2) by (auto simp: column_setting_def Let_def split: if_splits option.splits)
  then show ?thesis using f given_key accepted_keys [OF a(2)] by blast
qed

text \<open>
  A candidate cannot be created through the generic create: spec.json makes the phone read-only, so
  a new row has none when the phone is checked.
\<close>

lemma candidate_creation_refused:
  assumes "\<And>k f. k \<in> writable_names rs \<Longrightarrow> fieldFor (we_spec env) (rs_table rs) k = Some f \<Longrightarrow> sf_column f \<noteq> ''phone''"
  shows "accepted_values env ''candidates'' rs JNull body [] st \<noteq> Inr vs"
proof
  let ?spec = "we_spec env" and ?table = "rs_table rs"
  assume "accepted_values env ''candidates'' rs JNull body [] st = Inr vs"
  then obtain v1 v2 v3 where
    c: "coerced ?spec ?table (incoming (rs_fields rs) body) = Inr v1" and
    r: "check_candidate env (merged_row ?spec ?table v1 []) v2 = Inr v3"
    by (auto simp: accepted_values_def Let_def andThen_eq_Inr resource_rules_def split: if_splits)
  have "k \<in> writable_names rs" if "(k, v) \<in> set v1" for k v
  proof -
    have "has_key v1 k" using that by (force simp: has_key_def)
    then show ?thesis
      using incoming_keys [of "rs_fields rs" body k] coerced_shape(2) [OF c incoming_distinct]
      by (force simp: writable_names_def)
  qed
  then have "fld (merged_row ?spec ?table v1 []) ''phone'' = fld [] ''phone''"
    using assms by (intro merged_other) blast
  then show False using r by (simp add: check_candidate_def normalizedPhone_def Let_def)
qed

text \<open>A JSON number given for a text column is stored as \<open>fmt.Sprint\<close> prints a \<open>float64\<close>.\<close>

lemma number_as_text: "coerce_value (plain_field ''employee_no'' ''CharField'') (JNum 1234567) = Inr (JStr ''1.234567e+06'')"
  by code_simp

subsection \<open>The departments stay a tree\<close>

text \<open>The model and the resource of departments as spec.json has them.\<close>

definition level_field :: spec_field where
  "level_field = (plain_field ''level'' ''PositiveSmallIntegerField'')\<lparr>sf_default := JNum 2\<rparr>"

definition department_fields :: "spec_field list" where
  "department_fields = [id_field, (plain_field ''name'' ''CharField'')\<lparr>sf_max_length := Some 128\<rparr>, level_field,
     parent_field, (plain_field ''entity'' ''CharField'')\<lparr>sf_max_length := Some 64, sf_blank := True\<rparr>]"

definition serial :: "string \<Rightarrow> string \<Rightarrow> bool \<Rightarrow> bool \<Rightarrow> bool \<Rightarrow> serial_field" where
  "serial source type read_only required allow_null = \<lparr> ser_source = source, ser_type = type,
     ser_read_only = read_only, ser_required = required, ser_allow_null = allow_null \<rparr>"

definition department_resource :: resource_spec where
  "department_resource = \<lparr> rs_table = ''core_department'',
     rs_fields = [(''id'', serial ''id'' ''IntegerField'' True False False),
       (''name'', serial ''name'' ''CharField'' False True False),
       (''level'', serial ''level'' ''IntegerField'' False False False),
       (''parent'', serial ''parent'' ''PrimaryKeyRelatedField'' False True True),
       (''parent_id'', serial ''parent.id'' ''IntegerField'' True False False),
       (''parent_name'', serial ''parent.name'' ''CharField'' True False False),
       (''primary_department_id'', serial ''*'' ''SerializerMethodField'' True False False),
       (''primary_department_name'', serial ''*'' ''SerializerMethodField'' True False False),
       (''entity'', serial ''entity'' ''CharField'' False False False)],
     rs_permission = JNull,
     rs_by_action = [(''list'', JStr ''department.view''), (''retrieve'', JStr ''department.view''),
       (''create'', JStr ''department.manage''), (''update'', JStr ''department.manage''),
       (''partial_update'', JStr ''department.manage''), (''destroy'', JStr ''department.manage'')],
     rs_read_only = False \<rparr>"

definition has_departments :: "app_spec \<Rightarrow> bool" where
  "has_departments spec \<longleftrightarrow> map_of (sp_models spec) ''core_department'' = Some department_fields \<and>
     map_of (sp_resources spec) ''departments'' = Some department_resource"

definition level_of :: "object \<Rightarrow> int" where
  "level_of d = num (fld d ''level'')"

text \<open>A department is of the first level without a parent, or of the second below one of the first.\<close>

definition placed :: "object list \<Rightarrow> object \<Rightarrow> bool" where
  "placed ds d \<longleftrightarrow> level_of d = 1 \<and> fld d ''parent_id'' = JNull \<or>
     level_of d = 2 \<and> fld d ''parent_id'' \<noteq> JNull \<and>
       (\<exists>p \<in> set ds. fld p ''id'' = fld d ''parent_id'' \<and> level_of p = 1)"

definition department_tree :: "store \<Rightarrow> bool" where
  "department_tree st \<longleftrightarrow> list_all (placed (st ''core_department'')) (st ''core_department'')"

definition ids_unique :: "object list \<Rightarrow> bool" where
  "ids_unique ds \<longleftrightarrow> distinct (map (\<lambda>d. fld d ''id'') ds) \<and> list_all (\<lambda>d. fld d ''id'' \<noteq> JNull) ds"

lemma department_columns:
  "sf_name level_field = ''level''" "sf_column level_field = ''level''" "\<not> sf_primary level_field"
  "sf_name parent_field = ''parent''" "\<not> sf_primary parent_field"
  "sf_relation parent_field = ''core_department''"
  "sf_timestamp level_field = []" "sf_timestamp parent_field = []" "sf_default level_field = JNum 2"
  "sf_default parent_field = JNull" "sf_null parent_field" "\<not> sf_null level_field"
  by (simp_all add: level_field_def parent_field_def ref_field_def plain_field_def)

lemma department_model:
  assumes "has_departments spec"
  shows "model_fields spec ''core_department'' = department_fields"
    and "primaryColumn spec ''core_department'' = ''id''"
    and "fieldFor spec ''core_department'' ''level'' = Some level_field"
    and "fieldFor spec ''core_department'' ''parent'' = Some parent_field"
    and "fieldFor spec ''core_department'' ''name_pinyin'' = None"
proof -
  show m: "model_fields spec ''core_department'' = department_fields"
    using assms by (simp add: has_departments_def model_fields_def)
  show "primaryColumn spec ''core_department'' = ''id''"
    by (simp add: primaryColumn_def m department_fields_def id_field_def plain_field_def)
  show "fieldFor spec ''core_department'' ''level'' = Some level_field"
    by (simp add: fieldFor_def m department_fields_def id_field_def plain_field_def level_field_def)
  show "fieldFor spec ''core_department'' ''parent'' = Some parent_field"
    by (simp add: fieldFor_def m department_fields_def id_field_def plain_field_def level_field_def parent_field_def ref_field_def)
  show "fieldFor spec ''core_department'' ''name_pinyin'' = None"
    by (simp add: fieldFor_def m department_fields_def id_field_def plain_field_def level_field_def parent_field_def ref_field_def)
qed

lemma department_writable: "writable_names department_resource = {''name'', ''level'', ''parent'', ''entity''}"
  by (simp add: writable_names_def department_resource_def serial_def)

lemma department_key_column:
  assumes "has_departments spec" and "k \<in> {''name'', ''level'', ''parent'', ''entity''}"
    and "fieldFor spec ''core_department'' k = Some f"
  shows "sf_column f = ''level'' \<Longrightarrow> k = ''level''" and "sf_column f = ''parent_id'' \<Longrightarrow> k = ''parent''"
  using assms(2,3)
  by (auto simp: fieldFor_def department_model(1) [OF assms(1)] department_fields_def id_field_def plain_field_def
      level_field_def parent_field_def ref_field_def)

text \<open>The columns of a saved row.\<close>

lemma saved_column:
  assumes "distinct (map sf_column fs)" and "f \<in> set fs" and "\<not> sf_primary f"
  shows "fld (put_all (column_settings now i vs fs) r) (sf_column f) =
    (case column_setting now i vs f of None \<Rightarrow> fld r (sf_column f) | Some v \<Rightarrow> stored_value f v)"
  using assms(1,2)
proof (induction fs arbitrary: r)
  case Nil
  then show ?case by simp
next
  case (Cons g fs)
  let ?r = "if sf_primary g then r else case column_setting now i vs g of None \<Rightarrow> r
    | Some v \<Rightarrow> put (sf_column g) (stored_value g v) r"
  have e: "put_all (column_settings now i vs (g # fs)) r = put_all (column_settings now i vs fs) ?r"
    by (auto simp: put_all_def split: option.splits)
  show ?case
  proof (cases "f = g")
    case True
    then have "sf_column f \<notin> sf_column ` set fs" using Cons.prems(1) by simp
    then have "\<not> has_key (column_settings now i vs fs) (sf_column f)"
      using column_settings_key [of now i vs fs "sf_column f"] by (metis image_eqI)
    then have "fld (put_all (column_settings now i vs fs) ?r) (sf_column f) = fld ?r (sf_column f)"
      by (simp add: fld_put_sets)
    then show ?thesis unfolding e using True assms(3) by (simp split: option.splits)
  next
    case False
    then have "f \<in> set fs" "sf_column g \<noteq> sf_column f" using Cons.prems by auto
    then show ?thesis unfolding e using Cons by (simp split: option.splits)
  qed
qed

lemma department_column:
  assumes "f \<in> {level_field, parent_field}"
  shows "fld (put_all (column_settings now i vs department_fields) r) (sf_column f) =
    (case column_setting now i vs f of None \<Rightarrow> fld r (sf_column f) | Some v \<Rightarrow> stored_value f v)"
proof (rule saved_column)
  show "distinct (map sf_column department_fields)"
    by (simp add: department_fields_def id_field_def plain_field_def level_field_def parent_field_def ref_field_def)
  show "f \<in> set department_fields" using assms by (auto simp: department_fields_def)
  show "\<not> sf_primary f" using assms department_columns by auto
qed

lemma stored_number:
  assumes "f \<in> {level_field, parent_field}" and "number_or_null v"
  shows "stored_value f v = v"
  using assms by (auto simp: stored_value_def number_or_null_def truncate_rat_def Let_def)

lemma settings_distinct:
  assumes "distinct (map sf_column fs)"
  shows "distinct (map fst (column_settings now i vs fs))"
  using assms
proof (induction fs)
  case (Cons f fs)
  have "sf_column f \<notin> fst ` set (column_settings now i vs fs)"
    using column_settings_key [of now i vs fs "sf_column f"] Cons.prems unfolding has_key_def
    by (metis (no_types, lifting) distinct.simps(2) image_eqI list.set_map list.simps(9))
  then show ?case using Cons by (auto split: option.splits)
qed simp

lemma put_all_distinct:
  assumes "distinct (map fst sets)"
  shows "fld (put_all sets []) c = fld sets c"
proof -
  have "map_of (rev sets) c = map_of sets c"
    using assms by (metis distinct_rev map_of_eqI map_of_is_SomeI map_of_SomeD not_None_eq rev_map set_rev)
  then show ?thesis using fld_no_key [of sets c] unfolding fld_put_sets by (auto simp: fld_def)
qed

lemma tree_update:
  assumes tree: "list_all (placed ds) ds" and i: "fld saved ''id'' = i"
    and saved: "level_of saved = 1 \<and> fld saved ''parent_id'' = JNull \<or>
      level_of saved = 2 \<and> fld saved ''parent_id'' \<noteq> JNull \<and>
      (\<exists>p \<in> set ds. fld p ''id'' = fld saved ''parent_id'' \<and> level_of p = 1 \<and> fld p ''id'' \<noteq> i)"
    and free: "level_of saved = 1 \<or> (\<forall>d \<in> set ds. fld d ''parent_id'' \<noteq> i)"
  shows "list_all (placed (map (\<lambda>d. if fld d ''id'' = i then saved else d) ds)) (map (\<lambda>d. if fld d ''id'' = i then saved else d) ds)"
proof -
  let ?g = "\<lambda>d. if fld d ''id'' = i then saved else d"
  have gid: "fld (?g d) ''id'' = fld d ''id''" for d using i by simp
  have stays: "\<exists>p' \<in> set (map ?g ds). fld p' ''id'' = fld p ''id'' \<and> level_of p' = 1"
    if "p \<in> set ds" "level_of p = 1" "fld p ''id'' = i \<Longrightarrow> level_of saved = 1" for p
    using that gid [of p] by (intro bexI [of _ "?g p"]) auto
  have "placed (map ?g ds) (?g d)" if d: "d \<in> set ds" for d
  proof (cases "fld d ''id'' = i")
    case True
    then have e: "?g d = saved" by simp
    from saved show ?thesis
    proof
      assume "level_of saved = 2 \<and> fld saved ''parent_id'' \<noteq> JNull \<and>
        (\<exists>p \<in> set ds. fld p ''id'' = fld saved ''parent_id'' \<and> level_of p = 1 \<and> fld p ''id'' \<noteq> i)"
      then obtain p where p: "p \<in> set ds" "fld p ''id'' = fld saved ''parent_id''" "level_of p = 1" "fld p ''id'' \<noteq> i"
        and l: "level_of saved = 2" "fld saved ''parent_id'' \<noteq> JNull" by blast
      have "\<exists>p' \<in> set (map ?g ds). fld p' ''id'' = fld saved ''parent_id'' \<and> level_of p' = 1"
        using stays [OF p(1,3)] p(2,4) by simp
      then show ?thesis unfolding e placed_def using l by blast
    qed (simp only: e placed_def simp_thms)
  next
    case False
    then have e: "?g d = d" by simp
    from tree d have "placed ds d" by (simp add: list_all_iff)
    then consider "level_of d = 1 \<and> fld d ''parent_id'' = JNull"
      | p where "level_of d = 2" "fld d ''parent_id'' \<noteq> JNull" "p \<in> set ds" "fld p ''id'' = fld d ''parent_id''" "level_of p = 1"
      unfolding placed_def by blast
    then show ?thesis
    proof cases
      case 1
      then show ?thesis unfolding e placed_def by simp
    next
      case (2 p)
      have "\<exists>p' \<in> set (map ?g ds). fld p' ''id'' = fld p ''id'' \<and> level_of p' = 1"
        by (rule stays [OF 2(3,5)]) (use free d 2(4) in auto)
      then show ?thesis unfolding e placed_def using 2 by simp
    qed
  qed
  then show ?thesis unfolding list_all_iff set_map by blast
qed

lemma tree_insert:
  assumes "list_all (placed ds) ds" and "placed ds row"
  shows "list_all (placed (ds @ [row])) (ds @ [row])"
  using assms by (auto simp: list_all_iff placed_def)

text \<open>What an accepted request for a department contains.\<close>

lemma department_accepted:
  assumes spec: "has_departments (we_spec env)"
    and "accepted_values env ''departments'' department_resource i body current st = Inr vs"
  shows "distinct (map fst vs)" and "has_key vs k \<Longrightarrow> k \<in> {''name'', ''level'', ''parent'', ''entity''}"
    and "number_or_null (fld vs ''level'')" and "number_or_null (fld vs ''parent'')"
    and "has_key vs ''level'' \<Longrightarrow> fld vs ''level'' \<noteq> JNull"
    and "check_department (we_spec env) st i current (merged_row (we_spec env) ''core_department'' vs current) = Inr ()"
proof -
  let ?spec = "we_spec env"
  have t: "rs_table department_resource = ''core_department''" by (simp add: department_resource_def)
  obtain v1 where
    c: "coerced ?spec ''core_department'' (incoming (rs_fields department_resource) body) = Inr v1" and
    k: "foldE (check_entry ?spec st ''core_department'') v1 () = Inr ()" and
    d: "check_department ?spec st i current (merged_row ?spec ''core_department'' v1 current) = Inr ()" and
    v: "vs = v1"
    using assms(2) t department_model(5) [OF spec]
    by (auto simp: accepted_values_def Let_def andThen_eq_Inr check_email_def resource_rules_def keep_def
        with_secret_def with_pinyin_def split: if_splits)
  note shape = coerced_shape [OF c incoming_distinct]
  show "distinct (map fst vs)" using shape(1) v by simp
  show "has_key vs k \<Longrightarrow> k \<in> {''name'', ''level'', ''parent'', ''entity''}" for k
    using shape(2) v incoming_keys [of "rs_fields department_resource" body k] department_writable
    by (force simp: writable_names_def)
  have "whole_number level_field" "whole_number parent_field"
    by (simp_all add: whole_number_def integer_type_def level_field_def parent_field_def ref_field_def plain_field_def)
  then show "number_or_null (fld vs ''level'')" "number_or_null (fld vs ''parent'')"
    using shape(3) department_model(3,4) [OF spec] v by blast+
  show "check_department ?spec st i current (merged_row ?spec ''core_department'' vs current) = Inr ()" using d v by simp
  assume "has_key vs ''level''"
  then obtain x where x: "(''level'', x) \<in> set v1" using v by (auto simp: has_key_def)
  then have "(''level'', fld vs ''level'') \<in> set v1" using fld_entry [OF shape(1) x] v by simp
  then have "check_entry ?spec st ''core_department'' (''level'', fld vs ''level'') () = Inr ()"
    using k by (simp add: foldE_unit)
  then show "fld vs ''level'' \<noteq> JNull"
    by (auto simp: check_entry_def department_model(3) [OF spec] department_columns split: if_splits)
qed

lemma department_merged:
  assumes spec: "has_departments spec" and d: "distinct (map fst vs)"
    and keys: "\<And>k. has_key vs k \<Longrightarrow> k \<in> {''name'', ''level'', ''parent'', ''entity''}"
  shows "fld (merged_row spec ''core_department'' vs current) ''level'' =
      (if has_key vs ''level'' then fld vs ''level'' else fld current ''level'')"
    and "fld (merged_row spec ''core_department'' vs current) ''parent_id'' =
      (if has_key vs ''parent'' then fld vs ''parent'' else fld current ''parent_id'')"
proof -
  have mem: "(k, v) \<in> set vs \<Longrightarrow> has_key vs k" for k v by (force simp: has_key_def)
  have obt: "\<exists>v. (k, v) \<in> set vs \<and> fld vs k = v" if "has_key vs k" for k
    using that fld_entry [OF d] by (auto simp: has_key_def)
  have level: "k = ''level''"
    if "(k, v) \<in> set vs" "fieldFor spec ''core_department'' k = Some g" "sf_column g = ''level''" for k v g
    using department_key_column(1) [OF spec keys [OF mem [OF that(1)]] that(2,3)] .
  have parent: "k = ''parent''"
    if "(k, v) \<in> set vs" "fieldFor spec ''core_department'' k = Some g" "sf_column g = ''parent_id''" for k v g
    using department_key_column(2) [OF spec keys [OF mem [OF that(1)]] that(2,3)] .
  show "fld (merged_row spec ''core_department'' vs current) ''level'' =
      (if has_key vs ''level'' then fld vs ''level'' else fld current ''level'')"
  proof (cases "has_key vs ''level''")
    case True
    then obtain v where v: "(''level'', v) \<in> set vs" "fld vs ''level'' = v" using obt by blast
    have "fld (merged_row spec ''core_department'' vs current) (sf_column level_field) = v"
      by (rule merged_given [OF d v(1) department_model(3) [OF spec]])
        (rule level, assumption, assumption, simp only: department_columns(2))
    then show ?thesis using v True by (simp only: department_columns(2) if_True)
  next
    case False
    have "fld (merged_row spec ''core_department'' vs current) ''level'' = fld current ''level''"
      by (rule merged_other) (use level mem False in blast)
    then show ?thesis using False by simp
  qed
  show "fld (merged_row spec ''core_department'' vs current) ''parent_id'' =
      (if has_key vs ''parent'' then fld vs ''parent'' else fld current ''parent_id'')"
  proof (cases "has_key vs ''parent''")
    case True
    then obtain v where v: "(''parent'', v) \<in> set vs" "fld vs ''parent'' = v" using obt by blast
    have "fld (merged_row spec ''core_department'' vs current) (sf_column parent_field) = v"
      by (rule merged_given [OF d v(1) department_model(4) [OF spec]])
        (rule parent, assumption, assumption, simp only: sample_columns(1))
    then show ?thesis using v True by (simp only: sample_columns(1) if_True)
  next
    case False
    have "fld (merged_row spec ''core_department'' vs current) ''parent_id'' = fld current ''parent_id''"
      by (rule merged_other) (use parent mem False in blast)
    then show ?thesis using False by simp
  qed
qed

text \<open>Level and parent of the saved row are those the rules have checked.\<close>

definition row_base :: "json \<Rightarrow> object \<Rightarrow> object" where
  "row_base i current = (if i = JNull then [] else current)"

lemma department_saved:
  fixes vs current :: object and now :: json
  assumes spec: "has_departments spec" and d: "distinct (map fst vs)"
    and keys: "\<And>k. has_key vs k \<Longrightarrow> k \<in> {''name'', ''level'', ''parent'', ''entity''}"
    and n: "number_or_null (fld vs ''level'')" "number_or_null (fld vs ''parent'')"
    and current: "i = JNull \<Longrightarrow> current = []"
  defines "saved \<equiv> put_all (column_settings now i vs department_fields) (row_base i current)"
    and "merged \<equiv> merged_row spec ''core_department'' vs current"
  shows "level_of saved \<noteq> 0 \<Longrightarrow> level_of saved = department_level merged"
    and "fld saved ''parent_id'' = fld merged ''parent_id''"
proof -
  have base: "row_base i current = current" using current by (simp add: row_base_def)
  have l: "fld saved ''level'' = (case column_setting now i vs level_field of None \<Rightarrow> fld current ''level''
      | Some v \<Rightarrow> stored_value level_field v)"
    using department_column [of level_field now i vs current] unfolding saved_def base department_columns(2) by simp
  have p: "fld saved ''parent_id'' = (case column_setting now i vs parent_field of None \<Rightarrow> fld current ''parent_id''
      | Some v \<Rightarrow> stored_value parent_field v)"
    using department_column [of parent_field now i vs current] unfolding saved_def base sample_columns(1) by simp
  note m = department_merged [OF spec d keys, of current, folded merged_def]
  have two: "stored_value level_field (JNum 2) = JNum 2"
    using stored_number [of level_field "JNum 2"] number_or_null_def by force
  show "level_of saved = department_level merged" if "level_of saved \<noteq> 0"
    using that n(1) m(1) current
    by (auto simp: level_of_def department_level_def l column_setting_def value_given_def value_absent_def
        department_columns stored_number two Let_def truncate_rat_def split: if_splits)
  have null: "stored_value parent_field JNull = JNull"
    using stored_number [of parent_field JNull] by (simp add: number_or_null_def)
  show "fld saved ''parent_id'' = fld merged ''parent_id''"
    using n(2) m(2) current keys [of "''parent_id''"]
    by (auto simp: p column_setting_def value_given_def value_absent_def department_columns sample_columns stored_number null Let_def
        split: if_splits)
qed

lemma department_checked:
  assumes spec: "has_departments spec" and c: "check_department spec st i current merged = Inr ()"
  shows "department_level merged = 1 \<and> fld merged ''parent_id'' = JNull \<or>
      department_level merged = 2 \<and> fld merged ''parent_id'' \<noteq> JNull \<and> (\<exists>p \<in> set (st ''core_department'').
        fld p ''id'' = fld merged ''parent_id'' \<and> level_of p = 1 \<and> (i \<noteq> JNull \<longrightarrow> fld p ''id'' \<noteq> i))"
    and "i \<noteq> JNull \<Longrightarrow> department_level merged = level_of current \<or>
      (\<forall>d \<in> set (st ''core_department''). fld d ''parent_id'' \<noteq> i)"
proof -
  let ?level = "department_level merged" and ?parent = "fld merged ''parent_id''"
  have l: "?level = 1 \<or> ?level = 2" and
    p: "check_parent spec st i ?level ?parent = Inr ()" and
    u: "\<not> (i \<noteq> JNull \<and> (?level \<noteq> num (fld current ''level'') \<or> num ?parent \<noteq> num (fld current ''parent_id'')) \<and>
        department_used spec st i)"
    using c by (auto simp: check_department_def Let_def andThen_eq_Inr split: if_splits)
  show "?level = 1 \<and> ?parent = JNull \<or> ?level = 2 \<and> ?parent \<noteq> JNull \<and> (\<exists>p \<in> set (st ''core_department'').
      fld p ''id'' = ?parent \<and> level_of p = 1 \<and> (i \<noteq> JNull \<longrightarrow> fld p ''id'' \<noteq> i))"
  proof (cases "?level = 1")
    case True
    then show ?thesis using p by (simp add: check_parent_def)
  next
    case False
    then have two: "?level = 2" using l by simp
    obtain q where q: "get_row spec st ''core_department'' ?parent = Inr q" "num (fld q ''level'') = 1"
      "i \<noteq> JNull \<longrightarrow> num ?parent \<noteq> num i"
      using p two by (auto simp: check_parent_def split: sum.splits if_splits)
    then have "q \<in> set (st ''core_department'') \<and> sql_eq (fld q ''id'') ?parent"
      using department_model(2) [OF spec]
      by (auto simp: get_row_def one_row_Inr rows_where_def split: if_splits) (use hd_in_set in fastforce)+
    then show ?thesis using two q(2,3) by (auto simp: sql_eq_def level_of_def)
  qed
  assume i: "i \<noteq> JNull"
  show "?level = level_of current \<or> (\<forall>d \<in> set (st ''core_department''). fld d ''parent_id'' \<noteq> i)"
  proof (rule disjCI)
    assume "\<not> (\<forall>d \<in> set (st ''core_department''). fld d ''parent_id'' \<noteq> i)"
    then have "rows_where st ''core_department'' (sf_column parent_field) i \<noteq> []"
      using i by (auto simp: rows_where_def sql_eq_def sample_columns filter_empty_conv)
    then have "list_ex (\<lambda>f. sf_relation f = ''core_department'' \<and> rows_where st ''core_department'' (sf_column f) i \<noteq> []) department_fields"
      using department_columns(6) by (simp add: department_fields_def)
    moreover have "(''core_department'', department_fields) \<in> set (sp_models spec)"
      using spec by (auto simp: has_departments_def dest: map_of_SomeD)
    ultimately have "department_used spec st i" unfolding department_used_def list_ex_iff by blast
    then show "?level = level_of current" using u i by (simp add: level_of_def)
  qed
qed

lemma unique_row:
  assumes "ids_unique ds" and "one_row (filter (\<lambda>r. sql_eq (fld r ''id'') i) ds) = Inr current"
  shows "current \<in> set ds" and "fld current ''id'' = i" and "d \<in> set ds \<Longrightarrow> fld d ''id'' = i \<longleftrightarrow> d = current"
proof -
  have c: "current \<in> set (filter (\<lambda>r. sql_eq (fld r ''id'') i) ds)"
    using assms(2) hd_in_set by (fastforce simp: one_row_Inr)
  then show m: "current \<in> set ds" and i: "fld current ''id'' = i" by (auto simp: sql_eq_def)
  have "inj_on (\<lambda>d. fld d ''id'') (set ds)" using assms(1) by (simp add: ids_unique_def distinct_map)
  then show "d \<in> set ds \<Longrightarrow> fld d ''id'' = i \<longleftrightarrow> d = current" using m i by (auto dest: inj_onD)
qed

lemma department_update:
  assumes spec: "has_departments (se_spec env)" and "saveRow env ''core_department'' i vs st = Inr (saved, st')"
    and i: "i \<noteq> JNull" and cur: "get_row (se_spec env) st ''core_department'' i = Inr current"
    and u: "ids_unique (st ''core_department'')"
  shows "saved = put_all (column_settings (se_now env) i vs department_fields) current"
    and "st' ''core_department'' = map (\<lambda>d. if fld d ''id'' = i then saved else d) (st ''core_department'')"
    and "fld saved ''id'' = i"
proof -
  let ?sets = "column_settings (se_now env) i vs department_fields" and ?ds = "st ''core_department''"
  note m = department_model(1,2) [OF spec]
  show s: "saved = put_all ?sets current" using save_current [OF assms(2) i m(2) cur] m(1) by simp
  have one: "one_row (rows_where st ''core_department'' ''id'' i) = Inr current"
    using cur m(2) by (auto simp: get_row_def split: if_splits)
  note row = unique_row [OF u one [unfolded rows_where_def]]
  have "\<not> has_key ?sets ''id''"
  proof
    assume "has_key ?sets ''id''"
    then obtain f where "f \<in> set department_fields" "\<not> sf_primary f" "sf_column f = ''id''"
      using column_settings_key by blast
    then show False
      by (auto simp: department_fields_def id_field_def plain_field_def level_field_def parent_field_def ref_field_def)
  qed
  then show "fld saved ''id'' = i" using s row(2) by (simp add: fld_put_sets)
  have g: "(if fld d ''id'' = i then put_all ?sets d else d) = (if fld d ''id'' = i then saved else d)" if "d \<in> set ?ds" for d
    using row(3) [OF that] s by simp
  show "st' ''core_department'' = map (\<lambda>d. if fld d ''id'' = i then saved else d) ?ds"
  proof (cases "?sets = []")
    case True
    then have "st' = st" "saved = current"
      using assms(2) i cur m(1) s by (auto simp: saveRow_def Let_def put_all_def split: if_splits)
    then show ?thesis using row(3) by (auto intro!: map_idI [symmetric])
  next
    case False
    then have "update_row env ''core_department'' i ?sets st = Inr (saved, st')"
      using assms(2) i m(1) by (simp add: saveRow_def Let_def split: if_splits)
    then have "st' ''core_department'' = map (\<lambda>r. if sql_eq (fld r ''id'') i then put_all ?sets r else r) ?ds"
      by (auto simp: update_row_def store_row_def andThen_eq_Inr split: option.splits)
    also have "\<dots> = map (\<lambda>d. if fld d ''id'' = i then saved else d) ?ds"
    proof -
      have e: "sql_eq (fld r ''id'') i \<longleftrightarrow> fld r ''id'' = i" for r using i by (auto simp: sql_eq_def)
      show ?thesis unfolding e by (rule map_cong [OF refl]) (rule g)
    qed
    finally show ?thesis .
  qed
qed

text \<open>C30. The departments stay a tree of two levels: after any accepted create or update, every
  department is of the first level without a parent or of the second below one of the first, also
  those whose parent was the department changed. The request must not store the level 0: the code
  treats it as 2 when it checks the parent and then stores 0 (see \<open>level_zero_accepted\<close>).
\<close>

theorem departments_stay_a_tree:
  assumes "has_departments (we_spec env)"
    and "writeResource env ''departments'' i body p site = Inr ((status, saved), site')"
    and "department_tree (site_rows site)" and "ids_unique (site_rows site ''core_department'')"
    and "level_of saved \<noteq> 0"
  shows "department_tree (site_rows site')"
proof -
  let ?ds = "site_rows site ''core_department''" and ?spec = "we_spec env"
  have rs: "map_of (sp_resources ?spec) ''departments'' = Some department_resource" "rs_table department_resource = ''core_department''"
    using assms(1) by (simp_all add: has_departments_def department_resource_def)
  obtain current vs st st' where w: "current_row ?spec (site_rows site) ''core_department'' i = Inr current"
    "accepted_values env ''departments'' department_resource i body current (site_rows site) = Inr vs"
    "saveRow (we_store env) ''core_department'' i vs (site_rows site) = Inr (saved, st)"
    "syncRelations env ''departments'' saved body st = Inr st'" "site_rows site' = st'"
    by (rule write_steps [OF assms(2) rs(1)]) (simp only: rs(2))
  have st': "site_rows site' = st" using w(4,5) by (simp add: syncRelations_def Let_def)
  note a = department_accepted [OF assms(1) w(2)]
  have empty: "i = JNull \<Longrightarrow> current = []" using w(1) by (simp add: current_row_def)
  note s = department_saved [where i = i and now = "se_now (we_store env)", OF assms(1) a(1,2,3,4) empty]
  note c = department_checked [OF assms(1) a(6)]
  have tree: "list_all (placed ?ds) ?ds" using assms(3) by (simp add: department_tree_def)
  show ?thesis
  proof (cases "i = JNull")
    case True
    let ?sets = "column_settings (se_now (we_store env)) i vs department_fields"
    have ins: "insert_row (we_store env) ''core_department'' ?sets (site_rows site) = Inr (saved, st)"
      using w(3) True department_model(1) [OF assms(1)] by (simp add: saveRow_def Let_def split: if_splits)
    then have rows: "st ''core_department'' = ?ds @ [saved]"
      by (auto simp: insert_row_def store_row_def Let_def split: option.splits)
    have "distinct (map fst ?sets)"
      by (rule settings_distinct)
        (simp add: department_fields_def id_field_def plain_field_def level_field_def parent_field_def ref_field_def)
    then have f: "fld saved k = fld (put_all ?sets (row_base i current)) k" if "k \<noteq> ''id''" for k
      using ins that put_all_distinct [of ?sets k] True
      by (auto simp: insert_row_def store_row_def Let_def row_base_def split: option.splits)
    have "level_of saved = department_level (merged_row ?spec ''core_department'' vs current)"
      "fld saved ''parent_id'' = fld (merged_row ?spec ''core_department'' vs current) ''parent_id''"
      using s f assms(5) by (simp_all add: level_of_def)
    then have "placed ?ds saved" using c(1) unfolding placed_def by auto
    then show ?thesis using tree_insert [OF tree] rows st' by (simp add: department_tree_def)
  next
    case False
    then have cur: "get_row ?spec (site_rows site) ''core_department'' i = Inr current"
      using w(1) by (simp add: current_row_def)
    note u = department_update [OF assms(1) w(3) False cur assms(4)]
    have one: "one_row (filter (\<lambda>r. sql_eq (fld r ''id'') i) ?ds) = Inr current"
      using cur department_model(2) [OF assms(1)] by (auto simp: get_row_def rows_where_def split: if_splits)
    note row = unique_row [OF assms(4) one]
    have l: "level_of saved = department_level (merged_row ?spec ''core_department'' vs current)"
      "fld saved ''parent_id'' = fld (merged_row ?spec ''core_department'' vs current) ''parent_id''"
      using s u(1) assms(5) False by (simp_all add: row_base_def)
    have free: "level_of saved = 1 \<or> (\<forall>d \<in> set ?ds. fld d ''parent_id'' \<noteq> i)"
    proof (rule disjCI)
      assume "\<not> (\<forall>d \<in> set ?ds. fld d ''parent_id'' \<noteq> i)"
      then obtain d where d: "d \<in> set ?ds" "fld d ''parent_id'' = i" by blast
      then have "placed ?ds d" using tree by (simp add: list_all_iff)
      then obtain q where "q \<in> set ?ds" "fld q ''id'' = i" "level_of q = 1" using d(2) False by (auto simp: placed_def)
      then have "level_of current = 1" using row(3) by blast
      then show "level_of saved = 1" using c(2) [OF False] d l(1) by auto
    qed
    have "list_all (placed (map (\<lambda>d. if fld d ''id'' = i then saved else d) ?ds)) (map (\<lambda>d. if fld d ''id'' = i then saved else d) ?ds)"
      by (rule tree_update [OF tree u(3) _ free]) (use c(1) l False in auto)
    then show ?thesis using u(2) st' by (simp add: department_tree_def)
  qed
qed

subsection \<open>Witnesses\<close>

definition dep_spec :: app_spec where
  "dep_spec = \<lparr> sp_models = [(''core_department'', department_fields)],
     sp_resources = [(''departments'', department_resource)], sp_permission_tree = [], sp_role_permissions = [] \<rparr>"

definition dep_env :: write_env where
  "dep_env = \<lparr> we_store = rows_env\<lparr>se_spec := dep_spec, se_order := \<lambda>table i. sp_models dep_spec\<rparr>,
     we_syllables = (\<lambda>s. [s]), we_sha256 = (\<lambda>s. s), we_address = Some, we_secret = ''s'',
     we_fingerprint = sprint, we_instant = 0 \<rparr>"

definition dep_rows :: store where
  "dep_rows = (\<lambda>table. if table = ''core_department'' then
     [[(''id'', JNum 1), (''name'', JStr ''a''), (''level'', JNum 1), (''parent_id'', JNull)],
      [(''id'', JNum 2), (''name'', JStr ''b''), (''level'', JNum 2), (''parent_id'', JNum 1)]] else [])"

definition dep_site :: site where
  "dep_site = \<lparr> site_rows = dep_rows, site_db = empty_db \<rparr>"

definition dep_write :: "json \<Rightarrow> object \<Rightarrow> go_error + (nat \<times> object) \<times> site" where
  "dep_write i body = writeResource dep_env ''departments'' i body (sample_principal ''secondary'' 1) dep_site"

lemma dep_create: "case dep_write JNull [(''name'', JStr ''c''), (''level'', JStr ''2''), (''parent'', JNum 1)] of
    Inr ((status, saved), site) \<Rightarrow> status = 201 \<and> fld saved ''parent_id'' = JNum 1 \<and> level_of saved = 2 | Inl e \<Rightarrow> False"
  by code_simp

text \<open>Level 0 passes the check as level 2, and 0 is what is stored.\<close>

lemma level_zero_accepted:
  "case dep_write JNull [(''name'', JStr ''c''), (''level'', JNum 0), (''parent'', JNum 1)] of
     Inr ((status, saved), site) \<Rightarrow> level_of saved = 0 \<and> \<not> department_tree (site_rows site) | Inl e \<Rightarrow> False"
  by code_simp

lemma dep_start: "has_departments (we_spec dep_env)" "department_tree (site_rows dep_site)"
  "ids_unique (site_rows dep_site ''core_department'')"
  by (simp add: has_departments_def dep_env_def dep_spec_def) code_simp+

theorem departments_stay_a_tree_witness:
  "\<exists>status saved site. dep_write JNull [(''name'', JStr ''c''), (''level'', JStr ''2''), (''parent'', JNum 1)] =
     Inr ((status, saved), site) \<and> level_of saved = 2 \<and> department_tree (site_rows site)"
proof -
  obtain status saved site where w: "dep_write JNull [(''name'', JStr ''c''), (''level'', JStr ''2''), (''parent'', JNum 1)] =
      Inr ((status, saved), site)" "level_of saved = 2"
    using dep_create by (auto split: sum.splits prod.splits)
  then show ?thesis
    using departments_stay_a_tree [OF dep_start(1) w(1) [unfolded dep_write_def] dep_start(2,3)] by auto
qed

lemma dep_update: "case dep_write (JNum 2) [(''id'', JNum 7), (''name'', JStr ''z'')] of
    Inr ((status, saved), site) \<Rightarrow> fld saved ''name'' = JStr ''z'' \<and> fld saved ''id'' = JNum 2 | Inl e \<Rightarrow> False"
  by code_simp

lemma dep_current: "get_row (we_spec dep_env) (site_rows dep_site) ''core_department'' (JNum 2) =
    Inr [(''id'', JNum 2), (''name'', JStr ''b''), (''level'', JNum 2), (''parent_id'', JNum 1)]"
  by code_simp

theorem update_keeps_read_only_witness:
  "\<exists>status saved site. dep_write (JNum 2) [(''id'', JNum 7), (''name'', JStr ''z'')] = Inr ((status, saved), site)
     \<and> fld saved ''name'' = JStr ''z'' \<and> fld saved ''id'' = JNum 2
     \<and> (\<forall>c. fld saved c = fld [(''id'', JNum 2), (''name'', JStr ''b''), (''level'', JNum 2), (''parent_id'', JNum 1)] c \<or>
         (\<exists>f \<in> set department_fields. sf_column f = c \<and> \<not> sf_primary f \<and>
          (sf_timestamp f = ''update'' \<or> sf_name f \<in> writable_names department_resource \<union> computed_names \<or>
           sf_column f \<in> writable_names department_resource \<union> computed_names)))"
proof -
  obtain status saved site where w: "dep_write (JNum 2) [(''id'', JNum 7), (''name'', JStr ''z'')] = Inr ((status, saved), site)"
    and n: "fld saved ''name'' = JStr ''z''" "fld saved ''id'' = JNum 2"
    using dep_update by (auto split: sum.splits prod.splits)
  have t: "rs_table department_resource = ''core_department''" by (simp add: department_resource_def)
  have r: "map_of (sp_resources (we_spec dep_env)) ''departments'' = Some department_resource"
    using dep_start(1) by (simp add: has_departments_def)
  have "JNum 2 \<noteq> JNull" by simp
  from update_keeps_read_only [OF w [unfolded dep_write_def] this r, unfolded t, OF department_model(2) [OF dep_start(1)] dep_current]
  show ?thesis
    using w n unfolding department_model(1) [OF dep_start(1)] by blast
qed

end
