(* ===== verification/Secrets.thy ===== *)
theory Secrets
  imports GoValues
begin

text \<open>
  Storing the API key of the model service (internal/platform/config.go): the token that \<open>encryptKey\<close>
  writes and \<open>decryptKey\<close> reads, with \<open>encoding/base64\<close>'s URL alphabet, the padding and the checks on
  lengths. AES-CBC and HMAC-SHA-256 are parameters. Byte strings are strings.
\<close>

subsection \<open>Base 64\<close>

definition b64_char :: "nat \<Rightarrow> char" where
  "b64_char n = (if n < 26 then char_of (65 + n) else if n < 52 then char_of (71 + n)
     else if n < 62 then char_of (n - 4) else if n = 62 then CHR ''-'' else CHR ''_'')"

definition b64_value :: "char \<Rightarrow> nat option" where
  "b64_value c = (let b = byte c in
     if 65 \<le> b \<and> b \<le> 90 then Some (b - 65) else if 97 \<le> b \<and> b \<le> 122 then Some (b - 71)
     else if 48 \<le> b \<and> b \<le> 57 then Some (b + 4) else if c = CHR ''-'' then Some 62
     else if c = CHR ''_'' then Some 63 else None)"

fun b64_encode :: "string \<Rightarrow> string" where
  "b64_encode [] = []"
| "b64_encode [a] = [b64_char (byte a div 4), b64_char (byte a mod 4 * 16), CHR ''='', CHR ''='']"
| "b64_encode [a, b] = [b64_char (byte a div 4), b64_char (byte a mod 4 * 16 + byte b div 16),
     b64_char (byte b mod 16 * 4), CHR ''='']"
| "b64_encode (a # b # c # s) = b64_char (byte a div 4) # b64_char (byte a mod 4 * 16 + byte b div 16) #
     b64_char (byte b mod 16 * 4 + byte c div 64) # b64_char (byte c mod 64) # b64_encode s"

text \<open>The decoder of Go skips line breaks and ignores the unused bits of the last character.\<close>

definition quantum :: "nat \<Rightarrow> nat \<Rightarrow> nat \<Rightarrow> nat \<Rightarrow> string" where
  "quantum x y z w = [char_of (x * 4 + y div 16), char_of (y mod 16 * 16 + z div 4), char_of (z mod 4 * 64 + w)]"

fun b64_quanta :: "string \<Rightarrow> string option" where
  "b64_quanta [] = Some []"
| "b64_quanta (p # q # r # t # s) = (case (b64_value p, b64_value q) of
       (Some x, Some y) \<Rightarrow>
         if r = CHR ''='' then (if t = CHR ''='' \<and> s = [] then Some (take 1 (quantum x y 0 0)) else None)
         else (case b64_value r of
             None \<Rightarrow> None
           | Some z \<Rightarrow>
               if t = CHR ''='' then (if s = [] then Some (take 2 (quantum x y z 0)) else None)
               else (case (b64_value t, b64_quanta s) of
                   (Some w, Some bs) \<Rightarrow> Some (quantum x y z w @ bs)
                 | _ \<Rightarrow> None))
     | _ \<Rightarrow> None)"
| "b64_quanta s = None"

definition b64_decode :: "string \<Rightarrow> string option" where
  "b64_decode s = b64_quanta (filter (\<lambda>c. byte c \<noteq> 10 \<and> byte c \<noteq> 13) s)"

lemma b64_table: "list_all (\<lambda>n. b64_value (b64_char n) = Some n \<and> b64_char n \<noteq> CHR ''='' \<and>
    byte (b64_char n) \<noteq> 10 \<and> byte (b64_char n) \<noteq> 13) [0..<64]"
  by code_simp

lemma b64_inverse [simp]:
  assumes "n < 64"
  shows "b64_value (b64_char n) = Some n" and "b64_char n \<noteq> CHR ''=''"
    and "byte (b64_char n) \<noteq> 10" and "byte (b64_char n) \<noteq> 13"
  using b64_table assms by (auto simp: list_all_iff)

lemma b64_parts [simp]:
  "byte a div 4 < 64" "byte a mod 4 * 16 < 64" "byte a mod 4 * 16 + byte b div 16 < 64"
  "byte b mod 16 * 4 < 64" "byte b mod 16 * 4 + byte c div 64 < 64" "byte c mod 64 < 64"
  using byte_less [of a] byte_less [of b] byte_less [of c] by linarith+

lemma byte_pad: "byte (CHR ''='') = 61"
  by (simp add: byte_def)

lemma b64_clean: "c \<in> set (b64_encode s) \<Longrightarrow> byte c \<noteq> 10 \<and> byte c \<noteq> 13"
  by (induction s rule: b64_encode.induct) (auto simp: byte_pad)

lemma byte_parts [simp]:
  "byte b div 16 div 16 = 0" "byte b div 16 mod 16 = byte b div 16" "byte c div 64 div 4 = 0"
  "byte c div 64 mod 4 = byte c div 64"
proof -
  have b: "byte b div 16 < 16" and c: "byte c div 64 < 4" using byte_less [of b] byte_less [of c] by linarith+
  show "byte b div 16 div 16 = 0" "byte b div 16 mod 16 = byte b div 16" by (rule div_less [OF b], rule mod_less [OF b])
  show "byte c div 64 div 4 = 0" "byte c div 64 mod 4 = byte c div 64" by (rule div_less [OF c], rule mod_less [OF c])
qed

lemma b64_quanta_encode: "b64_quanta (b64_encode s) = Some s"
  by (induction s rule: b64_encode.induct) (simp_all add: quantum_def)

lemma b64_roundtrip: "b64_decode (b64_encode s) = Some s"
proof -
  have "filter (\<lambda>c. byte c \<noteq> 10 \<and> byte c \<noteq> 13) (b64_encode s) = b64_encode s"
    using b64_clean by (simp add: filter_id_conv)
  then show ?thesis by (simp add: b64_decode_def b64_quanta_encode)
qed

subsection \<open>The token\<close>

text \<open>
  The primitives under the key derived from the platform's secret: AES-CBC with an initial vector, its
  inverse, and HMAC-SHA-256. \<open>crypto_laws\<close> is what the standard promises of them.
\<close>

record crypto =
  cbc_encrypt :: "string \<Rightarrow> string \<Rightarrow> string"
  cbc_decrypt :: "string \<Rightarrow> string \<Rightarrow> string"
  hmac :: "string \<Rightarrow> string"

definition crypto_laws :: "crypto \<Rightarrow> bool" where
  "crypto_laws cr \<longleftrightarrow> (\<forall>iv plain. length plain mod 16 = 0 \<longrightarrow>
       length (cbc_encrypt cr iv plain) = length plain \<and> cbc_decrypt cr iv (cbc_encrypt cr iv plain) = plain) \<and>
     (\<forall>message. length (hmac cr message) = 32)"

definition big_endian64 :: "nat \<Rightarrow> string" where
  "big_endian64 n = map (\<lambda>i. char_of (n div 256 ^ i mod 256)) [7, 6, 5, 4, 3, 2, 1, 0]"

definition padded :: "string \<Rightarrow> string" where
  "padded plain = (let pad = 16 - length plain mod 16 in plain @ replicate pad (char_of pad))"

definition token_body :: "crypto \<Rightarrow> nat \<Rightarrow> string \<Rightarrow> string \<Rightarrow> string" where
  "token_body cr time iv value = CHR 0x80 # big_endian64 time @ iv @ cbc_encrypt cr iv (padded value)"

definition encryptKey :: "crypto \<Rightarrow> nat \<Rightarrow> string \<Rightarrow> string \<Rightarrow> string" where
  "encryptKey cr time iv value = (let raw = token_body cr time iv value in b64_encode (raw @ hmac cr raw))"

definition unpadded :: "string \<Rightarrow> string option" where
  "unpadded plain = (let pad = byte (last plain) in
     if pad < 1 \<or> 16 < pad \<or> drop (length plain - pad) plain \<noteq> replicate pad (char_of pad) then None
     else Some (take (length plain - pad) plain))"

definition undecipherable :: go_error where
  "undecipherable = bad ''the stored key cannot be decrypted''"

definition decryptKey :: "crypto \<Rightarrow> string \<Rightarrow> go_error + string" where
  "decryptKey cr value =
     (if value = [] then Inr []
      else case b64_decode value of
        None \<Rightarrow> Inl undecipherable
      | Some raw \<Rightarrow>
          if length raw < 73 \<or> hd raw \<noteq> CHR 0x80 \<or> (length raw - 57) mod 16 \<noteq> 0 then Inl undecipherable
          else let signed = take (length raw - 32) raw in
            if hmac cr signed \<noteq> drop (length raw - 32) raw then Inl undecipherable
            else case unpadded (cbc_decrypt cr (take 16 (drop 9 signed)) (drop 25 signed)) of
              None \<Rightarrow> Inl undecipherable
            | Some plain \<Rightarrow> Inr plain)"

lemma padded_length: "length (padded v) mod 16 = 0" "16 \<le> length (padded v)"
proof -
  have "length (padded v) = (length v div 16 + 1) * 16"
  proof -
    have m: "length v mod 16 < 16" by simp
    then have "length (padded v) = length v + (16 - length v mod 16)" by (simp add: padded_def Let_def)
    also have "\<dots> = (length v div 16 + 1) * 16" by presburger
    finally show ?thesis .
  qed
  then show "length (padded v) mod 16 = 0" "16 \<le> length (padded v)" by simp_all
qed

lemma unpadded_padded: "unpadded (padded v) = Some v"
proof -
  let ?pad = "16 - length v mod 16"
  have p: "1 \<le> ?pad" "?pad \<le> 16" using mod_less_divisor [of 16 "length v"] by simp_all
  have "last (padded v) = char_of ?pad" using p by (simp only: padded_def Let_def last_appendR replicate_empty last_replicate)
  then have "byte (last (padded v)) = ?pad" using p by (simp add: byte_def)
  then have "unpadded (padded v) = (if ?pad < 1 \<or> 16 < ?pad \<or>
      drop (length (padded v) - ?pad) (padded v) \<noteq> replicate ?pad (char_of ?pad) then None
      else Some (take (length (padded v) - ?pad) (padded v)))"
    by (simp only: unpadded_def Let_def)
  moreover have "drop (length (padded v) - ?pad) (padded v) = replicate ?pad (char_of ?pad)"
    "take (length (padded v) - ?pad) (padded v) = v"
    by (simp_all add: padded_def Let_def)
  ultimately show ?thesis using p by (simp only: not_less [symmetric]) simp
qed

lemma api_key_inverse:
  assumes "crypto_laws cr" and "length iv = 16"
  shows "decryptKey cr (encryptKey cr time iv value) = Inr value"
proof -
  let ?raw = "token_body cr time iv value" and ?c = "cbc_encrypt cr iv (padded value)"
  have c: "length ?c = length (padded value)" "cbc_decrypt cr iv ?c = padded value"
    using assms(1) padded_length by (auto simp: crypto_laws_def)
  have h: "length (hmac cr ?raw) = 32" using assms(1) by (simp add: crypto_laws_def)
  have b: "length (big_endian64 time) = 8" by (simp add: big_endian64_def)
  have r: "length ?raw = 25 + length (padded value)" using assms(2) b c by (simp add: token_body_def)
  have ne: "encryptKey cr time iv value \<noteq> []"
    using b64_roundtrip [of "?raw @ hmac cr ?raw"] by (auto simp: encryptKey_def Let_def token_body_def b64_decode_def)
  have split: "take 16 (drop 9 ?raw) = iv" "drop 25 ?raw = ?c"
    using assms(2) b by (simp_all add: token_body_def)
  have first: "hd (?raw @ hmac cr ?raw) = CHR 0x80" by (simp add: token_body_def)
  show ?thesis
    using ne first padded_length [of "value"] c h r split
    by (simp add: decryptKey_def encryptKey_def Let_def b64_roundtrip unpadded_padded)
qed

text \<open>C40. A stored API key reads back: what \<open>encryptKey\<close> writes, at any time and with any initial vector, is
  decrypted to the key, of any length and content; and the token is text in the base 64 alphabet that
  decodes to what was authenticated.\<close>

theorem api_key_roundtrip:
  assumes "crypto_laws cr" and "length iv = 16"
  shows "decryptKey cr (encryptKey cr time iv value) = Inr value \<and>
    b64_decode (encryptKey cr time iv value) = Some (token_body cr time iv value @ hmac cr (token_body cr time iv value))"
  using api_key_inverse [OF assms] by (simp add: encryptKey_def Let_def b64_roundtrip)

text \<open>What is accepted carries the authentication code of its content.\<close>

lemma decrypted_is_signed:
  assumes "decryptKey cr token = Inr value" and "token \<noteq> []"
  shows "\<exists>signed. b64_decode token = Some (signed @ hmac cr signed)"
proof -
  obtain raw where r: "b64_decode token = Some raw" "hmac cr (take (length raw - 32) raw) = drop (length raw - 32) raw"
    using assms by (auto simp: decryptKey_def Let_def split: option.splits if_splits)
  then have "raw = take (length raw - 32) raw @ hmac cr (take (length raw - 32) raw)" by simp
  then show ?thesis using r(1) by metis
qed

definition sample_crypto :: crypto where
  "sample_crypto = \<lparr> cbc_encrypt = (\<lambda>iv plain. rev plain), cbc_decrypt = (\<lambda>iv cipher. rev cipher),
     hmac = (\<lambda>m. replicate 32 (CHR ''m'')) \<rparr>"

theorem api_key_roundtrip_witness:
  "decryptKey sample_crypto (encryptKey sample_crypto 7 (replicate 16 (CHR ''i'')) ''sk-secret'') = Inr ''sk-secret''"
  by (rule api_key_roundtrip [THEN conjunct1]) (simp_all add: crypto_laws_def sample_crypto_def)

end
