(* ===== verification/Settings.thy ===== *)
theory Settings
  imports Secrets Preflight
begin

text \<open>
  The settings of the platform (internal/platform/config.go): the table core_config, the checks on
  values, the connection to the model service with its stored key, its status, and the requests of the
  settings screen. HTTP calls to the model service, \<open>net/url\<close>, \<open>encoding/json\<close> and hashes are
  parameters; the configuration is an object from keys to JSON values.
\<close>

subsection \<open>Canonical JSON\<close>

text \<open>
  The loop of \<open>canonicalJSON\<close> that puts a space after every comma and colon outside of strings. The
  text of the encoder is the argument.
\<close>

fun spaced :: "bool \<Rightarrow> bool \<Rightarrow> string \<Rightarrow> string" where
  "spaced quoted escape [] = []"
| "spaced quoted escape (c # s) =
     (if escape then c # spaced quoted False s
      else if c = CHR 0x5C \<and> quoted then c # spaced quoted True s
      else let quoted = (if c = CHR 0x22 then \<not> quoted else quoted) in
        if \<not> quoted \<and> (c = CHR '','' \<or> c = CHR '':'') then c # CHR '' '' # spaced quoted False s
        else c # spaced quoted False s)"

definition canonicalJSON :: "(json \<Rightarrow> string) \<Rightarrow> json \<Rightarrow> bool \<Rightarrow> string" where
  "canonicalJSON encode v spaces = (if spaces then spaced False False (encode v) else encode v)"

definition fingerprint_of :: "(json \<Rightarrow> string) \<Rightarrow> (string \<Rightarrow> string) \<Rightarrow> json \<Rightarrow> string" where
  "fingerprint_of encode sha256 v = sha256 (canonicalJSON encode v True)"

text \<open>The spaces lose nothing: different texts stay different.\<close>

lemma spaced_injective: "spaced quoted escape s = spaced quoted escape t \<Longrightarrow> s = t"
proof (induction quoted escape s arbitrary: t rule: spaced.induct)
  case (1 quoted escape)
  then show ?case by (cases t) (auto simp: Let_def split: if_splits)
next
  case (2 quoted escape c s)
  obtain d u where t: "t = d # u"
    using "2.prems" by (cases t) (auto simp: Let_def split: if_splits)
  have "c = d" using "2.prems" t by (auto simp: Let_def split: if_splits)
  then show ?case using 2 t by (auto simp: Let_def split: if_splits)
qed

subsection \<open>The table of settings\<close>

definition setting :: "object \<Rightarrow> string \<Rightarrow> json \<Rightarrow> json" where
  "setting cfg key fallback = configValue (map_of cfg) key fallback"

definition setConfig :: "string \<Rightarrow> json \<Rightarrow> object \<Rightarrow> object" where
  "setConfig key v cfg = put key v cfg"

definition drop_settings :: "string list \<Rightarrow> object \<Rightarrow> object" where
  "drop_settings keys cfg = filter (\<lambda>(k, v). k \<notin> set keys) cfg"

definition configItem :: "object \<Rightarrow> string \<Rightarrow> object \<Rightarrow> object" where
  "configItem cfg key meta = put ''value'' (setting cfg key (fld meta ''default'')) (put ''key'' (JStr key) meta)"

definition validateConfig :: "object \<Rightarrow> json \<Rightarrow> go_error + unit" where
  "validateConfig meta v =
     (let kind = str (fld meta ''value_type'') in
      if kind = ''boolean'' then (case v of JBool b \<Rightarrow> Inr () | _ \<Rightarrow> Inl (bad ''not a boolean''))
      else if kind = ''integer'' \<or> kind = ''number'' then
        (case v of
           JNum r \<Rightarrow>
             if kind = ''integer'' \<and> of_int (truncate_rat r) \<noteq> r then Inl (bad ''not an integer'')
             else if (case fld meta ''min'' of JNum m \<Rightarrow> r < m | _ \<Rightarrow> False) then Inl (bad ''below the minimum'')
             else if (case fld meta ''max'' of JNum m \<Rightarrow> m < r | _ \<Rightarrow> False) then Inl (bad ''above the maximum'')
             else Inr ()
         | _ \<Rightarrow> Inl (bad ''wrong type''))
      else Inr ())"

subsection \<open>The connection\<close>

record parsed_url =
  url_host :: string
  url_scheme :: string
  url_credentials :: bool
  url_query :: string
  url_fragment :: string
  url_text :: string

record settings_env =
  se_crypto :: crypto
  se_unix :: nat
  se_iv :: string
  se_clock :: string
  se_fingerprint :: "json \<Rightarrow> string"
  se_sha :: "string \<Rightarrow> string"
  se_url :: "string \<Rightarrow> parsed_url option"
  se_call :: "string \<Rightarrow> string \<Rightarrow> string \<Rightarrow> json \<Rightarrow> (go_error + object) \<times> nat"
  se_parse :: "string \<Rightarrow> object option"
  se_configs :: "(string \<times> object) list"
  se_ai_configs :: "(string \<times> object) list"

definition api_key_name :: string where "api_key_name = ''ai_connection_api_key''"

definition stored_token :: "object \<Rightarrow> string" where
  "stored_token cfg = str (setting cfg api_key_name (JStr []))"

definition connection_fields :: "string list" where
  "connection_fields = [''api_style'', ''model_name'', ''base_url'']"

definition connection_values :: "object \<Rightarrow> object" where
  "connection_values cfg =
     (let c = map (\<lambda>k. (k, setting cfg (''ai_connection_'' @ k) (JStr []))) connection_fields
      in if fld c ''api_style'' = JStr [] then put ''api_style'' (JStr ''chat_json'') c else c)"

definition connection :: "settings_env \<Rightarrow> object \<Rightarrow> go_error + object \<times> string" where
  "connection env cfg = andThen (decryptKey (se_crypto env) (stored_token cfg)) (\<lambda>key. Inr (connection_values cfg, key))"

definition connectionFingerprint :: "settings_env \<Rightarrow> object \<Rightarrow> string \<Rightarrow> string" where
  "connectionFingerprint env c key = se_fingerprint env (JObj
     (brief c connection_fields @ [(''api_key_hash'', JStr (se_sha env key))]))"

definition connectionStatus :: "settings_env \<Rightarrow> object \<Rightarrow> go_error + object" where
  "connectionStatus env cfg =
     andThen (connection env cfg) (\<lambda>(c, key).
       let token = stored_token cfg in
       Inr (put_all [(''api_key_configured'', JBool (token \<noteq> [])),
         (''api_key_source'', JStr (if token = [] then ''not_configured'' else ''system_config'')),
         (''test_passed'', JBool (str (setting cfg ''ai_connection_test_fingerprint'' (JStr [])) = connectionFingerprint env c key)),
         (''tested_at'', setting cfg ''ai_connection_tested_at'' (JStr [])),
         (''structured_output_mode'', setting cfg ''ai_connection_structured_output_mode'' (JStr ''legacy_compat''))] c))"

definition trim_slashes :: "string \<Rightarrow> string" where
  "trim_slashes s = rev (dropWhile (\<lambda>c. c = CHR ''/'') (rev s))"

definition validateURL :: "settings_env \<Rightarrow> string \<Rightarrow> go_error + string" where
  "validateURL env s = (case se_url env (trim_space s) of
       None \<Rightarrow> Inl (bad ''not a base URL'')
     | Some u \<Rightarrow>
         if url_host u = [] \<or> url_scheme u \<notin> {''https'', ''http''} \<or> url_credentials u \<or> url_query u \<noteq> [] \<or> url_fragment u \<noteq> []
         then Inl (bad ''not a base URL'') else Inr (trim_slashes (url_text u)))"

subsection \<open>Changing the connection\<close>

definition requested_connection :: "object \<Rightarrow> object \<Rightarrow> object" where
  "requested_connection cfg body =
     fold (\<lambda>k c. if has_key body k then put k (JStr (trim_space (str (fld body k)))) c else c) connection_fields
       (connection_values cfg)"

definition stale_settings :: "string list" where
  "stale_settings = [''ai_connection_test_fingerprint'', ''ai_connection_tested_at'',
     ''ai_connection_structured_output_mode'', ''ai_enabled'', ''ai_connection_profile'']"

definition store_key :: "settings_env \<Rightarrow> object \<Rightarrow> string \<Rightarrow> string \<Rightarrow> object \<Rightarrow> object" where
  "store_key env body old_base base cfg =
     (let key = trim_space (str (fld body ''api_key'')) in
      if truth (fld body ''clear_api_key'') \<or> key = [] \<and> trim_slashes old_base \<noteq> base
      then drop_settings [api_key_name] cfg
      else if key \<noteq> [] then setConfig api_key_name (JStr (encryptKey (se_crypto env) (se_unix env) (se_iv env) key)) cfg
      else cfg)"

definition saveConnection :: "settings_env \<Rightarrow> object \<Rightarrow> object \<Rightarrow> go_error + object" where
  "saveConnection env body cfg =
     andThen (connection env cfg) (\<lambda>_.
       let c = requested_connection cfg body in
       if \<not> contains [''responses'', ''chat_json''] (str (fld c ''api_style'')) \<or> str (fld c ''model_name'') = []
       then Inl (bad ''API style or model name'')
       else andThen (validateURL env (str (fld c ''base_url''))) (\<lambda>base.
         let c = put ''base_url'' (JStr base) c;
             old_base = str (setting cfg ''ai_connection_base_url'' (JStr []));
             cfg = fold (\<lambda>k. setConfig (''ai_connection_'' @ k) (fld c k)) connection_fields cfg
         in Inr (drop_settings stale_settings (store_key env body old_base base cfg))))"

subsection \<open>Reading models and testing the connection\<close>

text \<open>The key that is sent to the host a request names.\<close>

definition models_key :: "object \<Rightarrow> string \<Rightarrow> object \<Rightarrow> string \<Rightarrow> string" where
  "models_key body base c key =
     (if str (fld body ''api_key'') \<noteq> [] then str (fld body ''api_key'')
      else if trim_slashes (str (fld c ''base_url'')) \<noteq> base then [] else key)"

definition models_request :: "settings_env \<Rightarrow> object \<Rightarrow> object \<Rightarrow> go_error + string \<times> string" where
  "models_request env body cfg =
     andThen (validateURL env (str (fld body ''base_url''))) (\<lambda>base.
     andThen (connection env cfg) (\<lambda>(c, key). Inr (base, models_key body base c key)))"

definition model_names :: "object \<Rightarrow> string list" where
  "model_names payload = sort (remdups (filter (\<lambda>n. n \<noteq> [])
     (map (\<lambda>item. trim_space (str (fld (obj item) ''id''))) (list_of (fld payload ''data'')))))"

definition listModels :: "settings_env \<Rightarrow> object \<Rightarrow> object \<Rightarrow> go_error + json" where
  "listModels env body cfg =
     andThen (models_request env body cfg) (\<lambda>(base, key).
       case fst (se_call env ''GET'' (base @ ''/models'') key JNull) of
         Inl _ \<Rightarrow> Inr (JObj [(''models'', JArr []), (''code'', JStr ''ai_connection_error''), (''detail'', JStr ''models not read'')])
       | Inr payload \<Rightarrow> Inr (JObj [(''models'', JArr (map JStr (model_names payload)))]))"

definition modelText :: "object \<Rightarrow> string" where
  "modelText response =
     (case list_of (fld response ''choices'') of
        choice # _ \<Rightarrow> str (fld (obj (fld (obj choice) ''message'')) ''content'')
      | [] \<Rightarrow> if str (fld response ''output_text'') \<noteq> [] then str (fld response ''output_text'')
          else concat (map (\<lambda>part. str (fld (obj part) ''text'')) (filter (\<lambda>part. fld (obj part) ''type'' = JStr ''output_text'')
            (concat (map (\<lambda>output. list_of (fld (obj output) ''content'')) (list_of (fld response ''output'')))))))"

definition probe_schema :: json where
  "probe_schema = JObj [(''type'', JStr ''object''), (''properties'', JObj [(''ok'', JObj [(''type'', JStr ''boolean'')])]),
     (''required'', JArr [JStr ''ok'']), (''additionalProperties'', JBool False)]"

definition probe_format :: "bool \<Rightarrow> bool \<Rightarrow> string \<times> json" where
  "probe_format responses strict =
     (let named = [(''name'', JStr ''connection_probe''), (''strict'', JBool True), (''schema'', probe_schema)];
          loose = JObj [(''type'', JStr ''json_object'')] in
      if responses
      then (''text'', JObj [(''format'', if strict then JObj ((''type'', JStr ''json_schema'') # named) else loose)])
      else (''response_format'', if strict then JObj [(''type'', JStr ''json_schema''), (''json_schema'', JObj named)] else loose))"

definition probe_body :: "object \<Rightarrow> bool \<Rightarrow> object" where
  "probe_body c strict =
     (let responses = (fld c ''api_style'' = JStr ''responses'');
          messages = JArr [JObj [(''role'', JStr ''user''), (''content'', JStr ''connection test'')]]
      in [(''model'', fld c ''model_name''), (if responses then ''input'' else ''messages'', messages), probe_format responses strict])"

definition probe_answer :: "settings_env \<Rightarrow> object \<Rightarrow> go_error + unit" where
  "probe_answer env response = (case se_parse env (modelText response) of
       None \<Rightarrow> Inl (bad ''no structured output'')
     | Some result \<Rightarrow> ensure (truth (fld result ''ok'') \<and> length result = 1) (bad ''no structured output''))"

text \<open>The modes in turn; the first is given up only when the service refuses the format.\<close>

fun probe_modes :: "settings_env \<Rightarrow> object \<Rightarrow> string \<Rightarrow> string \<Rightarrow> bool list \<Rightarrow> go_error + string" where
  "probe_modes env c base key [] = Inl (OtherError ''structured model unsupported'')"
| "probe_modes env c base key (strict # modes) =
     (let endpoint = (if fld c ''api_style'' = JStr ''responses'' then ''/responses'' else ''/chat/completions'') in
      case se_call env ''POST'' (base @ endpoint) key (JObj (probe_body c strict)) of
        (Inl e, status) \<Rightarrow> if strict \<and> (status = 400 \<or> status = 422) then probe_modes env c base key modes else Inl e
      | (Inr response, status) \<Rightarrow> andThen (probe_answer env response) (\<lambda>_.
          Inr (if strict then ''strict_schema'' else ''json_compat'')))"

definition probeModel :: "settings_env \<Rightarrow> object \<Rightarrow> string \<Rightarrow> go_error + string" where
  "probeModel env c key = (case validateURL env (str (fld c ''base_url'')) of
       Inl _ \<Rightarrow> Inl (bad ''connection is not configured'')
     | Inr base \<Rightarrow> if str (fld c ''model_name'') = [] then Inl (bad ''connection is not configured'')
         else probe_modes env c base key [True, False])"

definition test_settings :: "string list" where
  "test_settings = [''ai_connection_test_fingerprint'', ''ai_connection_tested_at'', ''ai_connection_structured_output_mode'']"

definition testConnection :: "settings_env \<Rightarrow> object \<Rightarrow> go_error + json \<times> object" where
  "testConnection env cfg =
     andThen (connection env cfg) (\<lambda>(c, key).
       case probeModel env c key of
         Inl e \<Rightarrow> Inr (JObj [(''ok'', JBool False), (''code'', JStr ''ai_connection_error''), (''detail'', JStr ''test failed'')],
           drop_settings test_settings cfg)
       | Inr mode \<Rightarrow>
           let cfg = fold (\<lambda>(k, v). setConfig k (JStr v))
                 [(''ai_connection_test_fingerprint'', connectionFingerprint env c key),
                  (''ai_connection_tested_at'', se_clock env), (''ai_connection_structured_output_mode'', mode)] cfg
           in Inr (JObj (put_all [(''ok'', JBool True), (''detail'', JStr ''test passed''), (''tested_at'', JStr (se_clock env)),
                 (''structured_output_mode'', JStr mode)] c), cfg))"

subsection \<open>The requests\<close>

definition change_setting :: "(string \<times> object) list \<Rightarrow> string \<Rightarrow> object \<Rightarrow> object \<Rightarrow> go_error + json \<times> object" where
  "change_setting metas key body cfg = (case map_of metas key of
       None \<Rightarrow> Inl (ApiError 404 ''unknown setting'')
     | Some meta \<Rightarrow> andThen (validateConfig meta (fld body ''value'')) (\<lambda>_.
         let cfg = setConfig key (fld body ''value'') cfg in Inr (JObj (configItem cfg key meta), cfg)))"

definition trim_both :: "string \<Rightarrow> string" where
  "trim_both s = trim_slashes (dropWhile (\<lambda>c. c = CHR ''/'') s)"

definition configSettings :: "settings_env \<Rightarrow> string \<Rightarrow> string \<Rightarrow> object \<Rightarrow> object \<Rightarrow> go_error + json \<times> object" where
  "configSettings env http_method path body cfg =
     (let key = trim_both path in
      if key = [] \<and> http_method = ''GET''
      then Inr (JArr [JObj (configItem cfg ''welink_enabled'' (case map_of (se_configs env) ''welink_enabled'' of
          None \<Rightarrow> [] | Some meta \<Rightarrow> meta))], cfg)
      else case map_of (se_configs env) key of
        None \<Rightarrow> Inl (ApiError 404 ''unknown setting'')
      | Some meta \<Rightarrow>
          if http_method = ''PATCH'' \<or> http_method = ''PUT'' then change_setting (se_configs env) key body cfg
          else if http_method \<noteq> ''GET'' then Inl (ApiError 405 ''method'')
          else Inr (JObj (configItem cfg key meta), cfg))"

definition settings_prefix :: string where "settings_prefix = ''ai-connection/settings/''"

definition modelSettings :: "settings_env \<Rightarrow> string \<Rightarrow> string \<Rightarrow> object \<Rightarrow> object \<Rightarrow> go_error + json \<times> object" where
  "modelSettings env http_method path body cfg =
     (if path = ''ai-connection'' then
        andThen (if http_method = ''PATCH'' then saveConnection env body cfg
            else if http_method \<noteq> ''GET'' then Inl (ApiError 405 ''method'') else Inr cfg) (\<lambda>cfg.
        andThen (connectionStatus env cfg) (\<lambda>status. Inr (JObj status, cfg)))
      else if path = ''ai-connection/settings'' \<and> http_method = ''GET'' then
        Inr (JObj [(''settings'', JArr (map (\<lambda>key. JObj (configItem cfg key (the (map_of (se_ai_configs env) key))))
          (sort (remdups (map fst (se_ai_configs env))))))], cfg)
      else if has_prefix path settings_prefix \<and> http_method = ''PATCH'' then
        change_setting (se_ai_configs env) (trim_prefix path settings_prefix) body cfg
      else if path = ''ai-connection/models'' \<and> http_method = ''POST'' then
        andThen (listModels env body cfg) (\<lambda>v. Inr (v, cfg))
      else if path = ''ai-connection/test'' \<and> http_method = ''POST'' then testConnection env cfg
      else Inl (ApiError 405 ''method''))"

end
