(* ===== verification/SettingsFacts.thy ===== *)
theory SettingsFacts
  imports Settings
begin

text \<open>
  What the settings guarantee: values of the declared type and range, an API key that is never used
  with another host than the one it was saved for, and a connection that counts as tested only while
  it is the one that was tested.
\<close>

lemma map_of_drop: "map_of (drop_settings keys cfg) k = (if k \<in> set keys then None else map_of cfg k)"
  by (induction cfg) (auto simp: drop_settings_def)

lemma map_of_put_setting: "map_of (put k v m) k' = (if k' = k then Some v else map_of m k')"
proof (induction m)
  case (Cons p m)
  then show ?case by (cases p) auto
qed simp

lemma setting_drop: "setting (drop_settings keys cfg) k fallback = (if k \<in> set keys then fallback else setting cfg k fallback)"
  by (simp add: setting_def configValue_def map_of_drop)

lemma setting_put: "k' \<noteq> k \<Longrightarrow> setting (setConfig k v cfg) k' fallback = setting cfg k' fallback"
  by (simp add: setting_def configValue_def setConfig_def map_of_put_setting)

lemma setting_text: "setting (setConfig k (JStr s) cfg) k fallback = JStr s"
  by (simp add: setting_def configValue_def setConfig_def map_of_put_setting)

definition save_fields :: "object \<Rightarrow> object \<Rightarrow> object" where
  "save_fields c cfg = fold (\<lambda>k. setConfig (''ai_connection_'' @ k) (fld c k)) connection_fields cfg"

lemma save_fields_other:
  "k \<notin> {''ai_connection_api_style'', ''ai_connection_model_name'', ''ai_connection_base_url''} \<Longrightarrow>
    map_of (save_fields c cfg) k = map_of cfg k"
  by (simp add: save_fields_def connection_fields_def setConfig_def map_of_put_setting)

lemma save_fields_base:
  "fld c ''base_url'' = JStr base \<Longrightarrow> map_of (save_fields c cfg) ''ai_connection_base_url'' = Some (JStr base)"
  by (simp add: save_fields_def connection_fields_def setConfig_def map_of_put_setting)

lemma saved_connection:
  assumes "saveConnection env body cfg = Inr cfg'"
  shows "\<exists>base. cfg' = drop_settings stale_settings (store_key env body (str (setting cfg ''ai_connection_base_url'' (JStr []))) base
    (save_fields (put ''base_url'' (JStr base) (requested_connection cfg body)) cfg))"
  using assms by (auto simp: saveConnection_def save_fields_def andThen_eq_Inr Let_def split: if_splits)

lemma store_key_base: "setting (store_key env body old_base base cfg) ''ai_connection_base_url'' fallback = setting cfg ''ai_connection_base_url'' fallback"
  by (simp add: store_key_def Let_def setting_drop setting_put api_key_name_def)

text \<open>The saved connection drops the key if the request says so, or brings none for another host.\<close>

definition key_dropped :: "object \<Rightarrow> object \<Rightarrow> object \<Rightarrow> bool" where
  "key_dropped body cfg cfg' \<longleftrightarrow> truth (fld body ''clear_api_key'') \<or>
     trim_space (str (fld body ''api_key'')) = [] \<and>
     str (setting cfg' ''ai_connection_base_url'' (JStr [])) \<noteq>
       trim_slashes (str (setting cfg ''ai_connection_base_url'' (JStr [])))"

text \<open>C39. Saving the connection decides its API key: there is none if the request clears it, or brings no
  key and names another host than the stored one; else a key the request brings is the one that reads
  back; and a key is kept only if the request brings none and the host is the one it was saved for. In
  every case all earlier test results are gone, the fingerprint, the time of the test, the output
  mode, the enabling of the AI and the connection profile, so that the status shows an untested connection.\<close>

theorem key_stays_with_host:
  assumes "saveConnection env body cfg = Inr cfg'" and "crypto_laws (se_crypto env)" and "length (se_iv env) = 16"
    and "\<And>v. se_fingerprint env v \<noteq> []" and "connectionStatus env cfg' = Inr status"
  shows "(if key_dropped body cfg cfg' then stored_token cfg' = []
      else if trim_space (str (fld body ''api_key'')) \<noteq> []
      then stored_token cfg' \<noteq> [] \<and>
        decryptKey (se_crypto env) (stored_token cfg') = Inr (trim_space (str (fld body ''api_key'')))
      else stored_token cfg' = stored_token cfg) \<and>
    fld status ''api_key_configured'' = JBool (stored_token cfg' \<noteq> []) \<and>
    fld status ''test_passed'' = JBool False \<and> fld status ''tested_at'' = JStr [] \<and>
    fld status ''structured_output_mode'' = JStr ''legacy_compat'' \<and>
    (\<forall>k \<in> set stale_settings. map_of cfg' k = None)"
proof -
  let ?old = "str (setting cfg ''ai_connection_base_url'' (JStr []))"
  let ?key = "trim_space (str (fld body ''api_key''))"
  obtain c base where c: "cfg' = drop_settings stale_settings (store_key env body ?old base (save_fields c cfg))"
    "fld c ''base_url'' = JStr base"
    using saved_connection [OF assms(1)] fld_put by metis
  have fresh: "api_key_name \<notin> set stale_settings" "''ai_connection_base_url'' \<notin> set stale_settings"
    by (simp_all add: api_key_name_def stale_settings_def)
  have token: "stored_token cfg' = str (setting (store_key env body ?old base (save_fields c cfg)) api_key_name (JStr []))"
    using fresh by (simp add: stored_token_def c(1) setting_drop)
  have old_token: "setting (save_fields c cfg) api_key_name (JStr []) = setting cfg api_key_name (JStr [])"
    using save_fields_other [of api_key_name c cfg] by (simp add: setting_def configValue_def api_key_name_def)
  have base: "str (setting cfg' ''ai_connection_base_url'' (JStr [])) = base"
    using fresh save_fields_base [OF c(2)] by (simp add: c(1) setting_drop store_key_base) (simp add: setting_def configValue_def)
  have "if key_dropped body cfg cfg' then stored_token cfg' = []
      else if ?key \<noteq> [] then stored_token cfg' \<noteq> [] \<and> decryptKey (se_crypto env) (stored_token cfg') = Inr ?key
      else stored_token cfg' = stored_token cfg"
  proof (cases "key_dropped body cfg cfg'")
    case True
    then show ?thesis unfolding token by (auto simp: key_dropped_def base store_key_def Let_def setting_drop)
  next
    case False
    show ?thesis
    proof (cases "?key = []")
      case True
      then show ?thesis
        using False old_token unfolding token by (auto simp: key_dropped_def base store_key_def stored_token_def)
    next
      case key: False
      then have "stored_token cfg' = encryptKey (se_crypto env) (se_unix env) (se_iv env) ?key"
        using False unfolding token by (simp add: key_dropped_def store_key_def Let_def setting_text)
      then have d: "decryptKey (se_crypto env) (stored_token cfg') = Inr ?key"
        using api_key_inverse [OF assms(2,3)] by simp
      then have "stored_token cfg' \<noteq> []" using key by (auto simp: decryptKey_def)
      then show ?thesis using False key d by simp
    qed
  qed
  moreover have gone: "\<forall>k \<in> set stale_settings. map_of cfg' k = None" by (simp add: c(1) map_of_drop)
  moreover have "fld status ''api_key_configured'' = JBool (stored_token cfg' \<noteq> []) \<and>
      fld status ''test_passed'' = JBool False \<and> fld status ''tested_at'' = JStr [] \<and>
      fld status ''structured_output_mode'' = JStr ''legacy_compat''"
  proof -
    have "setting cfg' ''ai_connection_test_fingerprint'' (JStr []) = JStr []"
      "setting cfg' ''ai_connection_tested_at'' (JStr []) = JStr []"
      "setting cfg' ''ai_connection_structured_output_mode'' (JStr ''legacy_compat'') = JStr ''legacy_compat''"
      by (simp_all add: c(1) setting_drop stale_settings_def)
    then obtain v where "status = put_all [(''api_key_configured'', JBool (stored_token cfg' \<noteq> [])),
        (''api_key_source'', JStr (if stored_token cfg' = [] then ''not_configured'' else ''system_config'')),
        (''test_passed'', JBool ([] = se_fingerprint env v)),
        (''tested_at'', JStr []), (''structured_output_mode'', JStr ''legacy_compat'')]
        (connection_values cfg')"
      using assms(5) by (auto simp: connectionStatus_def connection_def andThen_eq_Inr Let_def connectionFingerprint_def)
    then show ?thesis using assms(4) [of v] by (simp add: put_all_def)
  qed
  ultimately show ?thesis by blast
qed

text \<open>The model list is read from the requested host with the key of the request, with the stored key only
  if that is the stored host, and otherwise without a key.\<close>

lemma models_key_source:
  assumes "models_request env body cfg = Inr (base, key)"
  shows "key = [] \<or> key = str (fld body ''api_key'') \<or>
    trim_slashes (str (fld (connection_values cfg) ''base_url'')) = base"
  using assms by (auto simp: models_request_def models_key_def connection_def andThen_eq_Inr)

text \<open>An accepted value of a setting has the declared type and lies in the declared range.\<close>

lemma accepted_setting:
  assumes "validateConfig meta v = Inr ()" and "str (fld meta ''value_type'') = ''integer''"
  shows "\<exists>n :: int. v = JNum (of_int n) \<and> (\<forall>m. fld meta ''min'' = JNum m \<longrightarrow> m \<le> of_int n) \<and>
    (\<forall>m. fld meta ''max'' = JNum m \<longrightarrow> of_int n \<le> m)"
proof -
  obtain r where r: "v = JNum r" "of_int (truncate_rat r) = r"
    "\<not> (case fld meta ''min'' of JNum m \<Rightarrow> r < m | _ \<Rightarrow> False)" "\<not> (case fld meta ''max'' of JNum m \<Rightarrow> m < r | _ \<Rightarrow> False)"
    using assms by (cases v) (simp_all add: validateConfig_def Let_def split: if_splits)
  show ?thesis
    by (rule exI [of _ "truncate_rat r"]) (use r in \<open>auto split: json.splits\<close>)
qed

text \<open>The connection counts as tested right after a successful test.\<close>

lemma successful_test_counts:
  assumes "testConnection env cfg = Inr (JObj answer, cfg')" and "fld answer ''ok'' = JBool True"
    and "connectionStatus env cfg' = Inr status"
  shows "fld status ''test_passed'' = JBool True"
proof -
  obtain c key where c: "connection env cfg = Inr (c, key)" using assms(1) by (auto simp: testConnection_def andThen_eq_Inr)
  obtain mode where m: "cfg' = setConfig ''ai_connection_structured_output_mode'' (JStr mode)
      (setConfig ''ai_connection_tested_at'' (JStr (se_clock env))
      (setConfig ''ai_connection_test_fingerprint'' (JStr (connectionFingerprint env c key)) cfg))"
    using assms(1,2) c by (auto simp: testConnection_def Let_def split: sum.splits)
  have "setting cfg' k (JStr []) = setting cfg k (JStr [])"
    if "k \<in> {api_key_name, ''ai_connection_api_style'', ''ai_connection_model_name'', ''ai_connection_base_url''}" for k
    using that by (auto simp: m setting_put api_key_name_def)
  then have "connection env cfg' = connection env cfg"
    by (simp add: connection_def stored_token_def connection_values_def connection_fields_def)
  moreover have "setting cfg' ''ai_connection_test_fingerprint'' (JStr []) = JStr (connectionFingerprint env c key)"
    by (simp add: m setting_put setting_text)
  ultimately show ?thesis
    using assms(3) c by (auto simp: connectionStatus_def andThen_eq_Inr Let_def put_all_def)
qed

subsection \<open>Witnesses\<close>

definition settings_demo :: settings_env where
  "settings_demo = \<lparr> se_crypto = sample_crypto, se_unix = 7, se_iv = replicate 16 (CHR ''i''), se_clock = ''t'',
     se_fingerprint = (\<lambda>v. ''f''), se_sha = (\<lambda>s. s),
     se_url = (\<lambda>s. Some \<lparr> url_host = ''h'', url_scheme = ''https'', url_credentials = False, url_query = [],
       url_fragment = [], url_text = s \<rparr>),
     se_call = (\<lambda>m a k p. (Inl (bad ''offline''), 0)), se_parse = (\<lambda>s. None), se_configs = [], se_ai_configs = [] \<rparr>"

definition settings_table :: object where
  "settings_table = [(''ai_connection_model_name'', JStr ''m''), (''ai_connection_base_url'', JStr ''https://a''),
     (api_key_name, JStr (encryptKey sample_crypto 7 (replicate 16 (CHR ''i'')) ''k'')), (''ai_enabled'', JBool True)]"

definition moved_table :: "object \<Rightarrow> go_error + object" where
  "moved_table given = saveConnection settings_demo ((''base_url'', JStr ''https://b/'') # given) settings_table"

lemma settings_laws: "crypto_laws (se_crypto settings_demo)" "length (se_iv settings_demo) = 16" "se_fingerprint settings_demo v \<noteq> []"
  by (simp_all add: settings_demo_def crypto_laws_def sample_crypto_def)

lemma moved_run: "case moved_table [] of Inl e \<Rightarrow> False
   | Inr cfg \<Rightarrow> key_dropped [(''base_url'', JStr ''https://b/'')] settings_table cfg \<and>
       (case connectionStatus settings_demo cfg of Inl e \<Rightarrow> False | Inr status \<Rightarrow> True)"
  by code_simp

lemma new_key_run: "case moved_table [(''api_key'', JStr '' n '')] of Inl e \<Rightarrow> False
   | Inr cfg \<Rightarrow> \<not> key_dropped [(''base_url'', JStr ''https://b/''), (''api_key'', JStr '' n '')] settings_table cfg \<and>
       (case connectionStatus settings_demo cfg of Inl e \<Rightarrow> False | Inr status \<Rightarrow> True)"
  by code_simp

text \<open>Another host without a key loses the key, and with a new key has that one.\<close>

theorem key_stays_with_host_witness:
  "(\<exists>cfg. moved_table [] = Inr cfg \<and> stored_token settings_table \<noteq> [] \<and> stored_token cfg = [] \<and> map_of cfg ''ai_enabled'' = None) \<and>
   (\<exists>cfg status. moved_table [(''api_key'', JStr '' n '')] = Inr cfg \<and> decryptKey sample_crypto (stored_token cfg) = Inr ''n'' \<and>
     connectionStatus settings_demo cfg = Inr status \<and> fld status ''test_passed'' = JBool False)"
proof -
  obtain cfg status where c: "moved_table [] = Inr cfg" "connectionStatus settings_demo cfg = Inr status"
    "key_dropped [(''base_url'', JStr ''https://b/'')] settings_table cfg"
    using moved_run by (auto split: sum.splits)
  obtain cfg' status' where d: "moved_table [(''api_key'', JStr '' n '')] = Inr cfg'"
    "connectionStatus settings_demo cfg' = Inr status'"
    "\<not> key_dropped [(''base_url'', JStr ''https://b/''), (''api_key'', JStr '' n '')] settings_table cfg'"
    using new_key_run by (auto split: sum.splits)
  have k: "trim_space (str (fld [(''base_url'', JStr ''https://b/''), (''api_key'', JStr '' n '')] ''api_key'')) = ''n''"
    "stored_token settings_table \<noteq> []" "se_crypto settings_demo = sample_crypto" "''ai_enabled'' \<in> set stale_settings"
    by (code_simp, code_simp, simp add: settings_demo_def, code_simp)
  show ?thesis
    using key_stays_with_host [OF c(1) [unfolded moved_table_def] settings_laws c(2)]
      key_stays_with_host [OF d(1) [unfolded moved_table_def] settings_laws d(2), unfolded k] c d k
    by auto
qed

end
