(* ===== verification/Spec2Isabelle.thy ===== *)
theory Spec2Isabelle
  imports CommitProperties References PoolPolicy RunFacts RequestFacts PreflightFacts ScheduleFacts Pages PoolMembers
    JobPolicyFacts PoolConfigFacts AnalysisFacts ResourceFacts SettingsFacts
begin

text \<open>
  Resume platform: a verification development for the Go backend under src/internal.

  The program. A candidate hands in several applications (volunteers, in the code's words). The
  platform assesses them one by one with the help of an external Agent Kernel, puts the successful
  ones into pools, allocates pool members to departments, and lets the departments handle the
  assignment. Its core, modelled here, is in src/internal/platform and src/internal/contract; all
  state is in PostgreSQL, and every operation is a transaction on it.

  How code corresponds to definitions. A table is a list of records, the database a record of
  tables (Tables). A transaction is a function from the database to an error or a result with the
  new database; the row locks the code takes are the atomicity of one such function, and what
  interleaves are these functions. JSON values are the datatype json, with the accessors of app.go
  (str, num, truth, obj, list). An error is a value of go_error: an API error with its status, a
  task error with its code, a panic, or the two context errors. Texts shown to users are short
  English gists. Times are instants in nanoseconds; the clock, random tokens, hashes and everything
  computed outside src/ (the Kernel's answers, the Poppler tools, JSON schema checks, SQL text search)
  are arguments of the definitions that use them. A statement that the database itself fails, a lost
  connection for example, rolls its transaction back and is left out, except in the generic tables,
  where constraints that the specification does not know of can refuse a statement (se_fault in Store).

  The theories, in the order of their imports:
  Prelude: the error monad andThen, loops over lists that may fail, updates of rows of a table.
  GoText, GoValues, GoTime: UTF-8 and normalisation of text, JSON values, instants.
  AllocationPlan (allocation_policy.go, contract/allocation_types.go): expectedAllocation, the
  deterministic plan, its validation and the canonical form that is hashed. AllocationReplay states
  what the plan means.
  PoolPolicy (pools_policy.go): validation of a policy and the standard of an application.
  JobPolicy, JobPolicyFacts, PoolConfig, PoolConfigFacts (job_configuration.go, poolConfigAPI): the part
  of a policy that the job records own, the update of a policy under its version and what it does to
  pool members, reprocessing and the preview of a run.
  TextExtraction, TextFacts (pdftext/extractor.go): the pages of a PDF from the output of the Poppler
  tools and the check of an extracted text. AnalysisCheck, AnalysisFacts (kernel.go,
  analysis_cache.go): the request to the Kernel, the check of its answer and the reuse of earlier ones.
  Tables: the rows. Access (auth.go, contact_grants.go, departments.go, screeners.go): principals,
  grants and visible attempts.
  Applications, Workflows, Attempts (applications.go, workflows.go): the ledger of applications and
  the assignment attempts, with every operation of the attempt API.
  AllocationQueue, Screening, AllocationCommit, AllocationLease, AllocationSafety, QueueInvariant,
  QueueProperties, CommitProperties, References (allocation_tasks.go, allocation_snapshot.go,
  allocation_execute.go, allocation_api.go): the queue of allocation tasks with its leases and
  fences, the frozen snapshot and the two transactions of a commit.
  Preflight, PreflightFacts (policy.go, preparation.go, job_configuration.go jobContent): the current
  volunteer, admission and the frozen case of a candidate.
  Runs, RunStages, Processing, Assessment, Pipeline (runs.go, processing.go, pools.go): creating a
  run, its job queue and stages, the preparation of an item, the assessment and its outcome, and
  executeRun. RunSafety, RunProperties: the steps of the pipeline as a relation and what they keep in
  any interleaving. RunProtocol: the order in which executeRun takes its steps, as a second relation,
  and the total-correctness rules by which its parts are put together. RunDemo, RunFacts, RequestFacts: a
  small platform, and the properties of runs and of the requests for them.
  Filters, Pages (filters.go, pagination.go), Schedules, ScheduleFacts (schedules.go), PoolMembers
  (pools.go, candidate_inputs.go): list requests, recurring runs and pool members.
  Store, StoreFacts (app.go, deleteRow of crud.go): the generic tables after the specification of
  spec.json, saving a row and the cascading delete. Grants (syncContactUser): the account behind the
  contacts of an employee. Resources, ResourceFacts (crud.go): create, update and delete of a resource
  with its field checks, rules and relations; they act on the generic rows, and on the typed tables
  through the functions that take both (syncJobPolicy, invalidateCandidateInputs).
  Secrets, Settings, SettingsFacts (config.go): the stored API key of the model service with its token
  format, the table of settings, and saving, reading and testing the model connection.

  Interfaces. A relation between states that every operation of a component keeps is a locale:
  core_relation (operations on workflows and applications), its extensions for the attempt API, the
  queue, the handling of one item (item_relation) and the whole pipeline (pipeline_relation). The
  lemmas inside show that a relation that is kept by the few writers of the tables is kept by every
  operation and every trace of them; the interpretations give the invariants of attempts, of the
  ledger, of the work queue, the fences, the finality of a cancellation, and that the handling of an
  item leaves the rows of runs and stages alone.

  What the properties show. The plan: it covers all members, gives each the best demand, is
  independent of the order of rows, and a commit places it with consecutive sequence numbers. The
  queue: one worker per scope, leases that stay lost, idempotent creation, bounded attempts. The
  platform: no operation, in any interleaving, loses an attempt, reopens a closed application or
  breaks the history of the ledger. Runs: executeRun goes through the stages of a run in their order, with
  every earlier stage ended before the next, and answers success only for a run whose stages have all
  ended and whose counts and final status are those of its items; a requested cancellation is final, a stopped run leaves nothing open. Requests: accepted ones are typed,
  created runs are complete, pages partition their list. Schedules: the next time is after now and
  on the grid, and each trigger leaves fewer schedules due. Texts and assessments: an extracted text is
  the tool's output and passes the check; an accepted assessment quotes the text and ranks what was
  asked. Configuration: an accepted policy is valid, keeps all codes and sends exactly the members it
  affects back to assessment; deriving the job-owned part again changes nothing from the second time on.
  Generic rows: a delete ends, fails only for a protecting reference or a statement that the database
  refuses, and leaves no dangling reference, an update leaves read-only columns alone, departments stay a
  tree of two levels. Settings: a stored API key reads back, and is dropped when the connection moves to
  another host without a new one.

  Fuel. The rounds of prepareItems and analyzeItems and executeRun take the number of rounds as an
  argument and return None when it does not suffice, since each round asks the outside world: a run may
  wait for a candidate that another run holds for as long as the worker lives. The context of the worker
  is part of the world; when it ends at some operation (ends_by), executeRun is shown to return for every number
  of rounds above it. delete_row takes a depth, and
  deleteRow gives it the number of rows plus three, which delete_always_ends shows to be enough. All
  other recursion terminates by its own measure.

  Not modelled. HTTP routing, sessions and OAuth (http.go, oauth.go, New in app.go), the start of the
  process (main.go), the HTTP transport to the model service (modelHTTP of config.go), SQL schema and seed data (migrate.go,
  seed_data.go), the HTTP transport to the Kernel (allocation_client.go and the calls of kernel.go),
  reading and writing of archives and spreadsheets (imports.go, exports.go, zip and excelize), the
  presentation of rows (serialize.go) and the read-only aggregates of analytics.go, task_queries.go
  and candidate_queries.go.
\<close>

end
